(* ===== verification/Prelude.thy ===== *)
theory Prelude
  imports Complex_Main
begin

text \<open>
  The prelude of the development: the exceptions of the modelled Python code, the result
  type of fallible operations, the SQL row operations the repository's statements use, and
  the two locales every stateful component shares (invariants over runs, and updates of
  rows that keep their primary key).
\<close>

section \<open>Collections of facts\<close>

named_theorems table_simps \<open>rewrite rules for row lists under UPDATE, DELETE and SELECT\<close>

section \<open>Exceptions and results\<close>

text \<open>
  The exceptions that the code raises or catches by name. \<open>Cancelled\<close> stands for the
  \<open>BaseException\<close>s (task cancellation) that \<open>except Exception\<close> does not catch;
  \<open>HttpException\<close> is the framework's error response with its status code;
  \<open>OtherError\<close> is any other exception with its text.
\<close>

datatype py_exn =
    CircuitOpenError string
  | KeyError string
  | ValueError string
  | TypeError string
  | ZeroDivisionError
  | HttpError string
  | HttpException int string
  | OpsecViolationError string
  | SsrfBlockedError string
  | CryptoNotConfigured
  | CryptoError
  | ExpiredSignatureError
  | InvalidTokenError
  | OtherError string
  | Cancelled

type_synonym 'a result = "py_exn + 'a"

text \<open>What a clause \<open>except Exception\<close> catches.\<close>

definition is_exception :: "py_exn \<Rightarrow> bool" where
  "is_exception e \<longleftrightarrow> e \<noteq> Cancelled"

text \<open>An awaited operation: it runs on a state and returns a value or raises.\<close>

type_synonym ('s, 'a) action = "'s \<Rightarrow> 's \<times> 'a result"

text \<open>\<open>x and p(x)\<close> of an optional value, as a truth value.\<close>

definition opt_ex :: "('a \<Rightarrow> bool) \<Rightarrow> 'a option \<Rightarrow> bool" where
  "opt_ex p x = (case x of None \<Rightarrow> False | Some v \<Rightarrow> p v)"

lemma opt_ex_simps [simp]: "opt_ex p None = False" "opt_ex p (Some v) = p v"
  by (simp_all add: opt_ex_def)

lemma opt_ex_iff: "opt_ex p x \<longleftrightarrow> (\<exists>v. x = Some v \<and> p v)"
  by (cases x) simp_all

section \<open>Row operations of SQL\<close>

text \<open>
  A table is the list of its rows. \<open>UPDATE t SET f WHERE p\<close> rewrites the rows that
  satisfy \<open>p\<close>, \<open>DELETE\<close> drops them, \<open>COUNT(*) FILTER (WHERE p)\<close> counts them.
\<close>

definition sql_update :: "('r \<Rightarrow> bool) \<Rightarrow> ('r \<Rightarrow> 'r) \<Rightarrow> 'r list \<Rightarrow> 'r list" where
  "sql_update p f rows = map (\<lambda>r. if p r then f r else r) rows"

definition sql_delete :: "('r \<Rightarrow> bool) \<Rightarrow> 'r list \<Rightarrow> 'r list" where
  "sql_delete p rows = filter (\<lambda>r. \<not> p r) rows"

definition sql_count :: "('r \<Rightarrow> bool) \<Rightarrow> 'r list \<Rightarrow> int" where
  "sql_count p rows = int (length (filter p rows))"

text \<open>\<open>fetchrow\<close>: the first row of the answer, if any.\<close>

definition fetchrow :: "('r \<Rightarrow> bool) \<Rightarrow> 'r list \<Rightarrow> 'r option" where
  "fetchrow p rows = List.find p rows"

text \<open>\<open>COALESCE($n, column)\<close>.\<close>

definition coalesce :: "'a option \<Rightarrow> 'a option \<Rightarrow> 'a option" where
  "coalesce x y = (case x of None \<Rightarrow> y | Some v \<Rightarrow> Some v)"

lemma sql_update_length [simp, table_simps]: "length (sql_update p f rows) = length rows"
  by (simp add: sql_update_def)

lemma sql_update_Nil [simp, table_simps]: "sql_update p f [] = []"
  by (simp add: sql_update_def)

lemma sql_update_Cons [simp, table_simps]:
  "sql_update p f (r # rows) = (if p r then f r else r) # sql_update p f rows"
  by (simp add: sql_update_def)

lemma sql_update_none: "\<forall>r \<in> set rows. \<not> p r \<Longrightarrow> sql_update p f rows = rows"
  by (induction rows) auto

lemma in_sql_update:
  "x \<in> set (sql_update p f rows) \<longleftrightarrow> (\<exists>r \<in> set rows. x = (if p r then f r else r))"
  by (auto simp: sql_update_def)

lemma in_sql_updateE:
  assumes "x \<in> set (sql_update p f rows)"
  obtains r where "r \<in> set rows" and "x = (if p r then f r else r)"
  using assms unfolding in_sql_update by blast

lemma in_sql_delete [table_simps]: "x \<in> set (sql_delete p rows) \<longleftrightarrow> x \<in> set rows \<and> \<not> p x"
  by (simp add: sql_delete_def)

lemma sql_delete_idem: "sql_delete p (sql_delete p rows) = sql_delete p rows"
  by (simp add: sql_delete_def)

lemma sql_update_map [table_simps]:
  "(\<And>r. g (f r) = g r) \<Longrightarrow> map g (sql_update p f rows) = map g rows"
  by (induction rows) auto

lemma sql_count_nonneg [simp]: "0 \<le> sql_count p rows"
  by (simp add: sql_count_def)

lemma sql_count_Nil [simp]: "sql_count p [] = 0"
  by (simp add: sql_count_def)

lemma sql_count_Cons [simp]: "sql_count p (r # rows) = (if p r then 1 else 0) + sql_count p rows"
  by (simp add: sql_count_def)

lemma sql_count_mono: "(\<And>r. p r \<Longrightarrow> q r) \<Longrightarrow> sql_count p rows \<le> sql_count q rows"
  by (induction rows) auto

lemma fetchrow_Some: "fetchrow p rows = Some r \<Longrightarrow> r \<in> set rows \<and> p r"
  by (auto simp: fetchrow_def find_Some_iff in_set_conv_nth)

lemma fetchrow_None: "fetchrow p rows = None \<longleftrightarrow> (\<forall>r \<in> set rows. \<not> p r)"
  by (auto simp: fetchrow_def find_None_iff)

section \<open>Locale: updates that keep the primary key\<close>

locale row_update =
  fixes key :: "'r \<Rightarrow> 'k"
    and upd :: "'r \<Rightarrow> 'r"
  assumes key_upd: "key (upd r) = key r"
begin

lemma keys_kept: "map key (sql_update p upd rows) = map key rows"
  by (rule sql_update_map) (rule key_upd)

lemma distinct_kept: "distinct (map key (sql_update p upd rows)) = distinct (map key rows)"
  by (simp add: keys_kept)

lemma other_rows_kept:
  assumes "r \<in> set rows" and "key r \<noteq> k"
  shows "r \<in> set (sql_update (\<lambda>x. key x = k) upd rows)"
  using assms by (force simp: in_sql_update)

lemma updated_row:
  assumes "r \<in> set rows" and "p r"
  shows "upd r \<in> set (sql_update p upd rows)"
  using assms by (force simp: in_sql_update)

lemma by_key:
  assumes "distinct (map key rows)" and "r \<in> set rows"
  shows "fetchrow (\<lambda>x. key x = key r) (sql_update (\<lambda>x. key x = key r) upd rows) = Some (upd r)"
  using assms
proof (induction rows)
  case Nil
  then show ?case by simp
next
  case (Cons x rows)
  then show ?case
    by (auto simp: fetchrow_def key_upd)
qed

end

section \<open>Locale: a machine that keeps an invariant\<close>

locale step_system =
  fixes step :: "'s \<Rightarrow> 'e \<Rightarrow> 's"
    and inv :: "'s \<Rightarrow> bool"
  assumes step_inv: "inv s \<Longrightarrow> inv (step s e)"
begin

lemma run_inv: "inv s \<Longrightarrow> inv (foldl step s es)"
  by (induction es arbitrary: s) (simp_all add: step_inv)

end

text \<open>A machine some quantity of which never decreases.\<close>

locale monotone_system = step_system +
  fixes level :: "'s \<Rightarrow> 'o::order"
  assumes step_level: "inv s \<Longrightarrow> level s \<le> level (step s e)"
begin

lemma run_level: "inv s \<Longrightarrow> level s \<le> level (foldl step s es)"
proof (induction es arbitrary: s)
  case Nil
  then show ?case by simp
next
  case (Cons e es)
  have "level s \<le> level (step s e)" using Cons.prems by (rule step_level)
  also have "\<dots> \<le> level (foldl step (step s e) es)"
    using Cons.IH step_inv [OF Cons.prems] by blast
  finally show ?case by simp
qed

end

section \<open>Lists\<close>

lemma foldl_invariant:
  assumes "P s" and "\<And>s x. x \<in> set xs \<Longrightarrow> P s \<Longrightarrow> P (f s x)"
  shows "P (foldl f s xs)"
  using assms by (induction xs arbitrary: s) auto

lemma find_filter: "List.find p xs = (case filter p xs of [] \<Rightarrow> None | x # _ \<Rightarrow> Some x)"
  by (induction xs) auto

end
