(* ===== verification/Py_Text.thy ===== *)
theory Py_Text
  imports Prelude "HOL-Library.Char_ord" "HOL-Library.List_Lexorder"
begin

text \<open>
  The part of Python's \<open>str\<close> and numeric library that the modelled code uses, over ASCII
  text: a string is a list of characters with codes below 128 (one character per code point),
  compared code point by code point. Also the truth value of optional strings, which decides
  every \<open>x or y\<close> of the code, and \<open>round\<close> of Python (ties to the even neighbour).
  Floating point numbers are modelled by exact rationals.
\<close>

section \<open>Character classes\<close>

definition is_digit :: "char \<Rightarrow> bool" where
  "is_digit c \<longleftrightarrow> CHR ''0'' \<le> c \<and> c \<le> CHR ''9''"

definition is_lower :: "char \<Rightarrow> bool" where
  "is_lower c \<longleftrightarrow> CHR ''a'' \<le> c \<and> c \<le> CHR ''z''"

definition is_upper :: "char \<Rightarrow> bool" where
  "is_upper c \<longleftrightarrow> CHR ''A'' \<le> c \<and> c \<le> CHR ''Z''"

definition is_space :: "char \<Rightarrow> bool" where
  "is_space c \<longleftrightarrow> c = CHR '' '' \<or> (CHR 0x09 \<le> c \<and> c \<le> CHR 0x0D) \<or> (CHR 0x1C \<le> c \<and> c \<le> CHR 0x1F)"

definition lower_char :: "char \<Rightarrow> char" where
  "lower_char c = (if is_upper c then char_of (of_char c + (32::nat)) else c)"

definition upper_char :: "char \<Rightarrow> char" where
  "upper_char c = (if is_lower c then char_of (of_char c - (32::nat)) else c)"

section \<open>String methods\<close>

definition py_lower :: "string \<Rightarrow> string" where
  "py_lower s = map lower_char s"

definition py_upper :: "string \<Rightarrow> string" where
  "py_upper s = map upper_char s"

definition py_lstrip :: "string \<Rightarrow> string" where
  "py_lstrip s = dropWhile is_space s"

definition py_strip :: "string \<Rightarrow> string" where
  "py_strip s = rev (dropWhile is_space (rev (dropWhile is_space s)))"

definition py_startswith :: "string \<Rightarrow> string \<Rightarrow> bool" where
  "py_startswith s p \<longleftrightarrow> take (length p) s = p"

definition py_endswith :: "string \<Rightarrow> string \<Rightarrow> bool" where
  "py_endswith s p \<longleftrightarrow> length p \<le> length s \<and> drop (length s - length p) s = p"

text \<open>\<open>sub in s\<close>.\<close>

fun py_in :: "string \<Rightarrow> string \<Rightarrow> bool" where
  "py_in sub [] \<longleftrightarrow> sub = []"
| "py_in sub (c # cs) \<longleftrightarrow> py_startswith (c # cs) sub \<or> py_in sub cs"

text \<open>\<open>s.split(sep)\<close> with a one-character separator: never empty.\<close>

fun py_split :: "char \<Rightarrow> string \<Rightarrow> string list" where
  "py_split d [] = [[]]"
| "py_split d (c # cs) =
     (if c = d then [] # py_split d cs
      else (case py_split d cs of [] \<Rightarrow> [[c]] | p # ps \<Rightarrow> (c # p) # ps))"

text \<open>\<open>s.split()\<close>: the maximal runs of non-space characters.\<close>

fun py_words_from :: "string \<Rightarrow> string \<Rightarrow> string list" where
  "py_words_from cur [] = (if cur = [] then [] else [rev cur])"
| "py_words_from cur (c # cs) =
     (if is_space c then (if cur = [] then py_words_from [] cs
                          else rev cur # py_words_from [] cs)
      else py_words_from (c # cur) cs)"

definition py_words :: "string \<Rightarrow> string list" where
  "py_words s = py_words_from [] s"

text \<open>\<open>sep.join(parts)\<close>.\<close>

fun py_join :: "string \<Rightarrow> string list \<Rightarrow> string" where
  "py_join sep [] = []"
| "py_join sep [p] = p"
| "py_join sep (p # q # ps) = p @ sep @ py_join sep (q # ps)"

definition py_replace_char :: "char \<Rightarrow> string \<Rightarrow> string \<Rightarrow> string" where
  "py_replace_char c r s = concat (map (\<lambda>x. if x = c then r else [x]) s)"

text \<open>\<open>s.isdigit()\<close>.\<close>

definition py_isdigit :: "string \<Rightarrow> bool" where
  "py_isdigit s \<longleftrightarrow> s \<noteq> [] \<and> list_all is_digit s"

definition digit_val :: "char \<Rightarrow> int" where
  "digit_val c = of_char c - 48"

definition digits_val :: "string \<Rightarrow> int" where
  "digits_val ds = foldl (\<lambda>n d. 10 * n + digit_val d) 0 ds"

text \<open>
  \<open>int(s)\<close>: surrounding blanks, one sign, digits with single underscores between them;
  \<open>None\<close> is the \<open>ValueError\<close>.
\<close>

fun int_digits :: "string \<Rightarrow> string option" where
  "int_digits [] = None"
| "int_digits [c] = (if is_digit c then Some [c] else None)"
| "int_digits (c # d # cs) =
     (if \<not> is_digit c then None
      else if d = CHR ''_'' then map_option ((#) c) (int_digits cs)
      else map_option ((#) c) (int_digits (d # cs)))"

definition py_int :: "string \<Rightarrow> int option" where
  "py_int s =
     (case py_strip s of
        [] \<Rightarrow> None
      | c # cs \<Rightarrow>
          if c = CHR ''-'' then map_option (\<lambda>ds. - digits_val ds) (int_digits cs)
          else if c = CHR ''+'' then map_option digits_val (int_digits cs)
          else map_option digits_val (int_digits (c # cs)))"

text \<open>\<open>str(n)\<close> of a natural number and of an integer.\<close>

fun str_nat :: "nat \<Rightarrow> string" where
  "str_nat n = (if n < 10 then [char_of (48 + n)]
                else str_nat (n div 10) @ [char_of (48 + n mod 10)])"

declare str_nat.simps [simp del]

definition py_str_int :: "int \<Rightarrow> string" where
  "py_str_int n = (if n < 0 then CHR ''-'' # str_nat (nat (- n)) else str_nat (nat n))"

section \<open>Truth values\<close>

text \<open>
  An optional string is falsy when it is \<open>None\<close> or empty. \<open>x or y\<close> is \<open>x\<close> when
  \<open>x\<close> is truthy, else \<open>y\<close>.
\<close>

definition truthy :: "string option \<Rightarrow> bool" where
  "truthy x \<longleftrightarrow> (case x of None \<Rightarrow> False | Some s \<Rightarrow> s \<noteq> [])"

definition py_or :: "string option \<Rightarrow> string option \<Rightarrow> string option" where
  "py_or x y = (if truthy x then x else y)"

definition str_or_empty :: "string option \<Rightarrow> string" where
  "str_or_empty x = (case x of None \<Rightarrow> [] | Some s \<Rightarrow> s)"

text \<open>\<open>x or d\<close> with a string default.\<close>

definition str_or :: "string option \<Rightarrow> string \<Rightarrow> string" where
  "str_or x d = (case x of None \<Rightarrow> d | Some s \<Rightarrow> if s = [] then d else s)"

lemma str_or_nonempty: "d \<noteq> [] \<Longrightarrow> str_or x d \<noteq> []"
  by (simp add: str_or_def split: option.splits)

section \<open>round\<close>

definition py_round :: "rat \<Rightarrow> int" where
  "py_round x =
     (let f = \<lfloor>x\<rfloor>; d = x - of_int f in
      if d < 1/2 then f else if d > 1/2 then f + 1 else if even f then f else f + 1)"

section \<open>Lemmas\<close>

lemma py_split_nonempty [simp]: "py_split d s \<noteq> []"
  by (induction s) (auto split: list.splits)

lemma py_split_no_sep: "p \<in> set (py_split d s) \<Longrightarrow> d \<notin> set p"
  by (induction s arbitrary: p) (auto split: list.splits if_splits)

lemma py_split_single: "d \<notin> set s \<Longrightarrow> py_split d s = [s]"
  by (induction s) auto

lemma py_split_append:
  "d \<notin> set x \<Longrightarrow> py_split d (x @ d # y) = x # py_split d y"
  by (induction x) auto

lemma py_join_split: "py_join [d] (py_split d s) = s"
proof (induction s)
  case Nil
  then show ?case by simp
next
  case (Cons c cs)
  obtain p ps where sp: "py_split d cs = p # ps"
    by (cases "py_split d cs") auto
  show ?case
  proof (cases "c = d")
    case True
    then show ?thesis using Cons.IH sp by simp
  next
    case False
    then show ?thesis using Cons.IH sp by (cases ps) auto
  qed
qed

lemma py_startswith_append [simp]: "py_startswith (p @ s) p"
  by (simp add: py_startswith_def)

lemma py_startswith_iff: "py_startswith s p \<longleftrightarrow> (\<exists>t. s = p @ t)"
  unfolding py_startswith_def by (metis append_take_drop_id append_eq_conv_conj)

lemma py_in_iff: "py_in sub s \<longleftrightarrow> (\<exists>a b. s = a @ sub @ b)"
proof (induction s)
  case Nil
  then show ?case by simp
next
  case (Cons c cs)
  have "(\<exists>a b. c # cs = a @ sub @ b) \<longleftrightarrow> py_startswith (c # cs) sub \<or> (\<exists>a b. cs = a @ sub @ b)"
    unfolding py_startswith_iff by (metis append_Cons append_Nil list.exhaust list.inject)
  then show ?case using Cons.IH by simp
qed

lemma py_in_empty [simp]: "py_in [] s"
  by (cases s) (simp_all add: py_startswith_def)

lemma py_in_refl [simp]: "py_in s s"
  by (metis py_in_iff append_Nil append_Nil2)

lemma length_py_lower [simp]: "length (py_lower s) = length s"
  by (simp add: py_lower_def)

lemma py_lower_Nil [simp]: "py_lower [] = []"
  by (simp add: py_lower_def)

lemma py_upper_Nil [simp]: "py_upper [] = []"
  by (simp add: py_upper_def)

lemma lower_char_idem: "lower_char (lower_char c) = lower_char c"
proof (cases "is_upper c")
  case True
  then have c: "65 \<le> (of_char c :: nat)" "(of_char c :: nat) \<le> 90"
    by (simp_all add: is_upper_def less_eq_char_def)
  then have "of_char (char_of (of_char c + (32::nat)) :: char) = of_char c + (32::nat)"
    by (simp add: of_char_of)
  with c have "\<not> is_upper (char_of (of_char c + (32::nat)))"
    by (simp add: is_upper_def less_eq_char_def)
  with True show ?thesis by (simp add: lower_char_def)
next
  case False
  then show ?thesis by (simp add: lower_char_def)
qed

lemma py_lower_idem [simp]: "py_lower (py_lower s) = py_lower s"
  by (simp add: py_lower_def lower_char_idem)

lemma dropWhile_prefix: "xs = ys @ zs \<Longrightarrow> (xs \<noteq> [] \<Longrightarrow> \<not> P (hd xs)) \<Longrightarrow> dropWhile P ys = ys"
  by (cases ys) auto

lemma py_strip_idem: "py_strip (py_strip s) = py_strip s"
proof -
  define a where "a = dropWhile is_space s"
  define b where "b = rev (dropWhile is_space (rev a))"
  have "rev (takeWhile is_space (rev a) @ dropWhile is_space (rev a)) = a"
    by (simp only: takeWhile_dropWhile_id rev_rev_ident)
  then have "a = b @ rev (takeWhile is_space (rev a))" unfolding b_def by (simp only: rev_append)
  moreover have "a \<noteq> [] \<Longrightarrow> \<not> is_space (hd a)" unfolding a_def by (rule hd_dropWhile)
  ultimately have b1: "dropWhile is_space b = b" by (rule dropWhile_prefix)
  have b2: "dropWhile is_space (rev b) = rev b" unfolding b_def rev_rev_ident by (induction "rev a") auto
  have "py_strip s = b" by (simp add: py_strip_def a_def b_def)
  moreover have "py_strip b = b" unfolding py_strip_def b1 b2 rev_rev_ident ..
  ultimately show ?thesis by simp
qed

lemma py_round_of_int [simp]: "py_round (of_int n) = n"
  by (simp add: py_round_def)

lemma py_round_between:
  "\<lfloor>x\<rfloor> \<le> py_round x \<and> py_round x \<le> \<lfloor>x\<rfloor> + 1"
  by (simp add: py_round_def Let_def)

lemma py_round_mono: "x \<le> y \<Longrightarrow> py_round x \<le> py_round y"
proof -
  assume xy: "x \<le> y"
  then have fl: "\<lfloor>x\<rfloor> \<le> \<lfloor>y\<rfloor>" by (rule floor_mono)
  show ?thesis
  proof (cases "\<lfloor>x\<rfloor> = \<lfloor>y\<rfloor>")
    case True
    then show ?thesis using xy by (auto simp: py_round_def Let_def)
  next
    case False
    then show ?thesis using fl py_round_between [of x] py_round_between [of y] by linarith
  qed
qed

lemma py_round_nonneg: "0 \<le> x \<Longrightarrow> 0 \<le> py_round x"
  using py_round_mono [of 0 x] py_round_of_int [of 0] by simp

section \<open>Reading back a printed integer\<close>

lemma digit_char:
  assumes "n < 10"
  shows "is_digit (char_of (48 + n))" and "digit_val (char_of (48 + n)) = int n"
proof -
  have "n \<in> {0,1,2,3,4,5,6,7,8,9}" using assms by auto
  then show "is_digit (char_of (48 + n))" "digit_val (char_of (48 + n)) = int n"
    by (elim insertE emptyE; simp only:; code_simp)+
qed

lemma digits_val_append: "digits_val (xs @ [d]) = 10 * digits_val xs + digit_val d"
  by (simp add: digits_val_def)

lemma str_nat_digits: "list_all is_digit (str_nat n) \<and> str_nat n \<noteq> [] \<and> digits_val (str_nat n) = int n"
proof (induction n rule: less_induct)
  case (less n)
  show ?case
  proof (cases "n < 10")
    case True
    then show ?thesis using digit_char [OF True] by (simp add: str_nat.simps [of n] digits_val_def)
  next
    case False
    have "n div 10 < n" using False by simp
    from less.IH [OF this] show ?thesis
      using False digit_char [of "n mod 10"]
      by (simp add: str_nat.simps [of n] digits_val_append zdiv_int zmod_int)
  qed
qed

lemma int_digits_digits: "ds \<noteq> [] \<Longrightarrow> list_all is_digit ds \<Longrightarrow> int_digits ds = Some ds"
proof (induction ds rule: int_digits.induct)
  case (3 c d cs)
  have "d \<noteq> CHR ''_''" using 3 by (auto simp: is_digit_def less_eq_char_def)
  then show ?case using 3 by simp
qed auto

lemma digit_not_space: "is_digit c \<Longrightarrow> \<not> is_space c"
  by (auto simp: is_digit_def is_space_def less_eq_char_def)

lemma minus_not_space: "\<not> is_space (CHR ''-'')"
  by code_simp

lemma strip_id:
  assumes "s \<noteq> []" "\<not> is_space (hd s)" "\<not> is_space (last s)"
  shows "py_strip s = s"
proof -
  have "dropWhile is_space s = s" using assms by (cases s) auto
  moreover have "dropWhile is_space (rev s) = rev s" using assms by (cases "rev s") (auto simp: last_rev hd_rev[symmetric] rev_swap)
  ultimately show ?thesis by (simp add: py_strip_def)
qed

lemma strip_digits:
  assumes "list_all is_digit ds" and "ds \<noteq> []"
  shows "py_strip ds = ds" and "py_strip (CHR ''-'' # ds) = CHR ''-'' # ds"
proof -
  have l: "\<not> is_space (last ds)" "\<not> is_space (hd ds)"
    using assms by (simp_all add: list_all_iff digit_not_space)
  show "py_strip ds = ds" by (rule strip_id [OF assms(2) l(2) l(1)])
  show "py_strip (CHR ''-'' # ds) = CHR ''-'' # ds"
    by (rule strip_id) (simp_all only: list.sel list.distinct last.simps assms(2) if_False l minus_not_space not_False_eq_True)
qed

lemma py_int_digits:
  assumes "list_all is_digit ds" and "ds \<noteq> []"
  shows "py_int ds = Some (digits_val ds)" and "py_int (CHR ''-'' # ds) = Some (- digits_val ds)"
proof -
  obtain c cs where c: "ds = c # cs" using assms(2) by (cases ds) auto
  have ne: "c \<noteq> CHR ''-''" "c \<noteq> CHR ''+''"
    using assms(1) c by (auto simp: is_digit_def less_eq_char_def)
  show "py_int ds = Some (digits_val ds)"
    unfolding py_int_def strip_digits(1) [OF assms]
    using int_digits_digits [OF assms(2,1)] ne by (simp add: c)
  show "py_int (CHR ''-'' # ds) = Some (- digits_val ds)"
    unfolding py_int_def strip_digits(2) [OF assms]
    using int_digits_digits [OF assms(2,1)] by simp
qed

lemma py_int_str_int [simp]: "py_int (py_str_int n) = Some n"
proof -
  have ds: "list_all is_digit (str_nat m)" "str_nat m \<noteq> []" "digits_val (str_nat m) = int m" for m
    using str_nat_digits [of m] by simp_all
  show ?thesis using py_int_digits [OF ds(1,2)] by (simp add: py_str_int_def ds(3))
qed

end
