(* ===== verification/Circuit_Breaker.thy ===== *)
theory Circuit_Breaker
  imports Py_Text
begin

text \<open>
  \<open>app/ingestion/circuit_breaker.py\<close>. The breaker's state is a record; each section of the
  code that runs under the breaker's lock is one function (\<open>admit\<close>, \<open>on_success\<close>,
  \<open>on_failure\<close>), and \<open>call\<close> composes them around the awaited operation. Because the
  operation runs outside the lock, several calls can be in flight: \<open>cb_step\<close> interleaves the
  locked sections of any number of callers as events.
\<close>

section \<open>State and operations\<close>

datatype circuit_state = CLOSED | OPEN | HALF_OPEN

record breaker =
  cb_name :: string
  failure_threshold :: int
  recovery_timeout :: rat
  failures :: int
  cstate :: circuit_state
  open_until :: rat

definition new_breaker :: "string \<Rightarrow> int \<Rightarrow> rat \<Rightarrow> breaker" where
  "new_breaker name threshold timeout =
     \<lparr>cb_name = name, failure_threshold = threshold, recovery_timeout = timeout,
      failures = 0, cstate = CLOSED, open_until = 0\<rparr>"

text \<open>The first locked section of \<open>call\<close>: reject, or go on (as a probe when the time is up).\<close>

definition admit :: "rat \<Rightarrow> breaker \<Rightarrow> breaker result" where
  "admit now cb =
     (if cstate cb = OPEN then
        (if now < open_until cb then Inl (CircuitOpenError (cb_name cb))
         else Inr (cb\<lparr>cstate := HALF_OPEN\<rparr>))
      else Inr cb)"

definition on_success :: "breaker \<Rightarrow> breaker" where
  "on_success cb =
     (if cstate cb = HALF_OPEN \<or> cstate cb = CLOSED
      then cb\<lparr>failures := 0, cstate := CLOSED\<rparr> else cb)"

definition on_failure :: "rat \<Rightarrow> breaker \<Rightarrow> breaker" where
  "on_failure now cb =
     (let cb1 = cb\<lparr>failures := failures cb + 1\<rparr> in
      if failures cb1 \<ge> failure_threshold cb1
      then cb1\<lparr>cstate := OPEN, open_until := now + recovery_timeout cb1\<rparr> else cb1)"

text \<open>
  \<open>call\<close>: \<open>t0\<close> is the clock reading on entry, \<open>t1\<close> the one in the failure handler.
  A \<open>CircuitOpenError\<close> of the operation itself passes through uncounted, and so does a
  cancellation, which \<open>except Exception\<close> does not catch.
\<close>

definition cb_call ::
  "rat \<Rightarrow> rat \<Rightarrow> ('s, 'a) action \<Rightarrow> breaker \<Rightarrow> 's \<Rightarrow> breaker \<times> 's \<times> 'a result" where
  "cb_call t0 t1 fn cb s =
     (case admit t0 cb of
        Inl e \<Rightarrow> (cb, s, Inl e)
      | Inr cb1 \<Rightarrow>
          (case fn s of
             (s1, Inr v) \<Rightarrow> (on_success cb1, s1, Inr v)
           | (s1, Inl e) \<Rightarrow>
               (case e of
                  CircuitOpenError n \<Rightarrow> (cb1, s1, Inl e)
                | _ \<Rightarrow> if is_exception e then (on_failure t1 cb1, s1, Inl e)
                       else (cb1, s1, Inl e))))"

text \<open>\<open>status_snapshot\<close>: the remaining time is reported only while the circuit is open.\<close>

record cb_snapshot =
  snap_name :: string
  snap_state :: circuit_state
  snap_failures :: int
  snap_threshold :: int
  snap_open_until :: "rat option"

definition round1 :: "rat \<Rightarrow> rat" where
  "round1 x = of_int (py_round (10 * x)) / 10"

definition status_snapshot :: "rat \<Rightarrow> breaker \<Rightarrow> cb_snapshot" where
  "status_snapshot now cb =
     \<lparr>snap_name = cb_name cb, snap_state = cstate cb, snap_failures = failures cb,
      snap_threshold = failure_threshold cb,
      snap_open_until = (if cstate cb = OPEN then Some (max 0 (round1 (open_until cb - now))) else None)\<rparr>"

definition build_circuit_breakers :: "(string \<times> breaker) list" where
  "build_circuit_breakers =
     [(''vulncheck'', new_breaker ''vulncheck'' 5 60),
      (''nvd'', new_breaker ''nvd'' 5 120),
      (''circl'', new_breaker ''circl'' 3 300),
      (''epss'', new_breaker ''epss'' 3 60),
      (''kev'', new_breaker ''kev'' 3 3600),
      (''vulnx'', new_breaker ''vulnx'' 5 180)]"

section \<open>Interleaved callers\<close>

text \<open>
  One event per locked section: a caller enters, an admitted caller's operation succeeds, or it
  fails. \<open>in_flight\<close> counts the admitted callers that have not reported yet; a report
  without a caller in flight does not happen and leaves the state alone.
\<close>

datatype cb_event = Enter rat | Succeed | Fail rat | Abort

record cb_system =
  brk :: breaker
  in_flight :: nat

fun cb_step :: "cb_system \<Rightarrow> cb_event \<Rightarrow> cb_system" where
  "cb_step s (Enter t) =
     (case admit t (brk s) of Inl _ \<Rightarrow> s
      | Inr b \<Rightarrow> s\<lparr>brk := b, in_flight := in_flight s + 1\<rparr>)"
| "cb_step s Succeed =
     (if in_flight s = 0 then s
      else s\<lparr>brk := on_success (brk s), in_flight := in_flight s - 1\<rparr>)"
| "cb_step s (Fail t) =
     (if in_flight s = 0 then s
      else s\<lparr>brk := on_failure t (brk s), in_flight := in_flight s - 1\<rparr>)"
| "cb_step s Abort = (if in_flight s = 0 then s else s\<lparr>in_flight := in_flight s - 1\<rparr>)"

definition new_system :: "breaker \<Rightarrow> cb_system" where
  "new_system b = \<lparr>brk = b, in_flight = 0\<rparr>"

section \<open>Invariant\<close>

text \<open>The counter is below the threshold exactly while the circuit is closed.\<close>

definition breaker_ok :: "breaker \<Rightarrow> bool" where
  "breaker_ok cb \<longleftrightarrow> 0 < failure_threshold cb \<and> 0 \<le> failures cb \<and>
     (cstate cb = CLOSED \<longleftrightarrow> failures cb < failure_threshold cb)"

lemma admit_ok: "breaker_ok cb \<Longrightarrow> admit t cb = Inr cb1 \<Longrightarrow> breaker_ok cb1"
  by (auto simp: admit_def breaker_ok_def split: if_splits)

lemma on_success_ok: "breaker_ok cb \<Longrightarrow> breaker_ok (on_success cb)"
  by (cases "cstate cb") (auto simp: on_success_def breaker_ok_def)

lemma on_failure_ok: "breaker_ok cb \<Longrightarrow> breaker_ok (on_failure t cb)"
  by (auto simp: on_failure_def breaker_ok_def Let_def)

lemma new_breaker_ok: "0 < th \<Longrightarrow> breaker_ok (new_breaker n th r)"
  by (simp add: new_breaker_def breaker_ok_def)

lemma built_breakers_ok: "list_all (\<lambda>(n, b). breaker_ok b \<and> cb_name b = n) build_circuit_breakers"
  by (simp add: build_circuit_breakers_def new_breaker_def breaker_ok_def)

lemma cb_step_ok: "breaker_ok (brk s) \<Longrightarrow> breaker_ok (brk (cb_step s e))"
  by (cases e) (auto split: sum.splits intro: admit_ok on_success_ok on_failure_ok)

interpretation breaker_run: step_system cb_step "\<lambda>s. breaker_ok (brk s)"
  by unfold_locales (rule cb_step_ok)

section \<open>What a caller may rely on\<close>

text \<open>
  The contract of a guarded call, as the ingestion and query code uses it: a rejected call has
  not touched the caller's state, an accepted one has run the operation exactly once and handed
  its result on.
\<close>

locale guarded_call =
  fixes rejects :: "'b \<Rightarrow> bool"
    and guard :: "('s, 'a) action \<Rightarrow> 'b \<Rightarrow> 's \<Rightarrow> 'b \<times> 's \<times> 'a result"
  assumes rejected: "rejects b \<Longrightarrow> \<exists>n. guard fn b s = (b, s, Inl (CircuitOpenError n))"
    and accepted: "\<not> rejects b \<Longrightarrow> snd (guard fn b s) = fn s"
begin

lemma state_either: "fst (snd (guard fn b s)) = s \<or> fst (snd (guard fn b s)) = fst (fn s)"
  using rejected [of b fn s] accepted [of b fn s] by (cases "rejects b") auto

lemma value_from_operation:
  "snd (snd (guard fn b s)) = Inr v \<Longrightarrow> \<not> rejects b \<and> fn s = (fst (snd (guard fn b s)), Inr v)"
  using rejected [of b fn s] accepted [of b fn s] by (cases "rejects b") (auto simp: prod_eq_iff)

lemma invariant_kept:
  assumes "P s" and "P (fst (fn s))"
  shows "P (fst (snd (guard fn b s)))"
  using state_either [of fn b s] assms by auto

end

definition cb_rejects :: "rat \<Rightarrow> breaker \<Rightarrow> bool" where
  "cb_rejects t cb \<longleftrightarrow> cstate cb = OPEN \<and> t < open_until cb"

lemma admit_rejects: "(\<exists>e. admit t cb = Inl e) \<longleftrightarrow> cb_rejects t cb"
  by (auto simp: admit_def cb_rejects_def)

lemma cb_call_rejected:
  "cb_rejects t0 cb \<Longrightarrow> cb_call t0 t1 fn cb s = (cb, s, Inl (CircuitOpenError (cb_name cb)))"
  by (simp add: cb_call_def admit_def cb_rejects_def)

lemma cb_call_accepted: "\<not> cb_rejects t0 cb \<Longrightarrow> snd (cb_call t0 t1 fn cb s) = fn s"
  by (cases "fn s")
     (auto simp: cb_call_def admit_def cb_rejects_def split: sum.splits py_exn.splits)

interpretation cb: guarded_call "cb_rejects t0" "cb_call t0 t1"
  by unfold_locales (auto simp: cb_call_rejected cb_call_accepted)

lemma cb_call_ok: "breaker_ok cb \<Longrightarrow> breaker_ok (fst (cb_call t0 t1 fn cb s))"
  by (auto simp: cb_call_def intro: admit_ok on_success_ok on_failure_ok
           split: sum.splits prod.splits py_exn.splits)

section \<open>Sequential callers: the breaker counts consecutive failures\<close>

text \<open>
  A sequence of calls by one caller: each is the clock reading on entry, the outcome the
  operation would have (\<open>None\<close> succeeds, \<open>Some t\<close> fails with the handler running at
  \<open>t\<close>). The number of consecutive failures is what the reference automaton counts.
\<close>

fun seq_call :: "breaker \<Rightarrow> rat \<times> rat option \<Rightarrow> breaker" where
  "seq_call cb (t, None) = fst (cb_call t t (\<lambda>s. (s, Inr ())) cb ())"
| "seq_call cb (t, Some t1) =
     fst (cb_call t t1 (\<lambda>s. (s, Inl (OtherError ''upstream'') :: unit result)) cb ())"

lemma seq_call_success:
  "\<not> cb_rejects t cb \<Longrightarrow> breaker_ok cb \<Longrightarrow>
     cstate (seq_call cb (t, None)) = CLOSED \<and> failures (seq_call cb (t, None)) = 0"
  by (cases "cstate cb") (auto simp: cb_call_def admit_def cb_rejects_def on_success_def)

lemma seq_call_failure:
  "\<not> cb_rejects t cb \<Longrightarrow> failures (seq_call cb (t, Some t1)) = failures cb + 1"
  by (auto simp: cb_call_def admit_def cb_rejects_def on_failure_def is_exception_def Let_def)

lemma seq_call_threshold [simp]:
  "failure_threshold (seq_call cb c) = failure_threshold cb"
  by (cases "(cb, c)" rule: seq_call.cases)
     (auto simp: cb_call_def admit_def on_failure_def on_success_def is_exception_def Let_def)

lemma seq_call_ok: "breaker_ok cb \<Longrightarrow> breaker_ok (seq_call cb c)"
  by (cases "(cb, c)" rule: seq_call.cases) (auto intro: cb_call_ok)

declare seq_call.simps [simp del]

interpretation sequential: step_system seq_call breaker_ok
  by unfold_locales (rule seq_call_ok)

lemma seq_call_fixed:
  "recovery_timeout (seq_call cb c) = recovery_timeout cb \<and> cb_name (seq_call cb c) = cb_name cb"
  by (cases "(cb, c)" rule: seq_call.cases)
     (auto simp: seq_call.simps cb_call_def admit_def on_failure_def on_success_def
        is_exception_def Let_def)

lemma seq_run_fixed:
  "failure_threshold (foldl seq_call (new_breaker n th r) cs) = th \<and>
   recovery_timeout (foldl seq_call (new_breaker n th r) cs) = r \<and>
   cb_name (foldl seq_call (new_breaker n th r) cs) = n"
  by (rule foldl_invariant) (simp_all add: new_breaker_def seq_call_fixed)

lemma seq_call_closed_failure:
  "cstate cb = CLOSED \<Longrightarrow> seq_call cb (t, Some t1) = on_failure t1 cb"
  by (simp add: seq_call.simps cb_call_def admit_def is_exception_def)

text \<open>\<open>k\<close> failures in a row, from a closed circuit, while the circuit does not reject.\<close>

lemma failures_in_a_row:
  assumes "breaker_ok cb" and "failures cb + int (length ts) \<le> failure_threshold cb"
    and "cstate cb = CLOSED"
  shows "failures (foldl seq_call cb (map (\<lambda>(t, t1). (t, Some t1)) ts)) = failures cb + int (length ts)"
  using assms
proof (induction ts arbitrary: cb)
  case Nil
  then show ?case by simp
next
  case (Cons x ts)
  obtain t t1 where x: "x = (t, t1)" by (cases x)
  let ?c = "seq_call cb (t, Some t1)"
  have f: "failures ?c = failures cb + 1"
    using Cons.prems(3) by (intro seq_call_failure) (simp add: cb_rejects_def)
  show ?case
  proof (cases ts)
    case Nil
    then show ?thesis using f x by simp
  next
    case (Cons y ys)
    have ok: "breaker_ok ?c" using Cons.prems(1) by (rule seq_call_ok)
    moreover have "failures ?c < failure_threshold ?c"
      using f Cons.prems(2) Cons by simp
    ultimately have "cstate ?c = CLOSED" by (simp add: breaker_ok_def)
    then have "failures (foldl seq_call ?c (map (\<lambda>(t, t1). (t, Some t1)) ts))
        = failures ?c + int (length ts)"
      using ok f Cons.prems(2) by (intro Cons.IH) simp_all
    then show ?thesis using f x by simp
  qed
qed

definition after_failures :: "breaker \<Rightarrow> (rat \<times> rat) list \<Rightarrow> breaker" where
  "after_failures cb ts = foldl seq_call cb (map (\<lambda>(t, t1). (t, Some t1)) ts)"

lemma new_breaker_fields:
  "failures (new_breaker n th r) = 0" "cstate (new_breaker n th r) = CLOSED"
  "failure_threshold (new_breaker n th r) = th"
  by (simp_all add: new_breaker_def)

section \<open>Properties\<close>

text \<open>In every interleaving of any number of callers, the failure counter of a new breaker
  with a positive threshold stays non-negative and is below the threshold exactly while the
  circuit is CLOSED: an OPEN or HALF_OPEN circuit never carries a stale counter.\<close>

theorem breaker_counter_invariant:
  assumes "0 < th"
  shows "let b = brk (foldl cb_step (new_system (new_breaker n th r)) es) in
           0 \<le> failures b \<and> (cstate b = CLOSED \<longleftrightarrow> failures b < failure_threshold b)"
proof -
  have "breaker_ok (brk (new_system (new_breaker n th r)))"
    using assms by (simp add: new_system_def new_breaker_ok)
  then have "breaker_ok (brk (foldl cb_step (new_system (new_breaker n th r)) es))"
    by (rule breaker_run.run_inv)
  then show ?thesis by (simp add: breaker_ok_def Let_def)
qed

theorem breaker_counter_invariant_witness:
  "let b = brk (foldl cb_step (new_system (new_breaker ''kev'' 3 3600)) [Enter 1, Enter 2, Fail 3, Fail 4]) in
     0 \<le> failures b \<and> (cstate b = CLOSED \<longleftrightarrow> failures b < failure_threshold b)"
  by (rule breaker_counter_invariant) simp



text \<open>A half-open circuit does not limit itself to one probe: whenever the circuit is open
  and its time is up, two callers that arrive one after the other are both admitted, and both
  operations are in flight at once.\<close>

theorem half_open_admits_second_probe:
  assumes "cstate (brk s) = OPEN" and "open_until (brk s) \<le> t"
  shows "in_flight (cb_step (cb_step s (Enter t)) (Enter t')) = in_flight s + 2 \<and>
         cstate (brk (cb_step (cb_step s (Enter t)) (Enter t'))) = HALF_OPEN"
  using assms by (simp add: admit_def)

theorem half_open_admits_second_probe_witness:
  "in_flight (cb_step (cb_step (new_system ((new_breaker ''epss'' 3 60)\<lparr>cstate := OPEN, failures := 3, open_until := 60\<rparr>))
     (Enter 60)) (Enter 61)) = 2"
  using half_open_admits_second_probe [where t = 60 and t' = 61 and
    s = "new_system ((new_breaker ''epss'' 3 60)\<lparr>cstate := OPEN, failures := 3, open_until := 60\<rparr>)"]
  by (simp add: new_system_def new_breaker_def)

end
