(* ===== verification/Rate_Governor.thy ===== *)
theory Rate_Governor
  imports Settings
begin

text \<open>
  \<open>app/ingestion/rate_governor.py\<close>: the token bucket. \<open>try_acquire\<close> is the section of
  \<open>acquire\<close> that runs under the lock; \<open>acquire\<close> is the loop around it, driven by the
  clock readings of its successive iterations (between two of them the caller sleeps).
\<close>

section \<open>State and operations\<close>

record bucket =
  bucket_name :: string
  capacity :: rat
  refill_rate :: rat
  tokens :: rat
  last_refill :: rat
  rate_limited :: "nat option" \<comment> \<open>the attached metrics counter, if any\<close>

definition new_bucket :: "rat \<Rightarrow> string \<Rightarrow> rat \<Rightarrow> rat \<Rightarrow> bucket" where
  "new_bucket now name cap rate =
     \<lparr>bucket_name = name, capacity = cap, refill_rate = rate, tokens = cap,
      last_refill = now, rate_limited = None\<rparr>"

definition refill :: "rat \<Rightarrow> bucket \<Rightarrow> bucket" where
  "refill now b =
     (let added = (now - last_refill b) * refill_rate b in
      b\<lparr>tokens := min (capacity b) (tokens b + added), last_refill := now\<rparr>)"

text \<open>
  The locked section: \<open>Inr None\<close> when the tokens were taken, \<open>Inr (Some w)\<close> when the caller
  has to sleep \<open>w\<close> seconds; with a refill rate of zero the division raises.
\<close>

definition try_acquire :: "rat \<Rightarrow> rat \<Rightarrow> bucket \<Rightarrow> bucket \<times> (rat option) result" where
  "try_acquire now cost b =
     (let b1 = refill now b in
      if tokens b1 \<ge> cost then (b1\<lparr>tokens := tokens b1 - cost\<rparr>, Inr None)
      else if refill_rate b1 = 0 then (b1, Inl ZeroDivisionError)
      else (b1, Inr (Some ((cost - tokens b1) / refill_rate b1))))"

definition record_rate_limited :: "bucket \<Rightarrow> bucket" where
  "record_rate_limited b = b\<lparr>rate_limited := map_option Suc (rate_limited b)\<rparr>"

text \<open>\<open>None\<close>: the caller is still in the loop when the given clock readings are used up.\<close>

fun acquire :: "rat list \<Rightarrow> rat \<Rightarrow> bucket \<Rightarrow> (bucket \<times> unit result) option" where
  "acquire [] cost b = None"
| "acquire (now # nows) cost b =
     (case try_acquire now cost b of
        (b1, Inl e) \<Rightarrow> Some (b1, Inl e)
      | (b1, Inr None) \<Rightarrow> Some (b1, Inr ())
      | (b1, Inr (Some w)) \<Rightarrow> acquire nows cost (record_rate_limited b1))"

definition attach_metrics :: "bucket \<Rightarrow> bucket" where
  "attach_metrics b = b\<lparr>rate_limited := Some 0\<rparr>"

text \<open>The configured buckets; building the KEV one divides by the configured interval.\<close>

definition build_governors :: "rat \<Rightarrow> settings \<Rightarrow> (string \<times> bucket) list result" where
  "build_governors now st =
     (let key = nvd_api_key st \<noteq> [] in
      if kev_refresh_interval_hours st = 0 then Inl ZeroDivisionError
      else Inr
       [(''nvd'', new_bucket now ''nvd'' (if key then 50 else 5) (if key then 50/30 else 5/30)),
        (''vulncheck'', new_bucket now ''vulncheck'' 10 (10/60)),
        (''circl'', new_bucket now ''circl'' 20 (of_int (circl_daily_limit st) / 86400)),
        (''epss'', new_bucket now ''epss'' 10 1),
        (''kev'', new_bucket now ''kev'' 1 (1 / (of_int (kev_refresh_interval_hours st) * 3600))),
        (''vulnx'', new_bucket now ''vulnx'' 5 2)])"

section \<open>Attempts of any number of callers\<close>

text \<open>
  The locked sections of all callers, in the order they run: clock reading and cost. The total
  cost of the attempts that were granted is what went out to the provider.
\<close>

fun attempts :: "bucket \<Rightarrow> (rat \<times> rat) list \<Rightarrow> bucket \<times> rat" where
  "attempts b [] = (b, 0)"
| "attempts b ((now, cost) # rest) =
     (let (b1, r) = try_acquire now cost b; (b2, g) = attempts b1 rest in
      (b2, (if r = Inr None then cost else 0) + g))"

fun clock_from :: "rat \<Rightarrow> (rat \<times> rat) list \<Rightarrow> bool" where
  "clock_from t [] = True"
| "clock_from t ((now, cost) # rest) \<longleftrightarrow> t \<le> now \<and> 0 \<le> cost \<and> clock_from now rest"

fun last_clock :: "rat \<Rightarrow> (rat \<times> rat) list \<Rightarrow> rat" where
  "last_clock t [] = t"
| "last_clock t ((now, cost) # rest) = last_clock now rest"

section \<open>Invariant and bounds\<close>

definition bucket_ok :: "bucket \<Rightarrow> bool" where
  "bucket_ok b \<longleftrightarrow> 0 \<le> tokens b \<and> tokens b \<le> capacity b \<and> 0 \<le> refill_rate b"

lemma refill_ok: "bucket_ok b \<Longrightarrow> last_refill b \<le> now \<Longrightarrow> bucket_ok (refill now b)"
  by (auto simp: bucket_ok_def refill_def Let_def min_def)

lemma refill_tokens:
  "tokens (refill now b) \<le> tokens b + (now - last_refill b) * refill_rate b"
  by (simp add: refill_def Let_def)

lemma refill_fields [simp]:
  "capacity (refill now b) = capacity b" "refill_rate (refill now b) = refill_rate b"
  "last_refill (refill now b) = now" "bucket_name (refill now b) = bucket_name b"
  by (simp_all add: refill_def Let_def)

lemma try_acquire_fields [simp]:
  "capacity (fst (try_acquire now cost b)) = capacity b"
  "refill_rate (fst (try_acquire now cost b)) = refill_rate b"
  "last_refill (fst (try_acquire now cost b)) = now"
  by (simp_all add: try_acquire_def Let_def)

lemma try_acquire_ok:
  assumes "bucket_ok b" and "last_refill b \<le> now" and "0 \<le> cost"
  shows "bucket_ok (fst (try_acquire now cost b))"
  using refill_ok [OF assms(1,2)] assms(3)
  by (auto simp: try_acquire_def Let_def bucket_ok_def)

lemma try_acquire_spend:
  "tokens (fst (try_acquire now cost b)) + (if snd (try_acquire now cost b) = Inr None then cost else 0)
     \<le> tokens b + (now - last_refill b) * refill_rate b"
  using refill_tokens [of now b] by (auto simp: try_acquire_def Let_def)

lemma attempts_ok:
  "bucket_ok b \<Longrightarrow> clock_from (last_refill b) xs \<Longrightarrow> bucket_ok (fst (attempts b xs))"
proof (induction b xs rule: attempts.induct)
  case (1 b)
  then show ?case by simp
next
  case (2 b now cost rest)
  obtain b1 r where tr: "try_acquire now cost b = (b1, r)" by (cases "try_acquire now cost b")
  have "bucket_ok b1" "last_refill b1 = now"
    using try_acquire_ok [OF "2.prems"(1), of now cost] try_acquire_fields(3) [of now cost b] "2.prems"(2) tr
    by simp_all
  then have "bucket_ok (fst (attempts b1 rest))"
    using "2.IH" [OF tr [symmetric] refl] "2.prems"(2) by simp
  then show ?case using tr by (simp add: case_prod_unfold Let_def)
qed

text \<open>Tokens left plus tokens spent never exceed what was there and what was refilled.\<close>

lemma attempts_spend:
  "clock_from (last_refill b) xs \<Longrightarrow>
     tokens (fst (attempts b xs)) + snd (attempts b xs)
       \<le> tokens b + (last_clock (last_refill b) xs - last_refill b) * refill_rate b"
proof (induction b xs rule: attempts.induct)
  case (1 b)
  then show ?case by simp
next
  case (2 b now cost rest)
  obtain b1 r where tr: "try_acquire now cost b = (b1, r)" by (cases "try_acquire now cost b")
  have b1: "last_refill b1 = now" "refill_rate b1 = refill_rate b"
    using try_acquire_fields [of now cost b] tr by simp_all
  have s: "tokens b1 + (if r = Inr None then cost else 0) \<le> tokens b + (now - last_refill b) * refill_rate b"
    using try_acquire_spend [of now cost b] tr by simp
  have "tokens (fst (attempts b1 rest)) + snd (attempts b1 rest)
      \<le> tokens b1 + (last_clock now rest - now) * refill_rate b"
    using "2.IH" [OF tr [symmetric] refl] "2.prems" b1 by simp
  then show ?case using s tr by (simp add: case_prod_unfold Let_def algebra_simps split: if_splits)
qed

section \<open>The loop returns\<close>

lemma try_acquire_wait:
  assumes "try_acquire now cost b = (b1, Inr (Some w))"
  shows "tokens b1 < cost \<and> w = (cost - tokens b1) / refill_rate b1 \<and> refill_rate b1 \<noteq> 0 \<and>
         last_refill b1 = now \<and> capacity b1 = capacity b \<and> refill_rate b1 = refill_rate b"
  using assms by (auto simp: try_acquire_def Let_def split: if_splits)

lemma try_acquire_after_wait:
  assumes "0 < refill_rate b" and "cost \<le> capacity b"
    and "(cost - tokens b) / refill_rate b \<le> now - last_refill b"
  shows "snd (try_acquire now cost b) = Inr None"
proof -
  have "cost - tokens b \<le> (now - last_refill b) * refill_rate b"
    using assms(1,3) by (simp add: pos_divide_le_eq)
  then have "cost \<le> tokens (refill now b)" using assms(2) by (simp add: refill_def Let_def)
  then show ?thesis by (simp add: try_acquire_def Let_def)
qed

lemma try_acquire_too_big:
  "capacity b < cost \<Longrightarrow> refill_rate b \<noteq> 0 \<Longrightarrow> \<exists>b1 w. try_acquire now cost b = (b1, Inr (Some w)) \<and>
     capacity b1 = capacity b \<and> refill_rate b1 = refill_rate b"
  by (auto simp: try_acquire_def refill_def Let_def)

lemma acquire_too_big:
  "capacity b < cost \<Longrightarrow> refill_rate b \<noteq> 0 \<Longrightarrow> acquire nows cost b = None"
proof (induction nows arbitrary: b)
  case Nil
  then show ?case by simp
next
  case (Cons now nows)
  obtain b1 w where "try_acquire now cost b = (b1, Inr (Some w))"
    "capacity b1 = capacity b" "refill_rate b1 = refill_rate b"
    using try_acquire_too_big [OF Cons.prems] by blast
  then show ?case using Cons by (simp add: record_rate_limited_def)
qed

section \<open>Properties\<close>

text \<open>C24: The rate limit. Whatever the callers do, the requests a bucket lets through between its
  creation at \<open>t0\<close> and the last attempt cost at most the burst capacity plus the refill rate
  times the elapsed time, and the token count always stays between zero and the capacity.\<close>

theorem token_bucket_rate_limit:
  assumes "0 \<le> cap" and "0 \<le> rate" and "clock_from t0 xs"
  shows "snd (attempts (new_bucket t0 n cap rate) xs) \<le> cap + rate * (last_clock t0 xs - t0) \<and>
         0 \<le> tokens (fst (attempts (new_bucket t0 n cap rate) xs)) \<and>
         tokens (fst (attempts (new_bucket t0 n cap rate) xs)) \<le> capacity (fst (attempts (new_bucket t0 n cap rate) xs))"
proof -
  let ?b = "new_bucket t0 n cap rate"
  have f: "last_refill ?b = t0" "refill_rate ?b = rate" "tokens ?b = cap" and ok: "bucket_ok ?b"
    using assms(1,2) by (simp_all add: new_bucket_def bucket_ok_def)
  have ok2: "bucket_ok (fst (attempts ?b xs))" using ok assms(3) f by (intro attempts_ok) simp_all
  have "tokens (fst (attempts ?b xs)) + snd (attempts ?b xs) \<le> cap + (last_clock t0 xs - t0) * rate"
    using attempts_spend [of ?b xs] assms(3) f by simp
  then show ?thesis using ok2 by (auto simp: bucket_ok_def mult.commute)
qed

theorem token_bucket_rate_limit_witness:
  "snd (attempts (new_bucket 0 ''nvd'' 5 (5/30)) [(0, 1), (0, 4), (6, 1), (6, 1)]) \<le> 5 + 5/30 * (6 - 0) \<and>
   snd (attempts (new_bucket 0 ''nvd'' 5 (5/30)) [(0, 1), (0, 4), (6, 1), (6, 1)]) = 6"
  using token_bucket_rate_limit [of 5 "5/30" 0 "[(0, 1), (0, 4), (6, 1), (6, 1)]" "''nvd''"]
  by (simp add: new_bucket_def try_acquire_def refill_def Let_def min_def)

text \<open>\<open>acquire\<close> returns. With a positive refill rate and a cost within the capacity, a lone
  caller that sleeps at least as long as computed gets its tokens at the latest in the second
  iteration of the loop.\<close>

theorem acquire_returns:
  assumes "0 < refill_rate b" and "cost \<le> capacity b"
    and "\<And>b1 w. try_acquire now cost b = (b1, Inr (Some w)) \<Longrightarrow> now + w \<le> now'"
  shows "\<exists>b'. acquire [now, now'] cost b = Some (b', Inr ())"
proof -
  obtain b1 r where tr: "try_acquire now cost b = (b1, r)" by (cases "try_acquire now cost b")
  show ?thesis
  proof (cases r)
    case (Inl e)
    then show ?thesis using tr assms(1) by (auto simp: try_acquire_def Let_def split: if_splits)
  next
    case (Inr ow)
    show ?thesis
    proof (cases ow)
      case None
      then show ?thesis using tr Inr by simp
    next
      case (Some w)
      have tw: "try_acquire now cost b = (b1, Inr (Some w))" using tr Inr Some by simp
      have "snd (try_acquire now' cost (record_rate_limited b1)) = Inr None"
        using try_acquire_wait [OF tw] assms(1,2) assms(3) [OF tw]
        by (intro try_acquire_after_wait) (simp_all add: record_rate_limited_def)
      then show ?thesis using tw by (cases "try_acquire now' cost (record_rate_limited b1)") simp
    qed
  qed
qed

theorem acquire_returns_witness:
  "\<exists>b'. acquire [0, 60] 1 ((new_bucket 0 ''kev'' 1 (1/60))\<lparr>tokens := 0\<rparr>) = Some (b', Inr ())"
  by (rule acquire_returns)
     (auto simp: new_bucket_def try_acquire_def refill_def Let_def split: if_splits)

text \<open>A cost above the capacity is never granted: the loop of \<open>acquire\<close> keeps sleeping
  through any number of iterations instead of reporting the impossible request.\<close>

theorem acquire_beyond_capacity_never_returns:
  assumes "capacity b < cost" and "refill_rate b \<noteq> 0"
  shows "acquire nows cost b = None"
  using assms by (rule acquire_too_big)

theorem acquire_beyond_capacity_never_returns_witness:
  "acquire [0, 100, 10000] 2 (new_bucket 0 ''kev'' 1 (1/3600)) = None"
  by (rule acquire_beyond_capacity_never_returns) (simp_all add: new_bucket_def)

end
