(* ===== verification/Py_Time.thy ===== *)
theory Py_Time
  imports Prelude
begin

text \<open>
  Python's \<open>datetime\<close> and \<open>date\<close>: a datetime is its wall clock reading in
  microseconds since 1970-01-01 and, when it is aware, its UTC offset; a date is its number of
  days since 1970-01-01. Monotonic clock readings are rational seconds.
\<close>

datatype py_datetime = DT (wall: int) (tzoffset: "int option")

type_synonym py_date = int

definition day_us :: int where
  "day_us = 86400000000"

text \<open>\<open>dt if dt.tzinfo else dt.replace(tzinfo=UTC)\<close>.\<close>

definition assume_utc :: "py_datetime \<Rightarrow> py_datetime" where
  "assume_utc dt = (case tzoffset dt of None \<Rightarrow> DT (wall dt) (Some 0) | Some _ \<Rightarrow> dt)"

text \<open>The instant of a datetime, in microseconds of UTC; a naive one is read as UTC.\<close>

definition instant :: "py_datetime \<Rightarrow> int" where
  "instant dt = wall dt - (case tzoffset dt of None \<Rightarrow> 0 | Some off \<Rightarrow> off)"

definition utc :: "int \<Rightarrow> py_datetime" where
  "utc t = DT t (Some 0)"

text \<open>\<open>dt + timedelta(days=n)\<close> moves the wall clock reading; \<open>dt.date()\<close> reads it.\<close>

definition add_days :: "py_datetime \<Rightarrow> int \<Rightarrow> py_datetime" where
  "add_days dt n = DT (wall dt + n * day_us) (tzoffset dt)"

definition dt_date :: "py_datetime \<Rightarrow> py_date" where
  "dt_date dt = wall dt div day_us"

text \<open>\<open>(a - b).days\<close> of two aware datetimes.\<close>

definition days_between :: "py_datetime \<Rightarrow> py_datetime \<Rightarrow> int" where
  "days_between a b = (instant a - instant b) div day_us"

lemma instant_assume_utc [simp]: "instant (assume_utc dt) = instant dt"
  by (simp add: instant_def assume_utc_def split: option.splits)

lemma wall_assume_utc [simp]: "wall (assume_utc dt) = wall dt"
  by (simp add: assume_utc_def split: option.splits)

lemma instant_utc [simp]: "instant (utc t) = t"
  by (simp add: instant_def utc_def)

lemma dt_date_add_days: "dt_date (add_days dt n) = dt_date dt + n"
  by (simp add: dt_date_def add_days_def day_us_def)

lemma days_between_antimono: "instant b \<le> instant b' \<Longrightarrow> days_between a b' \<le> days_between a b"
  by (simp add: days_between_def day_us_def zdiv_mono1)

end
