(* ===== verification/Priority.thy ===== *)
theory Priority
  imports Py_Text Py_Time
begin

text \<open>
  \<open>app/models/priority.py\<close>: the score, the table of contributions shown to the user, and the
  label. The two functions of the code repeat the same bands; they are translated separately and
  proved to agree. The current time is an argument.
\<close>

section \<open>Weights and bands\<close>

definition EXPL_WEIGHT_POC :: int where "EXPL_WEIGHT_POC = 5"
definition EXPL_WEIGHT_NUCLEI :: int where "EXPL_WEIGHT_NUCLEI = 8"
definition KEV_WEIGHT :: int where "KEV_WEIGHT = 25"
definition EPSS_WEIGHT_MAX :: int where "EPSS_WEIGHT_MAX = 40"
definition RECENCY_WEIGHT_MAX :: int where "RECENCY_WEIGHT_MAX = 10"

lemmas weight_defs = EXPL_WEIGHT_POC_def EXPL_WEIGHT_NUCLEI_def KEV_WEIGHT_def EPSS_WEIGHT_MAX_def
  RECENCY_WEIGHT_MAX_def

text \<open>The signals of a CVE that enter the score.\<close>

record signals =
  cvss_score :: "rat option"
  severity :: "string option"
  epss_score :: "rat option"
  is_kev :: bool
  published_at :: "py_datetime option"
  has_public_poc :: bool
  has_nuclei_template :: bool

text \<open>\<open>float(x or 0.0)\<close>.\<close>

definition float_or_zero :: "rat option \<Rightarrow> rat" where
  "float_or_zero x = (case x of None \<Rightarrow> 0 | Some v \<Rightarrow> v)"

section \<open>The score\<close>

definition compute_priority_score :: "py_datetime \<Rightarrow> signals \<Rightarrow> int" where
  "compute_priority_score now sg =
     (let score = (0::int);
          epss = float_or_zero (epss_score sg);
          score = score + py_round (epss * of_int EPSS_WEIGHT_MAX);
          cvss = float_or_zero (cvss_score sg);
          sev = py_upper (str_or_empty (severity sg));
          score = (if sev = ''CRITICAL'' \<or> cvss \<ge> 9 then score + 25
                   else if sev = ''HIGH'' \<or> cvss \<ge> 7 then score + 18
                   else if sev = ''MEDIUM'' \<or> cvss \<ge> 4 then score + 10
                   else if sev = ''LOW'' \<or> cvss > 0 then score + 4 else score);
          score = (if is_kev sg then score + KEV_WEIGHT else score);
          score = (case published_at sg of None \<Rightarrow> score
                   | Some p \<Rightarrow>
                     (let age_days = days_between now (assume_utc p) in
                      if age_days \<le> 30 then score + 10
                      else if age_days \<le> 90 then score + 6
                      else if age_days \<le> 365 then score + 3 else score));
          score = (if has_nuclei_template sg then score + EXPL_WEIGHT_NUCLEI
                   else if has_public_poc sg then score + EXPL_WEIGHT_POC else score)
      in min 100 (max 0 score))"

record factors =
  epss_contribution :: int
  cvss_contribution :: int
  kev_contribution :: int
  recency_contribution :: int
  exploitability_contribution :: int

definition compute_priority_factors :: "py_datetime \<Rightarrow> signals \<Rightarrow> factors" where
  "compute_priority_factors now sg =
     (let c = \<lparr>epss_contribution = 0, cvss_contribution = 0, kev_contribution = 0,
               recency_contribution = 0, exploitability_contribution = 0\<rparr>;
          epss = float_or_zero (epss_score sg);
          c = c\<lparr>epss_contribution := py_round (epss * of_int EPSS_WEIGHT_MAX)\<rparr>;
          cvss = float_or_zero (cvss_score sg);
          sev = py_upper (str_or_empty (severity sg));
          c = (if sev = ''CRITICAL'' \<or> cvss \<ge> 9 then c\<lparr>cvss_contribution := 25\<rparr>
               else if sev = ''HIGH'' \<or> cvss \<ge> 7 then c\<lparr>cvss_contribution := 18\<rparr>
               else if sev = ''MEDIUM'' \<or> cvss \<ge> 4 then c\<lparr>cvss_contribution := 10\<rparr>
               else if sev = ''LOW'' \<or> cvss > 0 then c\<lparr>cvss_contribution := 4\<rparr> else c);
          c = (if is_kev sg then c\<lparr>kev_contribution := KEV_WEIGHT\<rparr> else c);
          c = (case published_at sg of None \<Rightarrow> c
               | Some p \<Rightarrow>
                 (let age_days = days_between now (assume_utc p) in
                  if age_days \<le> 30 then c\<lparr>recency_contribution := 10\<rparr>
                  else if age_days \<le> 90 then c\<lparr>recency_contribution := 6\<rparr>
                  else if age_days \<le> 365 then c\<lparr>recency_contribution := 3\<rparr> else c))
      in if has_nuclei_template sg then c\<lparr>exploitability_contribution := EXPL_WEIGHT_NUCLEI\<rparr>
         else if has_public_poc sg then c\<lparr>exploitability_contribution := EXPL_WEIGHT_POC\<rparr> else c)"

definition get_priority_label :: "int \<Rightarrow> string \<times> string" where
  "get_priority_label score =
     (if score \<ge> 80 then (''CRITICAL PRIORITY'', ''red'')
      else if score \<ge> 60 then (''HIGH PRIORITY'', ''orange'')
      else if score \<ge> 40 then (''MEDIUM PRIORITY'', ''yellow'')
      else (''MONITOR'', ''blue''))"

section \<open>The bands, one by one\<close>

definition cvss_points :: "string \<Rightarrow> rat \<Rightarrow> int" where
  "cvss_points sev cvss =
     (if sev = ''CRITICAL'' \<or> cvss \<ge> 9 then 25 else if sev = ''HIGH'' \<or> cvss \<ge> 7 then 18
      else if sev = ''MEDIUM'' \<or> cvss \<ge> 4 then 10 else if sev = ''LOW'' \<or> cvss > 0 then 4 else 0)"

definition recency_points :: "int \<Rightarrow> int" where
  "recency_points age = (if age \<le> 30 then 10 else if age \<le> 90 then 6 else if age \<le> 365 then 3 else 0)"

lemma cvss_points_mono: "cvss \<le> cvss' \<Longrightarrow> cvss_points sev cvss \<le> cvss_points sev cvss'"
  by (simp add: cvss_points_def)

lemma recency_points_antimono: "a \<le> b \<Longrightarrow> recency_points b \<le> recency_points a"
  by (simp add: recency_points_def)

lemma factors_points:
  "compute_priority_factors now sg =
     \<lparr>epss_contribution = py_round (float_or_zero (epss_score sg) * 40),
      cvss_contribution = cvss_points (py_upper (str_or_empty (severity sg))) (float_or_zero (cvss_score sg)),
      kev_contribution = (if is_kev sg then 25 else 0),
      recency_contribution = (case published_at sg of None \<Rightarrow> 0
        | Some p \<Rightarrow> recency_points (days_between now (assume_utc p))),
      exploitability_contribution =
        (if has_nuclei_template sg then 8 else if has_public_poc sg then 5 else 0)\<rparr>"
  by (simp add: compute_priority_factors_def weight_defs cvss_points_def recency_points_def Let_def
      split: option.split)

definition factor_sum :: "factors \<Rightarrow> int" where
  "factor_sum f = epss_contribution f + cvss_contribution f + kev_contribution f +
     recency_contribution f + exploitability_contribution f"

lemma add_cvss_points:
  "(if s = ''CRITICAL'' \<or> c \<ge> 9 then x + 25 else if s = ''HIGH'' \<or> c \<ge> 7 then x + 18
    else if s = ''MEDIUM'' \<or> c \<ge> 4 then x + 10 else if s = ''LOW'' \<or> c > 0 then x + 4 else x)
   = x + cvss_points s c"
  by (simp add: cvss_points_def)

lemma add_recency_points:
  "(if age \<le> 30 then x + 10 else if age \<le> 90 then x + 6 else if age \<le> 365 then x + 3 else x)
   = x + recency_points age"
  by (simp add: recency_points_def)

lemma add_published:
  "(case p of None \<Rightarrow> x | Some d \<Rightarrow> x + f d) = x + (case p of None \<Rightarrow> 0 | Some d \<Rightarrow> f d)" for x :: int
  by (cases p) simp_all

lemma add_if:
  "(if b then x + y else x) = x + (if b then y else 0)"
  "(if b then x + y else x + z) = x + (if b then y else z)" for x :: int
  by simp_all

lemma score_factors:
  "compute_priority_score now sg = min 100 (max 0 (factor_sum (compute_priority_factors now sg)))"
  unfolding compute_priority_score_def weight_defs Let_def add_cvss_points add_recency_points
    add_published add_if factors_points factor_sum_def factors.simps
  by (simp only: add_0 of_int_numeral cvss_points_def recency_points_def)

section \<open>The order on signals\<close>

text \<open>
  One set of signals is at least as alarming as another: same severity text, scores at least as
  high, flags kept, and a publication that is at least as recent.
\<close>

definition at_least :: "signals \<Rightarrow> signals \<Rightarrow> bool" where
  "at_least a b \<longleftrightarrow>
     severity a = severity b \<and>
     float_or_zero (cvss_score b) \<le> float_or_zero (cvss_score a) \<and>
     float_or_zero (epss_score b) \<le> float_or_zero (epss_score a) \<and>
     (is_kev b \<longrightarrow> is_kev a) \<and> (has_nuclei_template b \<longrightarrow> has_nuclei_template a) \<and>
     (has_public_poc b \<longrightarrow> has_public_poc a) \<and>
     (case published_at b of None \<Rightarrow> True
      | Some pb \<Rightarrow> (case published_at a of None \<Rightarrow> False | Some pa \<Rightarrow> instant pb \<le> instant pa))"

lemma factor_sum_mono:
  assumes "at_least a b"
  shows "factor_sum (compute_priority_factors now b) \<le> factor_sum (compute_priority_factors now a)"
proof -
  have e: "py_round (float_or_zero (epss_score b) * 40) \<le> py_round (float_or_zero (epss_score a) * 40)"
    using assms by (intro py_round_mono) (simp add: at_least_def)
  have c: "cvss_points s (float_or_zero (cvss_score b)) \<le> cvss_points s (float_or_zero (cvss_score a))" for s
    using assms by (intro cvss_points_mono) (simp add: at_least_def)
  have r: "(case published_at b of None \<Rightarrow> 0 | Some p \<Rightarrow> recency_points (days_between now (assume_utc p)))
      \<le> (case published_at a of None \<Rightarrow> 0 | Some p \<Rightarrow> recency_points (days_between now (assume_utc p)))"
    using assms
    by (auto simp: at_least_def recency_points_def days_between_def day_us_def split: option.splits
        intro: zdiv_mono1)
  show ?thesis
    using assms e c [of "py_upper (str_or_empty (severity b))"] r
    by (auto simp: at_least_def factors_points factor_sum_def)
qed

section \<open>Properties\<close>

text \<open>The score explained: the stored score is the sum of the five contributions shown to the
  user, clamped to 0..100, each contribution stays in its documented band (CVSS and KEV at most 25,
  recency at most 10, exploitability at most 8 and never the sum of both flags, EPSS at most 40 for a
  probability), and every score maps to one of the four labels with thresholds 80, 60 and 40.\<close>

theorem score_is_capped_sum_of_factors:
  fixes now sg
  assumes "0 \<le> float_or_zero (epss_score sg)" and "float_or_zero (epss_score sg) \<le> 1"
  shows "let f = compute_priority_factors now sg; s = compute_priority_score now sg in
     s = min 100 (factor_sum f) \<and> 0 \<le> s \<and> s \<le> 100 \<and>
     0 \<le> epss_contribution f \<and> epss_contribution f \<le> EPSS_WEIGHT_MAX \<and>
     cvss_contribution f \<in> {0, 4, 10, 18, 25} \<and> kev_contribution f \<in> {0, KEV_WEIGHT} \<and>
     recency_contribution f \<in> {0, 3, 6, RECENCY_WEIGHT_MAX} \<and>
     exploitability_contribution f \<in> {0, EXPL_WEIGHT_POC, EXPL_WEIGHT_NUCLEI} \<and>
     (fst (get_priority_label s) = ''CRITICAL PRIORITY'' \<longleftrightarrow> 80 \<le> factor_sum f)"
proof -
  let ?f = "compute_priority_factors now sg"
  have e: "0 \<le> epss_contribution ?f" "epss_contribution ?f \<le> 40"
  proof -
    show "0 \<le> epss_contribution ?f"
      using assms(1) by (simp add: factors_points py_round_nonneg)
    have "py_round (float_or_zero (epss_score sg) * 40) \<le> py_round (of_int 40)"
      using assms(2) by (intro py_round_mono) simp
    then show "epss_contribution ?f \<le> 40"
      by (simp only: py_round_of_int factors_points factors.simps)
  qed
  have b: "cvss_contribution ?f \<in> {0, 4, 10, 18, 25}" "kev_contribution ?f \<in> {0, 25}"
    "recency_contribution ?f \<in> {0, 3, 6, 10}" "exploitability_contribution ?f \<in> {0, 5, 8}"
    by (auto simp: factors_points cvss_points_def recency_points_def split: option.splits)
  have pos: "0 \<le> factor_sum ?f" using e b by (auto simp: factor_sum_def)
  then show ?thesis using e b
    by (simp add: score_factors weight_defs get_priority_label_def Let_def)
qed

definition log4shell :: signals where
  "log4shell = \<lparr>cvss_score = Some 10, severity = Some ''critical'', epss_score = Some (975/1000),
     is_kev = True, published_at = Some (DT 0 None), has_public_poc = True, has_nuclei_template = True\<rparr>"

theorem score_is_capped_sum_of_factors_witness:
  "let f = compute_priority_factors (utc (40 * day_us)) log4shell;
       s = compute_priority_score (utc (40 * day_us)) log4shell in
     s = min 100 (factor_sum f) \<and> factor_sum f = 103 \<and> s = 100"
proof -
  have r: "0 \<le> float_or_zero (epss_score log4shell)" "float_or_zero (epss_score log4shell) \<le> 1"
    by (simp_all add: log4shell_def float_or_zero_def)
  have "factor_sum (compute_priority_factors (utc (40 * day_us)) log4shell) = 103"
    by code_simp
  then show ?thesis
    using score_is_capped_sum_of_factors [OF r, of "utc (40 * day_us)"] by (simp add: Let_def)
qed

text \<open>The score never drops when a CVE gets more alarming: a higher CVSS or EPSS score, entering
  the KEV catalogue, a public PoC, a Nuclei template or a later publication date leave the score the
  same or raise it, at any moment of evaluation.\<close>

theorem priority_score_monotone:
  assumes "at_least a b"
  shows "compute_priority_score now b \<le> compute_priority_score now a"
  using factor_sum_mono [OF assms, of now] by (simp add: score_factors min_def max_def)

theorem priority_score_monotone_witness:
  "compute_priority_score (utc (40 * day_us)) (log4shell\<lparr>epss_score := Some (1/10), is_kev := False\<rparr>)
     \<le> compute_priority_score (utc (40 * day_us)) log4shell"
  by (rule priority_score_monotone) (simp add: at_least_def log4shell_def float_or_zero_def)

end
