(* ===== verification/Py_Json.thy ===== *)
theory Py_Json
  imports Py_Text
begin

text \<open>
  JSON values as Python holds them after \<open>json.loads\<close>: a dict is the list of its entries in
  insertion order. Also \<open>dict.get\<close>, \<open>d[k] = v\<close>, the truth value of a value, and calendar
  dates with their ISO text.
\<close>

datatype json =
    JNull
  | JBool bool
  | JInt int
  | JFloat rat
  | JStr string
  | JArr "json list"
  | JObj "(string \<times> json) list"

text \<open>\<open>bool(v)\<close>.\<close>

fun json_truthy :: "json \<Rightarrow> bool" where
  "json_truthy JNull = False"
| "json_truthy (JBool b) = b"
| "json_truthy (JInt n) = (n \<noteq> 0)"
| "json_truthy (JFloat x) = (x \<noteq> 0)"
| "json_truthy (JStr s) = (s \<noteq> [])"
| "json_truthy (JArr xs) = (xs \<noteq> [])"
| "json_truthy (JObj kvs) = (kvs \<noteq> [])"

text \<open>\<open>d.get(k)\<close>, \<open>d.get(k, default)\<close> and \<open>d[k] = v\<close> of a dict.\<close>

definition obj_get :: "(string \<times> json) list \<Rightarrow> string \<Rightarrow> json option" where
  "obj_get kvs k = map_of kvs k"

definition get_or :: "(string \<times> json) list \<Rightarrow> string \<Rightarrow> json \<Rightarrow> json" where
  "get_or kvs k d = (case obj_get kvs k of None \<Rightarrow> d | Some v \<Rightarrow> v)"

fun dict_put :: "'k \<Rightarrow> 'v \<Rightarrow> ('k \<times> 'v) list \<Rightarrow> ('k \<times> 'v) list" where
  "dict_put k v [] = [(k, v)]"
| "dict_put k v ((k', v') # d) = (if k' = k then (k, v) # d else (k', v') # dict_put k v d)"

lemma map_of_dict_put [simp]: "map_of (dict_put k v d) = (map_of d)(k \<mapsto> v)"
  by (induction d) (auto simp: fun_eq_iff)

lemma keys_dict_put: "fst ` set (dict_put k v d) = insert k (fst ` set d)"
proof (induction d)
  case Nil
  then show ?case by simp
next
  case (Cons e d)
  then show ?case by (cases e; cases "fst e = k") (simp_all add: insert_commute)
qed

lemma distinct_dict_put [simp]: "distinct (map fst (dict_put k v d)) = distinct (map fst d)"
proof (induction d)
  case Nil
  then show ?case by simp
next
  case (Cons e d)
  obtain k' v' where e: "e = (k', v')" by (cases e)
  have "k' \<in> set (map fst (dict_put k v d)) \<longleftrightarrow> k' = k \<or> k' \<in> set (map fst d)"
    using keys_dict_put [of k v d] by (simp only: set_map insert_iff)
  then show ?case using Cons.IH by (simp add: e image_iff)
qed

text \<open>An optional value as JSON.\<close>

definition jopt :: "('a \<Rightarrow> json) \<Rightarrow> 'a option \<Rightarrow> json" where
  "jopt f x = (case x of None \<Rightarrow> JNull | Some v \<Rightarrow> f v)"

lemma jopt_simps [simp]: "jopt f None = JNull" "jopt f (Some v) = f v"
  by (simp_all add: jopt_def)

section \<open>Calendar dates\<close>

text \<open>
  Proleptic Gregorian dates as days since 1970-01-01: the year starts in March, so that the leap
  day is its last day, and 400 years are 146097 days.
\<close>

definition leap_year :: "int \<Rightarrow> bool" where
  "leap_year y \<longleftrightarrow> y mod 4 = 0 \<and> (y mod 100 \<noteq> 0 \<or> y mod 400 = 0)"

definition days_in_month :: "int \<Rightarrow> int \<Rightarrow> int" where
  "days_in_month y m =
     (if m = 2 then (if leap_year y then 29 else 28)
      else if m \<in> {4, 6, 9, 11} then 30 else 31)"

definition days_from_civil :: "int \<Rightarrow> int \<Rightarrow> int \<Rightarrow> int" where
  "days_from_civil y m d =
     (let y' = (if m \<le> 2 then y - 1 else y); mp = (m + 9) mod 12
      in 365 * y' + y' div 4 - y' div 100 + y' div 400 + (153 * mp + 2) div 5 + d - 1 - 719468)"

definition civil_from_days :: "int \<Rightarrow> int \<times> int \<times> int" where
  "civil_from_days n =
     (let z = n + 719468; era = z div 146097; doe = z mod 146097;
          yoe = (doe - doe div 1460 + doe div 36524 - doe div 146096) div 365;
          doy = doe - (365 * yoe + yoe div 4 - yoe div 100); mp = (5 * doy + 2) div 153;
          d = doy - (153 * mp + 2) div 5 + 1; m = (if mp < 10 then mp + 3 else mp - 9)
      in (yoe + era * 400 + (if m \<le> 2 then 1 else 0), m, d))"

definition pad_left :: "nat \<Rightarrow> string \<Rightarrow> string" where
  "pad_left n s = replicate (n - length s) (CHR ''0'') @ s"

text \<open>\<open>date.isoformat()\<close> and \<open>str(date)\<close>.\<close>

definition date_isoformat :: "int \<Rightarrow> string" where
  "date_isoformat n = (case civil_from_days n of (y, m, d) \<Rightarrow>
     pad_left 4 (py_str_int y) @ ''-'' @ pad_left 2 (py_str_int m) @ ''-'' @ pad_left 2 (py_str_int d))"

definition digits_of :: "string \<Rightarrow> int option" where
  "digits_of s = (if py_isdigit s then Some (digits_val s) else None)"

definition make_date :: "int option \<Rightarrow> int option \<Rightarrow> int option \<Rightarrow> int option" where
  "make_date y m d = (case (y, m, d) of
      (Some y, Some m, Some d) \<Rightarrow>
        if 1 \<le> y \<and> 1 \<le> m \<and> m \<le> 12 \<and> 1 \<le> d \<and> d \<le> days_in_month y m
        then Some (days_from_civil y m d) else None
    | _ \<Rightarrow> None)"

text \<open>
  \<open>date.fromisocalendar\<close>: ISO week \<open>w\<close> and weekday \<open>d\<close> of a year. Week 1 holds 4 January; day 0
  of the epoch is a Thursday.
\<close>

definition iso_week1 :: "int \<Rightarrow> int" where
  "iso_week1 y = (let j4 = days_from_civil y 1 4 in j4 - (j4 + 3) mod 7)"

definition make_iso_week :: "int option \<Rightarrow> int option \<Rightarrow> int option \<Rightarrow> int option" where
  "make_iso_week y w d = (case (y, w, d) of
      (Some y, Some w, Some d) \<Rightarrow>
        (let n = iso_week1 y + 7 * (w - 1) + d - 1 in
         if 1 \<le> y \<and> 1 \<le> w \<and> 1 \<le> d \<and> d \<le> 7 \<and> 7 * w \<le> iso_week1 (y + 1) - iso_week1 y
         then Some n else None)
    | _ \<Rightarrow> None)"

text \<open>\<open>date.fromisoformat\<close> of Python 3.12; \<open>None\<close> is the \<open>ValueError\<close>.\<close>

definition date_fromisoformat :: "string \<Rightarrow> int option" where
  "date_fromisoformat s =
     (let y = digits_of (take 4 s); n = length s in
      if n = 10 \<and> s ! 4 = CHR ''-'' \<and> s ! 5 \<noteq> CHR ''W'' \<and> s ! 7 = CHR ''-''
      then make_date y (digits_of (take 2 (drop 5 s))) (digits_of (drop 8 s))
      else if n = 8 \<and> s ! 4 \<noteq> CHR ''W'' \<and> s ! 4 \<noteq> CHR ''-''
      then make_date y (digits_of (take 2 (drop 4 s))) (digits_of (drop 6 s))
      else if n = 8 \<and> s ! 4 = CHR ''-'' \<and> s ! 5 = CHR ''W''
      then make_iso_week y (digits_of (drop 6 s)) (Some 1)
      else if n = 10 \<and> s ! 4 = CHR ''-'' \<and> s ! 5 = CHR ''W'' \<and> s ! 8 = CHR ''-''
      then make_iso_week y (digits_of (take 2 (drop 6 s))) (digits_of (drop 9 s))
      else if n = 7 \<and> s ! 4 = CHR ''W''
      then make_iso_week y (digits_of (drop 5 s)) (Some 1)
      else if n = 8 \<and> s ! 4 = CHR ''W''
      then make_iso_week y (digits_of (take 2 (drop 5 s))) (digits_of (drop 7 s))
      else None)"

lemma fromisoformat_samples:
  "date_fromisoformat ''1970-01-01'' = Some 0"
  "date_fromisoformat ''2024-02-29'' = Some 19782"
  "date_fromisoformat ''2023-02-29'' = None"
  "date_fromisoformat ''2024-W09-4'' = Some 19782"
  "date_fromisoformat ''20240229'' = Some 19782"
  "date_isoformat 19782 = ''2024-02-29''"
  by code_simp+

end
