(* ===== verification/Database.thy ===== *)
theory Database
  imports Py_Json Py_Time
begin

text \<open>
  The tables of the database, one record per row with the columns of the migrations
  \<open>alembic/versions/0001\<close> to \<open>0012\<close> and the CHECK constraints as predicates. A table is the list
  of its rows and the last value of its serial column. Timestamps are microseconds of UTC, dates
  are days since 1970-01-01, NUMERIC is a rational number. A statement that violates a constraint
  raises and its transaction is rolled back.
\<close>

section \<open>Tables\<close>

record 'r table =
  t_rows :: "'r list"
  t_serial :: int

definition empty_table :: "'r table" where
  "empty_table = \<lparr>t_rows = [], t_serial = 0\<rparr>"

text \<open>\<open>INSERT ... RETURNING\<close>: the row takes the next value of the serial column.\<close>

definition insert_row :: "(int \<Rightarrow> 'r) \<Rightarrow> 'r table \<Rightarrow> 'r table \<times> 'r" where
  "insert_row mk t =
     (let n = t_serial t + 1; r = mk n in (\<lparr>t_rows = t_rows t @ [r], t_serial = n\<rparr>, r))"

definition update_rows :: "('r \<Rightarrow> bool) \<Rightarrow> ('r \<Rightarrow> 'r) \<Rightarrow> 'r table \<Rightarrow> 'r table" where
  "update_rows p f t = t\<lparr>t_rows := sql_update p f (t_rows t)\<rparr>"

definition delete_rows :: "('r \<Rightarrow> bool) \<Rightarrow> 'r table \<Rightarrow> 'r table" where
  "delete_rows p t = t\<lparr>t_rows := sql_delete p (t_rows t)\<rparr>"

text \<open>A serial primary key is fresh and never reused.\<close>

definition keyed :: "('r \<Rightarrow> int) \<Rightarrow> 'r table \<Rightarrow> bool" where
  "keyed key t \<longleftrightarrow> distinct (map key (t_rows t)) \<and> (\<forall>r \<in> set (t_rows t). key r \<le> t_serial t)"

lemma keyed_empty [simp]: "keyed key empty_table"
  by (simp add: keyed_def empty_table_def)

lemma keyed_insert: "keyed key t \<Longrightarrow> key (mk (t_serial t + 1)) = t_serial t + 1 \<Longrightarrow>
   keyed key (fst (insert_row mk t))"
  by (fastforce simp: keyed_def insert_row_def Let_def)

lemma keyed_update: "keyed key t \<Longrightarrow> (\<And>r. key (f r) = key r) \<Longrightarrow> keyed key (update_rows p f t)"
  by (auto simp: keyed_def update_rows_def sql_update_map in_sql_update)

lemma keyed_delete: "keyed key t \<Longrightarrow> keyed key (delete_rows p t)"
  by (auto simp: keyed_def delete_rows_def sql_delete_def distinct_map_filter)

lemma t_rows_insert [simp]: "t_rows (fst (insert_row mk t)) = t_rows t @ [snd (insert_row mk t)]"
  by (simp add: insert_row_def Let_def)

lemma snd_insert_row: "snd (insert_row mk t) = mk (t_serial t + 1)"
  by (simp add: insert_row_def Let_def)

lemma t_rows_update [simp]: "t_rows (update_rows p f t) = sql_update p f (t_rows t)"
  by (simp add: update_rows_def)

lemma t_rows_delete [simp]: "t_rows (delete_rows p t) = sql_delete p (t_rows t)"
  by (simp add: delete_rows_def)

lemma keyed_unique:
  "keyed key t \<Longrightarrow> r \<in> set (t_rows t) \<Longrightarrow> r' \<in> set (t_rows t) \<Longrightarrow> key r = key r' \<Longrightarrow> r = r'"
  by (auto simp: keyed_def distinct_map dest: inj_onD)

text \<open>The rows that a set-valued query walks over, found again by their key.\<close>

lemma keyed_fetch:
  assumes "keyed key t" and "r \<in> set (t_rows t)"
  shows "fetchrow (\<lambda>x. key x = key r) (t_rows t) = Some r"
proof (cases "fetchrow (\<lambda>x. key x = key r) (t_rows t)")
  case None
  then show ?thesis using assms by (auto simp: fetchrow_None)
next
  case (Some a)
  then show ?thesis using keyed_unique [OF assms(1) _ assms(2)] fetchrow_Some [OF Some] by simp
qed

section \<open>Rows\<close>

record cve_row =
  cv_id :: int
  cv_cve_id :: string
  cv_source :: string
  cv_raw_payload :: json
  cv_cvss_v3_score :: "rat option"
  cv_cvss_v3_vector :: "string option"
  cv_cvss_v2_score :: "rat option"
  cv_severity :: "string option"
  cv_epss_score :: "rat option"
  cv_epss_percentile :: "rat option"
  cv_epss_updated_at :: "int option"
  cv_is_kev :: bool
  cv_kev_added_date :: "int option"
  cv_published_at :: int
  cv_last_modified_at :: int
  cv_created_at :: int
  cv_updated_at :: int
  cv_has_public_poc :: "bool option"
  cv_has_nuclei_template :: "bool option"
  cv_exploitability_updated_at :: "int option"

record product_row =
  pr_id :: int
  pr_name :: string
  pr_vendor :: "string option"
  pr_version :: "string option"
  pr_normalized_cpe :: "string option"
  pr_cpe_confidence :: "string option"
  pr_sync_status :: string
  pr_last_synced_at :: "int option"
  pr_cve_count :: int
  pr_critical_count :: int
  pr_created_at :: int
  pr_updated_at :: int
  pr_is_deleted :: bool
  pr_deleted_at :: "int option"
  pr_deleted_by :: "string option"

record cpe_resolution_row =
  cr_id :: int
  cr_input_string :: string
  cr_resolved_cpe :: string
  cr_confidence :: string
  cr_match_score :: "rat option"
  cr_resolved_at :: int
  cr_resolved_by :: string

record finding_row =
  fd_id :: int
  fd_product_id :: int
  fd_cve_id :: string
  fd_status :: string
  fd_match_confidence :: "string option"
  fd_match_reason :: "string option"
  fd_priority_score :: "rat option"
  fd_assigned_to :: "string option"
  fd_due_date :: "int option"
  fd_notes :: "string option"
  fd_created_at :: int
  fd_updated_at :: int

record history_row =
  fh_id :: int
  fh_finding_id :: int
  fh_old_status :: "string option"
  fh_new_status :: string
  fh_changed_by :: string
  fh_changed_at :: int
  fh_reason :: "string option"

record risk_row =
  ra_id :: int
  ra_finding_id :: int
  ra_requested_by :: string
  ra_approved_by :: "string option"
  ra_justification :: string
  ra_expires_at :: int
  ra_status :: string
  ra_created_at :: int
  ra_decided_at :: "int option"

record audit_row =
  al_id :: int
  al_action :: string
  al_actor :: string
  al_target_type :: "string option"
  al_target_id :: "string option"
  al_metadata :: json
  al_ts :: int
  al_actor_email :: "string option"
  al_actor_role :: "string option"
  al_diff :: "json option"
  al_ip_address :: "string option"
  al_user_agent :: "string option"

record job_row =
  sj_id :: int
  sj_job_type :: string
  sj_target_id :: "string option"
  sj_status :: string
  sj_priority :: int
  sj_attempts :: int
  sj_max_attempts :: int
  sj_scheduled_at :: int
  sj_started_at :: "int option"
  sj_completed_at :: "int option"
  sj_locked_until :: "int option"
  sj_error_message :: "string option"
  sj_metadata :: json

record sync_state_row =
  ss_id :: int
  ss_source :: string
  ss_last_success_at :: "int option"
  ss_last_mod_date :: "int option"
  ss_total_ingested :: int
  ss_last_error :: "string option"
  ss_updated_at :: int

record epss_row =
  eh_id :: int
  eh_cve_id :: string
  eh_score :: rat
  eh_percentile :: "rat option"
  eh_recorded_at :: int

record webhook_row =
  wh_id :: int
  wh_name :: string
  wh_url :: string
  wh_secret :: "string option"
  wh_event_types :: "string list"
  wh_min_priority :: "int option"
  wh_enabled :: bool
  wh_created_by :: "string option"
  wh_created_at :: int
  wh_updated_at :: int
  wh_last_success_at :: "int option"
  wh_last_error_at :: "int option"
  wh_last_error :: "string option"
  wh_secret_encrypted :: "string option"

record delivery_row =
  wd_id :: int
  wd_webhook_id :: int
  wd_event_type :: string
  wd_payload :: json
  wd_dedup_key :: "string option"
  wd_status_code :: "int option"
  wd_response_body :: "string option"
  wd_attempts :: int
  wd_max_attempts :: int
  wd_scheduled_at :: int
  wd_delivered_at :: "int option"
  wd_last_error :: "string option"
  wd_locked_until :: "int option"
  wd_created_at :: int

record user_row =
  us_id :: int
  us_email :: string
  us_password_hash :: string
  us_role :: string
  us_is_active :: bool
  us_created_at :: int
  us_last_login_at :: "int option"

section \<open>CHECK constraints\<close>

definition FINDING_STATUSES :: "string list" where
  "FINDING_STATUSES = [''open'', ''in_review'', ''false_positive'', ''accepted_risk'', ''planned'',
     ''remediated'', ''closed'']"

definition finding_check :: "finding_row \<Rightarrow> bool" where
  "finding_check f \<longleftrightarrow> fd_status f \<in> set FINDING_STATUSES \<and>
     (case fd_match_confidence f of None \<Rightarrow> True | Some c \<Rightarrow> c \<in> {''certain'', ''uncertain''})"

definition risk_check :: "risk_row \<Rightarrow> bool" where
  "risk_check r \<longleftrightarrow> 10 \<le> length (ra_justification r) \<and>
     ra_status r \<in> {''pending'', ''approved'', ''rejected'', ''expired''}"

definition job_check :: "job_row \<Rightarrow> bool" where
  "job_check j \<longleftrightarrow>
     sj_job_type j \<in> {''product_sync'', ''bulk_ingest'', ''epss_refresh'', ''kev_refresh'', ''delta_sync''} \<and>
     sj_status j \<in> {''pending'', ''running'', ''completed'', ''failed'', ''dead''}"

definition job_unique :: "job_row list \<Rightarrow> bool" where
  "job_unique js \<longleftrightarrow>
     distinct (map (\<lambda>j. (sj_job_type j, sj_target_id j))
       (filter (\<lambda>j. sj_status j \<in> {''pending'', ''running''} \<and> sj_target_id j \<noteq> None) js))"

definition product_check :: "product_row \<Rightarrow> bool" where
  "product_check p \<longleftrightarrow> pr_sync_status p \<in> {''pending'', ''syncing'', ''synced'', ''error''} \<and>
     (case pr_cpe_confidence p of None \<Rightarrow> True | Some c \<Rightarrow> c \<in> {''certain'', ''uncertain'', ''manual''})"

definition cve_check :: "cve_row \<Rightarrow> bool" where
  "cve_check c \<longleftrightarrow> cv_source c \<in> {''vulncheck_nvd'', ''nvd_api'', ''circl''} \<and>
     (case cv_severity c of None \<Rightarrow> True
      | Some s \<Rightarrow> s \<in> {''CRITICAL'', ''HIGH'', ''MEDIUM'', ''LOW'', ''NONE''})"

definition sync_state_check :: "sync_state_row \<Rightarrow> bool" where
  "sync_state_check s \<longleftrightarrow> ss_source s \<in> {''vulncheck'', ''nvd_api''}"

definition webhook_check :: "webhook_row \<Rightarrow> bool" where
  "webhook_check w \<longleftrightarrow>
     (case wh_min_priority w of None \<Rightarrow> True | Some n \<Rightarrow> 0 \<le> n \<and> n \<le> 100)"

definition user_check :: "user_row \<Rightarrow> bool" where
  "user_check u \<longleftrightarrow> us_email u = py_lower (us_email u) \<and> us_role u \<in> {''admin'', ''analyst'', ''viewer''}"

section \<open>The database\<close>

record db =
  db_cves :: "cve_row table"
  db_products :: "product_row table"
  db_cpe_resolutions :: "cpe_resolution_row table"
  db_findings :: "finding_row table"
  db_history :: "history_row table"
  db_risks :: "risk_row table"
  db_audit :: "audit_row table"
  db_jobs :: "job_row table"
  db_sync_state :: "sync_state_row table"
  db_epss_history :: "epss_row table"
  db_webhooks :: "webhook_row table"
  db_deliveries :: "delivery_row table"
  db_users :: "user_row table"

definition seed_sync_state :: "int \<Rightarrow> sync_state_row table" where
  "seed_sync_state now =
     \<lparr>t_rows = map (\<lambda>(i, s). \<lparr>ss_id = i, ss_source = s, ss_last_success_at = None,
        ss_last_mod_date = None, ss_total_ingested = 0, ss_last_error = None, ss_updated_at = now\<rparr>)
        [(1, ''vulncheck''), (2, ''nvd_api'')], t_serial = 2\<rparr>"

definition empty_db :: "int \<Rightarrow> db" where
  "empty_db now = \<lparr>db_cves = empty_table, db_products = empty_table, db_cpe_resolutions = empty_table,
     db_findings = empty_table, db_history = empty_table, db_risks = empty_table,
     db_audit = empty_table, db_jobs = empty_table, db_sync_state = seed_sync_state now,
     db_epss_history = empty_table, db_webhooks = empty_table, db_deliveries = empty_table,
     db_users = empty_table\<rparr>"

text \<open>\<open>NOW()\<close> is an argument of the operations; \<open>CURRENT_DATE\<close> is its day.\<close>

definition current_date :: "int \<Rightarrow> int" where
  "current_date now = now div day_us"

definition CheckViolation :: py_exn where
  "CheckViolation = OtherError ''CheckViolationError''"

definition NotNullViolation :: py_exn where
  "NotNullViolation = OtherError ''NotNullViolationError''"

definition UniqueViolation :: py_exn where
  "UniqueViolation = OtherError ''UniqueViolationError''"

definition ForeignKeyViolation :: py_exn where
  "ForeignKeyViolation = OtherError ''ForeignKeyViolationError''"

section \<open>Joins\<close>

definition find_finding :: "db \<Rightarrow> int \<Rightarrow> string \<Rightarrow> finding_row option" where
  "find_finding d pid cve =
     fetchrow (\<lambda>f. fd_product_id f = pid \<and> fd_cve_id f = cve) (t_rows (db_findings d))"

definition finding_by_id :: "db \<Rightarrow> int \<Rightarrow> finding_row option" where
  "finding_by_id d i = fetchrow (\<lambda>f. fd_id f = i) (t_rows (db_findings d))"

definition cve_by_id :: "db \<Rightarrow> string \<Rightarrow> cve_row option" where
  "cve_by_id d i = fetchrow (\<lambda>c. cv_cve_id c = i) (t_rows (db_cves d))"

definition product_by_id :: "db \<Rightarrow> int \<Rightarrow> product_row option" where
  "product_by_id d i = fetchrow (\<lambda>p. pr_id p = i) (t_rows (db_products d))"

lemmas find_finding_Some = fetchrow_Some [of "\<lambda>f. fd_product_id f = pid \<and> fd_cve_id f = cve"
    "t_rows (db_findings d)" for pid cve d, folded find_finding_def]

section \<open>Integrity\<close>

definition findings_ok :: "db \<Rightarrow> bool" where
  "findings_ok d \<longleftrightarrow> keyed fd_id (db_findings d) \<and>
     list_all finding_check (t_rows (db_findings d)) \<and>
     distinct (map (\<lambda>f. (fd_product_id f, fd_cve_id f)) (t_rows (db_findings d)))"

definition history_ok :: "db \<Rightarrow> bool" where
  "history_ok d \<longleftrightarrow> keyed fh_id (db_history d) \<and>
     list_all (\<lambda>h. fh_finding_id h \<in> fd_id ` set (t_rows (db_findings d)) \<and>
       fh_new_status h \<in> set FINDING_STATUSES) (t_rows (db_history d))"

definition risks_ok :: "db \<Rightarrow> bool" where
  "risks_ok d \<longleftrightarrow> keyed ra_id (db_risks d) \<and>
     list_all (\<lambda>r. risk_check r \<and> ra_finding_id r \<in> fd_id ` set (t_rows (db_findings d)))
       (t_rows (db_risks d))"

definition jobs_ok :: "db \<Rightarrow> bool" where
  "jobs_ok d \<longleftrightarrow> keyed sj_id (db_jobs d) \<and> list_all job_check (t_rows (db_jobs d)) \<and>
     job_unique (t_rows (db_jobs d))"

end
