(* ===== verification/Py_Net.thy ===== *)
theory Py_Net
  imports Py_Text "HOL-Library.Word"
begin

unbundle bit_operations_syntax

text \<open>
  The parts of Python's \<open>ipaddress\<close> and \<open>urllib.parse\<close> that the code uses: parsing an
  address, membership in a network, and splitting a URL into scheme, network location and host
  name. \<open>None\<close> is the \<open>ValueError\<close> of the library.
\<close>

section \<open>Addresses\<close>

datatype ip_addr = IPv4 "32 word" | IPv6 "128 word"

definition octet :: "string \<Rightarrow> int option" where
  "octet s =
     (if s = [] \<or> \<not> list_all is_digit s \<or> length s > 3 then None
      else if s \<noteq> ''0'' \<and> hd s = CHR ''0'' then None
      else let n = digits_val s in if n > 255 then None else Some n)"

definition parse_ipv4 :: "string \<Rightarrow> int option" where
  "parse_ipv4 s =
     (case map octet (py_split CHR ''.'' s) of
        [Some a, Some b, Some c, Some d] \<Rightarrow> Some (((a * 256 + b) * 256 + c) * 256 + d)
      | _ \<Rightarrow> None)"

definition hex_val :: "char \<Rightarrow> int option" where
  "hex_val c =
     (if is_digit c then Some (of_char c - 48)
      else if CHR ''a'' \<le> c \<and> c \<le> CHR ''f'' then Some (of_char c - 87)
      else if CHR ''A'' \<le> c \<and> c \<le> CHR ''F'' then Some (of_char c - 55)
      else None)"

fun hex_digits :: "int \<Rightarrow> string \<Rightarrow> int option" where
  "hex_digits n [] = Some n"
| "hex_digits n (c # cs) =
     (case hex_val c of None \<Rightarrow> None | Some d \<Rightarrow> hex_digits (16 * n + d) cs)"

definition hextet :: "string \<Rightarrow> int option" where
  "hextet s = (if length s > 4 then None else hex_digits 0 s)"

text \<open>
  \<open>_ip_int_from_string\<close>: a trailing dotted quad becomes two groups; at most one empty group
  inside the list is the double colon; empty first and last groups only next to it.
\<close>

fun collect :: "'a option list \<Rightarrow> 'a list option" where
  "collect [] = Some []"
| "collect (None # xs) = None"
| "collect (Some x # xs) = map_option ((#) x) (collect xs)"

definition groups :: "string list \<Rightarrow> int list option" where
  "groups parts =
     (if parts \<noteq> [] \<and> py_in ''.'' (last parts) then
        (case (collect (map hextet (butlast parts)), parse_ipv4 (last parts)) of
           (Some gs, Some w) \<Rightarrow> Some (gs @ [w div 65536, w mod 65536])
         | _ \<Rightarrow> None)
      else collect (map hextet parts))"

text \<open>The positions of the empty groups strictly inside the list.\<close>

definition inner_empty :: "string list \<Rightarrow> nat list" where
  "inner_empty parts = filter (\<lambda>i. parts ! i = []) [1..<length parts - 1]"

definition groups_value :: "int list \<Rightarrow> int" where
  "groups_value gs = (foldl (\<lambda>n g. 65536 * n + g) 0 gs)"

definition parse_ipv6 :: "string \<Rightarrow> int option" where
  "parse_ipv6 s =
     (let parts = py_split CHR '':'' s;
          quad = py_in ''.'' (last parts);
          n = length parts + (if quad then 1 else 0) in
      if length parts < 3 \<or> n > 9 then None
      else case inner_empty parts of
        [] \<Rightarrow>
          if n \<noteq> 8 \<or> hd parts = [] \<or> last parts = [] then None
          else map_option groups_value (groups parts)
      | [i] \<Rightarrow>
          (let hi = (if hd parts = [] then drop 1 (take i parts) else take i parts);
               lo = (if last parts = [] then butlast (drop (i + 1) parts) else drop (i + 1) parts) in
           if (hd parts = [] \<and> hi \<noteq> []) \<or> (last parts = [] \<and> lo \<noteq> []) then None
           else (case (groups hi, groups lo) of
             (Some gh, Some gl) \<Rightarrow>
               if length gh + length gl \<ge> 8 then None
               else Some (groups_value (gh @ replicate (8 - (length gh + length gl)) 0 @ gl))
           | _ \<Rightarrow> None))
      | _ \<Rightarrow> None)"

text \<open>\<open>partition(sep)\<close>: text before the first separator, whether it occurs, text after it.\<close>

fun py_partition :: "char \<Rightarrow> string \<Rightarrow> string \<times> bool \<times> string" where
  "py_partition d [] = ([], False, [])"
| "py_partition d (c # cs) =
     (if c = d then ([], True, cs)
      else let (a, f, b) = py_partition d cs in (c # a, f, b))"

definition after_last :: "char \<Rightarrow> string \<Rightarrow> string" where
  "after_last d s = last (py_split d s)"

definition ip_address :: "string \<Rightarrow> ip_addr option" where
  "ip_address s =
     (if py_in ''/'' s then None
      else case parse_ipv4 s of
        Some w \<Rightarrow> Some (IPv4 (word_of_int w))
      | None \<Rightarrow>
        (let (addr, sep, scope) = py_partition CHR ''%'' s in
         if sep \<and> (scope = [] \<or> py_in ''%'' scope) then None
         else map_option (\<lambda>w. IPv6 (word_of_int w)) (parse_ipv6 addr)))"

section \<open>Networks\<close>

text \<open>A network is its base address and its prefix length.\<close>

definition in_net :: "'a::len word \<Rightarrow> 'a word \<times> nat \<Rightarrow> bool" where
  "in_net ip net =
     (let k = LENGTH('a) - snd net in drop_bit k ip = drop_bit k (fst net))"

lemma div_eq_iff_bounds: "0 < (m::nat) \<Longrightarrow> x div m = q \<longleftrightarrow> m * q \<le> x \<and> x < m * q + m"
proof
  assume "0 < m" and "x div m = q"
  then show "m * q \<le> x \<and> x < m * q + m"
    using dividend_less_times_div [of m x] by auto
next
  assume "0 < m" and "m * q \<le> x \<and> x < m * q + m"
  then show "x div m = q" by (intro div_nat_eqI) (simp_all add: mult.commute)
qed

lemma in_net_range:
  fixes ip base :: "'a::len word"
  assumes "p \<le> LENGTH('a)" and "2 ^ (LENGTH('a) - p) dvd unat base"
  shows "in_net ip (base, p) \<longleftrightarrow>
     unat base \<le> unat ip \<and> unat ip < unat base + 2 ^ (LENGTH('a) - p)"
proof -
  let ?m = "2 ^ (LENGTH('a) - p) :: nat"
  obtain q where q: "unat base = ?m * q" using assms(2) by (auto simp: dvd_def)
  have "in_net ip (base, p) \<longleftrightarrow> unat ip div ?m = unat base div ?m"
    unfolding in_net_def Let_def fst_conv snd_conv word_unat_eq_iff unat_drop_bit_eq
    by (simp only: drop_bit_nat_def)
  also have "\<dots> \<longleftrightarrow> unat ip div ?m = q" by (simp add: q)
  also have "\<dots> \<longleftrightarrow> ?m * q \<le> unat ip \<and> unat ip < ?m * q + ?m"
    by (rule div_eq_iff_bounds) simp
  finally show ?thesis by (simp add: q)
qed

section \<open>URLs\<close>

record url_parts =
  url_scheme :: string
  url_netloc :: string

definition scheme_char :: "char \<Rightarrow> bool" where
  "scheme_char c \<longleftrightarrow> is_lower c \<or> is_upper c \<or> is_digit c \<or> c \<in> {CHR ''+'', CHR ''-'', CHR ''.''}"

definition clean_url :: "string \<Rightarrow> string" where
  "clean_url u = filter (\<lambda>c. c \<notin> {CHR 0x09, CHR 0x0D, CHR 0x0A}) (dropWhile (\<lambda>c. c \<le> CHR 0x20) u)"

definition split_scheme :: "string \<Rightarrow> string \<times> string" where
  "split_scheme u =
     (let (a, sep, b) = py_partition CHR '':'' u in
      if sep \<and> a \<noteq> [] \<and> (is_lower (hd a) \<or> is_upper (hd a)) \<and> list_all scheme_char a
      then (py_lower a, b) else ([], u))"

definition split_netloc :: "string \<Rightarrow> string" where
  "split_netloc u =
     (if take 2 u = ''//'' then takeWhile (\<lambda>c. c \<notin> {CHR ''/'', CHR ''?'', CHR ''#''}) (drop 2 u) else [])"

text \<open>A bracketed host is an IPv6 address or a versioned literal \<open>v<hex>.<text>\<close>.\<close>

definition bracket_host_ok :: "string \<Rightarrow> bool" where
  "bracket_host_ok h =
     (case h of
        [] \<Rightarrow> False
      | c # cs \<Rightarrow>
          if c = CHR ''v'' then
            (let (a, sep, b) = py_partition CHR ''.'' cs in
             sep \<and> a \<noteq> [] \<and> list_all (\<lambda>x. hex_val x \<noteq> None) a \<and> b \<noteq> [])
          else (case ip_address h of Some (IPv6 _) \<Rightarrow> True | _ \<Rightarrow> False))"

definition urlparse :: "string \<Rightarrow> url_parts option" where
  "urlparse url =
     (let (sch, rest) = split_scheme (clean_url url); netloc = split_netloc rest;
          lb = py_in ''['' netloc; rb = py_in '']'' netloc in
      if lb \<noteq> rb then None
      else if lb \<and> \<not> bracket_host_ok (fst (py_partition CHR '']'' (snd (snd (py_partition CHR ''['' netloc)))))
      then None
      else Some \<lparr>url_scheme = sch, url_netloc = netloc\<rparr>)"

definition url_hostname :: "url_parts \<Rightarrow> string option" where
  "url_hostname p =
     (let hostinfo = after_last CHR ''@'' (url_netloc p);
          (_, br, bracketed) = py_partition CHR ''['' hostinfo;
          h = (if br then fst (py_partition CHR '']'' bracketed) else fst (py_partition CHR '':'' hostinfo)) in
      if h = [] then None
      else let (a, pc, z) = py_partition CHR ''%'' h in
        Some (py_lower a @ (if pc then ''%'' else []) @ z))"

end
