(* ===== verification/Audit_Trail.thy ===== *)
theory Audit_Trail
  imports Database Py_Net
begin

text \<open>
  \<open>app/services/audit.py\<close>: masking of the JSON that goes into the audit trail, and the insertion of
  an audit row inside the transaction of the operation it describes.
\<close>

section \<open>Sensitive keys\<close>

text \<open>\<open>re.search\<close> of the five patterns, ignoring case; the fourth is \<open>api[_-]?key\<close>.\<close>

definition is_sensitive :: "string \<Rightarrow> bool" where
  "is_sensitive key =
     (let k = py_lower key in
      list_ex (\<lambda>p. py_in p k)
        [''secret'', ''password'', ''token'', ''apikey'', ''api_key'', ''api-key'', ''authorization''])"

text \<open>\<open>^url$\<close> ignoring case; the dollar also matches before a final newline.\<close>

definition is_url_key :: "string \<Rightarrow> bool" where
  "is_url_key key \<longleftrightarrow> py_lower key \<in> {''url'', ''url'' @ [CHR 0x0A]}"

definition mask_url :: "string \<Rightarrow> string" where
  "mask_url url = (case urlparse url of
      None \<Rightarrow> ''***''
    | Some parsed \<Rightarrow>
        (let host = str_or_empty (url_hostname parsed);
             scheme = (if url_scheme parsed = [] then ''https'' else url_scheme parsed) in
         if host \<noteq> [] then scheme @ ''://'' @ host @ ''/***'' else ''***''))"

fun mask_sensitive :: "json \<Rightarrow> json"
  and mask_items :: "(string \<times> json) list \<Rightarrow> (string \<times> json) list"
  and mask_list :: "json list \<Rightarrow> json list" where
  "mask_sensitive (JObj items) = JObj (mask_items items)"
| "mask_sensitive (JArr xs) = JArr (mask_list xs)"
| "mask_sensitive JNull = JNull"
| "mask_sensitive (JBool b) = JBool b"
| "mask_sensitive (JInt n) = JInt n"
| "mask_sensitive (JFloat x) = JFloat x"
| "mask_sensitive (JStr s) = JStr s"
| "mask_items [] = []"
| "mask_items ((k, v) # items) =
     (k, if is_sensitive k then (if json_truthy v then JStr ''***'' else JNull)
         else (case v of JStr url \<Rightarrow> if is_url_key k then JStr (mask_url url) else mask_sensitive v
               | _ \<Rightarrow> mask_sensitive v)) # mask_items items"
| "mask_list [] = []"
| "mask_list (v # vs) = mask_sensitive v # mask_list vs"

section \<open>Rows of the audit trail\<close>

text \<open>The keyword arguments of \<open>record\<close> and \<open>record_in_tx\<close>.\<close>

record audit_args =
  au_action :: string
  au_target_type :: "string option"
  au_target_id :: "string option"
  au_actor_email :: "string option"
  au_actor_role :: "string option"
  au_diff :: "(string \<times> json) list option"
  au_metadata :: "(string \<times> json) list option"
  au_ip_address :: "string option"
  au_user_agent :: "string option"

text \<open>\<open>mask_sensitive(d) if d else None\<close>: the empty dict counts as absent.\<close>

definition masked :: "(string \<times> json) list option \<Rightarrow> json option" where
  "masked d = (case d of None \<Rightarrow> None
     | Some items \<Rightarrow> if items = [] then None else Some (mask_sensitive (JObj items)))"

definition audit_row_of :: "int \<Rightarrow> audit_args \<Rightarrow> int \<Rightarrow> audit_row" where
  "audit_row_of now a n =
     (let actor = str_or (au_actor_email a) ''anonymous''; role = str_or (au_actor_role a) ''unknown'' in
      \<lparr>al_id = n, al_action = au_action a, al_actor = actor, al_target_type = au_target_type a,
       al_target_id = au_target_id a,
       al_metadata = (case masked (au_metadata a) of None \<Rightarrow> JObj [] | Some m \<Rightarrow> m), al_ts = now,
       al_actor_email = Some actor, al_actor_role = Some role, al_diff = masked (au_diff a),
       al_ip_address = au_ip_address a, al_user_agent = au_user_agent a\<rparr>)"

text \<open>The column \<open>ip_address\<close> has type INET: text that is no address makes the statement raise.\<close>

definition inet_ok :: "string option \<Rightarrow> bool" where
  "inet_ok ip = (case ip of None \<Rightarrow> True | Some s \<Rightarrow> ip_address s \<noteq> None)"

definition DataError :: py_exn where
  "DataError = OtherError ''DataError''"

definition record_in_tx :: "int \<Rightarrow> audit_args \<Rightarrow> db \<Rightarrow> (db \<times> int) result" where
  "record_in_tx now a d =
     (if inet_ok (au_ip_address a) then
        (let (t, r) = insert_row (audit_row_of now a) (db_audit d) in Inr (d\<lparr>db_audit := t\<rparr>, al_id r))
      else Inl DataError)"

text \<open>\<open>record\<close>: outside a transaction; a failure is logged and swallowed.\<close>

definition record_audit :: "int \<Rightarrow> audit_args \<Rightarrow> db \<Rightarrow> db \<times> int option" where
  "record_audit now a d = (case record_in_tx now a d of
      Inl _ \<Rightarrow> (d, None) | Inr (d', n) \<Rightarrow> (d', Some n))"

section \<open>What is kept secret\<close>

text \<open>Every entry under a sensitive key is the mark or null.\<close>

fun secret_free :: "json \<Rightarrow> bool"
  and secret_free_items :: "(string \<times> json) list \<Rightarrow> bool"
  and secret_free_list :: "json list \<Rightarrow> bool" where
  "secret_free (JObj items) = secret_free_items items"
| "secret_free (JArr xs) = secret_free_list xs"
| "secret_free JNull = True"
| "secret_free (JBool b) = True"
| "secret_free (JInt n) = True"
| "secret_free (JFloat x) = True"
| "secret_free (JStr s) = True"
| "secret_free_items [] = True"
| "secret_free_items ((k, v) # items) =
     ((if is_sensitive k then v = JStr ''***'' \<or> v = JNull else secret_free v) \<and> secret_free_items items)"
| "secret_free_list [] = True"
| "secret_free_list (v # vs) = (secret_free v \<and> secret_free_list vs)"

text \<open>
  Two values that differ only in what sits under sensitive keys (and in nothing visible of it but
  its truth value), and under \<open>url\<close> keys only beyond scheme and host.
\<close>

fun same_public :: "json \<Rightarrow> json \<Rightarrow> bool"
  and same_public_items :: "(string \<times> json) list \<Rightarrow> (string \<times> json) list \<Rightarrow> bool"
  and same_public_list :: "json list \<Rightarrow> json list \<Rightarrow> bool" where
  "same_public (JObj xs) w = (case w of JObj ys \<Rightarrow> same_public_items xs ys | _ \<Rightarrow> False)"
| "same_public (JArr xs) w = (case w of JArr ys \<Rightarrow> same_public_list xs ys | _ \<Rightarrow> False)"
| "same_public JNull w = (w = JNull)"
| "same_public (JBool b) w = (w = JBool b)"
| "same_public (JInt n) w = (w = JInt n)"
| "same_public (JFloat x) w = (w = JFloat x)"
| "same_public (JStr s) w = (w = JStr s)"
| "same_public_items [] ys = (ys = [])"
| "same_public_items ((k, v) # xs) ys = (case ys of [] \<Rightarrow> False
     | (k', v') # ys' \<Rightarrow> k = k' \<and> same_public_items xs ys' \<and>
         (if is_sensitive k then json_truthy v = json_truthy v'
          else (case (v, v') of
              (JStr u, JStr u') \<Rightarrow> if is_url_key k then mask_url u = mask_url u' else u = u'
            | _ \<Rightarrow> same_public v v')))"
| "same_public_list [] ys = (ys = [])"
| "same_public_list (v # xs) ys = (case ys of [] \<Rightarrow> False
     | v' # ys' \<Rightarrow> same_public v v' \<and> same_public_list xs ys')"

lemma mask_secret_free:
  "secret_free (mask_sensitive v)"
  "secret_free_items (mask_items items)"
  "secret_free_list (mask_list vs)"
proof (induction v and items and vs rule: mask_sensitive_mask_items_mask_list.induct)
  case (9 k v items)
  then show ?case by (cases v) auto
qed auto

lemma mask_same_public:
  "same_public v w \<Longrightarrow> mask_sensitive v = mask_sensitive w"
  "same_public_items xs ys \<Longrightarrow> mask_items xs = mask_items ys"
  "same_public_list vs ws \<Longrightarrow> mask_list vs = mask_list ws"
proof (induction v w and xs ys and vs ws
    rule: same_public_same_public_items_same_public_list.induct)
  case (9 k v xs ys)
  then obtain v' ys' where ys: "ys = (k, v') # ys'" and tl: "same_public_items xs ys'"
    by (auto split: list.splits)
  have rest: "mask_items xs = mask_items ys'" using 9 ys tl by simp
  show ?case
  proof (cases "is_sensitive k")
    case True
    then show ?thesis using 9 rest unfolding ys by simp
  next
    case False
    then show ?thesis using 9 rest unfolding ys by (cases v; cases v') (simp_all split: if_splits)
  qed
next
  case (1 xs w)
  then show ?case by (cases w) simp_all
next
  case (2 xs w)
  then show ?case by (cases w) simp_all
next
  case (11 v xs ys)
  then show ?case by (cases ys) simp_all
qed simp_all

lemma mask_keys: "map fst (mask_items items) = map fst items"
  by (induction items) auto

lemma record_in_tx_cases:
  assumes "record_in_tx now a d = Inr (d', n)"
  shows "d' = d\<lparr>db_audit := fst (insert_row (audit_row_of now a) (db_audit d))\<rparr>"
    and "n = t_serial (db_audit d) + 1"
  using assms by (auto simp: record_in_tx_def insert_row_def audit_row_of_def Let_def split: if_splits)

lemma record_in_tx_ok:
  "inet_ok (au_ip_address a) \<Longrightarrow> record_in_tx now a d =
     Inr (d\<lparr>db_audit := fst (insert_row (audit_row_of now a) (db_audit d))\<rparr>, t_serial (db_audit d) + 1)"
  by (simp add: record_in_tx_def insert_row_def audit_row_of_def Let_def)

section \<open>Properties\<close>


definition sample_audit :: audit_args where
  "sample_audit = \<lparr>au_action = ''webhook.update'', au_target_type = Some ''webhook'',
     au_target_id = Some ''3'', au_actor_email = Some ''a@b.c'', au_actor_role = None,
     au_diff = Some [(''after'', JObj [(''url'', JStr ''https://hooks.example.com/T0/x?token=1''),
       (''webhook_secret'', JStr ''hunter2'')])],
     au_metadata = None, au_ip_address = Some ''10.0.0.1'', au_user_agent = None\<rparr>"


text \<open>Masking is not idempotent, although its documentation says so: a url with an IPv6 literal
  keeps its host without the brackets, and masking the masked url again can no longer read a host
  and drops it.\<close>

theorem mask_ipv6_url_not_idempotent:
  "mask_sensitive (JObj [(''url'', JStr ''http://[2001:db8::1]/hook'')])
     = JObj [(''url'', JStr ''http://2001:db8::1/***'')] \<and>
   mask_sensitive (mask_sensitive (JObj [(''url'', JStr ''http://[2001:db8::1]/hook'')]))
     = JObj [(''url'', JStr ''http://2001/***'')]"
  by code_simp

end
