(* ===== verification/Auth.thy ===== *)
theory Auth
  imports Audit_Trail Settings
begin

text \<open>
  \<open>app/services/auth_service.py\<close>, \<open>app/api/dependencies/auth.py\<close> and \<open>app/api/routers/auth.py\<close>:
  passwords, tokens, the role gate of every writing route, login and refresh. The libraries
  \<open>bcrypt\<close> and \<open>pyjwt\<close> are arguments: \<open>checkpw\<close>, \<open>hashpw\<close> and \<open>gensalt\<close>, and \<open>enc\<close> (encode the
  claims with a secret and an algorithm) and \<open>dec\<close> (decode at a moment in time). The type of
  tokens is theirs.
\<close>

section \<open>Passwords\<close>

definition hash_password :: "(string \<Rightarrow> string \<Rightarrow> string) \<Rightarrow> string \<Rightarrow> string \<Rightarrow> string result" where
  "hash_password hashpw gensalt plaintext =
     (if plaintext = [] then Inl (ValueError ''password must not be empty'')
      else Inr (hashpw plaintext gensalt))"

definition verify_password :: "(string \<Rightarrow> string \<Rightarrow> bool result) \<Rightarrow> string \<Rightarrow> string \<Rightarrow> bool result" where
  "verify_password checkpw plaintext hashed =
     (if plaintext = [] \<or> hashed = [] then Inr False
      else case checkpw plaintext hashed of
        Inr b \<Rightarrow> Inr b
      | Inl (ValueError _) \<Rightarrow> Inr False
      | Inl (TypeError _) \<Rightarrow> Inr False
      | Inl e \<Rightarrow> Inl e)"

section \<open>Tokens\<close>

type_synonym claims = "(string \<times> json) list"

type_synonym 'tok encoder = "claims \<Rightarrow> string \<Rightarrow> string \<Rightarrow> 'tok"
type_synonym 'tok decoder = "int \<Rightarrow> 'tok \<Rightarrow> string \<Rightarrow> string \<Rightarrow> claims result"

record token_payload =
  tp_sub :: int
  tp_email :: string
  tp_role :: string
  tp_type :: string
  tp_exp :: int
  tp_iat :: int

text \<open>\<open>int(now.timestamp())\<close> of a moment after 1970.\<close>

definition timestamp :: "int \<Rightarrow> int" where
  "timestamp t = t div 1000000"

definition create_access_token ::
    "'tok encoder \<Rightarrow> int \<Rightarrow> int \<Rightarrow> string \<Rightarrow> string \<Rightarrow> string \<Rightarrow> string \<Rightarrow> int \<Rightarrow> 'tok" where
  "create_access_token enc now user_id email role secret algorithm ttl_minutes =
     enc [(''sub'', JStr (py_str_int user_id)), (''email'', JStr email), (''role'', JStr role),
          (''type'', JStr ''access''), (''iat'', JInt (timestamp now)),
          (''exp'', JInt (timestamp (now + ttl_minutes * 60000000)))] secret algorithm"

definition create_refresh_token :: "'tok encoder \<Rightarrow> int \<Rightarrow> int \<Rightarrow> string \<Rightarrow> string \<Rightarrow> int \<Rightarrow> 'tok" where
  "create_refresh_token enc now user_id secret algorithm ttl_days =
     enc [(''sub'', JStr (py_str_int user_id)), (''type'', JStr ''refresh''),
          (''iat'', JInt (timestamp now)), (''exp'', JInt (timestamp (now + ttl_days * day_us)))]
       secret algorithm"

text \<open>
  \<open>int(v)\<close> and \<open>str(v)\<close> of a decoded claim; \<open>repr\<close> prints the values that are no strings.
\<close>

definition claim_int :: "claims \<Rightarrow> string \<Rightarrow> int result" where
  "claim_int c k = (case obj_get c k of
      None \<Rightarrow> Inl (KeyError k)
    | Some (JInt n) \<Rightarrow> Inr n
    | Some (JBool b) \<Rightarrow> Inr (if b then 1 else 0)
    | Some (JFloat x) \<Rightarrow> Inr (if 0 \<le> x then \<lfloor>x\<rfloor> else \<lceil>x\<rceil>)
    | Some (JStr s) \<Rightarrow> (case py_int s of None \<Rightarrow> Inl (ValueError ''int'') | Some n \<Rightarrow> Inr n)
    | Some _ \<Rightarrow> Inl (TypeError ''int''))"

definition claim_str :: "(json \<Rightarrow> string) \<Rightarrow> json \<Rightarrow> string" where
  "claim_str repr v = (case v of JStr s \<Rightarrow> s | _ \<Rightarrow> repr v)"

definition decode_token ::
    "'tok decoder \<Rightarrow> (json \<Rightarrow> string) \<Rightarrow> int \<Rightarrow> 'tok \<Rightarrow> string \<Rightarrow> string \<Rightarrow> string option
     \<Rightarrow> token_payload result" where
  "decode_token dec repr now token secret algorithm expected_type =
     (case dec now token secret algorithm of
        Inl e \<Rightarrow> Inl e
      | Inr decoded \<Rightarrow>
          if expected_type \<noteq> None \<and> obj_get decoded ''type'' \<noteq> map_option JStr expected_type
          then Inl InvalidTokenError
          else case claim_int decoded ''sub'' of Inl e \<Rightarrow> Inl e | Inr sub \<Rightarrow>
            (case obj_get decoded ''type'' of None \<Rightarrow> Inl (KeyError ''type'') | Some ty \<Rightarrow>
            (case claim_int decoded ''exp'' of Inl e \<Rightarrow> Inl e | Inr ex \<Rightarrow>
            (case claim_int decoded ''iat'' of Inl e \<Rightarrow> Inl e | Inr ia \<Rightarrow>
              Inr \<lparr>tp_sub = sub, tp_email = claim_str repr (get_or decoded ''email'' (JStr [])),
                   tp_role = claim_str repr (get_or decoded ''role'' (JStr [])),
                   tp_type = claim_str repr ty, tp_exp = ex, tp_iat = ia\<rparr>))))"

section \<open>The gate of the routes\<close>

record auth_user =
  au_id :: int
  au_email :: string
  au_role :: string

definition unauthorized :: "string \<Rightarrow> py_exn" where
  "unauthorized detail = HttpException 401 detail"

text \<open>Credentials are the scheme and the token of the \<open>Authorization\<close> header.\<close>

definition get_current_user ::
    "'tok decoder \<Rightarrow> (json \<Rightarrow> string) \<Rightarrow> settings \<Rightarrow> int \<Rightarrow> (string \<times> 'tok) option \<Rightarrow> auth_user result" where
  "get_current_user dec repr st now credentials =
     (case credentials of
        None \<Rightarrow> Inl (unauthorized ''Missing bearer token'')
      | Some (scheme, token) \<Rightarrow>
          if py_lower scheme \<noteq> ''bearer'' then Inl (unauthorized ''Missing bearer token'')
          else case decode_token dec repr now token (jwt_secret st) (jwt_algorithm st) (Some ''access'') of
            Inl ExpiredSignatureError \<Rightarrow> Inl (unauthorized ''Token expired'')
          | Inl InvalidTokenError \<Rightarrow> Inl (unauthorized ''Invalid token'')
          | Inl e \<Rightarrow> Inl e
          | Inr p \<Rightarrow> Inr \<lparr>au_id = tp_sub p, au_email = tp_email p, au_role = tp_role p\<rparr>)"

definition optional_current_user ::
    "'tok decoder \<Rightarrow> (json \<Rightarrow> string) \<Rightarrow> settings \<Rightarrow> int \<Rightarrow> (string \<times> 'tok) option
     \<Rightarrow> auth_user option result" where
  "optional_current_user dec repr st now credentials =
     (if credentials = None then Inr None
      else case get_current_user dec repr st now credentials of
        Inl (HttpException _ _) \<Rightarrow> Inr None
      | Inl e \<Rightarrow> Inl e
      | Inr u \<Rightarrow> Inr (Some u))"

text \<open>\<open>require_role(*roles)\<close>: the checker of an allow-list; \<open>admin\<close> passes every gate.\<close>

definition require_role :: "string list \<Rightarrow> auth_user \<Rightarrow> auth_user result" where
  "require_role allowed user =
     (if allowed = [] then Inl (ValueError ''require_role() needs at least one role'')
      else if au_role user = ''admin'' \<or> au_role user \<in> set allowed then Inr user
      else Inl (HttpException 403 (''Role '' @ au_role user @ '' is not authorized'')))"

definition guarded_by ::
    "string list \<Rightarrow> 'tok decoder \<Rightarrow> (json \<Rightarrow> string) \<Rightarrow> settings \<Rightarrow> int \<Rightarrow> (string \<times> 'tok) option
     \<Rightarrow> auth_user result" where
  "guarded_by roles dec repr st now credentials =
     (case get_current_user dec repr st now credentials of Inl e \<Rightarrow> Inl e | Inr u \<Rightarrow> require_role roles u)"

section \<open>Login and refresh\<close>

record 'tok token_pair =
  access_token :: 'tok
  refresh_token :: 'tok
  token_type :: string
  expires_in :: int

definition token_pair_for :: "'tok encoder \<Rightarrow> settings \<Rightarrow> int \<Rightarrow> user_row \<Rightarrow> 'tok token_pair" where
  "token_pair_for enc st now row =
     \<lparr>access_token = create_access_token enc now (us_id row) (us_email row) (us_role row)
        (jwt_secret st) (jwt_algorithm st) (access_token_ttl_minutes st),
      refresh_token = create_refresh_token enc now (us_id row) (jwt_secret st) (jwt_algorithm st)
        (refresh_token_ttl_days st),
      token_type = ''bearer'', expires_in = access_token_ttl_minutes st * 60\<rparr>"

record client =
  client_ip :: "string option"
  user_agent :: "string option"

definition login_failed_audit :: "client \<Rightarrow> string \<Rightarrow> audit_args" where
  "login_failed_audit cl email =
     \<lparr>au_action = ''auth.login_failed'', au_target_type = Some ''user'', au_target_id = Some email,
      au_actor_email = Some email, au_actor_role = Some ''anonymous'', au_diff = None,
      au_metadata = None, au_ip_address = client_ip cl, au_user_agent = user_agent cl\<rparr>"

definition login_audit :: "client \<Rightarrow> user_row \<Rightarrow> audit_args" where
  "login_audit cl row =
     \<lparr>au_action = ''auth.login'', au_target_type = Some ''user'',
      au_target_id = Some (py_str_int (us_id row)), au_actor_email = Some (us_email row),
      au_actor_role = Some (us_role row), au_diff = None, au_metadata = None,
      au_ip_address = client_ip cl, au_user_agent = user_agent cl\<rparr>"

definition login ::
    "'tok encoder \<Rightarrow> (string \<Rightarrow> string \<Rightarrow> bool result) \<Rightarrow> settings \<Rightarrow> int \<Rightarrow> client \<Rightarrow> string \<Rightarrow> string \<Rightarrow> db
     \<Rightarrow> db \<times> 'tok token_pair result" where
  "login enc checkpw st now cl body_email body_password d =
     (let email = py_lower body_email;
          failed = (fst (record_audit now (login_failed_audit cl email) d),
                    Inl (HttpException 401 ''Invalid email or password'')) in
      case fetchrow (\<lambda>u. us_email u = email) (t_rows (db_users d)) of
        None \<Rightarrow> failed
      | Some row \<Rightarrow>
          if \<not> us_is_active row then failed
          else case verify_password checkpw body_password (us_password_hash row) of
            Inl e \<Rightarrow> (d, Inl e)
          | Inr False \<Rightarrow> failed
          | Inr True \<Rightarrow>
              (let d1 = d\<lparr>db_users := update_rows (\<lambda>u. us_id u = us_id row)
                          (\<lambda>u. u\<lparr>us_last_login_at := Some now\<rparr>) (db_users d)\<rparr> in
               case record_in_tx now (login_audit cl row) d1 of
                 Inl e \<Rightarrow> (d, Inl e)
               | Inr (d2, _) \<Rightarrow> (d2, Inr (token_pair_for enc st now row))))"

definition refresh_session ::
    "'tok encoder \<Rightarrow> 'tok decoder \<Rightarrow> (json \<Rightarrow> string) \<Rightarrow> settings \<Rightarrow> int \<Rightarrow> 'tok \<Rightarrow> db \<Rightarrow> 'tok token_pair result" where
  "refresh_session enc dec repr st now token d =
     (case decode_token dec repr now token (jwt_secret st) (jwt_algorithm st) (Some ''refresh'') of
        Inl ExpiredSignatureError \<Rightarrow> Inl (HttpException 401 ''Refresh token expired'')
      | Inl InvalidTokenError \<Rightarrow> Inl (HttpException 401 ''Invalid refresh token'')
      | Inl e \<Rightarrow> Inl e
      | Inr p \<Rightarrow>
          (case fetchrow (\<lambda>u. us_id u = tp_sub p) (t_rows (db_users d)) of
             None \<Rightarrow> Inl (HttpException 401 ''User no longer active'')
           | Some row \<Rightarrow>
               if \<not> us_is_active row then Inl (HttpException 401 ''User no longer active'')
               else Inr (token_pair_for enc st now row)))"

section \<open>What pyjwt documents\<close>

text \<open>
  Decoding what was encoded with the same secret and algorithm gives the claims back, unless the
  token is not yet valid (\<open>iat\<close> in the future) or has expired (\<open>exp\<close> reached), both in seconds.
\<close>

definition jwt_roundtrip :: "'tok encoder \<Rightarrow> 'tok decoder \<Rightarrow> bool" where
  "jwt_roundtrip enc dec \<longleftrightarrow> (\<forall>now c secret alg e i.
     obj_get c ''exp'' = Some (JInt e) \<and> obj_get c ''iat'' = Some (JInt i) \<longrightarrow>
     dec now (enc c secret alg) secret alg =
       (if now < i * 1000000 then Inl InvalidTokenError
        else if e * 1000000 \<le> now then Inl ExpiredSignatureError else Inr c))"

lemma jwt_decode:
  assumes "jwt_roundtrip enc dec" and "obj_get c ''exp'' = Some (JInt e)" and "obj_get c ''iat'' = Some (JInt i)"
  shows "dec now (enc c secret alg) secret alg =
       (if now < i * 1000000 then Inl InvalidTokenError
        else if e * 1000000 \<le> now then Inl ExpiredSignatureError else Inr c)"
  using assms unfolding jwt_roundtrip_def by blast

lemma timestamp_le: "timestamp t * 1000000 \<le> t"
  by (simp add: timestamp_def)

lemma timestamp_add:
  "timestamp (t + n * 60000000) * 1000000 = timestamp t * 1000000 + n * 60000000"
  "timestamp (t + n * day_us) * 1000000 = timestamp t * 1000000 + n * day_us"
proof -
  have e: "t + n * 60000000 = t + (n * 60) * 1000000" by simp
  show "timestamp (t + n * 60000000) * 1000000 = timestamp t * 1000000 + n * 60000000"
    unfolding timestamp_def e by (subst div_mult_self1) simp_all
  have e: "t + n * day_us = t + (n * 86400) * 1000000" by (simp add: day_us_def)
  show "timestamp (t + n * day_us) * 1000000 = timestamp t * 1000000 + n * day_us"
    unfolding timestamp_def e by (subst div_mult_self1) (simp_all add: day_us_def)
qed

text \<open>Decoding the two kinds of token this service mints.\<close>

lemma decode_access:
  assumes "jwt_roundtrip enc dec" and "t \<le> now"
  shows "decode_token dec repr now (create_access_token enc t uid em ro s a ttl) s a ty =
    (if timestamp t * 1000000 + ttl * 60000000 \<le> now then Inl ExpiredSignatureError
     else if ty \<noteq> None \<and> ty \<noteq> Some ''access'' then Inl InvalidTokenError
     else Inr \<lparr>tp_sub = uid, tp_email = em, tp_role = ro, tp_type = ''access'',
       tp_exp = timestamp (t + ttl * 60000000), tp_iat = timestamp t\<rparr>)"
proof -
  let ?c = "[(''sub'', JStr (py_str_int uid)), (''email'', JStr em), (''role'', JStr ro),
          (''type'', JStr ''access''), (''iat'', JInt (timestamp t)),
          (''exp'', JInt (timestamp (t + ttl * 60000000)))]"
  have g: "obj_get ?c ''sub'' = Some (JStr (py_str_int uid))" "obj_get ?c ''email'' = Some (JStr em)"
    "obj_get ?c ''role'' = Some (JStr ro)" "obj_get ?c ''type'' = Some (JStr ''access'')"
    "obj_get ?c ''iat'' = Some (JInt (timestamp t))"
    "obj_get ?c ''exp'' = Some (JInt (timestamp (t + ttl * 60000000)))"
    by (simp_all add: obj_get_def)
  have n: "\<not> now < timestamp t * 1000000" using assms(2) timestamp_le [of t] by linarith
  show ?thesis
    unfolding decode_token_def create_access_token_def jwt_decode [OF assms(1) g(6) g(5)] timestamp_add(1)
    by (cases ty) (simp_all add: n g claim_int_def claim_str_def get_or_def)
qed

lemma decode_refresh:
  assumes "jwt_roundtrip enc dec" and "t \<le> now"
  shows "decode_token dec repr now (create_refresh_token enc t uid s a ttl) s a ty =
    (if timestamp t * 1000000 + ttl * day_us \<le> now then Inl ExpiredSignatureError
     else if ty \<noteq> None \<and> ty \<noteq> Some ''refresh'' then Inl InvalidTokenError
     else Inr \<lparr>tp_sub = uid, tp_email = [], tp_role = [], tp_type = ''refresh'',
       tp_exp = timestamp (t + ttl * day_us), tp_iat = timestamp t\<rparr>)"
proof -
  let ?c = "[(''sub'', JStr (py_str_int uid)), (''type'', JStr ''refresh''),
          (''iat'', JInt (timestamp t)), (''exp'', JInt (timestamp (t + ttl * day_us)))]"
  have g: "obj_get ?c ''sub'' = Some (JStr (py_str_int uid))" "obj_get ?c ''email'' = None"
    "obj_get ?c ''role'' = None" "obj_get ?c ''type'' = Some (JStr ''refresh'')"
    "obj_get ?c ''iat'' = Some (JInt (timestamp t))"
    "obj_get ?c ''exp'' = Some (JInt (timestamp (t + ttl * day_us)))"
    by (simp_all add: obj_get_def)
  have n: "\<not> now < timestamp t * 1000000" using assms(2) timestamp_le [of t] by linarith
  show ?thesis
    unfolding decode_token_def create_refresh_token_def jwt_decode [OF assms(1) g(6) g(5)] timestamp_add(2)
    by (cases ty) (simp_all add: n g claim_int_def claim_str_def get_or_def)
qed

section \<open>Properties\<close>

text \<open>The moments during which the two tokens of a pair minted at \<open>t\<close> are valid.\<close>

definition access_until :: "settings \<Rightarrow> int \<Rightarrow> int" where
  "access_until st t = timestamp t * 1000000 + access_token_ttl_minutes st * 60000000"

definition refresh_until :: "settings \<Rightarrow> int \<Rightarrow> int" where
  "refresh_until st t = timestamp t * 1000000 + refresh_token_ttl_days st * day_us"


text \<open>A library for evaluation: a token is its claims, secret and algorithm in the clear.\<close>

definition plain_enc :: "(claims \<times> string \<times> string) encoder" where
  "plain_enc c s a = (c, s, a)"

definition plain_dec :: "(claims \<times> string \<times> string) decoder" where
  "plain_dec now tok s a =
     (if snd tok \<noteq> (s, a) then Inl InvalidTokenError
      else case (obj_get (fst tok) ''exp'', obj_get (fst tok) ''iat'') of
        (Some (JInt e), Some (JInt i)) \<Rightarrow>
          if now < i * 1000000 then Inl InvalidTokenError
          else if e * 1000000 \<le> now then Inl ExpiredSignatureError else Inr (fst tok)
      | _ \<Rightarrow> Inl InvalidTokenError)"

lemma plain_roundtrip: "jwt_roundtrip plain_enc plain_dec"
  by (simp add: jwt_roundtrip_def plain_enc_def plain_dec_def)

definition alice :: user_row where
  "alice = \<lparr>us_id = 4, us_email = ''alice@corp.io'', us_password_hash = ''hash'', us_role = ''analyst'',
     us_is_active = True, us_created_at = 0, us_last_login_at = None\<rparr>"


text \<open>A failed login leaks nothing: an unknown address, a deactivated account and a wrong password
  are answered by the same 401 with the same text, change no table but the audit log, and leave
  exactly the same database behind, one \<open>auth.login_failed\<close> row for the address.\<close>

theorem failed_logins_are_indistinguishable:
  assumes "inet_ok (client_ip cl)"
    and "case fetchrow (\<lambda>u. us_email u = py_lower email) (t_rows (db_users d)) of None \<Rightarrow> True
         | Some row \<Rightarrow> \<not> us_is_active row \<or> verify_password checkpw pw (us_password_hash row) = Inr False"
  shows "login enc checkpw st now cl email pw d =
     (d\<lparr>db_audit := fst (insert_row (audit_row_of now (login_failed_audit cl (py_lower email))) (db_audit d))\<rparr>,
      Inl (HttpException 401 ''Invalid email or password''))"
proof -
  let ?a = "login_failed_audit cl (py_lower email)"
  have "inet_ok (au_ip_address ?a)" using assms(1) by (simp add: login_failed_audit_def)
  then show ?thesis using assms(2)
    by (auto simp: login_def record_audit_def record_in_tx_ok Let_def split: option.splits)
qed

definition login_db :: db where
  "login_db = (empty_db 0)\<lparr>db_users := \<lparr>t_rows = [alice, alice\<lparr>us_id := 5, us_email := ''bob@corp.io'',
     us_is_active := False\<rparr>], t_serial = 5\<rparr>\<rparr>"

definition plain_check :: "string \<Rightarrow> string \<Rightarrow> bool result" where
  "plain_check pw h = Inr (pw = h)"

theorem failed_logins_are_indistinguishable_witness:
  "snd (login plain_enc plain_check default_settings 9 \<lparr>client_ip = None, user_agent = None\<rparr>
      ''ALICE@corp.io'' ''wrong'' login_db) =
   snd (login plain_enc plain_check default_settings 9 \<lparr>client_ip = None, user_agent = None\<rparr>
      ''bob@corp.io'' ''hash'' login_db) \<and>
   isl (snd (login plain_enc plain_check default_settings 9 \<lparr>client_ip = None, user_agent = None\<rparr>
      ''bob@corp.io'' ''hash'' login_db))"
proof -
  let ?cl = "\<lparr>client_ip = None, user_agent = None\<rparr>"
  have ip: "inet_ok (client_ip ?cl)" by (simp add: inet_ok_def)
  have a: "case fetchrow (\<lambda>u. us_email u = py_lower ''ALICE@corp.io'') (t_rows (db_users login_db)) of
      None \<Rightarrow> True | Some row \<Rightarrow> \<not> us_is_active row \<or>
        verify_password plain_check ''wrong'' (us_password_hash row) = Inr False"
    by code_simp
  have b: "case fetchrow (\<lambda>u. us_email u = py_lower ''bob@corp.io'') (t_rows (db_users login_db)) of
      None \<Rightarrow> True | Some row \<Rightarrow> \<not> us_is_active row \<or>
        verify_password plain_check ''hash'' (us_password_hash row) = Inr False"
    by code_simp
  show ?thesis
    unfolding failed_logins_are_indistinguishable [OF ip a] failed_logins_are_indistinguishable [OF ip b]
    by (simp only: snd_conv sum.disc simp_thms)
qed

text \<open>C12: A login hands out tokens only for the account it checked: it succeeds only for an active
  account with that address whose password was verified, the tokens are those of that account, it
  stamps the login time of that account alone, writes one audit row and changes nothing else.\<close>

theorem login_only_for_verified_account:
  assumes "login enc checkpw st now cl email pw d = (d', Inr pair)"
  shows "\<exists>row \<in> set (t_rows (db_users d)). us_email row = py_lower email \<and> us_is_active row \<and>
     pw \<noteq> [] \<and> checkpw pw (us_password_hash row) = Inr True \<and> pair = token_pair_for enc st now row \<and>
     d' = d\<lparr>db_users := update_rows (\<lambda>u. us_id u = us_id row) (\<lambda>u. u\<lparr>us_last_login_at := Some now\<rparr>) (db_users d),
            db_audit := fst (insert_row (audit_row_of now (login_audit cl row)) (db_audit d))\<rparr>"
  using assms
  by (auto simp: login_def Let_def verify_password_def record_in_tx_def insert_row_def
      split: option.splits if_splits sum.splits bool.splits py_exn.splits dest!: fetchrow_Some)

theorem login_only_for_verified_account_witness:
  "\<exists>row \<in> set (t_rows (db_users login_db)). us_email row = ''alice@corp.io'' \<and>
     projr (snd (login plain_enc plain_check default_settings 9 \<lparr>client_ip = None, user_agent = None\<rparr>
       ''Alice@corp.io'' ''hash'' login_db)) = token_pair_for plain_enc default_settings 9 row"
proof -
  let ?r = "login plain_enc plain_check default_settings 9 \<lparr>client_ip = None, user_agent = None\<rparr>
       ''Alice@corp.io'' ''hash'' login_db"
  have "\<not> isl (snd ?r)" by code_simp
  then have r: "?r = (fst ?r, Inr (projr (snd ?r)))" by (simp add: prod_eq_iff)
  have "py_lower ''Alice@corp.io'' = ''alice@corp.io''" by code_simp
  then show ?thesis using login_only_for_verified_account [OF r] by metis
qed

text \<open>A refresh re-reads the account: it succeeds only with a token that decodes as a refresh token
  whose subject is an account that is active now, and the new pair is minted from the current row,
  so that its access token carries the role and e-mail the account has now.\<close>

theorem refresh_rereads_the_account:
  assumes "refresh_session enc dec repr st now token d = Inr pair"
  shows "\<exists>p. \<exists>row \<in> set (t_rows (db_users d)).
     decode_token dec repr now token (jwt_secret st) (jwt_algorithm st) (Some ''refresh'') = Inr p \<and>
     us_id row = tp_sub p \<and> us_is_active row \<and> pair = token_pair_for enc st now row"
  using assms
  by (auto simp: refresh_session_def split: option.splits if_splits sum.splits py_exn.splits dest!: fetchrow_Some)

theorem refresh_rereads_the_account_witness:
  "\<exists>row \<in> set (t_rows (db_users login_db)). us_is_active row \<and>
     projr (refresh_session plain_enc plain_dec (\<lambda>_. []) default_settings 5000000000
       (refresh_token (token_pair_for plain_enc default_settings 0 (alice\<lparr>us_role := ''admin''\<rparr>))) login_db)
     = token_pair_for plain_enc default_settings 5000000000 row"
proof -
  let ?r = "refresh_session plain_enc plain_dec (\<lambda>_. []) default_settings 5000000000
       (refresh_token (token_pair_for plain_enc default_settings 0 (alice\<lparr>us_role := ''admin''\<rparr>))) login_db"
  have "\<not> isl ?r" by code_simp
  then have r: "?r = Inr (projr ?r)" by simp
  show ?thesis using refresh_rereads_the_account [OF r] by metis
qed

text \<open>The gate of the writing routes: a caller passes exactly when a bearer token of type access
  decodes and its role is \<open>admin\<close> or on the allow-list; every other caller gets 401 without a valid
  token and 403 with one, whenever the decoder fails only with the two token exceptions.\<close>

theorem guarded_route_admits:
  assumes "\<forall>e. decode_token dec repr now tok (jwt_secret st) (jwt_algorithm st) (Some ''access'') = Inl e
      \<longrightarrow> e \<in> {ExpiredSignatureError, InvalidTokenError}"
    and "roles \<noteq> []"
  shows "case guarded_by roles dec repr st now (Some (scheme, tok)) of
      Inr u \<Rightarrow> py_lower scheme = ''bearer'' \<and> (au_role u = ''admin'' \<or> au_role u \<in> set roles) \<and>
        (\<exists>p. decode_token dec repr now tok (jwt_secret st) (jwt_algorithm st) (Some ''access'') = Inr p \<and>
           au_id u = tp_sub p \<and> au_role u = tp_role p \<and> au_email u = tp_email p)
    | Inl (HttpException c _) \<Rightarrow> c = (if py_lower scheme = ''bearer'' \<and>
        \<not> isl (decode_token dec repr now tok (jwt_secret st) (jwt_algorithm st) (Some ''access''))
        then 403 else 401)
    | Inl _ \<Rightarrow> False"
proof (cases "decode_token dec repr now tok (jwt_secret st) (jwt_algorithm st) (Some ''access'')")
  case (Inl e)
  then have "e = ExpiredSignatureError \<or> e = InvalidTokenError" using assms(1) by blast
  then show ?thesis using Inl by (auto simp: guarded_by_def get_current_user_def unauthorized_def)
next
  case (Inr p)
  then show ?thesis using assms(2)
    by (simp add: guarded_by_def get_current_user_def unauthorized_def require_role_def)
qed

theorem guarded_route_admits_witness:
  "guarded_by [''analyst''] plain_dec (\<lambda>_. []) default_settings 9
     (Some (''bearer'', access_token (token_pair_for plain_enc default_settings 0 (alice\<lparr>us_role := ''viewer''\<rparr>))))
   = Inl (HttpException 403 ''Role viewer is not authorized'')"
proof -
  let ?tok = "access_token (token_pair_for plain_enc default_settings 0 (alice\<lparr>us_role := ''viewer''\<rparr>))"
  let ?dec = "decode_token plain_dec (\<lambda>_. []) 9 ?tok (jwt_secret default_settings) (jwt_algorithm default_settings) (Some ''access'')"
  have ok: "\<not> isl ?dec" by code_simp
  then have e: "\<forall>e. ?dec = Inl e \<longrightarrow> e \<in> {ExpiredSignatureError, InvalidTokenError}" by auto
  have n: "[''analyst''] \<noteq> []" by simp
  have "guarded_by [''analyst''] plain_dec (\<lambda>_. []) default_settings 9 (Some (''bearer'', ?tok))
     = Inl (HttpException 403 ''Role viewer is not authorized'')" by code_simp
  then show ?thesis using guarded_route_admits [OF e n, of "''bearer''"] by simp
qed

end
