(* ===== verification/Findings.thy ===== *)
theory Findings
  imports Auth
begin

text \<open>
  \<open>app/api/routers/findings.py\<close>: the status of a finding, its history and its audit trail. A handler
  maps the database to the new database and the response; an exception inside a transaction leaves
  the database as it was. The texts of error responses are abbreviated. The last action of a
  handler, dropping cached dashboard pages, does not touch the database and is left out.
\<close>

section \<open>History\<close>

definition insert_history :: "int \<Rightarrow> int \<Rightarrow> string option \<Rightarrow> string \<Rightarrow> string \<Rightarrow> string option \<Rightarrow> db \<Rightarrow> db" where
  "insert_history now fid old new changed_by reason d =
     d\<lparr>db_history := fst (insert_row (\<lambda>n. \<lparr>fh_id = n, fh_finding_id = fid, fh_old_status = old,
        fh_new_status = new, fh_changed_by = changed_by, fh_changed_at = now, fh_reason = reason\<rparr>)
        (db_history d))\<rparr>"

section \<open>PATCH /api/findings/{product_id}/{cve_id}\<close>

record finding_update =
  bu_status :: "string option"
  bu_assigned_to :: "string option"
  bu_due_date :: "string option"
  bu_notes :: "string option"
  bu_actor :: "string option"
  bu_reason :: "string option"

text \<open>The SET clause of \<open>_UPDATE_SQL\<close>.\<close>

definition apply_update :: "int \<Rightarrow> finding_update \<Rightarrow> int option \<Rightarrow> finding_row \<Rightarrow> finding_row" where
  "apply_update now body due f =
     f\<lparr>fd_status := (case bu_status body of None \<Rightarrow> fd_status f | Some s \<Rightarrow> s),
       fd_assigned_to := coalesce (bu_assigned_to body) (fd_assigned_to f),
       fd_due_date := coalesce due (fd_due_date f),
       fd_notes := coalesce (bu_notes body) (fd_notes f),
       fd_updated_at := now\<rparr>"

definition finding_target :: "int \<Rightarrow> string \<Rightarrow> string" where
  "finding_target pid cve = py_str_int pid @ '':'' @ cve"

definition status_changed :: "finding_update \<Rightarrow> finding_row \<Rightarrow> bool" where
  "status_changed body current \<longleftrightarrow> truthy (bu_status body) \<and> bu_status body \<noteq> Some (fd_status current)"

definition update_audit ::
    "auth_user \<Rightarrow> client \<Rightarrow> int \<Rightarrow> string \<Rightarrow> finding_update \<Rightarrow> int option \<Rightarrow> finding_row \<Rightarrow> audit_args" where
  "update_audit user cl pid cve body due current =
     \<lparr>au_action = (if status_changed body current then ''finding.status_change'' else ''finding.update''),
      au_target_type = Some ''finding'', au_target_id = Some (finding_target pid cve),
      au_actor_email = Some (au_email user), au_actor_role = Some (au_role user),
      au_diff = Some [(''before'', JObj [(''status'', JStr (fd_status current))]),
        (''after'', JObj [(''status'', JStr (str_or (bu_status body) (fd_status current))),
           (''assigned_to'', jopt JStr (bu_assigned_to body)),
           (''due_date'', jopt (JStr \<circ> date_isoformat) due), (''reason'', jopt JStr (bu_reason body))])],
      au_metadata = None, au_ip_address = client_ip cl, au_user_agent = user_agent cl\<rparr>"

text \<open>The date of the body: absent or empty is no date, \<open>None\<close> on the left is the \<open>ValueError\<close>.\<close>

definition parse_due :: "finding_update \<Rightarrow> int option result" where
  "parse_due body = (if truthy (bu_due_date body)
     then (case date_fromisoformat (str_or_empty (bu_due_date body)) of
        None \<Rightarrow> Inl (HttpException 422 ''due_date must be YYYY-MM-DD'') | Some n \<Rightarrow> Inr (Some n))
     else Inr None)"

definition update_finding ::
    "int \<Rightarrow> auth_user \<Rightarrow> client \<Rightarrow> int \<Rightarrow> string \<Rightarrow> finding_update \<Rightarrow> db \<Rightarrow> db \<times> finding_row option result" where
  "update_finding now user cl product_id cve_id body d =
     (let cve = py_upper cve_id in
      if truthy (bu_status body) \<and> str_or_empty (bu_status body) \<notin> set FINDING_STATUSES
      then (d, Inl (HttpException 422 ''Invalid status''))
      else case find_finding d product_id cve of
        None \<Rightarrow> (d, Inl (HttpException 404 ''Finding not found''))
      | Some current \<Rightarrow>
        (case parse_due body of
           Inl e \<Rightarrow> (d, Inl e)
         | Inr due \<Rightarrow>
             (let here = (\<lambda>f. fd_product_id f = product_id \<and> fd_cve_id f = cve);
                  t = update_rows here (apply_update now body due) (db_findings d);
                  d1 = d\<lparr>db_findings := t\<rparr>;
                  d2 = (if status_changed body current
                        then insert_history now (fd_id current) (Some (fd_status current))
                          (str_or_empty (bu_status body)) (au_email user) (bu_reason body) d1
                        else d1) in
              if \<not> list_all finding_check (t_rows t) then (d, Inl CheckViolation)
              else case record_in_tx now (update_audit user cl product_id cve body due current) d2 of
                Inl e \<Rightarrow> (d, Inl e)
              | Inr (d3, _) \<Rightarrow> (d3, Inr (fetchrow here (t_rows (db_findings d3)))))))"

section \<open>Reading\<close>

definition status_is :: "string \<Rightarrow> finding_row \<Rightarrow> bool" where
  "status_is s f \<longleftrightarrow> fd_status f = s"

record stats =
  open_count :: int
  in_review_count :: int
  remediated_count :: int
  false_positive_count :: int
  accepted_risk_count :: int
  total_count :: int

definition finding_stats :: "db \<Rightarrow> stats" where
  "finding_stats d = (let fs = t_rows (db_findings d) in
     \<lparr>open_count = sql_count (status_is ''open'') fs, in_review_count = sql_count (status_is ''in_review'') fs,
      remediated_count = sql_count (status_is ''remediated'') fs,
      false_positive_count = sql_count (status_is ''false_positive'') fs,
      accepted_risk_count = sql_count (status_is ''accepted_risk'') fs, total_count = sql_count (\<lambda>_. True) fs\<rparr>)"

text \<open>\<open>DESC NULLS LAST\<close> as a sort key that grows.\<close>

definition desc_nulls_last :: "rat option \<Rightarrow> bool \<times> rat" where
  "desc_nulls_last x = (case x of None \<Rightarrow> (True, 0) | Some v \<Rightarrow> (False, - v))"

definition lex_le :: "bool \<times> rat \<Rightarrow> bool \<times> rat \<Rightarrow> bool" where
  "lex_le a b \<longleftrightarrow> (fst a < fst b) \<or> (fst a = fst b \<and> snd a \<le> snd b)"

text \<open>A stable insertion sort by a comparison, for ORDER BY.\<close>

fun insert_by :: "('a \<Rightarrow> 'a \<Rightarrow> bool) \<Rightarrow> 'a \<Rightarrow> 'a list \<Rightarrow> 'a list" where
  "insert_by le x [] = [x]"
| "insert_by le x (y # ys) = (if le x y then x # y # ys else y # insert_by le x ys)"

definition order_by :: "('a \<Rightarrow> 'a \<Rightarrow> bool) \<Rightarrow> 'a list \<Rightarrow> 'a list" where
  "order_by le xs = foldr (insert_by le) xs []"

definition finding_le :: "(finding_row \<times> cve_row \<times> product_row) \<Rightarrow> (finding_row \<times> cve_row \<times> product_row) \<Rightarrow> bool" where
  "finding_le a b =
     (let ka = desc_nulls_last (fd_priority_score (fst a)); kb = desc_nulls_last (fd_priority_score (fst b)) in
      if ka = kb then lex_le (desc_nulls_last (cv_cvss_v3_score (fst (snd a))))
                        (desc_nulls_last (cv_cvss_v3_score (fst (snd b))))
      else lex_le ka kb)"

text \<open>The joined rows of a list query; a finding without its CVE or product row is dropped.\<close>

definition join_row :: "db \<Rightarrow> finding_row \<Rightarrow> (finding_row \<times> cve_row \<times> product_row) option" where
  "join_row d f = (case (cve_by_id d (fd_cve_id f), product_by_id d (fd_product_id f)) of
     (Some c, Some p) \<Rightarrow> Some (f, c, p) | _ \<Rightarrow> None)"

record 'a page =
  pg_data :: "'a list"
  pg_total :: int
  pg_page :: int
  pg_limit :: int

definition matches_filter :: "string option \<Rightarrow> string option \<Rightarrow> finding_row \<Rightarrow> bool" where
  "matches_filter status owner f \<longleftrightarrow>
     (case status of None \<Rightarrow> True | Some s \<Rightarrow> fd_status f = s) \<and>
     (case owner of None \<Rightarrow> True | Some p \<Rightarrow> fd_assigned_to f = Some p)"

text \<open>A negative OFFSET is an error of the database.\<close>

definition list_findings ::
    "db \<Rightarrow> string option \<Rightarrow> string option \<Rightarrow> int \<Rightarrow> int \<Rightarrow> (finding_row \<times> cve_row \<times> product_row) page result" where
  "list_findings d status owner page lmt =
     (let lmt = min 200 (max 1 lmt); offset = (page - 1) * lmt;
          hits = filter (matches_filter status owner) (t_rows (db_findings d)) in
      if offset < 0 then Inl (OtherError ''InvalidRowCountInResultOffsetClause'')
      else Inr \<lparr>pg_data = take (nat lmt) (drop (nat offset)
                  (order_by finding_le (List.map_filter (join_row d) hits))),
                pg_total = int (length hits), pg_page = page, pg_limit = lmt\<rparr>)"

definition finding_history :: "db \<Rightarrow> int \<Rightarrow> string \<Rightarrow> history_row list" where
  "finding_history d product_id cve_id =
     (let cve = py_upper cve_id in
      order_by (\<lambda>a b. fh_changed_at b \<le> fh_changed_at a)
        (filter (\<lambda>h. list_ex (\<lambda>f. fd_id f = fh_finding_id h \<and> fd_product_id f = product_id \<and> fd_cve_id f = cve)
           (t_rows (db_findings d))) (t_rows (db_history d))))"

section \<open>The trail of a finding\<close>

text \<open>
  The abstract value of the history: every finding starts open, every row starts from the status
  the row before it ended in, and the last one ends in the status the finding has now.
\<close>

definition trail :: "db \<Rightarrow> int \<Rightarrow> history_row list" where
  "trail d i = filter (\<lambda>h. fh_finding_id h = i) (t_rows (db_history d))"

fun linked :: "string \<Rightarrow> history_row list \<Rightarrow> string option" where
  "linked s [] = Some s"
| "linked s (h # hs) = (if fh_old_status h = Some s then linked (fh_new_status h) hs else None)"

definition trails_ok :: "db \<Rightarrow> bool" where
  "trails_ok d \<longleftrightarrow> list_all (\<lambda>f. linked ''open'' (trail d (fd_id f)) = Some (fd_status f)) (t_rows (db_findings d))"

lemma linked_snoc:
  "linked s hs = Some t \<Longrightarrow>
   linked s (hs @ [h]) = (if fh_old_status h = Some t then Some (fh_new_status h) else None)"
  by (induction s hs rule: linked.induct) (auto split: if_splits)

lemma trail_insert_history:
  "trail (insert_history now fid old new by reason d) i =
     trail d i @ (if fid = i then [\<lparr>fh_id = t_serial (db_history d) + 1, fh_finding_id = fid,
        fh_old_status = old, fh_new_status = new, fh_changed_by = by, fh_changed_at = now,
        fh_reason = reason\<rparr>] else [])"
  by (simp add: trail_def insert_history_def snd_insert_row)

lemma apply_update_keys [simp]:
  "fd_id (apply_update now body due f) = fd_id f"
  "fd_product_id (apply_update now body due f) = fd_product_id f"
  "fd_cve_id (apply_update now body due f) = fd_cve_id f"
  "fd_status (apply_update now body due f) = (case bu_status body of None \<Rightarrow> fd_status f | Some s \<Rightarrow> s)"
  by (simp_all add: apply_update_def)

interpretation finding_patch: row_update "\<lambda>f. (fd_product_id f, fd_cve_id f)" "apply_update now body due"
  for now body due
  by unfold_locales simp

lemma finding_key_unique:
  assumes "findings_ok d" and "f \<in> set (t_rows (db_findings d))" and "g \<in> set (t_rows (db_findings d))"
  shows "fd_product_id f = fd_product_id g \<and> fd_cve_id f = fd_cve_id g \<longleftrightarrow> f = g"
    and "fd_id f = fd_id g \<longleftrightarrow> f = g"
proof -
  have "inj_on (\<lambda>f. (fd_product_id f, fd_cve_id f)) (set (t_rows (db_findings d)))"
    using assms(1) by (simp add: findings_ok_def distinct_map)
  then show "fd_product_id f = fd_product_id g \<and> fd_cve_id f = fd_cve_id g \<longleftrightarrow> f = g"
    using assms(2,3) by (auto dest: inj_onD)
  show "fd_id f = fd_id g \<longleftrightarrow> f = g"
    using keyed_unique [OF _ assms(2,3)] assms(1) by (auto simp: findings_ok_def)
qed

text \<open>A successful update, step by step.\<close>

lemma update_finding_success:
  assumes "update_finding now user cl pid cve body d = (d', Inr r)"
  obtains current due where
    "find_finding d pid (py_upper cve) = Some current" "parse_due body = Inr due"
    "truthy (bu_status body) \<Longrightarrow> str_or_empty (bu_status body) \<in> set FINDING_STATUSES"
    "list_all finding_check (t_rows (update_rows (\<lambda>f. fd_product_id f = pid \<and> fd_cve_id f = py_upper cve)
        (apply_update now body due) (db_findings d)))"
    "d' = (let d1 = d\<lparr>db_findings := update_rows (\<lambda>f. fd_product_id f = pid \<and> fd_cve_id f = py_upper cve)
             (apply_update now body due) (db_findings d)\<rparr>;
           d2 = (if status_changed body current then insert_history now (fd_id current)
             (Some (fd_status current)) (str_or_empty (bu_status body)) (au_email user) (bu_reason body) d1 else d1)
       in d2\<lparr>db_audit := fst (insert_row (audit_row_of now (update_audit user cl pid (py_upper cve) body due current)) (db_audit d))\<rparr>)"
    "r = fetchrow (\<lambda>f. fd_product_id f = pid \<and> fd_cve_id f = py_upper cve) (t_rows (db_findings d'))"
  using assms
  by (auto simp: update_finding_def Let_def record_in_tx_def insert_row_def insert_history_def
      split: option.splits sum.splits if_splits prod.splits)


definition here :: "int \<Rightarrow> string \<Rightarrow> finding_row \<Rightarrow> bool" where
  "here pid cve f \<longleftrightarrow> fd_product_id f = pid \<and> fd_cve_id f = cve"

lemma find_findingD:
  assumes "find_finding d pid cve = Some f"
  shows "f \<in> set (t_rows (db_findings d))" and "here pid cve f"
  using fetchrow_Some [OF assms [unfolded find_finding_def]] by (simp_all add: here_def)

lemma here_unique:
  assumes "findings_ok d" and "find_finding d pid cve = Some f" and "g \<in> set (t_rows (db_findings d))"
  shows "here pid cve g \<longleftrightarrow> g = f"
  using finding_key_unique(1) [OF assms(1,3) find_findingD(1) [OF assms(2)]] find_findingD(2) [OF assms(2)]
  by (auto simp: here_def)

lemma update_only_here:
  assumes "findings_ok d" and "find_finding d pid cve = Some f"
  shows "sql_update (here pid cve) u (t_rows (db_findings d)) = sql_update (\<lambda>g. g = f) u (t_rows (db_findings d))"
  unfolding sql_update_def by (rule map_cong [OF refl]) (simp add: here_unique [OF assms])

lemma status_changed_iff:
  "status_changed body f \<longleftrightarrow> (\<exists>s. bu_status body = Some s \<and> s \<noteq> [] \<and> s \<noteq> fd_status f)"
  by (auto simp: status_changed_def truthy_def split: option.splits)

text \<open>The same success, with the one row it is about.\<close>

lemma update_finding_effect:
  assumes "findings_ok d" and "update_finding now user cl pid cve body d = (d', Inr r)"
  obtains f due where "find_finding d pid (py_upper cve) = Some f" "parse_due body = Inr due"
    "t_rows (db_findings d') = sql_update (\<lambda>g. g = f) (apply_update now body due) (t_rows (db_findings d))"
    "t_serial (db_findings d') = t_serial (db_findings d)"
    "list_all finding_check (t_rows (db_findings d'))"
    "db_history d' = (if status_changed body f then db_history (insert_history now (fd_id f)
        (Some (fd_status f)) (str_or_empty (bu_status body)) (au_email user) (bu_reason body) d) else db_history d)"
    "db_audit d' = fst (insert_row (audit_row_of now (update_audit user cl pid (py_upper cve) body due f)) (db_audit d))"
    "d' = d\<lparr>db_findings := db_findings d', db_history := db_history d', db_audit := db_audit d'\<rparr>"
    "r = fetchrow (here pid (py_upper cve)) (t_rows (db_findings d'))"
proof -
  from assms(2) obtain f due where s: "find_finding d pid (py_upper cve) = Some f" "parse_due body = Inr due"
    "list_all finding_check (t_rows (update_rows (here pid (py_upper cve)) (apply_update now body due) (db_findings d)))"
    "d' = (let d1 = d\<lparr>db_findings := update_rows (here pid (py_upper cve)) (apply_update now body due) (db_findings d)\<rparr>;
           d2 = (if status_changed body f then insert_history now (fd_id f)
             (Some (fd_status f)) (str_or_empty (bu_status body)) (au_email user) (bu_reason body) d1 else d1)
       in d2\<lparr>db_audit := fst (insert_row (audit_row_of now (update_audit user cl pid (py_upper cve) body due f)) (db_audit d))\<rparr>)"
    "r = fetchrow (here pid (py_upper cve)) (t_rows (db_findings d'))"
    by (rule update_finding_success) (simp_all add: here_def [abs_def])
  show thesis
    by (rule that [OF s(1,2)])
      (use s(3,4,5) in \<open>simp_all add: Let_def insert_history_def update_rows_def update_only_here [OF assms(1) s(1)]\<close>)
qed

text \<open>\<open>findings_ok\<close> and the trails survive every update.\<close>

lemma update_finding_ok:
  assumes "findings_ok d" and "update_finding now user cl pid cve body d = (d', Inr r)"
  shows "findings_ok d'"
proof -
  obtain f due where e:
    "t_rows (db_findings d') = sql_update (\<lambda>g. g = f) (apply_update now body due) (t_rows (db_findings d))"
    "t_serial (db_findings d') = t_serial (db_findings d)"
    "list_all finding_check (t_rows (db_findings d'))"
    using update_finding_effect [OF assms] by metis
  have "db_findings d' = update_rows (\<lambda>g. g = f) (apply_update now body due) (db_findings d)"
    using e(1,2) by (simp add: update_rows_def)
  then show ?thesis
    using assms(1) e(3) keyed_update [of fd_id "db_findings d" "apply_update now body due" "\<lambda>g. g = f"]
    by (simp add: findings_ok_def finding_patch.keys_kept)
qed

lemma update_finding_trails:
  assumes "findings_ok d" and "trails_ok d" and "update_finding now user cl pid cve body d = (d', Inr r)"
  shows "trails_ok d'"
proof -
  obtain f due where e: "find_finding d pid (py_upper cve) = Some f"
    "t_rows (db_findings d') = sql_update (\<lambda>g. g = f) (apply_update now body due) (t_rows (db_findings d))"
    "list_all finding_check (t_rows (db_findings d'))"
    "db_history d' = (if status_changed body f then db_history (insert_history now (fd_id f)
        (Some (fd_status f)) (str_or_empty (bu_status body)) (au_email user) (bu_reason body) d) else db_history d)"
    using update_finding_effect [OF assms(1,3)] by metis
  have fin: "f \<in> set (t_rows (db_findings d))" using find_findingD [OF e(1)] by simp
  have lnk: "linked ''open'' (trail d (fd_id g)) = Some (fd_status g)" if "g \<in> set (t_rows (db_findings d))" for g
    using assms(2) that by (simp add: trails_ok_def list_all_iff)
  have tr: "trail d' i = (if status_changed body f then trail (insert_history now (fd_id f)
        (Some (fd_status f)) (str_or_empty (bu_status body)) (au_email user) (bu_reason body) d) i else trail d i)" for i
    using e(4) by (simp add: trail_def)
  have "linked ''open'' (trail d' (fd_id g')) = Some (fd_status g')" if g': "g' \<in> set (t_rows (db_findings d'))" for g'
  proof -
    obtain g where g: "g \<in> set (t_rows (db_findings d))" "g' = (if g = f then apply_update now body due g else g)"
      using g' unfolding e(2) by (rule in_sql_updateE)
    have chk: "bu_status body = Some s \<Longrightarrow> g = f \<Longrightarrow> s \<noteq> []" for s
      using e(3) g' g(2) by (auto simp: list_all_iff finding_check_def FINDING_STATUSES_def)
    show ?thesis
    proof (cases "g = f")
      case True
      then show ?thesis using g(2) lnk [OF fin] chk
        by (cases "bu_status body")
          (auto simp: tr trail_insert_history status_changed_iff str_or_empty_def linked_snoc)
    next
      case False
      then have "fd_id g \<noteq> fd_id f" using finding_key_unique(2) [OF assms(1) g(1) fin] by simp
      then show ?thesis using False g(2) lnk [OF g(1)] by (simp add: tr trail_insert_history)
    qed
  qed
  then show ?thesis by (simp add: trails_ok_def list_all_iff)
qed

section \<open>Properties\<close>

text \<open>What a successful PATCH of a finding does, and that a failed one does nothing: on success the
  finding of that product and CVE takes the fields of the body that are present and keeps the others,
  every other finding stays as it is, one history row with the old and the new status, the caller and
  the reason is appended exactly when the status really changes, one audit row is appended in every
  case, no other table changes, and the answer is the new row; on any error the database is untouched.\<close>

theorem update_finding_correct:
  assumes "findings_ok d"
  shows "case update_finding now user cl pid cve body d of
      (d', Inl e) \<Rightarrow> d' = d
    | (d', Inr r) \<Rightarrow> (\<exists>f due. find_finding d pid (py_upper cve) = Some f \<and> parse_due body = Inr due \<and>
        r = Some (apply_update now body due f) \<and>
        t_rows (db_findings d') = map (\<lambda>g. if g = f then apply_update now body due g else g) (t_rows (db_findings d)) \<and>
        map (\<lambda>h. (fh_finding_id h, fh_old_status h, fh_new_status h, fh_changed_by h, fh_reason h)) (t_rows (db_history d'))
          = map (\<lambda>h. (fh_finding_id h, fh_old_status h, fh_new_status h, fh_changed_by h, fh_reason h)) (t_rows (db_history d))
            @ (case bu_status body of None \<Rightarrow> [] | Some s \<Rightarrow> if s = fd_status f then []
               else [(fd_id f, Some (fd_status f), s, au_email user, bu_reason body)]) \<and>
        (\<exists>row. t_rows (db_audit d') = t_rows (db_audit d) @ [row] \<and> al_actor row = str_or (Some (au_email user)) ''anonymous'') \<and>
        d' = d\<lparr>db_findings := db_findings d', db_history := db_history d', db_audit := db_audit d'\<rparr>)"
proof (cases "update_finding now user cl pid cve body d")
  case (Pair d' res)
  show ?thesis
  proof (cases res)
    case (Inl e)
    then show ?thesis using Pair
      by (auto simp: update_finding_def Let_def split: option.splits sum.splits if_splits prod.splits)
  next
    case (Inr r)
    obtain f due where e: "find_finding d pid (py_upper cve) = Some f" "parse_due body = Inr due"
      "t_rows (db_findings d') = sql_update (\<lambda>g. g = f) (apply_update now body due) (t_rows (db_findings d))"
      "list_all finding_check (t_rows (db_findings d'))"
      "db_history d' = (if status_changed body f then db_history (insert_history now (fd_id f)
        (Some (fd_status f)) (str_or_empty (bu_status body)) (au_email user) (bu_reason body) d) else db_history d)"
      "db_audit d' = fst (insert_row (audit_row_of now (update_audit user cl pid (py_upper cve) body due f)) (db_audit d))"
      "d' = d\<lparr>db_findings := db_findings d', db_history := db_history d', db_audit := db_audit d'\<rparr>"
      "r = fetchrow (here pid (py_upper cve)) (t_rows (db_findings d'))"
      using update_finding_effect [OF assms Pair [unfolded Inr]] by metis
    have fin: "f \<in> set (t_rows (db_findings d))" "here pid (py_upper cve) f"
      using find_findingD [OF e(1)] by simp_all
    have new: "apply_update now body due f \<in> set (t_rows (db_findings d'))"
      unfolding e(3) using fin(1) by (force simp: in_sql_update)
    have ok': "findings_ok d'" using update_finding_ok [OF assms Pair [unfolded Inr]] .
    have r: "r = Some (apply_update now body due f)"
    proof (cases r)
      case None
      then show ?thesis using e(8) new fin(2)
        fetchrow_None [of "here pid (py_upper cve)" "t_rows (db_findings d')"] by (auto simp: here_def)
    next
      case (Some y)
      then have "y \<in> set (t_rows (db_findings d'))" "here pid (py_upper cve) y"
        using fetchrow_Some [of "here pid (py_upper cve)" "t_rows (db_findings d')" y] e(8) by simp_all
      then show ?thesis using finding_key_unique(1) [OF ok' _ new, of y] fin(2) Some by (simp add: here_def)
    qed
    have ne: "bu_status body \<noteq> Some []"
    proof
      assume "bu_status body = Some []"
      then have "fd_status (apply_update now body due f) = []" by simp
      then show False using e(4) new by (auto simp: list_all_iff finding_check_def FINDING_STATUSES_def)
    qed
    have a: "al_actor (snd (insert_row (audit_row_of now (update_audit user cl pid (py_upper cve) body due f)) (db_audit d)))
        = str_or (Some (au_email user)) ''anonymous''"
      by (simp add: snd_insert_row audit_row_of_def update_audit_def Let_def)
    show ?thesis unfolding Pair Inr prod.case sum.case
      by (intro exI [of _ f] exI [of _ due] conjI e(1,2,7) r)
        (use e(3,5,6) ne a in \<open>auto simp: sql_update_def status_changed_iff str_or_empty_def insert_history_def
            snd_insert_row split: option.splits\<close>)
  qed
qed

definition sample_finding :: finding_row where
  "sample_finding = \<lparr>fd_id = 1, fd_product_id = 3, fd_cve_id = ''CVE-2021-44228'', fd_status = ''open'',
     fd_match_confidence = Some ''certain'', fd_match_reason = None, fd_priority_score = Some 97,
     fd_assigned_to = Some ''ann'', fd_due_date = None, fd_notes = None, fd_created_at = 0, fd_updated_at = 0\<rparr>"

definition sample_db :: db where
  "sample_db = (empty_db 0)\<lparr>db_findings := \<lparr>t_rows = [sample_finding,
     sample_finding\<lparr>fd_id := 2, fd_cve_id := ''CVE-2014-0160'', fd_status := ''closed''\<rparr>], t_serial = 2\<rparr>,
     db_history := \<lparr>t_rows = [\<lparr>fh_id = 1, fh_finding_id = 2, fh_old_status = Some ''open'',
       fh_new_status = ''closed'', fh_changed_by = ''ann'', fh_changed_at = 0, fh_reason = None\<rparr>], t_serial = 1\<rparr>\<rparr>"

definition no_update :: finding_update where
  "no_update = \<lparr>bu_status = None, bu_assigned_to = None, bu_due_date = None, bu_notes = None,
     bu_actor = None, bu_reason = None\<rparr>"

definition ann :: auth_user where
  "ann = \<lparr>au_id = 7, au_email = ''ann@corp.io'', au_role = ''analyst''\<rparr>"

definition local_client :: client where
  "local_client = \<lparr>client_ip = Some ''127.0.0.1'', user_agent = None\<rparr>"

lemma sample_ok: "findings_ok sample_db" "trails_ok sample_db"
  by code_simp+

theorem update_finding_correct_witness:
  "\<exists>d'. update_finding 5 ann local_client 3 ''cve-2014-0160'' (no_update\<lparr>bu_status := Some ''open''\<rparr>) sample_db
      = (d', Inr (Some (apply_update 5 (no_update\<lparr>bu_status := Some ''open''\<rparr>) None
           (sample_finding\<lparr>fd_id := 2, fd_cve_id := ''CVE-2014-0160'', fd_status := ''closed''\<rparr>))))"
proof -
  let ?b = "no_update\<lparr>bu_status := Some ''open''\<rparr>"
  let ?f = "sample_finding\<lparr>fd_id := 2, fd_cve_id := ''CVE-2014-0160'', fd_status := ''closed''\<rparr>"
  let ?u = "update_finding 5 ann local_client 3 ''cve-2014-0160'' ?b sample_db"
  have "\<not> isl (snd ?u)" by code_simp
  then obtain d' r where u: "?u = (d', Inr r)" by (metis prod.collapse sum.collapse(2))
  have f: "find_finding sample_db 3 (py_upper ''cve-2014-0160'') = Some ?f" by code_simp
  have due: "parse_due ?b = Inr None" by (simp add: parse_due_def no_update_def truthy_def)
  obtain g n where "find_finding sample_db 3 (py_upper ''cve-2014-0160'') = Some g" "parse_due ?b = Inr n"
      "r = Some (apply_update 5 ?b n g)"
    using update_finding_correct [OF sample_ok(1), where now = 5 and user = ann
        and cl = local_client and pid = 3 and cve = "''cve-2014-0160''" and body = ?b]
    unfolding u prod.case sum.case by blast
  then have "r = Some (apply_update 5 ?b None ?f)"
    unfolding f due by (simp only: option.inject sum.inject)
  then show ?thesis using u by (intro exI [of _ d']) (simp only:)
qed



text \<open>The documented life cycle is not enforced: whatever the status of a finding, an analyst can set
  any of the seven statuses in one PATCH, so a closed finding can be reopened and an open one can be
  put in \<open>accepted_risk\<close> without any risk acceptance.\<close>

theorem any_status_reachable_by_patch:
  assumes "findings_ok d" and "find_finding d pid (py_upper cve) = Some f"
    and "s \<in> set FINDING_STATUSES" and "inet_ok (client_ip cl)"
  shows "\<exists>d'. update_finding now user cl pid cve (no_update\<lparr>bu_status := Some s\<rparr>) d =
     (d', Inr (fetchrow (here pid (py_upper cve)) (t_rows (db_findings d')))) \<and>
     find_finding d' pid (py_upper cve) = Some (apply_update now (no_update\<lparr>bu_status := Some s\<rparr>) None f)"
proof -
  let ?b = "no_update\<lparr>bu_status := Some s\<rparr>"
  let ?t = "update_rows (here pid (py_upper cve)) (apply_update now ?b None) (db_findings d)"
  have fin: "f \<in> set (t_rows (db_findings d))" "here pid (py_upper cve) f" using find_findingD [OF assms(2)] by simp_all
  have chk: "list_all finding_check (t_rows ?t)"
    using assms(1,3) by (auto simp: findings_ok_def list_all_iff in_sql_update finding_check_def apply_update_def no_update_def)
  have g: "fetchrow (here pid (py_upper cve)) (t_rows ?t) = Some (apply_update now ?b None f)"
    using finding_patch.by_key [of "t_rows (db_findings d)" f now ?b None] assms(1) fin
    by (simp add: findings_ok_def here_def [abs_def])
  have ip: "inet_ok (au_ip_address (update_audit user cl pid (py_upper cve) ?b None f))"
    using assms(4) by (simp add: update_audit_def)
  show ?thesis
    using assms(2,3) chk g record_in_tx_ok [OF ip]
    by (simp add: update_finding_def Let_def parse_due_def no_update_def truthy_def str_or_empty_def
        here_def [abs_def] find_finding_def insert_history_def)
qed

theorem any_status_reachable_by_patch_witness:
  "\<exists>d' f. update_finding 5 ann local_client 3 ''cve-2021-44228'' (no_update\<lparr>bu_status := Some ''accepted_risk''\<rparr>) sample_db = (d', Inr (Some f)) \<and>
     fd_status f = ''accepted_risk'' \<and> db_risks sample_db = empty_table"
proof -
  have f: "find_finding sample_db 3 (py_upper ''cve-2021-44228'') = Some sample_finding" by code_simp
  have s: "''accepted_risk'' \<in> set FINDING_STATUSES" by (simp add: FINDING_STATUSES_def)
  have ip: "inet_ok (client_ip local_client)" by code_simp
  show ?thesis
    using any_status_reachable_by_patch [OF sample_ok(1) f s ip, where now = 5 and user = ann]
    by (auto simp: find_finding_def here_def [abs_def] sample_db_def empty_db_def no_update_def)
qed

end
