(* ===== verification/Risk_Acceptance.thy ===== *)
theory Risk_Acceptance
  imports Findings
begin

text \<open>
  \<open>app/api/routers/risk_acceptance.py\<close> and \<open>app/workers/risk_acceptance_expirer.py\<close>: the request for
  accepting the risk of a finding, the decision of a second person, and the daily job that ends
  acceptances whose date has passed. The decision is split where the code leaves the database
  unguarded: the checks run before the transaction that writes.
\<close>

section \<open>Request bodies\<close>

record risk_create =
  rc_requested_by :: "string option"
  rc_justification :: string
  rc_expires_at :: int

definition max_len :: "nat \<Rightarrow> string option \<Rightarrow> bool" where
  "max_len n x = (case x of None \<Rightarrow> True | Some s \<Rightarrow> length s \<le> n)"

definition risk_create_valid :: "int \<Rightarrow> risk_create \<Rightarrow> bool" where
  "risk_create_valid now b \<longleftrightarrow> max_len 200 (rc_requested_by b) \<and>
     10 \<le> length (rc_justification b) \<and> length (rc_justification b) \<le> 4000 \<and>
     current_date now < rc_expires_at b"

record risk_decision =
  rd_action :: string
  rd_decided_by :: "string option"
  rd_note :: "string option"

definition risk_decision_valid :: "risk_decision \<Rightarrow> bool" where
  "risk_decision_valid b \<longleftrightarrow> rd_action b \<in> {''approve'', ''reject''} \<and> max_len 200 (rd_decided_by b) \<and>
     max_len 2000 (rd_note b)"

definition unprocessable :: py_exn where
  "unprocessable = HttpException 422 ''request validation''"

section \<open>POST .../risk-acceptance\<close>

definition new_acceptance :: "int \<Rightarrow> int \<Rightarrow> string \<Rightarrow> risk_create \<Rightarrow> int \<Rightarrow> risk_row" where
  "new_acceptance now fid requested_by b n =
     \<lparr>ra_id = n, ra_finding_id = fid, ra_requested_by = requested_by, ra_approved_by = None,
      ra_justification = rc_justification b, ra_expires_at = rc_expires_at b, ra_status = ''pending'',
      ra_created_at = now, ra_decided_at = None\<rparr>"

definition request_audit :: "auth_user \<Rightarrow> client \<Rightarrow> int \<Rightarrow> string \<Rightarrow> risk_create \<Rightarrow> audit_args" where
  "request_audit user cl pid cve b =
     \<lparr>au_action = ''risk_acceptance.request'', au_target_type = Some ''finding'',
      au_target_id = Some (finding_target pid cve), au_actor_email = Some (au_email user),
      au_actor_role = Some (au_role user),
      au_diff = Some [(''after'', JObj [(''status'', JStr ''pending''),
         (''expires_at'', JStr (date_isoformat (rc_expires_at b))),
         (''justification_len'', JInt (int (length (rc_justification b))))])],
      au_metadata = None, au_ip_address = client_ip cl, au_user_agent = user_agent cl\<rparr>"

definition create_risk_acceptance ::
    "int \<Rightarrow> auth_user \<Rightarrow> client \<Rightarrow> int \<Rightarrow> string \<Rightarrow> risk_create \<Rightarrow> db \<Rightarrow> db \<times> risk_row result" where
  "create_risk_acceptance now user cl product_id cve_id body d =
     (if \<not> risk_create_valid now body then (d, Inl unprocessable)
      else let cve = py_upper cve_id in
      case find_finding d product_id cve of
        None \<Rightarrow> (d, Inl (HttpException 404 ''finding not found''))
      | Some f \<Rightarrow>
          if fd_status f \<in> {''remediated'', ''closed'', ''false_positive''}
          then (d, Inl (HttpException 409 ''cannot request risk acceptance''))
          else
            (let (t, row) = insert_row (new_acceptance now (fd_id f) (au_email user) body) (db_risks d) in
             case record_in_tx now (request_audit user cl product_id cve body) (d\<lparr>db_risks := t\<rparr>) of
               Inl e \<Rightarrow> (d, Inl e)
             | Inr (d', _) \<Rightarrow> (d', Inr row)))"

section \<open>PATCH .../risk-acceptance/{acceptance_id}\<close>

definition decided_status :: "risk_decision \<Rightarrow> string" where
  "decided_status b = (if rd_action b = ''approve'' then ''approved'' else ''rejected'')"

definition find_acceptance :: "db \<Rightarrow> int \<Rightarrow> int \<Rightarrow> string \<Rightarrow> risk_row option" where
  "find_acceptance d aid pid cve =
     fetchrow (\<lambda>r. ra_id r = aid \<and>
       list_ex (\<lambda>f. fd_id f = ra_finding_id r \<and> fd_product_id f = pid \<and> fd_cve_id f = cve) (t_rows (db_findings d)))
       (t_rows (db_risks d))"

text \<open>The checks, outside the transaction.\<close>

definition decide_check ::
    "auth_user \<Rightarrow> int \<Rightarrow> string \<Rightarrow> int \<Rightarrow> risk_decision \<Rightarrow> db \<Rightarrow> risk_row result" where
  "decide_check user product_id cve_id aid body d =
     (if \<not> risk_decision_valid body then Inl unprocessable
      else case find_acceptance d aid product_id (py_upper cve_id) of
        None \<Rightarrow> Inl (HttpException 404 ''risk acceptance not found'')
      | Some existing \<Rightarrow>
          if ra_status existing \<noteq> ''pending'' then Inl (HttpException 409 ''already decided'')
          else if decided_status body = ''approved'' \<and> ra_requested_by existing = au_email user
          then Inl (HttpException 409 ''approver must differ from requester (segregation of duties)'')
          else Inr existing)"

definition decide_audit :: "auth_user \<Rightarrow> client \<Rightarrow> int \<Rightarrow> risk_decision \<Rightarrow> audit_args" where
  "decide_audit user cl aid b =
     \<lparr>au_action = ''risk_acceptance.'' @ rd_action b, au_target_type = Some ''risk_acceptance'',
      au_target_id = Some (py_str_int aid), au_actor_email = Some (au_email user),
      au_actor_role = Some ''approver'',
      au_diff = Some [(''before'', JObj [(''status'', JStr ''pending'')]),
        (''after'', JObj [(''status'', JStr (decided_status b)), (''note'', jopt JStr (rd_note b))])],
      au_metadata = None, au_ip_address = client_ip cl, au_user_agent = user_agent cl\<rparr>"

definition set_decision :: "int \<Rightarrow> string \<Rightarrow> string \<Rightarrow> risk_row \<Rightarrow> risk_row" where
  "set_decision now new_status decided_by r =
     r\<lparr>ra_status := new_status, ra_approved_by := Some decided_by, ra_decided_at := Some now\<rparr>"

definition set_finding_status :: "int \<Rightarrow> string \<Rightarrow> finding_row \<Rightarrow> finding_row" where
  "set_finding_status now s f = f\<lparr>fd_status := s, fd_updated_at := now\<rparr>"

text \<open>The transaction, which trusts the row it was given.\<close>

definition decide_commit ::
    "int \<Rightarrow> auth_user \<Rightarrow> client \<Rightarrow> int \<Rightarrow> risk_decision \<Rightarrow> risk_row \<Rightarrow> db \<Rightarrow> db \<times> risk_row option result" where
  "decide_commit now user cl aid body existing d =
     (let new_status = decided_status body;
          t = update_rows (\<lambda>r. ra_id r = aid) (set_decision now new_status (au_email user)) (db_risks d);
          d1 = d\<lparr>db_risks := t\<rparr>;
          d2 = (if new_status = ''approved''
                then insert_history now (ra_finding_id existing) (Some ''open'') ''accepted_risk'' (au_email user)
                  (Some (''risk_acceptance.approve#'' @ py_str_int aid))
                  (d1\<lparr>db_findings := update_rows (\<lambda>f. fd_id f = ra_finding_id existing)
                        (set_finding_status now ''accepted_risk'') (db_findings d1)\<rparr>)
                else d1) in
      case record_in_tx now (decide_audit user cl aid body) d2 of
        Inl e \<Rightarrow> (d, Inl e)
      | Inr (d3, _) \<Rightarrow> (d3, Inr (fetchrow (\<lambda>r. ra_id r = aid) (t_rows t))))"

definition decide_risk_acceptance ::
    "int \<Rightarrow> auth_user \<Rightarrow> client \<Rightarrow> int \<Rightarrow> string \<Rightarrow> int \<Rightarrow> risk_decision \<Rightarrow> db \<Rightarrow> db \<times> risk_row option result" where
  "decide_risk_acceptance now user cl product_id cve_id aid body d =
     (case decide_check user product_id cve_id aid body d of
        Inl e \<Rightarrow> (d, Inl e)
      | Inr existing \<Rightarrow> decide_commit now user cl aid body existing d)"

section \<open>Reading\<close>

definition list_finding_risk_acceptances :: "db \<Rightarrow> int \<Rightarrow> string \<Rightarrow> risk_row list" where
  "list_finding_risk_acceptances d product_id cve_id =
     (let cve = py_upper cve_id in
      order_by (\<lambda>a b. ra_created_at b \<le> ra_created_at a)
        (filter (\<lambda>r. list_ex (\<lambda>f. fd_id f = ra_finding_id r \<and> fd_product_id f = product_id \<and> fd_cve_id f = cve)
           (t_rows (db_findings d))) (t_rows (db_risks d))))"

record risk_counters =
  k_pending :: int
  k_approved :: int
  k_rejected :: int
  k_expired :: int
  k_expiring_soon :: int
  k_total :: int

definition expiring_soon :: "int \<Rightarrow> int \<Rightarrow> risk_row \<Rightarrow> bool" where
  "expiring_soon now window r \<longleftrightarrow> ra_status r = ''approved'' \<and> ra_expires_at r \<le> current_date now + window"

definition join_risk :: "db \<Rightarrow> risk_row \<Rightarrow> (risk_row \<times> finding_row \<times> cve_row \<times> product_row) option" where
  "join_risk d r = (case finding_by_id d (ra_finding_id r) of None \<Rightarrow> None
     | Some f \<Rightarrow> map_option (Pair r) (join_row d f))"

record risk_summary =
  rs_window :: int
  rs_counters :: risk_counters
  rs_pending_recent :: "(risk_row \<times> finding_row \<times> cve_row \<times> product_row) list"
  rs_expiring_soon :: "(risk_row \<times> finding_row \<times> cve_row \<times> product_row) list"

definition risk_acceptance_summary :: "int \<Rightarrow> db \<Rightarrow> int \<Rightarrow> risk_summary" where
  "risk_acceptance_summary now d expiring_window_days =
     (let w = max 1 (min 365 expiring_window_days); rs = t_rows (db_risks d);
          is = (\<lambda>s r. ra_status r = s) in
      \<lparr>rs_window = w,
       rs_counters = \<lparr>k_pending = sql_count (is ''pending'') rs, k_approved = sql_count (is ''approved'') rs,
         k_rejected = sql_count (is ''rejected'') rs, k_expired = sql_count (is ''expired'') rs,
         k_expiring_soon = sql_count (expiring_soon now w) rs, k_total = sql_count (\<lambda>_. True) rs\<rparr>,
       rs_pending_recent = take 10 (order_by (\<lambda>a b. ra_created_at (fst b) \<le> ra_created_at (fst a))
         (List.map_filter (join_risk d) (filter (is ''pending'') rs))),
       rs_expiring_soon = take 20 (order_by (\<lambda>a b. ra_expires_at (fst a) \<le> ra_expires_at (fst b))
         (List.map_filter (join_risk d) (filter (expiring_soon now w) rs)))\<rparr>)"

section \<open>The daily job\<close>

definition due_now :: "int \<Rightarrow> risk_row \<Rightarrow> bool" where
  "due_now now r \<longleftrightarrow> ra_status r = ''approved'' \<and> ra_expires_at r < current_date now"

text \<open>The rows of \<open>_FETCH_DUE_SQL\<close>: the acceptance and its finding as they were when fetched.\<close>

definition fetch_due :: "int \<Rightarrow> db \<Rightarrow> (risk_row \<times> finding_row) list" where
  "fetch_due now d =
     List.map_filter (\<lambda>r. map_option (Pair r) (finding_by_id d (ra_finding_id r)))
       (filter (due_now now) (t_rows (db_risks d)))"

definition expire_audit :: "risk_row \<times> finding_row \<Rightarrow> audit_args" where
  "expire_audit rf = (case rf of (r, f) \<Rightarrow>
     \<lparr>au_action = ''risk_acceptance.expire'', au_target_type = Some ''risk_acceptance'',
      au_target_id = Some (py_str_int (ra_id r)), au_actor_email = Some ''system'',
      au_actor_role = Some ''system'',
      au_diff = Some [(''before'', JObj [(''status'', JStr ''approved'')]),
        (''after'', JObj [(''status'', JStr ''expired'')]),
        (''finding'', JObj [(''product_id'', JInt (fd_product_id f)), (''cve_id'', JStr (fd_cve_id f)),
           (''reopened'', JBool (fd_status f = ''accepted_risk''))])],
      au_metadata = None, au_ip_address = None, au_user_agent = None\<rparr>)"

definition expire_one :: "int \<Rightarrow> db \<Rightarrow> risk_row \<times> finding_row \<Rightarrow> db" where
  "expire_one now d rf = (case rf of (r, f) \<Rightarrow>
     (let d1 = d\<lparr>db_risks := update_rows (\<lambda>x. ra_id x = ra_id r) (\<lambda>x. x\<lparr>ra_status := ''expired''\<rparr>) (db_risks d)\<rparr>;
          d2 = (if fd_status f = ''accepted_risk''
                then insert_history now (ra_finding_id r) (Some ''accepted_risk'') ''open'' ''system''
                  (Some (''risk_acceptance.expire#'' @ py_str_int (ra_id r)))
                  (d1\<lparr>db_findings := update_rows (\<lambda>x. fd_id x = ra_finding_id r)
                        (set_finding_status now ''open'') (db_findings d1)\<rparr>)
                else d1) in
      d2\<lparr>db_audit := fst (insert_row (audit_row_of now (expire_audit rf)) (db_audit d2))\<rparr>))"

record expire_result =
  er_expired :: int
  er_reopened :: int

definition expire_risk_acceptances :: "int \<Rightarrow> db \<Rightarrow> db \<times> expire_result" where
  "expire_risk_acceptances now d =
     (let due = fetch_due now d in
      (foldl (expire_one now) d due,
       \<lparr>er_expired = int (length due),
        er_reopened = sql_count (\<lambda>(r, f). fd_status f = ''accepted_risk'') due\<rparr>))"

section \<open>The life cycle as a machine\<close>

text \<open>The calls that touch findings and acceptances, in any order.\<close>

datatype lifecycle_event =
    Patch_Finding int auth_user client int string finding_update
  | Request_Acceptance int auth_user client int string risk_create
  | Decide_Acceptance int auth_user client int string int risk_decision
  | Expire_Acceptances int

fun lifecycle_step :: "db \<Rightarrow> lifecycle_event \<Rightarrow> db" where
  "lifecycle_step d (Patch_Finding now user cl pid cve b) = fst (update_finding now user cl pid cve b d)"
| "lifecycle_step d (Request_Acceptance now user cl pid cve b) = fst (create_risk_acceptance now user cl pid cve b d)"
| "lifecycle_step d (Decide_Acceptance now user cl pid cve aid b) =
     fst (decide_risk_acceptance now user cl pid cve aid b d)"
| "lifecycle_step d (Expire_Acceptances now) = fst (expire_risk_acceptances now d)"

text \<open>
  One acceptance over time: what is written at the request never changes, and its state moves only
  from pending to a decision by a named person and from approved to expired.
\<close>

definition acceptance_evolves :: "risk_row \<Rightarrow> risk_row \<Rightarrow> bool" where
  "acceptance_evolves a b \<longleftrightarrow>
     ra_id b = ra_id a \<and> ra_finding_id b = ra_finding_id a \<and> ra_requested_by b = ra_requested_by a \<and>
     ra_justification b = ra_justification a \<and> ra_expires_at b = ra_expires_at a \<and>
     (ra_status a = ra_status b \<and> ra_approved_by b = ra_approved_by a \<or>
      ra_status a = ''pending'' \<and> ra_status b = ''rejected'' \<or>
      ra_status a = ''pending'' \<and> ra_status b \<in> {''approved'', ''expired''} \<and>
        (\<exists>p. ra_approved_by b = Some p \<and> p \<noteq> ra_requested_by a) \<or>
      ra_status a = ''approved'' \<and> ra_status b = ''expired'' \<and> ra_approved_by b = ra_approved_by a)"

definition two_people :: "risk_row \<Rightarrow> bool" where
  "two_people r \<longleftrightarrow> (ra_status r \<in> {''approved'', ''expired''} \<longrightarrow>
     opt_ex (\<lambda>p. p \<noteq> ra_requested_by r) (ra_approved_by r))"

definition segregated :: "db \<Rightarrow> bool" where
  "segregated d \<longleftrightarrow> keyed ra_id (db_risks d) \<and> list_all two_people (t_rows (db_risks d))"

lemma acceptance_evolves_refl [simp]: "acceptance_evolves r r"
  by (simp add: acceptance_evolves_def)

lemma evolves_two_people: "acceptance_evolves a b \<Longrightarrow> two_people a \<Longrightarrow> two_people b"
  by (auto simp: acceptance_evolves_def two_people_def opt_ex_iff)

text \<open>What one operation may do to the table of acceptances.\<close>

definition risks_step :: "risk_row table \<Rightarrow> risk_row table \<Rightarrow> bool" where
  "risks_step t t' \<longleftrightarrow>
     (\<exists>g new. t_rows t' = map g (t_rows t) @ new \<and> (\<forall>r \<in> set (t_rows t). acceptance_evolves r (g r)) \<and>
        (\<forall>r \<in> set new. ra_status r = ''pending''))"

lemma risks_step_same [simp]: "risks_step t t"
  unfolding risks_step_def by (rule exI [of _ id], rule exI [of _ "[]"]) simp

lemma risks_step_update:
  assumes "\<And>r. r \<in> set (t_rows t) \<Longrightarrow> p r \<Longrightarrow> acceptance_evolves r (f r)"
  shows "risks_step t (update_rows p f t)"
  unfolding risks_step_def
  by (rule exI [of _ "\<lambda>r. if p r then f r else r"], rule exI [of _ "[]"])
    (simp add: assms sql_update_def)

lemma risks_step_insert:
  assumes "\<And>n. ra_status (mk n) = ''pending''"
  shows "risks_step t (fst (insert_row mk t))"
  unfolding risks_step_def
  by (rule exI [of _ id], rule exI [of _ "[snd (insert_row mk t)]"]) (simp add: snd_insert_row assms)

lemma risks_step_two_people:
  "risks_step t t' \<Longrightarrow> list_all two_people (t_rows t) \<Longrightarrow> list_all two_people (t_rows t')"
proof -
  assume s: "risks_step t t'" and l: "list_all two_people (t_rows t)"
  obtain g new where g: "t_rows t' = map g (t_rows t) @ new"
    "\<forall>r \<in> set (t_rows t). acceptance_evolves r (g r)" "\<forall>r \<in> set new. ra_status r = ''pending''"
    using s unfolding risks_step_def by blast
  have "two_people r" if "r \<in> set new" for r using g(3) that by (simp add: two_people_def)
  moreover have "two_people (g r)" if "r \<in> set (t_rows t)" for r
    using evolves_two_people [of r "g r"] g(2) l that by (simp add: list_all_iff)
  ultimately show ?thesis using g(1) by (auto simp: list_all_iff)
qed

lemma evolves_keeps_id: "acceptance_evolves a b \<Longrightarrow> ra_id b = ra_id a"
  by (simp add: acceptance_evolves_def)

text \<open>The four operations.\<close>

lemma update_finding_risks: "db_risks (fst (update_finding now user cl pid cve b d)) = db_risks d"
  by (auto simp: update_finding_def Let_def record_in_tx_def insert_row_def insert_history_def
      split: option.splits sum.splits if_splits prod.splits)

lemma create_risks:
  "fst (create_risk_acceptance now user cl pid cve b d) = d \<or>
   (\<exists>f. find_finding d pid (py_upper cve) = Some f \<and>
      db_risks (fst (create_risk_acceptance now user cl pid cve b d))
        = fst (insert_row (new_acceptance now (fd_id f) (au_email user) b) (db_risks d)))"
  by (auto simp: create_risk_acceptance_def Let_def record_in_tx_def insert_row_def
      split: option.splits sum.splits if_splits prod.splits)

lemma decide_check_ok:
  assumes "decide_check user pid cve aid b d = Inr ex"
  shows "find_acceptance d aid pid (py_upper cve) = Some ex" and "ra_status ex = ''pending''"
    and "decided_status b = ''approved'' \<Longrightarrow> ra_requested_by ex \<noteq> au_email user"
    and "ra_id ex = aid" and "ex \<in> set (t_rows (db_risks d))" and "risk_decision_valid b"
proof -
  show f: "find_acceptance d aid pid (py_upper cve) = Some ex"
    using assms by (auto simp: decide_check_def split: option.splits if_splits)
  show "ra_status ex = ''pending''" "risk_decision_valid b"
    using assms by (auto simp: decide_check_def split: option.splits if_splits)
  show "decided_status b = ''approved'' \<Longrightarrow> ra_requested_by ex \<noteq> au_email user"
    using assms by (auto simp: decide_check_def split: option.splits if_splits)
  show "ra_id ex = aid" "ex \<in> set (t_rows (db_risks d))"
    using fetchrow_Some [OF f [unfolded find_acceptance_def]] by simp_all
qed

lemma decide_commit_risks:
  "fst (decide_commit now user cl aid b ex d) = d \<or>
   db_risks (fst (decide_commit now user cl aid b ex d)) =
     update_rows (\<lambda>r. ra_id r = aid) (set_decision now (decided_status b) (au_email user)) (db_risks d)"
  by (auto simp: decide_commit_def Let_def record_in_tx_def insert_row_def insert_history_def
      split: sum.splits if_splits prod.splits)

lemma set_decision_evolves:
  assumes "ra_status r = ''pending''" and "decided_status b = ''approved'' \<Longrightarrow> ra_requested_by r \<noteq> who"
  shows "acceptance_evolves r (set_decision now (decided_status b) who r)"
  using assms by (auto simp: acceptance_evolves_def set_decision_def decided_status_def split: if_splits)

lemma expire_one_risks:
  "db_risks (expire_one now d (r, f)) =
     update_rows (\<lambda>x. ra_id x = ra_id r) (\<lambda>x. x\<lparr>ra_status := ''expired''\<rparr>) (db_risks d)"
  by (simp add: expire_one_def Let_def insert_history_def)

lemma foldl_expire_risks:
  "t_rows (db_risks (foldl (expire_one now) d due)) =
     map (\<lambda>x. if ra_id x \<in> (ra_id \<circ> fst) ` set due then x\<lparr>ra_status := ''expired''\<rparr> else x) (t_rows (db_risks d)) \<and>
   t_serial (db_risks (foldl (expire_one now) d due)) = t_serial (db_risks d)"
proof (induction due arbitrary: d)
  case Nil
  then show ?case by simp
next
  case (Cons rf due)
  obtain r f where rf: "rf = (r, f)" by (cases rf)
  show ?case
    unfolding foldl_Cons rf
    using Cons.IH [of "expire_one now d (r, f)"]
    by (auto simp: expire_one_risks update_rows_def sql_update_def)
qed

lemma in_map_filter: "y \<in> set (List.map_filter g xs) \<longleftrightarrow> (\<exists>x \<in> set xs. g x = Some y)"
  by (induction xs) (auto simp: List.map_filter_def split: option.splits)

lemma fetch_due_mem: "(r, f) \<in> set (fetch_due now d) \<longleftrightarrow>
   r \<in> set (t_rows (db_risks d)) \<and> due_now now r \<and> finding_by_id d (ra_finding_id r) = Some f"
  by (auto simp: fetch_due_def in_map_filter)

lemma due_ids:
  assumes "keyed ra_id (db_risks d)" and "x \<in> set (t_rows (db_risks d))"
    and "ra_id x \<in> (ra_id \<circ> fst) ` set (fetch_due now d)"
  shows "due_now now x"
proof -
  obtain r f where r: "(r, f) \<in> set (fetch_due now d)" "ra_id x = ra_id r" using assms(3) by auto
  then have "x = r" using keyed_unique [OF assms(1,2)] by (simp add: fetch_due_mem)
  then show ?thesis using r by (simp add: fetch_due_mem)
qed

lemma lifecycle_step_risks:
  assumes "keyed ra_id (db_risks d)"
  shows "risks_step (db_risks d) (db_risks (lifecycle_step d e))"
proof (cases e)
  case (Patch_Finding now user cl pid cve b)
  then show ?thesis by (simp add: update_finding_risks)
next
  case (Request_Acceptance now user cl pid cve b)
  then show ?thesis
    using create_risks [of now user cl pid cve b d] by (auto intro!: risks_step_insert simp: new_acceptance_def)
next
  case (Decide_Acceptance now user cl pid cve aid b)
  show ?thesis
  proof (cases "decide_check user pid cve aid b d")
    case (Inl x)
    then show ?thesis using Decide_Acceptance by (simp add: decide_risk_acceptance_def)
  next
    case (Inr ex)
    note ok = decide_check_ok [OF Inr]
    have "r = ex" if "r \<in> set (t_rows (db_risks d))" "ra_id r = aid" for r
      using keyed_unique [OF assms that(1) ok(5)] that(2) ok(4) by simp
    then have "risks_step (db_risks d) (update_rows (\<lambda>r. ra_id r = aid)
        (set_decision now (decided_status b) (au_email user)) (db_risks d))"
      using ok(2,3) by (intro risks_step_update set_decision_evolves) auto
    then show ?thesis
      using Decide_Acceptance Inr decide_commit_risks [of now user cl aid b ex d]
      by (auto simp: decide_risk_acceptance_def)
  qed
next
  case (Expire_Acceptances now)
  show ?thesis unfolding risks_step_def
    by (rule exI [of _ "\<lambda>x. if ra_id x \<in> (ra_id \<circ> fst) ` set (fetch_due now d) then x\<lparr>ra_status := ''expired''\<rparr> else x"],
        rule exI [of _ "[]"])
      (use Expire_Acceptances due_ids [OF assms] foldl_expire_risks [of now d "fetch_due now d"] in
        \<open>auto simp: expire_risk_acceptances_def Let_def acceptance_evolves_def due_now_def\<close>)
qed

lemma lifecycle_step_keyed:
  assumes "keyed ra_id (db_risks d)"
  shows "keyed ra_id (db_risks (lifecycle_step d e))"
proof (cases e)
  case (Patch_Finding now user cl pid cve b)
  then show ?thesis using assms by (simp add: update_finding_risks)
next
  case (Request_Acceptance now user cl pid cve b)
  then show ?thesis using assms create_risks [of now user cl pid cve b d]
      keyed_insert [of ra_id "db_risks d", OF assms] by (auto simp: new_acceptance_def)
next
  case (Decide_Acceptance now user cl pid cve aid b)
  have "keyed ra_id (update_rows (\<lambda>r. ra_id r = aid) (set_decision now (decided_status b) (au_email user)) (db_risks d))"
    using assms by (rule keyed_update) (simp add: set_decision_def)
  then show ?thesis
    using Decide_Acceptance assms decide_commit_risks [of now user cl aid b _ d]
    by (auto simp: decide_risk_acceptance_def split: sum.splits) metis
next
  case (Expire_Acceptances now)
  have "map ra_id (t_rows (db_risks (foldl (expire_one now) d due))) = map ra_id (t_rows (db_risks d))" for due
    using foldl_expire_risks [of now d due] by (auto simp: comp_def if_distrib cong: if_cong)
  then have "map ra_id (t_rows (db_risks (lifecycle_step d e))) = map ra_id (t_rows (db_risks d))"
    "t_serial (db_risks (lifecycle_step d e)) = t_serial (db_risks d)"
    using Expire_Acceptances foldl_expire_risks [of now d]
    by (auto simp: expire_risk_acceptances_def Let_def)
  then show ?thesis using assms unfolding keyed_def by (metis (no_types, lifting) imageE imageI image_set)
qed

interpretation lifecycle: step_system lifecycle_step segregated
  by unfold_locales
    (simp add: segregated_def lifecycle_step_keyed risks_step_two_people [OF lifecycle_step_risks])

section \<open>Properties\<close>

text \<open>C9: Segregation of duties over the whole life of the system: after any sequence of PATCHes of
  findings, requests, decisions and expiry runs, in any order and with any bodies, every acceptance
  that is or was approved names an approver, and the approver is not the person who requested it.\<close>

theorem approvals_need_two_people:
  assumes "segregated d" and "r \<in> set (t_rows (db_risks (foldl lifecycle_step d es)))"
    and "ra_status r \<in> {''approved'', ''expired''}"
  shows "\<exists>p. ra_approved_by r = Some p \<and> p \<noteq> ra_requested_by r"
proof -
  have "two_people r" using lifecycle.run_inv [OF assms(1), of es] assms(2)
    by (simp add: segregated_def list_all_iff)
  then show ?thesis using assms(3) by (auto simp: two_people_def opt_ex_iff)
qed

definition bob :: auth_user where
  "bob = \<lparr>au_id = 8, au_email = ''bob@corp.io'', au_role = ''admin''\<rparr>"

definition sample_request :: risk_create where
  "sample_request = \<lparr>rc_requested_by = None, rc_justification = ''behind a WAF'', rc_expires_at = 10\<rparr>"

definition approve :: risk_decision where
  "approve = \<lparr>rd_action = ''approve'', rd_decided_by = None, rd_note = None\<rparr>"

definition sample_run :: "lifecycle_event list" where
  "sample_run =
     [Request_Acceptance 5 ann local_client 3 ''CVE-2021-44228'' sample_request,
      Decide_Acceptance 6 ann local_client 3 ''CVE-2021-44228'' 1 approve,
      Decide_Acceptance 7 bob local_client 3 ''CVE-2021-44228'' 1 approve]"

theorem approvals_need_two_people_witness:
  "map (\<lambda>r. (ra_status r, ra_requested_by r, ra_approved_by r)) (t_rows (db_risks (foldl lifecycle_step sample_db sample_run)))
     = [(''approved'', ''ann@corp.io'', Some ''bob@corp.io'')] \<and>
   list_all (\<lambda>r. \<exists>p. ra_approved_by r = Some p \<and> p \<noteq> ra_requested_by r) (t_rows (db_risks (foldl lifecycle_step sample_db sample_run)))"
proof -
  let ?d = "foldl lifecycle_step sample_db sample_run"
  have s: "segregated sample_db" by code_simp
  have e: "map (\<lambda>r. (ra_status r, ra_requested_by r, ra_approved_by r)) (t_rows (db_risks ?d))
     = [(''approved'', ''ann@corp.io'', Some ''bob@corp.io'')]" by code_simp
  then have "\<forall>r \<in> set (t_rows (db_risks ?d)). ra_status r = ''approved''" by auto
  then show ?thesis using e approvals_need_two_people [OF s] unfolding list_all_iff by blast
qed

text \<open>Acceptances only move forward: any operation leaves every acceptance with its id, finding,
  requester, justification and date, moves its state only from pending to rejected, from pending to
  approved by a second person, or from approved to expired, never brings a decided one back to
  pending, deletes none, and adds only pending ones.\<close>

theorem acceptances_only_move_forward:
  assumes "keyed ra_id (db_risks d)"
  shows "\<exists>g new. t_rows (db_risks (lifecycle_step d e)) = map g (t_rows (db_risks d)) @ new \<and>
     (\<forall>r \<in> set (t_rows (db_risks d)). acceptance_evolves r (g r)) \<and> (\<forall>r \<in> set new. ra_status r = ''pending'')"
  using lifecycle_step_risks [OF assms, of e] unfolding risks_step_def .

theorem acceptances_only_move_forward_witness:
  "\<exists>g new. t_rows (db_risks (lifecycle_step (foldl lifecycle_step sample_db sample_run) (Expire_Acceptances (12 * day_us))))
      = map g (t_rows (db_risks (foldl lifecycle_step sample_db sample_run))) @ new \<and>
     list_all (\<lambda>r. acceptance_evolves r (g r)) (t_rows (db_risks (foldl lifecycle_step sample_db sample_run)))"
proof -
  have k: "keyed ra_id (db_risks (foldl lifecycle_step sample_db sample_run))" by code_simp
  show ?thesis using acceptances_only_move_forward [OF k, of "Expire_Acceptances (12 * day_us)"]
    unfolding list_all_iff by blast
qed



lemma expired_status_neq: "''expired'' \<noteq> ''approved''"
  by simp

text \<open>The daily job ends every acceptance that is due and only those: afterwards no approved
  acceptance of an existing finding has a date in the past, all others are as before, the counters
  are the number of acceptances ended and of those whose finding was in \<open>accepted_risk\<close>, and running
  the job again at the same moment finds nothing and changes nothing.\<close>

theorem expiry_is_complete_and_idempotent:
  assumes "keyed ra_id (db_risks d)"
    and "\<forall>r \<in> set (t_rows (db_risks d)). finding_by_id d (ra_finding_id r) \<noteq> None"
    and "expire_risk_acceptances now d = (d', res)"
  shows "t_rows (db_risks d') = map (\<lambda>r. if due_now now r then r\<lparr>ra_status := ''expired''\<rparr> else r) (t_rows (db_risks d)) \<and>
     er_expired res = sql_count (due_now now) (t_rows (db_risks d)) \<and>
     expire_risk_acceptances now d' = (d', \<lparr>er_expired = 0, er_reopened = 0\<rparr>)"
proof -
  let ?rows = "t_rows (db_risks d)"
  have d': "d' = foldl (expire_one now) d (fetch_due now d)"
    and res: "er_expired res = int (length (fetch_due now d))"
    using assms(3) by (auto simp: expire_risk_acceptances_def Let_def)
  have ids: "ra_id x \<in> (ra_id \<circ> fst) ` set (fetch_due now d) \<longleftrightarrow> due_now now x" if x: "x \<in> set ?rows" for x
  proof
    assume "due_now now x"
    then obtain f where "(x, f) \<in> set (fetch_due now d)" using x assms(2) by (auto simp: fetch_due_mem)
    then show "ra_id x \<in> (ra_id \<circ> fst) ` set (fetch_due now d)" by force
  qed (rule due_ids [OF assms(1) x])
  have rows: "t_rows (db_risks d') = map (\<lambda>r. if due_now now r then r\<lparr>ra_status := ''expired''\<rparr> else r) ?rows"
    using foldl_expire_risks [of now d "fetch_due now d"] ids unfolding d' by simp
  have "length (List.map_filter (\<lambda>r. map_option (Pair r) (finding_by_id d (ra_finding_id r))) xs) = length xs"
    if "set xs \<subseteq> set ?rows" for xs
    using that assms(2) by (induction xs) (auto simp: List.map_filter_def)
  then have len: "length (fetch_due now d) = length (filter (due_now now) ?rows)"
    by (simp add: fetch_due_def)
  have "filter (due_now now) (t_rows (db_risks d')) = []"
    unfolding rows by (auto simp: filter_empty_conv due_now_def)
  then have "fetch_due now d' = []" by (simp add: fetch_due_def List.map_filter_def)
  then have "expire_risk_acceptances now d' = (d', \<lparr>er_expired = 0, er_reopened = 0\<rparr>)"
    by (simp add: expire_risk_acceptances_def)
  then show ?thesis using rows res len by (simp add: sql_count_def)
qed

theorem expiry_is_complete_and_idempotent_witness:
  "map ra_status (t_rows (db_risks (fst (expire_risk_acceptances (12 * day_us) (foldl lifecycle_step sample_db sample_run)))))
     = [''expired'']"
proof -
  let ?d = "foldl lifecycle_step sample_db sample_run"
  have k: "keyed ra_id (db_risks ?d)" by code_simp
  have f: "\<forall>r \<in> set (t_rows (db_risks ?d)). finding_by_id ?d (ra_finding_id r) \<noteq> None" by code_simp
  have s: "map (\<lambda>r. ra_status (if due_now (12 * day_us) r then r\<lparr>ra_status := ''expired''\<rparr> else r)) (t_rows (db_risks ?d)) = [''expired'']"
    by code_simp
  show ?thesis using expiry_is_complete_and_idempotent [OF k f surjective_pairing, of "12 * day_us"] s
    by (simp only: list.map_comp comp_def)
qed

definition twice_accepted :: db where
  "twice_accepted = foldl lifecycle_step sample_db (sample_run @
     [Request_Acceptance 8 ann local_client 3 ''CVE-2021-44228'' (sample_request\<lparr>rc_expires_at := 400\<rparr>),
      Decide_Acceptance 9 bob local_client 3 ''CVE-2021-44228'' 2 approve])"

text \<open>The expiry job reopens findings that are still covered: when a finding has two approved
  acceptances and only one is due, the job puts the finding back to open although the other one is
  in force.\<close>

theorem expiry_reopens_covered_finding:
  "map (\<lambda>r. (ra_finding_id r, ra_status r, ra_expires_at r))
      (t_rows (db_risks (fst (expire_risk_acceptances (12 * day_us) twice_accepted))))
     = [(1, ''expired'', 10), (1, ''approved'', 400)] \<and>
   map_option fd_status (finding_by_id twice_accepted 1) = Some ''accepted_risk'' \<and>
   map_option fd_status (finding_by_id (fst (expire_risk_acceptances (12 * day_us) twice_accepted)) 1) = Some ''open''"
  by code_simp

definition remediated_meanwhile :: "lifecycle_event list" where
  "remediated_meanwhile =
     [Request_Acceptance 5 ann local_client 3 ''CVE-2021-44228'' sample_request,
      Patch_Finding 6 ann local_client 3 ''CVE-2021-44228'' (no_update\<lparr>bu_status := Some ''remediated''\<rparr>),
      Decide_Acceptance 7 bob local_client 3 ''CVE-2021-44228'' 1 approve]"

text \<open>An approval does not look at the finding again and falsifies its history: when the finding was
  remediated between the request and the approval, the approval takes it from \<open>remediated\<close> back to
  \<open>accepted_risk\<close> and records the change as one from \<open>open\<close>, so that its history is no longer a chain.\<close>

theorem approval_falsifies_history:
  "(let d = foldl lifecycle_step sample_db remediated_meanwhile in
    map_option fd_status (finding_by_id d 1) = Some ''accepted_risk'' \<and>
    map (\<lambda>h. (fh_old_status h, fh_new_status h)) (trail d 1)
      = [(Some ''open'', ''remediated''), (Some ''open'', ''accepted_risk'')] \<and>
    trails_ok sample_db \<and> \<not> trails_ok d)"
  by code_simp

text \<open>Two decisions can both win: the checks of a decision run outside its transaction, so two
  callers that both read the pending acceptance both commit; the acceptance ends rejected while its
  finding stays in \<open>accepted_risk\<close>.\<close>

theorem concurrent_decisions_both_commit:
  "(let d0 = lifecycle_step sample_db (Request_Acceptance 5 ann local_client 3 ''CVE-2021-44228'' sample_request);
        no = approve\<lparr>rd_action := ''reject''\<rparr> in
    case (decide_check bob 3 ''CVE-2021-44228'' 1 approve d0, decide_check ann 3 ''CVE-2021-44228'' 1 no d0) of
      (Inr r1, Inr r2) \<Rightarrow>
        let d1 = fst (decide_commit 6 bob local_client 1 approve r1 d0);
            d2 = fst (decide_commit 7 ann local_client 1 no r2 d1) in
        map ra_status (t_rows (db_risks d2)) = [''rejected''] \<and>
        map_option fd_status (finding_by_id d2 1) = Some ''accepted_risk''
    | _ \<Rightarrow> False)"
  by code_simp

end
