(* ===== verification/Sla.thy ===== *)
theory Sla
  imports Findings
begin

text \<open>
  \<open>app/services/sla.py\<close> and \<open>app/api/routers/sla.py\<close>: due dates, the four SLA states, the counters
  of the dashboard and the mean time to remediation. The current moment is an argument.
\<close>

section \<open>Due date and state\<close>

definition SLA_DAYS :: "(string \<times> int) list" where
  "SLA_DAYS = [(''CRITICAL'', 7), (''HIGH'', 30), (''MEDIUM'', 90), (''LOW'', 180)]"

definition SLA_KEV_OVERRIDE :: int where "SLA_KEV_OVERRIDE = 3"
definition DEFAULT_SLA_DAYS :: int where "DEFAULT_SLA_DAYS = the (map_of SLA_DAYS ''MEDIUM'')"
definition AT_RISK_THRESHOLD_DAYS :: int where "AT_RISK_THRESHOLD_DAYS = 7"

text \<open>A base for the due date is a datetime or a plain date.\<close>

datatype moment = Moment py_datetime | Day py_date

definition sla_days :: "string option \<Rightarrow> bool \<Rightarrow> int" where
  "sla_days severity kev =
     (if kev then SLA_KEV_OVERRIDE
      else case map_of SLA_DAYS (py_upper (str_or_empty severity)) of
        None \<Rightarrow> DEFAULT_SLA_DAYS | Some n \<Rightarrow> n)"

definition compute_due_date ::
    "py_datetime \<Rightarrow> string option \<Rightarrow> bool \<Rightarrow> moment option \<Rightarrow> moment option \<Rightarrow> py_date" where
  "compute_due_date now severity kev published_at created_at =
     (let days = sla_days severity kev;
          base = (case published_at of Some b \<Rightarrow> b
                  | None \<Rightarrow> (case created_at of Some b \<Rightarrow> b | None \<Rightarrow> Moment now));
          base = (case base of Day n \<Rightarrow> DT (n * day_us) (Some 0) | Moment dt \<Rightarrow> assume_utc dt)
      in dt_date (add_days base days))"

definition MET :: "string list" where
  "MET = [''remediated'', ''closed'', ''false_positive'']"

definition compute_sla_state :: "string \<Rightarrow> py_date option \<Rightarrow> py_date \<Rightarrow> string" where
  "compute_sla_state finding_status due_date today =
     (if finding_status \<in> set MET then ''met''
      else case due_date of
        None \<Rightarrow> ''on_track''
      | Some due \<Rightarrow>
          if due < today then ''breached''
          else if due - today \<le> AT_RISK_THRESHOLD_DAYS then ''at_risk'' else ''on_track'')"

definition days_overdue :: "py_date option \<Rightarrow> py_date \<Rightarrow> int" where
  "days_overdue due_date today = (case due_date of None \<Rightarrow> 0
     | Some due \<Rightarrow> if due \<ge> today then 0 else today - due)"

definition VALID_STATES :: "string list" where
  "VALID_STATES = [''on_track'', ''at_risk'', ''breached'', ''met'']"

section \<open>GET /api/findings/sla\<close>

text \<open>\<open>ASC NULLS LAST\<close>.\<close>

definition due_le :: "(finding_row \<times> 'a) \<Rightarrow> (finding_row \<times> 'a) \<Rightarrow> bool" where
  "due_le a b = (case (fd_due_date (fst a), fd_due_date (fst b)) of
     (_, None) \<Rightarrow> True | (None, Some _) \<Rightarrow> False | (Some x, Some y) \<Rightarrow> x \<le> y)"

record sla_item =
  si_row :: "finding_row \<times> cve_row \<times> product_row"
  si_state :: string
  si_overdue :: int

text \<open>The loop stops as soon as the limit is reached.\<close>

fun sla_collect ::
    "string option \<Rightarrow> nat \<Rightarrow> py_date \<Rightarrow> sla_item list \<Rightarrow> (finding_row \<times> cve_row \<times> product_row) list \<Rightarrow> sla_item list" where
  "sla_collect state lmt today out [] = out"
| "sla_collect state lmt today out (r # rs) =
     (let s = compute_sla_state (fd_status (fst r)) (fd_due_date (fst r)) today in
      if state \<noteq> None \<and> state \<noteq> Some s then sla_collect state lmt today out rs
      else let out = out @ [\<lparr>si_row = r, si_state = s, si_overdue = days_overdue (fd_due_date (fst r)) today\<rparr>] in
           if length out \<ge> lmt then out else sla_collect state lmt today out rs)"

definition list_findings_by_sla :: "int \<Rightarrow> db \<Rightarrow> string option \<Rightarrow> int \<Rightarrow> sla_item list result" where
  "list_findings_by_sla now d state limit =
     (if state \<noteq> None \<and> str_or_empty state \<notin> set VALID_STATES
      then Inl (HttpException 422 ''invalid state'')
      else Inr (sla_collect state (nat (max 1 (min 500 limit))) (current_date now) []
             (order_by due_le (List.map_filter (join_row d) (t_rows (db_findings d))))))"

section \<open>GET /api/findings/sla/summary\<close>

definition count_of :: "(string \<times> int) list \<Rightarrow> string \<Rightarrow> int" where
  "count_of m s = (case map_of m s of None \<Rightarrow> 0 | Some n \<Rightarrow> n)"

definition zero_states :: "(string \<times> int) list" where
  "zero_states = map (\<lambda>s. (s, 0)) VALID_STATES"

definition bump :: "string \<Rightarrow> (string \<times> int) list \<Rightarrow> (string \<times> int) list" where
  "bump s m = dict_put s (count_of m s + 1) m"

record sla_counts =
  sc_by_severity :: "(string \<times> (string \<times> int) list) list"
  sc_totals :: "(string \<times> int) list"
  sc_kev_breached :: int

definition sev_label :: "cve_row \<Rightarrow> string" where
  "sev_label c = py_upper (str_or (cv_severity c) ''UNKNOWN'')"

definition tally :: "py_date \<Rightarrow> sla_counts \<Rightarrow> finding_row \<times> cve_row \<Rightarrow> sla_counts" where
  "tally today acc r = (case r of (f, c) \<Rightarrow>
     (let severity = sev_label c;
          state = compute_sla_state (fd_status f) (fd_due_date f) today;
          counters = (if map_of (sc_by_severity acc) severity = None
                      then dict_put severity zero_states (sc_by_severity acc) else sc_by_severity acc)
      in \<lparr>sc_by_severity = dict_put severity (bump state (the (map_of counters severity))) counters,
          sc_totals = bump state (sc_totals acc),
          sc_kev_breached = (if state = ''breached'' \<and> cv_is_kev c then sc_kev_breached acc + 1
                             else sc_kev_breached acc)\<rparr>))"

definition join_cve :: "db \<Rightarrow> finding_row \<Rightarrow> (finding_row \<times> cve_row) option" where
  "join_cve d f = map_option (Pair f) (cve_by_id d (fd_cve_id f))"

definition sla_summary :: "int \<Rightarrow> db \<Rightarrow> sla_counts" where
  "sla_summary now d =
     foldl (tally (current_date now)) \<lparr>sc_by_severity = [], sc_totals = zero_states, sc_kev_breached = 0\<rparr>
       (List.map_filter (join_cve d) (t_rows (db_findings d)))"

section \<open>GET /api/findings/mttr\<close>

definition parse_period :: "string option \<Rightarrow> int result" where
  "parse_period p =
     (let period = py_lower (py_strip (str_or_empty p)) in
      if py_endswith period ''d'' \<and> py_isdigit (butlast period) then Inr (max 1 (digits_val (butlast period)))
      else if py_isdigit period then Inr (max 1 (digits_val period))
      else Inl (HttpException 422 ''invalid period''))"

text \<open>The newest transition to \<open>remediated\<close> of a finding, if it has one.\<close>

definition last_remediated :: "db \<Rightarrow> int \<Rightarrow> int option" where
  "last_remediated d fid =
     (case map fh_changed_at (filter (\<lambda>h. fh_finding_id h = fid \<and> fh_new_status h = ''remediated'')
              (t_rows (db_history d))) of
        [] \<Rightarrow> None | t # ts \<Rightarrow> Some (foldl max t ts))"

definition remediated_at :: "db \<Rightarrow> finding_row \<Rightarrow> int" where
  "remediated_at d f = (case last_remediated d (fd_id f) of None \<Rightarrow> fd_updated_at f | Some t \<Rightarrow> t)"

definition round2 :: "rat \<Rightarrow> rat" where
  "round2 x = of_int (py_round (x * 100)) / 100"

record mttr_stats =
  mt_count :: int
  mt_mttr_days :: rat
  mt_p50_days :: rat

definition append_to :: "string \<Rightarrow> 'a \<Rightarrow> (string \<times> 'a list) list \<Rightarrow> (string \<times> 'a list) list" where
  "append_to k x m = dict_put k ((case map_of m k of None \<Rightarrow> [] | Some xs \<Rightarrow> xs) @ [x]) m"

definition mttr_rows :: "db \<Rightarrow> int \<Rightarrow> (finding_row \<times> cve_row) list" where
  "mttr_rows d cutoff =
     filter (\<lambda>(f, c). fd_status f = ''remediated'' \<and> remediated_at d f \<ge> cutoff)
       (List.map_filter (join_cve d) (t_rows (db_findings d)))"

definition stats_of :: "rat list \<Rightarrow> mttr_stats" where
  "stats_of deltas =
     \<lparr>mt_count = int (length deltas),
      mt_mttr_days = (if deltas = [] then 0 else round2 (sum_list deltas / of_nat (length deltas))),
      mt_p50_days = (if deltas = [] then 0 else round2 (sort deltas ! (length deltas div 2)))\<rparr>"

definition mttr :: "int \<Rightarrow> db \<Rightarrow> string option \<Rightarrow> (int \<times> (string \<times> mttr_stats) list) result" where
  "mttr now d period = (case parse_period period of
      Inl e \<Rightarrow> Inl e
    | Inr days \<Rightarrow>
        (let by_sev = foldl (\<lambda>m (f, c). append_to (sev_label c)
               (of_int (remediated_at d f - fd_created_at f) / of_int day_us) m) []
               (mttr_rows d (now - days * day_us))
         in Inr (days, map (\<lambda>(s, ds). (s, stats_of ds)) by_sev)))"

section \<open>Counting\<close>

lemma count_of_bump: "count_of (bump s m) t = count_of m t + (if t = s then 1 else 0)"
  by (simp add: count_of_def bump_def)

lemma count_of_zero [simp]: "count_of zero_states s = 0"
  by (simp add: count_of_def zero_states_def VALID_STATES_def)

definition column :: "(string \<times> (string \<times> int) list) list \<Rightarrow> string \<Rightarrow> int" where
  "column c s = sum_list (map (\<lambda>e. count_of (snd e) s) c)"

lemma column_put:
  "column (dict_put k m c) s =
     column c s - (case map_of c k of None \<Rightarrow> 0 | Some m' \<Rightarrow> count_of m' s) + count_of m s"
  by (induction c) (auto simp: column_def split: option.splits)

lemma column_tally:
  "column (sc_by_severity (tally today acc (f, c))) s = column (sc_by_severity acc) s +
     (if s = compute_sla_state (fd_status f) (fd_due_date f) today then 1 else 0)"
  by (auto simp: tally_def Let_def column_put count_of_bump split: option.splits)

definition state_of :: "py_date \<Rightarrow> finding_row \<times> cve_row \<Rightarrow> string" where
  "state_of today r = compute_sla_state (fd_status (fst r)) (fd_due_date (fst r)) today"

lemma foldl_tally:
  "count_of (sc_totals (foldl (tally today) acc rs)) s =
     count_of (sc_totals acc) s + sql_count (\<lambda>r. state_of today r = s) rs"
  "column (sc_by_severity (foldl (tally today) acc rs)) s =
     column (sc_by_severity acc) s + sql_count (\<lambda>r. state_of today r = s) rs"
  "sc_kev_breached (foldl (tally today) acc rs) =
     sc_kev_breached acc + sql_count (\<lambda>r. state_of today r = ''breached'' \<and> cv_is_kev (snd r)) rs"
proof (induction rs arbitrary: acc)
  case (Cons r rs)
  obtain f c where r: "r = (f, c)" by (cases r)
  {
    case 1
    show ?case using Cons.IH(1) [of "tally today acc r"]
      by (simp add: r tally_def Let_def count_of_bump state_of_def)
  next
    case 2
    show ?case using Cons.IH(2) [of "tally today acc r"] by (simp add: r column_tally state_of_def)
  next
    case 3
    show ?case using Cons.IH(3) [of "tally today acc r"] by (simp add: r tally_def Let_def state_of_def)
  }
qed simp_all

lemma sla_state_valid: "compute_sla_state st due today \<in> set VALID_STATES"
  by (simp add: compute_sla_state_def VALID_STATES_def split: option.split)

lemma four_states:
  "sql_count (\<lambda>r. state_of today r = ''on_track'') rs + sql_count (\<lambda>r. state_of today r = ''at_risk'') rs +
   sql_count (\<lambda>r. state_of today r = ''breached'') rs + sql_count (\<lambda>r. state_of today r = ''met'') rs
   = int (length rs)"
proof (induction rs)
  case (Cons r rs)
  then show ?case using sla_state_valid [of "fd_status (fst r)" "fd_due_date (fst r)" today]
    by (auto simp: state_of_def VALID_STATES_def)
qed simp

lemma due_date_days:
  "compute_due_date now severity kev published created =
     (case (case published of None \<Rightarrow> created | Some b \<Rightarrow> Some b) of
        Some (Moment dt) \<Rightarrow> wall dt div day_us | Some (Day n) \<Rightarrow> n | None \<Rightarrow> wall now div day_us)
     + sla_days severity kev"
proof -
  have "dt_date (assume_utc dt) = wall dt div day_us" for dt by (simp add: dt_date_def)
  moreover have "dt_date (DT (n * day_us) (Some 0)) = n" for n by (simp add: dt_date_def day_us_def)
  ultimately show ?thesis
    by (simp add: compute_due_date_def Let_def dt_date_add_days split: option.split moment.split)
qed

lemma sla_days_cases:
  "sla_days severity kev = (if kev then 3 else let s = py_upper (str_or_empty severity) in
     if s = ''CRITICAL'' then 7 else if s = ''HIGH'' then 30 else if s = ''LOW'' then 180 else 90)"
  by (simp add: sla_days_def SLA_DAYS_def SLA_KEV_OVERRIDE_def DEFAULT_SLA_DAYS_def Let_def)

section \<open>Properties\<close>

text \<open>The SLA summary adds up: the totals per state are the column sums of the table per severity
  and count exactly the findings in that state, the four totals together count every finding that has
  a CVE row exactly once, and the KEV counter counts the breached findings on KEV entries, so it is
  at most the breached total.\<close>

theorem sla_summary_adds_up:
  "let rows = List.map_filter (join_cve d) (t_rows (db_findings d)); out = sla_summary now d;
       today = current_date now in
   (\<forall>s. count_of (sc_totals out) s = sql_count (\<lambda>r. state_of today r = s) rows \<and>
        column (sc_by_severity out) s = count_of (sc_totals out) s) \<and>
   sum_list (map (count_of (sc_totals out)) VALID_STATES) = int (length rows) \<and>
   sc_kev_breached out = sql_count (\<lambda>r. state_of today r = ''breached'' \<and> cv_is_kev (snd r)) rows \<and>
   sc_kev_breached out \<le> count_of (sc_totals out) ''breached''"
proof -
  let ?rows = "List.map_filter (join_cve d) (t_rows (db_findings d))"
  let ?today = "current_date now"
  have c: "column [] s = 0" for s by (simp add: column_def)
  have t: "count_of (sc_totals (sla_summary now d)) s = sql_count (\<lambda>r. state_of ?today r = s) ?rows" for s
    by (simp add: sla_summary_def foldl_tally)
  have k: "sc_kev_breached (sla_summary now d)
      = sql_count (\<lambda>r. state_of ?today r = ''breached'' \<and> cv_is_kev (snd r)) ?rows"
    by (simp add: sla_summary_def foldl_tally)
  have col: "column (sc_by_severity (sla_summary now d)) s = sql_count (\<lambda>r. state_of ?today r = s) ?rows" for s
    by (simp add: sla_summary_def foldl_tally c)
  have "sum_list (map (count_of (sc_totals (sla_summary now d))) VALID_STATES) = int (length ?rows)"
    using four_states [of ?today ?rows] by (simp add: VALID_STATES_def t)
  moreover have "sc_kev_breached (sla_summary now d) \<le> count_of (sc_totals (sla_summary now d)) ''breached''"
    unfolding k t by (rule sql_count_mono) simp
  ultimately show ?thesis using t col k by (simp add: Let_def)
qed

definition urgency :: "string \<Rightarrow> int" where
  "urgency s = (if s = ''breached'' then 2 else if s = ''at_risk'' then 1 else 0)"

text \<open>An SLA only runs one way: for a finding whose status and due date stay the same, later days
  never improve the state (on track, at risk, breached, in that order), the overdue days never
  shrink, and a finding that is not closed is breached exactly when it has overdue days.\<close>

theorem sla_never_improves_by_waiting:
  assumes "today \<le> later"
  shows "urgency (compute_sla_state st due today) \<le> urgency (compute_sla_state st due later) \<and>
     days_overdue due today \<le> days_overdue due later \<and>
     (compute_sla_state st due today = ''breached'' \<longleftrightarrow> st \<notin> set MET \<and> 0 < days_overdue due today)"
  using assms
  by (auto simp: compute_sla_state_def days_overdue_def urgency_def AT_RISK_THRESHOLD_DAYS_def split: option.split)

theorem sla_never_improves_by_waiting_witness:
  "urgency (compute_sla_state ''planned'' (Some 100) 93) \<le> urgency (compute_sla_state ''planned'' (Some 100) 101) \<and>
   compute_sla_state ''planned'' (Some 100) 92 = ''on_track'' \<and>
   compute_sla_state ''planned'' (Some 100) 93 = ''at_risk'' \<and>
   compute_sla_state ''planned'' (Some 100) 101 = ''breached''"
proof -
  have "compute_sla_state ''planned'' (Some 100) 92 = ''on_track'' \<and>
   compute_sla_state ''planned'' (Some 100) 93 = ''at_risk'' \<and>
   compute_sla_state ''planned'' (Some 100) 101 = ''breached''" by code_simp
  moreover have "93 \<le> (101 :: int)" by simp
  ultimately show ?thesis using sla_never_improves_by_waiting by blast
qed

text \<open>A risk acceptance does not stop the clock: an overdue finding in \<open>accepted_risk\<close> is reported as
  breached, although the module documents \<open>breached\<close> as open, in review or planned past the date.\<close>

theorem accepted_risk_is_breached:
  "compute_sla_state ''accepted_risk'' (Some 10) 11 = ''breached''"
  by code_simp

text \<open>The deadline of a CVE: it is the calendar day of the publication (of the row's creation when
  that is missing) plus 7, 30, 90 or 180 days by severity in any case of letters, 90 for an unknown
  or missing severity, and 3 for a KEV entry, so entering the KEV catalogue never moves it back.\<close>

theorem due_date_by_severity:
  "compute_due_date now severity kev published created =
     (case (case published of None \<Rightarrow> created | Some b \<Rightarrow> Some b) of
        Some (Moment dt) \<Rightarrow> wall dt div day_us | Some (Day n) \<Rightarrow> n | None \<Rightarrow> wall now div day_us)
     + (if kev then 3 else let s = py_upper (str_or_empty severity) in
        if s = ''CRITICAL'' then 7 else if s = ''HIGH'' then 30 else if s = ''LOW'' then 180 else 90) \<and>
   compute_due_date now severity True published created \<le> compute_due_date now severity kev published created"
  unfolding due_date_days sla_days_cases by (simp add: Let_def)

end
