(* ===== verification/Opsec.thy ===== *)
theory Opsec
  imports Py_Json Py_Net
begin

text \<open>
  \<open>app/core/http.py\<close>: the HTTP client that refuses to send bodies which look like inventory data.
  The three regular expressions are built from a few combinators with the meaning of Python's
  \<open>re\<close> over ASCII text; \<open>json.dumps\<close> is written out, with the printing of floats as an argument.
\<close>

section \<open>json.dumps\<close>

definition hex_digit :: "nat \<Rightarrow> char" where
  "hex_digit n = (if n < 10 then char_of (48 + n) else char_of (87 + n))"

definition json_escape :: "char \<Rightarrow> string" where
  "json_escape c =
     (if c = CHR 0x22 then [CHR 0x5C, CHR 0x22] else if c = CHR 0x5C then [CHR 0x5C, CHR 0x5C]
      else if c = CHR 0x0A then [CHR 0x5C, CHR ''n''] else if c = CHR 0x0D then [CHR 0x5C, CHR ''r'']
      else if c = CHR 0x09 then [CHR 0x5C, CHR ''t''] else if c = CHR 0x08 then [CHR 0x5C, CHR ''b'']
      else if c = CHR 0x0C then [CHR 0x5C, CHR ''f'']
      else if of_char c < (32 :: nat) then
        [CHR 0x5C, CHR ''u'', CHR ''0'', CHR ''0'', hex_digit (of_char c div 16), hex_digit (of_char c mod 16)]
      else [c])"

definition json_quote :: "string \<Rightarrow> string" where
  "json_quote s = [CHR 0x22] @ concat (map json_escape s) @ [CHR 0x22]"

text \<open>The separators, whether keys are sorted, and the printer of floats.\<close>

record dump_opts =
  item_sep :: string
  key_sep :: string
  sort_keys :: bool
  float_repr :: "rat \<Rightarrow> string"

definition entries :: "dump_opts \<Rightarrow> (string \<times> 'a) list \<Rightarrow> (string \<times> 'a) list" where
  "entries op kvs = (if sort_keys op then sort_key fst kvs else kvs)"

fun json_dumps :: "dump_opts \<Rightarrow> json \<Rightarrow> string" where
  "json_dumps op JNull = ''null''"
| "json_dumps op (JBool b) = (if b then ''true'' else ''false'')"
| "json_dumps op (JInt n) = py_str_int n"
| "json_dumps op (JFloat x) = float_repr op x"
| "json_dumps op (JStr s) = json_quote s"
| "json_dumps op (JArr xs) = ''['' @ py_join (item_sep op) (map (json_dumps op) xs) @ '']''"
| "json_dumps op (JObj kvs) =
     ''{'' @ py_join (item_sep op)
        (map (\<lambda>(k, s). json_quote k @ key_sep op @ s) (entries op (map (\<lambda>(k, v). (k, json_dumps op v)) kvs)))
      @ ''}''"

definition default_dumps :: "(rat \<Rightarrow> string) \<Rightarrow> dump_opts" where
  "default_dumps fr = \<lparr>item_sep = '', '', key_sep = '': '', sort_keys = False, float_repr = fr\<rparr>"

section \<open>Regular expressions\<close>

text \<open>
  A pattern maps the character before the current position and the text after it to every rest
  that a match can leave, with the last character consumed.
\<close>

type_synonym pos = "char option \<times> string"
type_synonym pattern = "pos \<Rightarrow> pos list"

definition word_char :: "char \<Rightarrow> bool" where
  "word_char c \<longleftrightarrow> is_lower c \<or> is_upper c \<or> is_digit c \<or> c = CHR ''_''"

definition p_char :: "(char \<Rightarrow> bool) \<Rightarrow> pattern" where
  "p_char P = (\<lambda>(b, s). case s of [] \<Rightarrow> [] | c # cs \<Rightarrow> if P c then [(Some c, cs)] else [])"

definition p_seq :: "pattern \<Rightarrow> pattern \<Rightarrow> pattern" where
  "p_seq r q = (\<lambda>x. concat (map q (r x)))"

definition p_alt :: "pattern \<Rightarrow> pattern \<Rightarrow> pattern" where
  "p_alt r q = (\<lambda>x. r x @ q x)"

definition p_eps :: pattern where
  "p_eps = (\<lambda>x. [x])"

definition p_opt :: "pattern \<Rightarrow> pattern" where
  "p_opt r = p_alt r p_eps"

fun p_rep :: "nat \<Rightarrow> pattern \<Rightarrow> pattern" where
  "p_rep 0 r = p_eps"
| "p_rep (Suc n) r = p_seq r (p_rep n r)"

fun p_lit :: "(char \<Rightarrow> char) \<Rightarrow> string \<Rightarrow> pattern" where
  "p_lit f [] = p_eps"
| "p_lit f (c # cs) = p_seq (p_char (\<lambda>x. f x = f c)) (p_lit f cs)"

text \<open>The boundary \<open>\b\<close>, and blanks \<open>\s*\<close>.\<close>

definition p_boundary :: pattern where
  "p_boundary = (\<lambda>(b, s). if opt_ex word_char b \<noteq> (case s of [] \<Rightarrow> False | c # _ \<Rightarrow> word_char c) then [(b, s)] else [])"

definition p_spaces :: pattern where
  "p_spaces = (\<lambda>(b, s). map (\<lambda>n. (if n = 0 then b else Some (s ! (n - 1)), drop n s))
     [0 ..< Suc (length (takeWhile is_space s))])"

text \<open>\<open>pattern.search(s)\<close>: a match at some position.\<close>

fun search_from :: "pattern \<Rightarrow> char option \<Rightarrow> string \<Rightarrow> bool" where
  "search_from r b [] \<longleftrightarrow> r (b, []) \<noteq> []"
| "search_from r b (c # cs) \<longleftrightarrow> r (b, c # cs) \<noteq> [] \<or> search_from r (Some c) cs"

definition re_search :: "pattern \<Rightarrow> string \<Rightarrow> bool" where
  "re_search r s = search_from r None s"

section \<open>The block list\<close>

definition one_of :: "string \<Rightarrow> pattern" where
  "one_of cs = p_char (\<lambda>c. c \<in> set cs)"

definition p_octet :: pattern where
  "p_octet =
     p_alt (p_seq (one_of ''2'') (p_seq (one_of ''5'') (one_of ''012345'')))
    (p_alt (p_seq (one_of ''2'') (p_seq (one_of ''01234'') (p_char is_digit)))
           (p_seq (p_opt (one_of ''01'')) (p_seq (p_opt (p_char is_digit)) (p_char is_digit))))"

definition p_ipv4 :: pattern where
  "p_ipv4 = p_seq p_boundary (p_seq p_octet (p_seq (p_rep 3 (p_seq (one_of ''.'') p_octet)) p_boundary))"

definition p_hex2 :: pattern where
  "p_hex2 = p_rep 2 (p_char (\<lambda>c. hex_val c \<noteq> None))"

text \<open>The back reference asks for the same separator in every group.\<close>

definition p_mac_with :: "char \<Rightarrow> pattern" where
  "p_mac_with sep = p_seq p_boundary (p_seq p_hex2 (p_seq (one_of [sep]) (p_seq p_hex2
     (p_seq (p_rep 4 (p_seq (one_of [sep]) p_hex2)) p_boundary))))"

definition p_mac :: pattern where
  "p_mac = p_alt (p_mac_with CHR '':'') (p_mac_with CHR ''-'')"

definition ASSET_FIELDS :: "string list" where
  "ASSET_FIELDS = [''hostname'', ''host'', ''asset_id'', ''asset_tag'', ''asset_uuid'', ''machine_id'',
     ''mac_address'', ''ip_address'', ''ipv4'', ''ipv6'', ''fqdn'']"

definition p_asset_field :: pattern where
  "p_asset_field = p_seq (one_of [CHR 0x22])
     (p_seq (foldr (\<lambda>w r. p_alt (p_lit lower_char w) r) ASSET_FIELDS (\<lambda>_. []))
     (p_seq (one_of [CHR 0x22]) (p_seq p_spaces (one_of '':''))))"

definition BLOCKLIST :: "(string \<times> pattern) list" where
  "BLOCKLIST = [(''ipv4'', p_ipv4), (''mac'', p_mac), (''asset_field_name'', p_asset_field)]"

text \<open>\<open>_scan\<close>: the name of the first rule that matches; the hash of the sample is for the log.\<close>

definition scan :: "string \<Rightarrow> string option" where
  "scan body = map_option fst (List.find (\<lambda>(n, r). re_search r body) BLOCKLIST)"

section \<open>The client\<close>

record body_kwargs =
  bk_json :: "json option"
  bk_content :: "string option"
  bk_data :: "string option"

definition body_as_string :: "(rat \<Rightarrow> string) \<Rightarrow> body_kwargs \<Rightarrow> string option" where
  "body_as_string fr kw = (case bk_json kw of
      Some data \<Rightarrow> Some (json_dumps (default_dumps fr) data)
    | None \<Rightarrow> (case bk_content kw of Some data \<Rightarrow> Some data | None \<Rightarrow> bk_data kw))"

record opsec_client =
  oc_provider :: string
  oc_enforcement :: bool
  oc_blocks :: "((string \<times> string) \<times> int) list option"

definition attach_blocks :: "((string \<times> string) \<times> int) list \<Rightarrow> opsec_client \<Rightarrow> opsec_client" where
  "attach_blocks ms c = c\<lparr>oc_blocks := Some ms\<rparr>"

text \<open>\<open>record_egress_block\<close> of the registry, when one is attached.\<close>

definition record_egress_block :: "string \<Rightarrow> string \<Rightarrow> ((string \<times> string) \<times> int) list \<Rightarrow> ((string \<times> string) \<times> int) list" where
  "record_egress_block provider reason ms =
     dict_put (provider, reason) ((case map_of ms (provider, reason) of None \<Rightarrow> 0 | Some n \<Rightarrow> n) + 1) ms"

definition on_violation :: "string \<Rightarrow> opsec_client \<Rightarrow> opsec_client" where
  "on_violation rule c = c\<lparr>oc_blocks := map_option (record_egress_block (oc_provider c) rule) (oc_blocks c)\<rparr>"

text \<open>
  \<open>request\<close>: the transport \<open>send\<close> is the parent class. The answer says whether it was called.
\<close>

definition request ::
    "(rat \<Rightarrow> string) \<Rightarrow> (body_kwargs \<Rightarrow> 'resp result) \<Rightarrow> body_kwargs \<Rightarrow> opsec_client \<Rightarrow> opsec_client \<times> 'resp result" where
  "request fr send kw c =
     (case body_as_string fr kw of
        None \<Rightarrow> (c, send kw)
      | Some s \<Rightarrow>
          if s = [] then (c, send kw)
          else (case scan s of
             None \<Rightarrow> (c, send kw)
           | Some rule \<Rightarrow>
               (let c' = on_violation rule c in
                if oc_enforcement c then (c', Inl (OpsecViolationError rule)) else (c', send kw))))"

section \<open>Matching\<close>

lemma p_seq_iff: "z \<in> set (p_seq r q x) \<longleftrightarrow> (\<exists>y \<in> set (r x). z \<in> set (q y))"
  by (simp add: p_seq_def)

lemma p_seqI: "y \<in> set (r x) \<Longrightarrow> z \<in> set (q y) \<Longrightarrow> z \<in> set (p_seq r q x)"
  by (auto simp: p_seq_iff)

lemma p_altI1: "z \<in> set (r x) \<Longrightarrow> z \<in> set (p_alt r q x)"
  by (simp add: p_alt_def)

lemma p_altI2: "z \<in> set (q x) \<Longrightarrow> z \<in> set (p_alt r q x)"
  by (simp add: p_alt_def)

lemma search_fromI: "z \<in> set (r (b, s)) \<Longrightarrow> search_from r b s"
  by (cases s) auto

lemma search_from_prefix:
  "search_from r (if pre = [] then b else Some (last pre)) s \<Longrightarrow> search_from r b (pre @ s)"
  by (induction pre arbitrary: b) (auto split: if_splits)

lemma search_occurs:
  assumes "r (if pre = [] then None else Some (last pre), s) \<noteq> []"
  shows "re_search r (pre @ s)"
proof -
  have "search_from r (if pre = [] then None else Some (last pre)) s" using assms by (cases s) simp_all
  then show ?thesis unfolding re_search_def by (rule search_from_prefix)
qed

text \<open>One to three digits with a value up to 255, leading zeros included.\<close>

definition octet_string :: "string \<Rightarrow> bool" where
  "octet_string s \<longleftrightarrow> s \<noteq> [] \<and> length s \<le> 3 \<and> list_all is_digit s \<and> digits_val s \<le> 255"

lemma digit_cases:
  assumes "is_digit c"
  shows "c \<in> set ''0123456789''"
proof -
  have "(48 :: nat) \<le> of_char c" "of_char c \<le> (57 :: nat)"
    using assms by (simp_all add: is_digit_def less_eq_char_def)
  then have "(of_char c :: nat) \<in> {48, 49, 50, 51, 52, 53, 54, 55, 56, 57}"
    by (simp only: insert_iff empty_iff) presburger
  then have "char_of (of_char c :: nat) \<in> set ''0123456789''"
    by (elim insertE emptyE) (simp_all only: char_of_def, code_simp+)
  then show ?thesis by simp
qed

lemma word_char_digit: "is_digit c \<Longrightarrow> word_char c"
  by (simp add: word_char_def)

lemma p_octet_unfold:
  "(b', u) \<in> set (p_octet (b, s)) \<longleftrightarrow>
     (\<exists>c d e. s = c # d # e # u \<and> b' = Some e \<and> c = CHR ''2'' \<and> d = CHR ''5'' \<and> e \<in> set ''012345'') \<or>
     (\<exists>c d e. s = c # d # e # u \<and> b' = Some e \<and> c = CHR ''2'' \<and> d \<in> set ''01234'' \<and> is_digit e) \<or>
     (\<exists>c d e. s = c # d # e # u \<and> b' = Some e \<and> c \<in> set ''01'' \<and> is_digit d \<and> is_digit e) \<or>
     (\<exists>c e. s = c # e # u \<and> b' = Some e \<and> (c \<in> set ''01'' \<or> is_digit c) \<and> is_digit e) \<or>
     (\<exists>e. s = e # u \<and> b' = Some e \<and> is_digit e)"
  by (cases s; cases "tl s"; cases "tl (tl s)")
    (auto simp: p_octet_def p_alt_def p_seq_iff p_opt_def p_eps_def one_of_def p_char_def split: if_splits list.splits)

lemma octet_string_matches:
  assumes "octet_string s"
  shows "(Some (last s), u) \<in> set (p_octet (b, s @ u))" and "is_digit (last s)"
proof -
  have dig: "list_all is_digit s" "s \<noteq> []" using assms by (simp_all add: octet_string_def)
  then show "is_digit (last s)" by (simp add: list_all_iff)
  consider c where "s = [c]" | c d where "s = [c, d]" | c d e where "s = [c, d, e]"
    using assms unfolding octet_string_def by (cases s; cases "tl s"; cases "tl (tl s)"; cases "tl (tl (tl s))") auto
  then show "(Some (last s), u) \<in> set (p_octet (b, s @ u))"
  proof cases
    case 1
    then show ?thesis using dig by (simp add: p_octet_unfold)
  next
    case 2
    then show ?thesis using dig by (simp add: p_octet_unfold)
  next
    case (3 c d e)
    have d: "is_digit c" "is_digit d" "is_digit e" using dig 3 by simp_all
    have v: "100 * digit_val c + 10 * digit_val d + digit_val e \<le> 255"
      using assms 3 by (simp add: octet_string_def digits_val_def)
    have n: "0 \<le> digit_val d" "0 \<le> digit_val e"
      using d by (auto dest!: digit_cases simp: digit_val_def)
    have low: "digit_val x \<le> 4 \<Longrightarrow> x \<in> set ''01234''" "digit_val x \<le> 5 \<Longrightarrow> x \<in> set ''012345''"
      "digit_val x \<le> 1 \<Longrightarrow> x \<in> set ''01''" "digit_val x = 2 \<Longrightarrow> x = CHR ''2''"
      "digit_val x = 5 \<Longrightarrow> x = CHR ''5''" if "is_digit x" for x
      using digit_cases [OF that] by (auto simp: digit_val_def)
    consider "digit_val c \<le> 1" | "digit_val c = 2" "digit_val d \<le> 4"
      | "digit_val c = 2" "digit_val d = 5" "digit_val e \<le> 5"
      using v n by linarith
    then show ?thesis
    proof cases
      case 1
      then show ?thesis unfolding 3 p_octet_unfold using low(3) [OF d(1)] d by simp
    next
      case 2
      then show ?thesis unfolding 3 p_octet_unfold using low(4) [OF d(1)] low(1) [OF d(2)] d by simp
    next
      case 3
      then show ?thesis unfolding \<open>s = [c, d, e]\<close> p_octet_unfold
        using low(4) [OF d(1)] low(5) [OF d(2)] low(2) [OF d(3)] d by simp
    qed
  qed
qed

lemma ipv4_matches:
  assumes "octet_string a" "octet_string b" "octet_string c" "octet_string d"
    and "\<not> opt_ex word_char prev"
    and "case post of [] \<Rightarrow> True | x # _ \<Rightarrow> \<not> word_char x"
  shows "p_ipv4 (prev, a @ ''.'' @ b @ ''.'' @ c @ ''.'' @ d @ post) \<noteq> []"
proof -
  have dot: "(Some CHR ''.'', u) \<in> set (one_of ''.'' (p, CHR ''.'' # u))" for u p
    by (simp add: one_of_def p_char_def)
  have step: "(Some (last o'), u) \<in> set (p_seq (one_of ''.'') p_octet (p, CHR ''.'' # o' @ u))"
    if "octet_string o'" for o' u p
    by (rule p_seqI, rule dot, rule octet_string_matches(1) [OF that])
  obtain x xs where a: "a = x # xs" using assms(1) by (cases a) (auto simp: octet_string_def)
  have xd: "is_digit x" using assms(1) a by (simp add: octet_string_def)
  have start: "(prev, a @ u) \<in> set (p_boundary (prev, a @ u))" for u
    using assms(5) word_char_digit [OF xd] by (simp add: p_boundary_def a)
  have stop: "(Some (last d), post) \<in> set (p_boundary (Some (last d), post))"
    using assms(6) word_char_digit [OF octet_string_matches(2) [OF assms(4)]]
    by (simp add: p_boundary_def split: list.splits)
  have "(Some (last d), post) \<in> set (p_rep 3 (p_seq (one_of ''.'') p_octet)
      (Some (last a), ''.'' @ b @ ''.'' @ c @ ''.'' @ d @ post))"
    unfolding numeral_3_eq_3 p_rep.simps
    by (rule p_seqI, simp, rule step [OF assms(2)], rule p_seqI, rule step [OF assms(3)],
        rule p_seqI, rule step [OF assms(4)]) (simp add: p_eps_def)
  then have "(Some (last d), post) \<in> set (p_ipv4 (prev, a @ ''.'' @ b @ ''.'' @ c @ ''.'' @ d @ post))"
    unfolding p_ipv4_def
    by - (rule p_seqI, rule start, rule p_seqI, rule octet_string_matches(1) [OF assms(1)],
        rule p_seqI, assumption, rule stop)
  then show ?thesis by auto
qed

section \<open>Field names\<close>

text \<open>A key that occurs in some object of the value, at any depth.\<close>

fun has_key :: "string \<Rightarrow> json \<Rightarrow> bool" where
  "has_key k (JArr xs) \<longleftrightarrow> list_ex (has_key k) xs"
| "has_key k (JObj kvs) \<longleftrightarrow> list_ex (\<lambda>(k', v). k' = k \<or> has_key k v) kvs"
| "has_key k _ \<longleftrightarrow> False"

definition occurs :: "string \<Rightarrow> string \<Rightarrow> bool" where
  "occurs s t \<longleftrightarrow> (\<exists>a b. t = a @ s @ b)"

lemma occurs_refl [simp]: "occurs s s"
  unfolding occurs_def by (rule exI [of _ "[]"], rule exI [of _ "[]"]) simp

lemma occurs_append: "occurs s t \<Longrightarrow> occurs s (a @ t)" "occurs s t \<Longrightarrow> occurs s (t @ b)"
  unfolding occurs_def by (metis append.assoc)+

lemma occurs_join: "x \<in> set xs \<Longrightarrow> occurs s x \<Longrightarrow> occurs s (py_join sep xs)"
  by (induction sep xs rule: py_join.induct) (auto intro: occurs_append)

lemma entries_set [simp]: "set (entries op kvs) = set kvs"
  by (simp add: entries_def)

lemma dumps_occurs_entry:
  assumes "(k, v) \<in> set kvs" and "occurs s (json_quote k @ key_sep op @ json_dumps op v)"
  shows "occurs s (json_dumps op (JObj kvs))"
proof -
  have "json_quote k @ key_sep op @ json_dumps op v
      \<in> set (map (\<lambda>(k, s). json_quote k @ key_sep op @ s) (entries op (map (\<lambda>(k, v). (k, json_dumps op v)) kvs)))"
    using assms(1) by force
  then show ?thesis using assms(2) by (simp only: json_dumps.simps) (intro occurs_append occurs_join)
qed

lemma has_key_dumps: "has_key k v \<Longrightarrow> occurs (json_quote k @ key_sep op) (json_dumps op v)"
proof (induction k v rule: has_key.induct)
  case (1 k xs)
  then obtain x where x: "x \<in> set xs" "has_key k x" by (auto simp: list_ex_iff)
  then have "json_dumps op x \<in> set (map (json_dumps op) xs)" by simp
  then show ?case using 1 x by (simp only: json_dumps.simps) (blast intro: occurs_append occurs_join)
next
  case (2 k kvs)
  then obtain k' v where kv: "(k', v) \<in> set kvs" "k' = k \<or> has_key k v" by (auto simp: list_ex_iff)
  show ?case
  proof (cases "k' = k")
    case True
    have "occurs (json_quote k @ key_sep op) ((json_quote k @ key_sep op) @ json_dumps op v)"
      by (rule occurs_append(2)) simp
    then show ?thesis using kv(1) True by (intro dumps_occurs_entry [of k v]) simp_all
  next
    case False
    then have "occurs (json_quote k @ key_sep op) (json_dumps op v)" using 2 kv by blast
    then show ?thesis using kv(1) by (intro dumps_occurs_entry [of k' v]) (blast intro: occurs_append)+
  qed
qed simp_all

lemma word_char_lower: "word_char (lower_char c) \<Longrightarrow> word_char c"
  by (auto simp: lower_char_def word_char_def split: if_splits)

lemma word_char_code: "word_char c \<Longrightarrow> (48 :: nat) \<le> of_char c" "word_char c \<Longrightarrow> c \<noteq> CHR 0x5C"
  by (auto simp: word_char_def is_lower_def is_upper_def is_digit_def less_eq_char_def)

lemma json_escape_word:
  assumes "word_char c"
  shows "json_escape c = [c]"
proof -
  have "c \<noteq> CHR 0x22" "c \<noteq> CHR 0x0A" "c \<noteq> CHR 0x0D" "c \<noteq> CHR 0x09" "c \<noteq> CHR 0x08" "c \<noteq> CHR 0x0C"
    using word_char_code(1) [OF assms] by auto
  moreover have "\<not> of_char c < (32 :: nat)" using word_char_code(1) [OF assms] by linarith
  ultimately show ?thesis using word_char_code(2) [OF assms] by (simp only: json_escape_def if_False)
qed

lemma asset_field_plain:
  assumes "py_lower k \<in> set ASSET_FIELDS"
  shows "json_quote k = [CHR 0x22] @ k @ [CHR 0x22]"
proof -
  have "list_all word_char (py_lower k)" using assms unfolding ASSET_FIELDS_def
    by (simp only: set_simps) (elim insertE emptyE, (simp only:, code_simp)+)
  then have "list_all word_char k" by (auto simp: py_lower_def list_all_iff intro: word_char_lower)
  then have "concat (map json_escape k) = k" by (induction k) (simp_all add: json_escape_word)
  then show ?thesis by (simp add: json_quote_def)
qed

lemma p_lit_matches: "map f k = map f w \<Longrightarrow> \<exists>b'. (b', u) \<in> set (p_lit f w (b, k @ u))"
proof (induction w arbitrary: k b)
  case Nil
  then show ?case by (simp add: p_eps_def)
next
  case (Cons c w)
  then obtain x xs where k: "k = x # xs" "f x = f c" "map f xs = map f w" by (cases k) auto
  obtain b' where "(b', u) \<in> set (p_lit f w (Some x, xs @ u))" using Cons.IH [OF k(3)] by blast
  moreover have "(Some x, xs @ u) \<in> set (p_char (\<lambda>y. f y = f c) (b, k @ u))" using k by (simp add: p_char_def)
  ultimately show ?case by (auto simp: p_seq_iff)
qed

lemma p_alts: "z \<in> set (foldr (\<lambda>w r. p_alt (g w) r) ws (\<lambda>_. []) x) \<longleftrightarrow> (\<exists>w \<in> set ws. z \<in> set (g w x))"
  by (induction ws) (auto simp: p_alt_def)

lemma asset_field_matches:
  assumes "py_lower k \<in> set ASSET_FIELDS"
  shows "p_asset_field (b, [CHR 0x22] @ k @ [CHR 0x22] @ CHR '':'' # u) \<noteq> []"
proof -
  have "map lower_char k = map lower_char (py_lower k)"
    by (simp add: py_lower_def lower_char_idem)
  then obtain b' where "(b', [CHR 0x22] @ CHR '':'' # u)
      \<in> set (p_lit lower_char (py_lower k) (Some CHR 0x22, k @ [CHR 0x22] @ CHR '':'' # u))"
    using p_lit_matches by blast
  then have w: "(b', [CHR 0x22] @ CHR '':'' # u)
      \<in> set (foldr (\<lambda>w r. p_alt (p_lit lower_char w) r) ASSET_FIELDS (\<lambda>_. []) (Some CHR 0x22, k @ [CHR 0x22] @ CHR '':'' # u))"
    using assms by (auto simp: p_alts)
  have q: "(Some CHR 0x22, s) \<in> set (one_of [CHR 0x22] (p, [CHR 0x22] @ s))" for s p
    by (simp add: one_of_def p_char_def)
  have sp: "(p, CHR '':'' # u) \<in> set (p_spaces (p, CHR '':'' # u))" for p
    by (simp add: p_spaces_def is_space_def less_eq_char_def)
  have col: "(Some CHR '':'', u) \<in> set (one_of '':'' (p, CHR '':'' # u))" for p
    by (simp add: one_of_def p_char_def)
  have "(Some CHR '':'', u) \<in> set (p_asset_field (b, [CHR 0x22] @ k @ [CHR 0x22] @ CHR '':'' # u))"
    unfolding p_asset_field_def
    by (rule p_seqI, rule q, rule p_seqI, rule w, rule p_seqI, rule q, rule p_seqI, rule sp, rule col)
  then show ?thesis by auto
qed

section \<open>Properties\<close>

text \<open>C17: No IPv4 address leaves the perimeter: with enforcement on, a request whose body text contains
  four dot-separated groups of one to three digits with values up to 255, not glued to letters,
  digits or underscores on either side, is never handed to the transport, whatever else the body
  holds; the caller gets an \<open>OpsecViolationError\<close> and the block is counted for the provider.\<close>

theorem no_ipv4_leaves:
  assumes "octet_string a" "octet_string b" "octet_string c" "octet_string d"
    and "pre = [] \<or> \<not> word_char (last pre)" and "post = [] \<or> \<not> word_char (hd post)"
    and "body_as_string fr kw = Some (pre @ a @ ''.'' @ b @ ''.'' @ c @ ''.'' @ d @ post)"
    and "oc_enforcement client"
  shows "request fr send kw client = (on_violation ''ipv4'' client, Inl (OpsecViolationError ''ipv4''))"
proof -
  let ?quad = "a @ ''.'' @ b @ ''.'' @ c @ ''.'' @ d @ post"
  let ?body = "pre @ ?quad"
  have "p_ipv4 (if pre = [] then None else Some (last pre), ?quad) \<noteq> []"
    by (rule ipv4_matches [OF assms(1-4)]) (use assms(5,6) in \<open>auto split: list.splits\<close>)
  then have "re_search p_ipv4 ?body" by (rule search_occurs)
  then have "scan ?body = Some ''ipv4''" by (simp add: scan_def BLOCKLIST_def)
  moreover have "?body \<noteq> []" by simp
  ultimately show ?thesis using assms(7,8) by (simp add: request_def Let_def)
qed

definition webhook_client :: opsec_client where
  "webhook_client = \<lparr>oc_provider = ''webhook'', oc_enforcement = True, oc_blocks = Some []\<rparr>"

theorem no_ipv4_leaves_witness:
  "request (\<lambda>_. []) (\<lambda>_. Inr ()) \<lparr>bk_json = None, bk_content = Some ''host 10.20.0.255, ok'', bk_data = None\<rparr> webhook_client
     = (webhook_client\<lparr>oc_blocks := Some [((''webhook'', ''ipv4''), 1)]\<rparr>, Inl (OpsecViolationError ''ipv4''))"
proof -
  let ?kw = "\<lparr>bk_json = None, bk_content = Some ''host 10.20.0.255, ok'', bk_data = None\<rparr>"
  have o: "octet_string ''10''" "octet_string ''20''" "octet_string ''0''" "octet_string ''255''" by code_simp+
  have w: "''host '' = [] \<or> \<not> word_char (last ''host '')" "'', ok'' = [] \<or> \<not> word_char (hd '', ok'')" by code_simp+
  have b: "body_as_string (\<lambda>_. []) ?kw = Some (''host '' @ ''10'' @ ''.'' @ ''20'' @ ''.'' @ ''0'' @ ''.'' @ ''255'' @ '', ok'')"
    by (simp add: body_as_string_def)
  have e: "oc_enforcement webhook_client" by (simp add: webhook_client_def)
  have "on_violation ''ipv4'' webhook_client = webhook_client\<lparr>oc_blocks := Some [((''webhook'', ''ipv4''), 1)]\<rparr>"
    by (simp add: on_violation_def webhook_client_def record_egress_block_def)
  then show ?thesis using no_ipv4_leaves [OF o w b e, of "\<lambda>_. Inr ()"] by simp
qed

text \<open>No inventory field leaves the perimeter as JSON: with enforcement on, a JSON body that has one
  of the listed field names as a key of some object, in any case of letters and at any depth, is
  never handed to the transport.\<close>

theorem no_asset_field_leaves:
  assumes "has_key k v" and "py_lower k \<in> set ASSET_FIELDS" and "bk_json kw = Some v"
    and "oc_enforcement client"
  shows "\<exists>rule. request fr send kw client = (on_violation rule client, Inl (OpsecViolationError rule))"
proof -
  let ?body = "json_dumps (default_dumps fr) v"
  obtain pre post where body: "?body = pre @ (json_quote k @ '': '') @ post"
    using has_key_dumps [OF assms(1), of "default_dumps fr"] by (auto simp: occurs_def default_dumps_def)
  have "p_asset_field (p, [CHR 0x22] @ k @ [CHR 0x22] @ CHR '':'' # ('' '' @ post)) \<noteq> []" for p
    by (rule asset_field_matches [OF assms(2)])
  then have "re_search p_asset_field (pre @ [CHR 0x22] @ k @ [CHR 0x22] @ CHR '':'' # ('' '' @ post))"
    by (rule search_occurs)
  then have "re_search p_asset_field ?body"
    unfolding body asset_field_plain [OF assms(2)] by simp
  then have "scan ?body \<noteq> None"
    by (simp add: scan_def BLOCKLIST_def)
  then obtain rule where "scan ?body = Some rule" by blast
  moreover have "?body \<noteq> []" unfolding body by simp
  ultimately show ?thesis using assms(3,4)
    by (intro exI [of _ rule]) (simp add: request_def body_as_string_def Let_def)
qed

theorem no_asset_field_leaves_witness:
  "isl (snd (request (\<lambda>_. []) (\<lambda>_. Inr ())
     \<lparr>bk_json = Some (JObj [(''items'', JArr [JObj [(''HostName'', JStr ''db1'')]])]), bk_content = None, bk_data = None\<rparr> webhook_client))"
proof -
  let ?v = "JObj [(''items'', JArr [JObj [(''HostName'', JStr ''db1'')]])]"
  have h: "has_key ''HostName'' ?v" by code_simp
  have k: "py_lower ''HostName'' \<in> set ASSET_FIELDS" by code_simp
  have e: "oc_enforcement webhook_client" by (simp add: webhook_client_def)
  show ?thesis
    using no_asset_field_leaves [OF h k _ e, of "\<lparr>bk_json = Some ?v, bk_content = None, bk_data = None\<rparr>" "\<lambda>_. []" "\<lambda>_. Inr ()"]
    by auto
qed

end
