(* ===== verification/Webhooks.thy ===== *)
theory Webhooks
  imports Database Opsec "HOL-Library.Multiset"
begin

text \<open>
  \<open>app/services/webhooks.py\<close> and \<open>app/services/crypto.py\<close>: payloads, signatures, the dedup window and
  the signing secret at rest. The Fernet library is two arguments, \<open>fenc\<close> and \<open>fdec\<close>, each taking
  the key first; HMAC-SHA256 in hexadecimal is the argument \<open>hmac\<close>; the random secret is an argument.
\<close>

section \<open>Encryption at rest\<close>

definition is_configured :: "string \<Rightarrow> bool" where
  "is_configured key \<longleftrightarrow> key \<noteq> []"

type_synonym fernet = "string \<Rightarrow> string \<Rightarrow> string result"

definition FernetInvalidToken :: py_exn where
  "FernetInvalidToken = OtherError ''InvalidToken''"

definition encrypt :: "fernet \<Rightarrow> string \<Rightarrow> string \<Rightarrow> string result" where
  "encrypt fenc plaintext key = (if key = [] then Inl CryptoNotConfigured else fenc key plaintext)"

definition decrypt :: "fernet \<Rightarrow> string \<Rightarrow> string \<Rightarrow> string result" where
  "decrypt fdec token key =
     (if key = [] then Inl CryptoNotConfigured
      else case fdec key token of
        Inr s \<Rightarrow> Inr s
      | Inl e \<Rightarrow> if e = FernetInvalidToken then Inl CryptoError else Inl e)"

definition resolve_secret :: "fernet \<Rightarrow> string \<Rightarrow> webhook_row \<Rightarrow> string option result" where
  "resolve_secret fdec enc_key row =
     (case wh_secret_encrypted row of
        None \<Rightarrow> Inr None
      | Some enc \<Rightarrow>
          if enc = [] then Inr None
          else (case decrypt fdec enc enc_key of Inl e \<Rightarrow> Inl e | Inr s \<Rightarrow> Inr (Some s)))"

section \<open>Payloads and signatures\<close>

definition ALLOWED_EVENT_TYPES :: "string list" where
  "ALLOWED_EVENT_TYPES = [''finding.created_high_priority'', ''finding.kev_match'',
     ''finding.exploitability_changed'', ''cve.published_critical'']"

definition payload_dumps :: "(rat \<Rightarrow> string) \<Rightarrow> dump_opts" where
  "payload_dumps fr = \<lparr>item_sep = '','', key_sep = '':'', sort_keys = True, float_repr = fr\<rparr>"

definition serialize_payload :: "(rat \<Rightarrow> string) \<Rightarrow> json \<Rightarrow> string" where
  "serialize_payload fr payload = json_dumps (payload_dumps fr) payload"

definition sign :: "(string \<Rightarrow> string \<Rightarrow> string) \<Rightarrow> string \<Rightarrow> string \<Rightarrow> string" where
  "sign hmac payload secret = ''sha256='' @ hmac secret payload"

text \<open>\<open>datetime.isoformat()\<close> of a moment of UTC.\<close>

definition utc_isoformat :: "int \<Rightarrow> string" where
  "utc_isoformat t =
     (let us = t mod 1000000; s = t div 1000000 mod 86400;
          two = (\<lambda>n. pad_left 2 (py_str_int n)) in
      date_isoformat (t div day_us) @ ''T'' @ two (s div 3600) @ '':'' @ two (s div 60 mod 60) @ '':'' @ two (s mod 60)
        @ (if us = 0 then [] else ''.'' @ pad_left 6 (py_str_int us)) @ ''+00:00'')"

record finding_event =
  fe_event_type :: string
  fe_cve_id :: string
  fe_severity :: "string option"
  fe_priority_score :: json
  fe_affected_count :: int
  fe_is_kev :: bool
  fe_has_public_poc :: "bool option"
  fe_has_nuclei_template :: "bool option"
  fe_extra :: "(string \<times> json) list option"

definition EXTRA_KEYS :: "string list" where
  "EXTRA_KEYS = [''delta_score'', ''previous_priority_score'']"

definition build_finding_event :: "int \<Rightarrow> finding_event \<Rightarrow> (string \<times> json) list result" where
  "build_finding_event now e =
     (if fe_event_type e \<notin> set ALLOWED_EVENT_TYPES
      then Inl (ValueError (''unknown event_type: '' @ fe_event_type e))
      else
        let body = [(''event_type'', JStr (fe_event_type e)), (''cve_id'', JStr (fe_cve_id e)),
              (''severity'', jopt JStr (fe_severity e)), (''priority_score'', fe_priority_score e),
              (''affected_count'', JInt (fe_affected_count e)), (''is_kev'', JBool (fe_is_kev e)),
              (''has_public_poc'', jopt JBool (fe_has_public_poc e)),
              (''has_nuclei_template'', jopt JBool (fe_has_nuclei_template e)),
              (''timestamp'', JStr (utc_isoformat now))]
        in Inr (case fe_extra e of
            None \<Rightarrow> body
          | Some extra \<Rightarrow> foldl (\<lambda>b key. case obj_get extra key of None \<Rightarrow> b | Some v \<Rightarrow> dict_put key v b)
              body EXTRA_KEYS))"

section \<open>Subscribers and the dedup window\<close>

definition DEDUP_WINDOW_SECONDS :: int where "DEDUP_WINDOW_SECONDS = 5 * 60"

definition dedup_hit :: "int \<Rightarrow> int \<Rightarrow> string \<Rightarrow> string \<Rightarrow> delivery_row \<Rightarrow> bool" where
  "dedup_hit now wid ty key r \<longleftrightarrow> wd_webhook_id r = wid \<and> wd_event_type r = ty \<and>
     wd_dedup_key r = Some key \<and> wd_created_at r > now - DEDUP_WINDOW_SECONDS * 1000000"

definition is_duplicate :: "int \<Rightarrow> db \<Rightarrow> int \<Rightarrow> string \<Rightarrow> string \<Rightarrow> bool" where
  "is_duplicate now d wid ty key =
     (fetchrow (dedup_hit now wid ty key) (t_rows (db_deliveries d)) \<noteq> None)"

text \<open>\<open>int(x)\<close> of a number cuts towards zero.\<close>

definition py_trunc :: "rat \<Rightarrow> int" where
  "py_trunc x = (if 0 \<le> x then \<lfloor>x\<rfloor> else \<lceil>x\<rceil>)"

definition subscribed :: "string \<Rightarrow> rat option \<Rightarrow> webhook_row \<Rightarrow> bool" where
  "subscribed ty priority_score w \<longleftrightarrow> wh_enabled w \<and> ty \<in> set (wh_event_types w) \<and>
     (case (priority_score, wh_min_priority w) of
        (Some p, Some m) \<Rightarrow> m \<le> py_trunc p | _ \<Rightarrow> True)"

definition find_subscribers :: "db \<Rightarrow> string \<Rightarrow> rat option \<Rightarrow> webhook_row list" where
  "find_subscribers d ty priority_score = filter (subscribed ty priority_score) (t_rows (db_webhooks d))"

definition new_delivery :: "int \<Rightarrow> int \<Rightarrow> string \<Rightarrow> json \<Rightarrow> string option \<Rightarrow> int \<Rightarrow> delivery_row" where
  "new_delivery now wid ty payload key n =
     \<lparr>wd_id = n, wd_webhook_id = wid, wd_event_type = ty, wd_payload = payload, wd_dedup_key = key,
      wd_status_code = None, wd_response_body = None, wd_attempts = 0, wd_max_attempts = 5,
      wd_scheduled_at = now, wd_delivered_at = None, wd_last_error = None, wd_locked_until = None,
      wd_created_at = now\<rparr>"

definition enqueue_delivery ::
    "int \<Rightarrow> int \<Rightarrow> string \<Rightarrow> json \<Rightarrow> string option \<Rightarrow> db \<Rightarrow> db \<times> int option result" where
  "enqueue_delivery now wid ty payload key d =
     (if truthy key \<and> is_duplicate now d wid ty (str_or_empty key) then (d, Inr None)
      else if wid \<notin> wh_id ` set (t_rows (db_webhooks d)) then (d, Inl ForeignKeyViolation)
      else let (t, r) = insert_row (new_delivery now wid ty payload key) (db_deliveries d) in
           (d\<lparr>db_deliveries := t\<rparr>, Inr (Some (wd_id r))))"

text \<open>\<open>public_view\<close>: the row without its ciphertext.\<close>

definition public_view :: "webhook_row \<Rightarrow> webhook_row" where
  "public_view w = w\<lparr>wh_secret_encrypted := None\<rparr>"

section \<open>Serialisation does not depend on the order of keys\<close>

text \<open>Two values that are equal up to the order of the entries of their objects.\<close>

inductive same_json :: "json \<Rightarrow> json \<Rightarrow> bool" where
  same_refl: "same_json v v"
| same_arr: "list_all2 same_json xs ys \<Longrightarrow> same_json (JArr xs) (JArr ys)"
| same_obj: "list_all2 (\<lambda>e e'. fst e = fst e' \<and> same_json (snd e) (snd e')) xs zs \<Longrightarrow>
     distinct (map fst ys) \<Longrightarrow> mset zs = mset ys \<Longrightarrow> same_json (JObj xs) (JObj ys)"
monos list_all2_mono

lemma sort_key_perm:
  assumes "mset xs = mset ys" and "distinct (map fst ys)"
  shows "sort_key fst xs = sort_key fst (ys :: (string \<times> 'a) list)"
proof (rule properties_for_sort_key)
  show "mset (sort_key fst ys) = mset xs" using assms(1) by simp
  show "sorted (map fst (sort_key fst ys))" by simp
  have dist: "distinct (map fst xs)"
    using assms by (metis mset_eq_imp_distinct_iff mset_map)
  fix k
  assume "k \<in> set (sort_key fst ys)"
  then have kx: "k \<in> set xs" using mset_eq_setD [OF assms(1)] by simp
  have one: "filter (\<lambda>x. fst k = fst x) zs = [k]" if "distinct (map fst zs)" "k \<in> set zs" for zs
    using that
  proof (induction zs)
    case (Cons z zs)
    then show ?case by (cases "fst k = fst z") (auto simp: filter_empty_conv image_iff dest: bspec)
  qed simp
  show "filter (\<lambda>x. fst k = fst x) (sort_key fst ys) = filter (\<lambda>x. fst k = fst x) xs"
  proof -
    have "distinct (map fst (sort_key fst ys))"
      using assms(2) by (metis mset_eq_imp_distinct_iff mset_map mset_sort)
    then show ?thesis using one [OF dist kx] one [OF _ \<open>k \<in> set (sort_key fst ys)\<close>] by simp
  qed
qed

lemma same_json_dumps: "same_json v w \<Longrightarrow> sort_keys op \<Longrightarrow> json_dumps op v = json_dumps op w"
proof (induction rule: same_json.induct)
  case (same_arr xs ys)
  then have "map (json_dumps op) xs = map (json_dumps op) ys"
    by (auto simp: list_all2_conv_all_nth intro: nth_equalityI)
  then show ?case by simp
next
  case (same_obj xs zs ys)
  let ?f = "\<lambda>(k, v). (k, json_dumps op v)"
  have e: "map ?f xs = map ?f zs"
    using same_obj.IH same_obj.prems by (induction rule: list_all2_induct) auto
  have "mset (map ?f zs) = mset (map ?f ys)" using same_obj.hyps(2) by simp
  moreover have "distinct (map fst (map ?f ys))" using same_obj.hyps(1) by (simp add: comp_def case_prod_unfold)
  ultimately have "sort_key fst (map ?f zs) = sort_key fst (map ?f ys)" by (rule sort_key_perm)
  then show ?case using e same_obj.prems by (simp add: entries_def)
qed simp


lemma serialize_same: "same_json v w \<Longrightarrow> serialize_payload fr v = serialize_payload fr w"
  unfolding serialize_payload_def by (rule same_json_dumps) (simp_all add: payload_dumps_def)

section \<open>The dedup window as an invariant\<close>

text \<open>Rows in the order they were enqueued: the same event for the same webhook never twice within
  the window.\<close>

definition same_event :: "delivery_row \<Rightarrow> delivery_row \<Rightarrow> bool" where
  "same_event a b \<longleftrightarrow> wd_webhook_id a = wd_webhook_id b \<and> wd_event_type a = wd_event_type b \<and>
     wd_dedup_key a = wd_dedup_key b \<and> truthy (wd_dedup_key a)"

definition spaced :: "delivery_row list \<Rightarrow> bool" where
  "spaced rows \<longleftrightarrow> sorted_wrt (\<lambda>a b. same_event a b \<longrightarrow>
     wd_created_at a + DEDUP_WINDOW_SECONDS * 1000000 \<le> wd_created_at b) rows"

lemma not_duplicate: "\<not> is_duplicate now d wid ty key \<longleftrightarrow>
    (\<forall>r \<in> set (t_rows (db_deliveries d)). \<not> dedup_hit now wid ty key r)"
  by (auto simp: is_duplicate_def fetchrow_None)

lemma enqueue_spaced:
  assumes "spaced (t_rows (db_deliveries d))"
  shows "spaced (t_rows (db_deliveries (fst (enqueue_delivery now wid ty payload key d))))"
proof -
  have "spaced (t_rows (db_deliveries d) @ [new_delivery now wid ty payload key n])"
    if dup: "\<not> (truthy key \<and> is_duplicate now d wid ty (str_or_empty key))" for n
  proof -
    have "wd_created_at r + DEDUP_WINDOW_SECONDS * 1000000 \<le> now"
      if "r \<in> set (t_rows (db_deliveries d))" "same_event r (new_delivery now wid ty payload key n)" for r
    proof -
      have k: "truthy key" "wd_dedup_key r = Some (str_or_empty key)"
        using that(2) by (auto simp: same_event_def new_delivery_def truthy_def str_or_empty_def split: option.splits)
      then have "\<not> dedup_hit now wid ty (str_or_empty key) r" using dup that(1) not_duplicate by blast
      then show ?thesis using that(2) k(2) by (simp add: dedup_hit_def same_event_def new_delivery_def)
    qed
    then show ?thesis using assms by (simp add: spaced_def sorted_wrt_append new_delivery_def)
  qed
  then show ?thesis using assms
    by (auto simp: enqueue_delivery_def Let_def snd_insert_row split: prod.split)
      (metis fst_conv snd_insert_row t_rows_insert)+
qed

section \<open>Properties\<close>

text \<open>Webhook payloads carry only whitelisted fields: an event of a known type always yields a body
  whose keys are the nine fixed ones plus at most the two permitted extras, the fixed fields hold the
  values of the finding whatever the extra dict contains, and an unknown event type yields no body.\<close>

theorem webhook_payload_whitelisted:
  "case build_finding_event now e of
     Inl x \<Rightarrow> fe_event_type e \<notin> set ALLOWED_EVENT_TYPES
   | Inr body \<Rightarrow> fe_event_type e \<in> set ALLOWED_EVENT_TYPES \<and> distinct (map fst body) \<and>
       set (map fst body) \<subseteq> {''event_type'', ''cve_id'', ''severity'', ''priority_score'', ''affected_count'',
         ''is_kev'', ''has_public_poc'', ''has_nuclei_template'', ''timestamp''} \<union> set EXTRA_KEYS \<and>
       obj_get body ''event_type'' = Some (JStr (fe_event_type e)) \<and>
       obj_get body ''cve_id'' = Some (JStr (fe_cve_id e)) \<and>
       obj_get body ''affected_count'' = Some (JInt (fe_affected_count e)) \<and>
       obj_get body ''priority_score'' = Some (fe_priority_score e) \<and>
       obj_get body ''is_kev'' = Some (JBool (fe_is_kev e))"
proof (cases "fe_event_type e \<in> set ALLOWED_EVENT_TYPES")
  case False
  then show ?thesis by (simp add: build_finding_event_def)
next
  case True
  let ?base = "{''event_type'', ''cve_id'', ''severity'', ''priority_score'', ''affected_count'',
         ''is_kev'', ''has_public_poc'', ''has_nuclei_template'', ''timestamp''} :: string set"
  define put where "put extra b key = (case obj_get extra key of None \<Rightarrow> b | Some v \<Rightarrow> dict_put key v b)"
    for extra :: "(string \<times> json) list" and b and key :: string
  have put: "distinct (map fst (put ex b key)) = distinct (map fst b)"
      "set (map fst (put ex b key)) \<subseteq> insert key (set (map fst b))"
      "k \<noteq> key \<Longrightarrow> obj_get (put ex b key) k = obj_get b k" for ex b key k
    using keys_dict_put [of key _ b] by (auto simp: put_def obj_get_def split: option.splits)
  show ?thesis
  proof (cases "fe_extra e")
    case None
    then show ?thesis using True by (simp add: build_finding_event_def Let_def obj_get_def)
  next
    case (Some extra)
    define body where "body = [(''event_type'', JStr (fe_event_type e)), (''cve_id'', JStr (fe_cve_id e)),
              (''severity'', jopt JStr (fe_severity e)), (''priority_score'', fe_priority_score e),
              (''affected_count'', JInt (fe_affected_count e)), (''is_kev'', JBool (fe_is_kev e)),
              (''has_public_poc'', jopt JBool (fe_has_public_poc e)),
              (''has_nuclei_template'', jopt JBool (fe_has_nuclei_template e)),
              (''timestamp'', JStr (utc_isoformat now))]"
    have r: "build_finding_event now e =
        Inr (put extra (put extra body ''delta_score'') ''previous_priority_score'')"
      using True Some by (simp add: build_finding_event_def Let_def EXTRA_KEYS_def put_def body_def)
    have b: "distinct (map fst body)" "set (map fst body) = ?base"
      by (simp_all add: body_def)
    have g: "obj_get (put extra (put extra body ''delta_score'') ''previous_priority_score'') k = obj_get body k"
      if "k \<in> ?base" for k using that by (auto simp: put(3))
    have s: "set (map fst (put extra (put extra body ''delta_score'') ''previous_priority_score'')) \<subseteq> ?base \<union> set EXTRA_KEYS"
      using put(2) [of extra "put extra body ''delta_score''" "''previous_priority_score''"]
        put(2) [of extra body "''delta_score''"] b(2) unfolding EXTRA_KEYS_def by auto
    show ?thesis unfolding r sum.case
      by (intro conjI True s) (simp_all add: put(1) b(1) g, simp_all add: body_def obj_get_def)
  qed
qed

text \<open>The signed bytes do not depend on how the payload was stored: two payloads that are equal up to
  the order of object entries, at any depth, serialise to the same text and get the same signature
  under the same secret, so a payload that went through the JSONB column keeps its signature.\<close>

theorem signature_ignores_key_order:
  assumes "same_json v w"
  shows "sign hmac (serialize_payload fr v) secret = sign hmac (serialize_payload fr w) secret"
  using serialize_same [OF assms] by simp

theorem signature_ignores_key_order_witness:
  "sign (\<lambda>k p. p) (serialize_payload (\<lambda>_. []) (JObj [(''b'', JInt 1), (''a'', JStr ''x'')])) ''s'' =
   sign (\<lambda>k p. p) (serialize_payload (\<lambda>_. []) (JObj [(''a'', JStr ''x''), (''b'', JInt 1)])) ''s''"
proof -
  have "list_all2 (\<lambda>e e'. fst e = fst e' \<and> same_json (snd e) (snd e')) xs xs" for xs :: "(string \<times> json) list"
    by (simp add: list_all2_same same_refl)
  then have "same_json (JObj [(''b'', JInt 1), (''a'', JStr ''x'')]) (JObj [(''a'', JStr ''x''), (''b'', JInt 1)])"
    by (rule same_obj) simp_all
  then show ?thesis by (rule signature_ignores_key_order)
qed

text \<open>The dedup window holds in every log of deliveries: if no two rows of the log for the same
  webhook, event type and non-empty dedup key are less than five minutes apart, then the same is true
  after any sequence of enqueue calls at any times, whatever they return.\<close>

theorem dedup_window_holds:
  assumes "spaced (t_rows (db_deliveries d))"
  shows "spaced (t_rows (db_deliveries
     (foldl (\<lambda>d (now, wid, ty, payload, key). fst (enqueue_delivery now wid ty payload key d)) d calls)))"
  using assms
proof (induction calls arbitrary: d)
  case (Cons c calls)
  then show ?case by (cases c) (simp add: enqueue_spaced)
qed simp

definition hook :: webhook_row where
  "hook = \<lparr>wh_id = 1, wh_name = ''siem'', wh_url = ''https://siem.example.com/in'', wh_secret = Some ''legacy'',
     wh_event_types = [''finding.kev_match''], wh_min_priority = None, wh_enabled = True, wh_created_by = None,
     wh_created_at = 0, wh_updated_at = 0, wh_last_success_at = None, wh_last_error_at = None,
     wh_last_error = None, wh_secret_encrypted = None\<rparr>"

definition hook_db :: db where
  "hook_db = (empty_db 0)\<lparr>db_webhooks := \<lparr>t_rows = [hook], t_serial = 1\<rparr>\<rparr>"

theorem dedup_window_holds_witness:
  "map wd_created_at (t_rows (db_deliveries
     (foldl (\<lambda>d (now, wid, ty, payload, key). fst (enqueue_delivery now wid ty payload key d)) hook_db
       [(0, 1, ''finding.kev_match'', JNull, Some ''k''), (299999999, 1, ''finding.kev_match'', JNull, Some ''k''),
        (300000000, 1, ''finding.kev_match'', JNull, Some ''k'')]))) = [0, 300000000] \<and>
   spaced (t_rows (db_deliveries
     (foldl (\<lambda>d (now, wid, ty, payload, key). fst (enqueue_delivery now wid ty payload key d)) hook_db
       [(0, 1, ''finding.kev_match'', JNull, Some ''k''), (299999999, 1, ''finding.kev_match'', JNull, Some ''k''),
        (300000000, 1, ''finding.kev_match'', JNull, Some ''k'')])))"
proof -
  have "spaced (t_rows (db_deliveries hook_db))" by code_simp
  then show ?thesis by (intro conjI dedup_window_holds) code_simp
qed



text \<open>A legacy secret is silently ignored: the signing secret depends on the encrypted column alone, so
  a webhook that still has only its plaintext secret is delivered to unsigned, although the comments
  in the worker and the router promise a fallback to the plaintext column.\<close>

theorem legacy_secret_ignored:
  "resolve_secret fdec key (w\<lparr>wh_secret := s\<rparr>) = resolve_secret fdec key w \<and>
   resolve_secret fdec key (w\<lparr>wh_secret := Some s', wh_secret_encrypted := None\<rparr>) = Inr None"
  by (simp add: resolve_secret_def)

end
