(* ===== verification/Ssrf.thy ===== *)
theory Ssrf
  imports Py_Net
begin

text \<open>
  \<open>app/core/ssrf.py\<close>: the guard on user supplied webhook URLs. Name resolution
  (\<open>socket.getaddrinfo\<close>) is a parameter: the addresses of a host name in the order of the
  answer, or \<open>None\<close> for its \<open>OSError\<close>. Nothing is assumed about it.
\<close>

section \<open>The block lists\<close>

definition private_ipv4_nets :: "(32 word \<times> nat) list" where
  "private_ipv4_nets =
     [(0x00000000, 8),     \<comment> \<open>0.0.0.0/8\<close>
      (0x0A000000, 8),     \<comment> \<open>10.0.0.0/8\<close>
      (0x64400000, 10),    \<comment> \<open>100.64.0.0/10\<close>
      (0x7F000000, 8),     \<comment> \<open>127.0.0.0/8\<close>
      (0xA9FE0000, 16),    \<comment> \<open>169.254.0.0/16\<close>
      (0xAC100000, 12),    \<comment> \<open>172.16.0.0/12\<close>
      (0xC0000000, 24),    \<comment> \<open>192.0.0.0/24\<close>
      (0xC0A80000, 16),    \<comment> \<open>192.168.0.0/16\<close>
      (0xC6120000, 15),    \<comment> \<open>198.18.0.0/15\<close>
      (0xE0000000, 4),     \<comment> \<open>224.0.0.0/4\<close>
      (0xF0000000, 4)]     \<comment> \<open>240.0.0.0/4\<close>"

definition private_ipv6_nets :: "(128 word \<times> nat) list" where
  "private_ipv6_nets =
     [(1, 128),                                   \<comment> \<open>::1/128\<close>
      (0xFC000000000000000000000000000000, 7),    \<comment> \<open>fc00::/7\<close>
      (0xFE800000000000000000000000000000, 10),   \<comment> \<open>fe80::/10\<close>
      (0xFF000000000000000000000000000000, 8),    \<comment> \<open>ff00::/8\<close>
      (0, 128)]                                   \<comment> \<open>::/128\<close>"

fun is_private :: "ip_addr \<Rightarrow> bool" where
  "is_private (IPv4 w) = list_ex (in_net w) private_ipv4_nets"
| "is_private (IPv6 w) = list_ex (in_net w) private_ipv6_nets"

section \<open>The check\<close>

datatype allowlist = AllowNone | AllowText string | AllowHosts "string list"

definition allowlist_set :: "string \<Rightarrow> string list" where
  "allowlist_set raw =
     (if raw = [] then []
      else map (\<lambda>part. py_lower (py_strip part))
             (filter (\<lambda>part. py_strip part \<noteq> []) (py_split CHR '','' raw)))"

fun allow_hosts :: "allowlist \<Rightarrow> string list" where
  "allow_hosts AllowNone = []"
| "allow_hosts (AllowText raw) = allowlist_set raw"
| "allow_hosts (AllowHosts hs) = map py_lower hs"

text \<open>
  A resolved address is the text of the resolver (allow-listed hosts) or the address object whose
  text the code returns (all others). The set of the code has no order: duplicates are dropped.
\<close>

datatype resolved = Raw string | Addr ip_addr

record ssrf_result =
  allowed :: bool
  why :: "string option"
  resolved_ips :: "resolved list"

definition blocked :: "string \<Rightarrow> ip_addr list \<Rightarrow> ssrf_result" where
  "blocked r ips = \<lparr>allowed = False, why = Some r, resolved_ips = map Addr ips\<rparr>"

fun check_addrs :: "ip_addr list \<Rightarrow> string list \<Rightarrow> ssrf_result" where
  "check_addrs ips [] = \<lparr>allowed = True, why = None, resolved_ips = map Addr ips\<rparr>"
| "check_addrs ips (addr # rest) =
     (case ip_address addr of
        None \<Rightarrow> blocked (''invalid_ip:'' @ addr) ips
      | Some ip \<Rightarrow>
          if is_private ip then blocked (''private_ip:'' @ addr) ips
          else check_addrs (ips @ [ip]) rest)"

definition check_url ::
  "(string \<Rightarrow> string list option) \<Rightarrow> string \<Rightarrow> allowlist \<Rightarrow> bool \<Rightarrow> ssrf_result result" where
  "check_url getaddrinfo url allowlist require_https =
     (case urlparse url of
        None \<Rightarrow> Inl (ValueError ''urlparse'')
      | Some parsed \<Rightarrow>
        if url_scheme parsed \<noteq> ''http'' \<and> url_scheme parsed \<noteq> ''https'' then
          Inr (blocked (''scheme_not_allowed:'' @ url_scheme parsed) [])
        else if require_https \<and> url_scheme parsed \<noteq> ''https'' then Inr (blocked ''https_required'' [])
        else (case url_hostname parsed of
          None \<Rightarrow> Inr (blocked ''missing_hostname'' [])
        | Some host \<Rightarrow>
          (let host_l = py_lower host in
           if host_l \<in> set (allow_hosts allowlist) then
             (case getaddrinfo host of
                None \<Rightarrow> Inr (blocked ''dns_resolution_failed'' [])
              | Some addrs \<Rightarrow> Inr \<lparr>allowed = True, why = None, resolved_ips = map Raw (remdups addrs)\<rparr>)
           else if host_l = ''localhost'' \<or> host_l = ''ip6-localhost'' then Inr (blocked ''loopback_hostname'' [])
           else (case getaddrinfo host of
                None \<Rightarrow> Inr (blocked ''dns_resolution_failed'' [])
              | Some addrs \<Rightarrow> Inr (check_addrs [] addrs)))))"

text \<open>
  \<open>assert_url_allowed\<close> raises for a URL that is not allowed. An unparsable URL raises
  \<open>ValueError\<close> from the parser, of which \<open>SsrfBlockedError\<close> is a subclass, not the reverse.
\<close>

definition assert_url_allowed ::
  "(string \<Rightarrow> string list option) \<Rightarrow> string \<Rightarrow> allowlist \<Rightarrow> bool \<Rightarrow> ssrf_result result" where
  "assert_url_allowed getaddrinfo url allowlist require_https =
     (case check_url getaddrinfo url allowlist require_https of
        Inl e \<Rightarrow> Inl e
      | Inr r \<Rightarrow> if allowed r then Inr r
               else Inl (SsrfBlockedError (let w = str_or_empty (why r) in if w = [] then ''ssrf_blocked'' else w)))"

section \<open>What the address check establishes\<close>

lemma check_addrs_allowed:
  "allowed (check_addrs ips addrs) \<longleftrightarrow> list_all (\<lambda>a. \<exists>ip. ip_address a = Some ip \<and> \<not> is_private ip) addrs"
  by (induction ips addrs rule: check_addrs.induct) (auto simp: blocked_def split: option.splits)

lemma check_addrs_ips:
  "allowed (check_addrs ips addrs) \<Longrightarrow>
     resolved_ips (check_addrs ips addrs) = map Addr (ips @ map (\<lambda>a. the (ip_address a)) addrs)"
  by (induction ips addrs rule: check_addrs.induct) (auto simp: blocked_def split: option.splits if_splits)

text \<open>The block list in ranges of addresses, independent of prefixes and shifts.\<close>

definition public_ipv4 :: "nat \<Rightarrow> bool" where
  "public_ipv4 n \<longleftrightarrow>
     \<not> n < 0x01000000 \<and>
     \<not> (0x0A000000 \<le> n \<and> n < 0x0B000000) \<and>
     \<not> (0x64400000 \<le> n \<and> n < 0x64800000) \<and>
     \<not> (0x7F000000 \<le> n \<and> n < 0x80000000) \<and>
     \<not> (0xA9FE0000 \<le> n \<and> n < 0xA9FF0000) \<and>
     \<not> (0xAC100000 \<le> n \<and> n < 0xAC200000) \<and>
     \<not> (0xC0000000 \<le> n \<and> n < 0xC0000100) \<and>
     \<not> (0xC0A80000 \<le> n \<and> n < 0xC0A90000) \<and>
     \<not> (0xC6120000 \<le> n \<and> n < 0xC6140000) \<and>
     n < 0xE0000000"

lemma is_private_ipv4: "is_private (IPv4 w) \<longleftrightarrow> \<not> public_ipv4 (unat w)"
proof -
  have "unat w < 2 ^ 32" using unsigned_less [of w] by simp
  then show ?thesis
    by (simp add: private_ipv4_nets_def in_net_range public_ipv4_def) linarith
qed

definition public_ipv6 :: "nat \<Rightarrow> bool" where
  "public_ipv6 n \<longleftrightarrow>
     1 < n \<and>
     \<not> (0xFC000000000000000000000000000000 \<le> n \<and> n < 0xFE000000000000000000000000000000) \<and>
     \<not> (0xFE800000000000000000000000000000 \<le> n \<and> n < 0xFEC00000000000000000000000000000) \<and>
     n < 0xFF000000000000000000000000000000"

lemma is_private_ipv6: "is_private (IPv6 w) \<longleftrightarrow> \<not> public_ipv6 (unat w)"
proof -
  have "unat w < 2 ^ 128" using unsigned_less [of w] by simp
  then show ?thesis
    by (simp add: private_ipv6_nets_def in_net_range public_ipv6_def) linarith
qed

declare is_private.simps [simp del]

lemma not_private_public_ipv4: "\<not> is_private ip \<Longrightarrow> ip = IPv4 w \<Longrightarrow> public_ipv4 (unat w)"
  by (simp add: is_private_ipv4)

section \<open>Properties\<close>

text \<open>C16: The guard is fail closed. A host that is not allow-listed passes only if the URL is http(s),
  the name resolves, and every address of the answer parses and lies outside the blocked networks: no
  IPv4 address of the unspecified, private, carrier-grade, loopback, link-local, protocol, benchmark,
  multicast or reserved ranges is ever handed to the caller, and exactly the resolved addresses are
  returned for pinning.\<close>

theorem check_url_blocks_internal:
  assumes "check_url dns url al https = Inr r" and "allowed r"
    and "urlparse url = Some p" and "url_hostname p = Some host"
    and "py_lower host \<notin> set (allow_hosts al)"
  shows "(url_scheme p = ''http'' \<or> url_scheme p = ''https'') \<and> py_lower host \<noteq> ''localhost'' \<and>
    (\<exists>addrs. dns host = Some addrs \<and>
       (\<forall>a \<in> set addrs. \<exists>ip. ip_address a = Some ip \<and> \<not> is_private ip \<and>
          (\<forall>w. ip = IPv4 w \<longrightarrow> public_ipv4 (unat w))) \<and>
       resolved_ips r = map (\<lambda>a. Addr (the (ip_address a))) addrs)"
proof -
  obtain addrs where d: "dns host = Some addrs" and r: "r = check_addrs [] addrs"
    and sch: "url_scheme p = ''http'' \<or> url_scheme p = ''https''" and lo: "py_lower host \<noteq> ''localhost''"
    using assms by (auto simp: check_url_def blocked_def Let_def split: if_splits option.splits)
  have all: "list_all (\<lambda>a. \<exists>ip. ip_address a = Some ip \<and> \<not> is_private ip) addrs"
    using assms(2) r check_addrs_allowed by blast
  have "resolved_ips r = map (\<lambda>a. Addr (the (ip_address a))) addrs"
    using check_addrs_ips [of "[]" addrs] assms(2) r by simp
  moreover have "\<forall>a \<in> set addrs. \<exists>ip. ip_address a = Some ip \<and> \<not> is_private ip \<and>
      (\<forall>w. ip = IPv4 w \<longrightarrow> public_ipv4 (unat w))"
    using all not_private_public_ipv4 unfolding list_all_iff by blast
  ultimately show ?thesis using d sch lo by blast
qed

definition example_dns :: "string \<Rightarrow> string list option" where
  "example_dns h = (if h = ''hooks.example.com'' then Some [''93.184.216.34''] else None)"

theorem check_url_blocks_internal_witness:
  "\<exists>addrs. example_dns ''hooks.example.com'' = Some addrs \<and>
     list_all (\<lambda>a. \<exists>ip. ip_address a = Some ip \<and> \<not> is_private ip) addrs"
proof -
  let ?u = "''https://hooks.example.com/x''" and ?h = "''hooks.example.com''"
  let ?p = "\<lparr>url_scheme = ''https'', url_netloc = ?h\<rparr>"
  have u: "urlparse ?u = Some ?p" and h: "url_hostname ?p = Some ?h" and l: "py_lower ?h = ?h"
    and ip: "ip_address ''93.184.216.34'' = Some (IPv4 1572395042)" by code_simp+
  have c: "check_url example_dns ?u AllowNone True =
      Inr \<lparr>allowed = True, why = None, resolved_ips = [Addr (IPv4 1572395042)]\<rparr>"
    by (simp add: check_url_def u h l ip example_dns_def is_private_ipv4 public_ipv4_def)
  show ?thesis using check_url_blocks_internal [OF c _ u h] unfolding list_all_iff by auto
qed

text \<open>IPv4-mapped IPv6 addresses are not recognised: for every IPv4 address, internal ones
  included, its mapped form \<open>::ffff:a.b.c.d\<close> is outside the IPv6 block list, so a name or literal
  that resolves to the mapped form of a loopback or metadata address passes the guard.\<close>

theorem ipv4_mapped_not_private:
  "\<not> is_private (IPv6 (word_of_int (0xFFFF00000000 + uint (w :: 32 word)))) \<and>
   (\<forall>dns. dns ''::ffff:169.254.169.254'' = Some [''::ffff:169.254.169.254''] \<longrightarrow>
      check_url dns ''http://[::ffff:169.254.169.254]/latest/meta-data'' AllowNone False =
        Inr \<lparr>allowed = True, why = None, resolved_ips = [Addr (IPv6 0xFFFFA9FEA9FE)]\<rparr>)"
proof -
  have b: "uint w < 2 ^ 32" "0 \<le> uint w" using uint_lt2p [of w] by simp_all
  have u: "unat (word_of_int (0xFFFF00000000 + uint w) :: 128 word) = nat (0xFFFF00000000 + uint w)"
  proof -
    have "take_bit LENGTH(128) (0xFFFF00000000 + uint w) = 0xFFFF00000000 + uint w"
      using b by (intro take_bit_int_eq_self) simp_all
    then show ?thesis unfolding unsigned_of_int of_nat_id by (rule arg_cong)
  qed
  have "\<not> is_private (IPv6 (word_of_int (0xFFFF00000000 + uint w)))"
    unfolding is_private_ipv6 u using b unsigned_less [of w, where 'a = nat]
    by (simp add: public_ipv6_def nat_add_distrib)
  moreover have "urlparse ''http://[::ffff:169.254.169.254]/latest/meta-data'' =
      Some \<lparr>url_scheme = ''http'', url_netloc = ''[::ffff:169.254.169.254]''\<rparr>"
    and "url_hostname \<lparr>url_scheme = ''http'', url_netloc = ''[::ffff:169.254.169.254]''\<rparr> =
      Some ''::ffff:169.254.169.254''"
    and "py_lower ''::ffff:169.254.169.254'' = ''::ffff:169.254.169.254''"
    and "ip_address ''::ffff:169.254.169.254'' = Some (IPv6 0xFFFFA9FEA9FE)" by code_simp+
  ultimately show ?thesis
    by (simp add: check_url_def is_private_ipv6 public_ipv6_def)
qed

theorem ipv4_mapped_not_private_witness:
  "check_url (\<lambda>h. Some [h]) ''http://[::ffff:169.254.169.254]/latest/meta-data'' AllowNone False =
     Inr \<lparr>allowed = True, why = None, resolved_ips = [Addr (IPv6 0xFFFFA9FEA9FE)]\<rparr>"
  by (rule ipv4_mapped_not_private [of 0, THEN conjunct2, rule_format]) (rule refl)

end
