(* ===== verification/Sql_Order.thy ===== *)
theory Sql_Order
  imports Findings
begin

text \<open>
  Facts about ORDER BY and LIMIT as the queue queries use them: the rows are kept, and the first row
  of the answer comes before every other one. A sort key is a comparison that is total and transitive.
\<close>

definition sort_key :: "('a \<Rightarrow> 'a \<Rightarrow> bool) \<Rightarrow> bool" where
  "sort_key le \<longleftrightarrow> (\<forall>a b. le a b \<or> le b a) \<and> (\<forall>a b c. le a b \<longrightarrow> le b c \<longrightarrow> le a c)"

lemma set_insert_by [simp]: "set (insert_by le x ys) = insert x (set ys)"
  by (induction ys) auto

lemma order_by_set [simp]: "set (order_by le xs) = set xs"
  by (induction xs) (auto simp: order_by_def)

lemma length_insert_by [simp]: "length (insert_by le x ys) = Suc (length ys)"
  by (induction ys) auto

lemma length_order_by [simp]: "length (order_by le xs) = length xs"
  by (induction xs) (simp_all add: order_by_def)

lemma order_by_Nil_iff [simp]: "order_by le xs = [] \<longleftrightarrow> xs = []"
  by (simp only: length_0_conv [symmetric] length_order_by)

lemma sorted_insert_by:
  assumes "sort_key le" and "sorted_wrt le ys"
  shows "sorted_wrt le (insert_by le x ys)"
  using assms(2)
proof (induction ys)
  case Nil
  then show ?case by simp
next
  case (Cons y ys)
  show ?case
  proof (cases "le x y")
    case True
    then have "\<forall>z \<in> set ys. le x z" using assms(1) Cons.prems by (auto simp: sort_key_def)
    then show ?thesis using True Cons.prems by simp
  next
    case False
    then have "le y x" using assms(1) by (auto simp: sort_key_def)
    then show ?thesis using False Cons by simp
  qed
qed

lemma order_by_sorted: "sort_key le \<Longrightarrow> sorted_wrt le (order_by le xs)"
  by (induction xs) (simp_all add: order_by_def sorted_insert_by)

lemma order_by_head:
  assumes "sort_key le" and "order_by le xs = x # ys" and "z \<in> set xs"
  shows "le x z"
proof -
  have "sorted_wrt le (x # ys)" using order_by_sorted [OF assms(1), of xs] assms(2) by simp
  moreover have "z \<in> set (x # ys)" using assms(2,3) order_by_set [of le xs] by simp
  moreover have "le x x" using assms(1) by (auto simp: sort_key_def)
  ultimately show ?thesis by auto
qed

lemma taken_before_dropped:
  assumes "sort_key le" and "x \<in> set (take n (order_by le xs))" and "y \<in> set xs" and "y \<notin> set (take n (order_by le xs))"
  shows "le x y"
proof -
  have "sorted_wrt le (take n (order_by le xs) @ drop n (order_by le xs))" using order_by_sorted [OF assms(1), of xs] by simp
  moreover have "y \<in> set (drop n (order_by le xs))"
    using assms(3,4) order_by_set [of le xs] by (metis Un_iff append_take_drop_id set_append)
  ultimately show ?thesis using assms(2) by (simp only: sorted_wrt_append)
qed

end
