(* ===== verification/Py_Result.thy ===== *)
theory Py_Result
  imports Prelude
begin

text \<open>
  Sequencing of operations that may raise: the rest runs only when the first part returned, as
  after a Python statement; a loop whose body may raise stops at the first exception.
\<close>

definition bind_r :: "'a result \<Rightarrow> ('a \<Rightarrow> 'b result) \<Rightarrow> 'b result" where
  "bind_r x f = (case x of Inl e \<Rightarrow> Inl e | Inr v \<Rightarrow> f v)"

fun map_r :: "('a \<Rightarrow> 'b result) \<Rightarrow> 'a list \<Rightarrow> 'b list result" where
  "map_r f [] = Inr []"
| "map_r f (x # xs) = bind_r (f x) (\<lambda>y. bind_r (map_r f xs) (\<lambda>ys. Inr (y # ys)))"

lemma bind_r_simps [simp]: "bind_r (Inl e) f = Inl e" "bind_r (Inr v) f = f v"
  by (simp_all add: bind_r_def)

lemma bind_r_Inr: "bind_r x f = Inr y \<longleftrightarrow> (\<exists>v. x = Inr v \<and> f v = Inr y)"
  by (cases x) simp_all

lemma map_r_Inr: "map_r f xs = Inr ys \<longleftrightarrow> list_all2 (\<lambda>x y. f x = Inr y) xs ys"
  by (induction xs arbitrary: ys) (auto simp: bind_r_Inr list_all2_Cons1)

lemma map_r_mem: "map_r f xs = Inr ys \<Longrightarrow> y \<in> set ys \<longleftrightarrow> (\<exists>x \<in> set xs. f x = Inr y)"
  unfolding map_r_Inr by (induction rule: list_all2_induct) auto

lemma map_r_length: "map_r f xs = Inr ys \<Longrightarrow> length ys = length xs"
  unfolding map_r_Inr by (simp add: list_all2_lengthD)

text \<open>\<open>str(exc)\<close>, as far as the code stores it.\<close>

definition exc_str :: "py_exn \<Rightarrow> string" where
  "exc_str e = (case e of SsrfBlockedError s \<Rightarrow> s | HttpError s \<Rightarrow> s | ValueError s \<Rightarrow> s | TypeError s \<Rightarrow> s
     | OtherError s \<Rightarrow> s | OpsecViolationError s \<Rightarrow> s | CircuitOpenError s \<Rightarrow> s | KeyError s \<Rightarrow> s | _ \<Rightarrow> [])"

text \<open>\<open>filter\<close> with a predicate that may raise.\<close>

fun filter_r :: "('a \<Rightarrow> bool result) \<Rightarrow> 'a list \<Rightarrow> 'a list result" where
  "filter_r p [] = Inr []"
| "filter_r p (x # xs) = bind_r (p x) (\<lambda>b. bind_r (filter_r p xs) (\<lambda>ys. Inr (if b then x # ys else ys)))"

lemma filter_r_mem: "filter_r p xs = Inr ys \<Longrightarrow> y \<in> set ys \<longleftrightarrow> y \<in> set xs \<and> p y = Inr True"
  by (induction xs arbitrary: ys) (auto simp: bind_r_Inr split: if_splits)

lemma filter_r_sublist: "filter_r p xs = Inr ys \<Longrightarrow> set ys \<subseteq> set xs"
  by (induction xs arbitrary: ys) (auto simp: bind_r_Inr split: if_splits)

end
