(* ===== verification/Webhook_Worker.thy ===== *)
theory Webhook_Worker
  imports Webhooks Ssrf Settings Sql_Order Py_Result
begin

text \<open>
  \<open>app/workers/webhook_worker.py\<close>: claiming due deliveries, one attempt at each, and the back-off. The
  name resolver, the HTTP transport, the cryptographic libraries and the jitter are fields of an
  environment. The attempts of one batch run concurrently in the code; each touches its own delivery
  row, so they are translated in sequence.
\<close>

section \<open>Back-off\<close>

definition BATCH_SIZE :: nat where "BATCH_SIZE = 20"
definition LOCK_DURATION_SECONDS :: int where "LOCK_DURATION_SECONDS = 60"

definition BACKOFF_SECONDS :: "int list" where
  "BACKOFF_SECONDS = [60, 5 * 60, 30 * 60, 2 * 3600, 12 * 3600]"

text \<open>The jitter is the value of \<open>random.uniform(0.0, 0.25 * base)\<close> as a fraction of \<open>base\<close>.\<close>

definition next_attempt_delay :: "rat \<Rightarrow> int \<Rightarrow> rat" where
  "next_attempt_delay jitter next_attempt_idx =
     (let bucket = min (max 0 (next_attempt_idx - 1)) (int (length BACKOFF_SECONDS) - 1);
          base = BACKOFF_SECONDS ! nat bucket
      in of_int base + jitter * of_int base)"

section \<open>Claiming\<close>

definition claimable :: "int \<Rightarrow> delivery_row \<Rightarrow> bool" where
  "claimable now r \<longleftrightarrow> wd_delivered_at r = None \<and> wd_attempts r < wd_max_attempts r \<and>
     wd_scheduled_at r \<le> now \<and> (case wd_locked_until r of None \<Rightarrow> True | Some t \<Rightarrow> t \<le> now)"

definition due_deliveries :: "int \<Rightarrow> nat \<Rightarrow> delivery_row list \<Rightarrow> delivery_row list" where
  "due_deliveries now n rows =
     take n (order_by (\<lambda>a b. wd_scheduled_at a \<le> wd_scheduled_at b) (filter (claimable now) rows))"

definition claim_row :: "int \<Rightarrow> delivery_row \<Rightarrow> delivery_row" where
  "claim_row now r = r\<lparr>wd_locked_until := Some (now + LOCK_DURATION_SECONDS * 1000000),
     wd_attempts := wd_attempts r + 1\<rparr>"

definition claim :: "int \<Rightarrow> db \<Rightarrow> db \<times> delivery_row list" where
  "claim now d =
     (let due = due_deliveries now BATCH_SIZE (t_rows (db_deliveries d)); ids = map wd_id due in
      (d\<lparr>db_deliveries := update_rows (\<lambda>r. wd_id r \<in> set ids) (claim_row now) (db_deliveries d)\<rparr>,
       map (claim_row now) due))"

section \<open>Outcomes\<close>

definition mark_success :: "int \<Rightarrow> int \<Rightarrow> int option \<Rightarrow> string option \<Rightarrow> db \<Rightarrow> db" where
  "mark_success now did status body d =
     d\<lparr>db_deliveries := update_rows (\<lambda>r. wd_id r = did)
        (\<lambda>r. r\<lparr>wd_delivered_at := Some now, wd_status_code := status, wd_response_body := body,
               wd_last_error := None, wd_locked_until := None\<rparr>) (db_deliveries d)\<rparr>"

definition mark_failure :: "int \<Rightarrow> int option \<Rightarrow> string option \<Rightarrow> string \<Rightarrow> int \<Rightarrow> db \<Rightarrow> db" where
  "mark_failure did status body err schedule d =
     d\<lparr>db_deliveries := update_rows (\<lambda>r. wd_id r = did)
        (\<lambda>r. r\<lparr>wd_status_code := status, wd_response_body := body, wd_last_error := Some err,
               wd_locked_until := None, wd_scheduled_at := schedule\<rparr>) (db_deliveries d)\<rparr>"

definition bump_webhook_success :: "int \<Rightarrow> int \<Rightarrow> db \<Rightarrow> db" where
  "bump_webhook_success now wid d =
     d\<lparr>db_webhooks := update_rows (\<lambda>w. wh_id w = wid) (\<lambda>w. w\<lparr>wh_last_success_at := Some now\<rparr>) (db_webhooks d)\<rparr>"

definition bump_webhook_failure :: "int \<Rightarrow> int \<Rightarrow> string \<Rightarrow> db \<Rightarrow> db" where
  "bump_webhook_failure now wid err d =
     d\<lparr>db_webhooks := update_rows (\<lambda>w. wh_id w = wid)
        (\<lambda>w. w\<lparr>wh_last_error_at := Some now, wh_last_error := Some err\<rparr>) (db_webhooks d)\<rparr>"

text \<open>The delivery handed in is the claimed row, whose counter already includes this attempt.\<close>

definition record_failure ::
    "int \<Rightarrow> rat \<Rightarrow> delivery_row \<Rightarrow> int option \<Rightarrow> string \<Rightarrow> string option \<Rightarrow> db \<Rightarrow> db" where
  "record_failure now jitter delivery status err body d =
     (let next_attempt = wd_attempts delivery + 1 in
      if next_attempt \<ge> wd_max_attempts delivery
      then mark_failure (wd_id delivery) status body err now d
      else mark_failure (wd_id delivery) status body err
             (now + \<lfloor>next_attempt_delay jitter (next_attempt + 1) * 1000000\<rfloor>) d)"

section \<open>One attempt\<close>

record http_response =
  resp_status :: int
  resp_text :: string

record webhook_env =
  we_dns :: "string \<Rightarrow> string list option"
  we_post :: "string \<Rightarrow> (string \<times> string) list \<Rightarrow> string \<Rightarrow> http_response result"
  we_fdec :: fernet
  we_hmac :: "string \<Rightarrow> string \<Rightarrow> string"
  we_float_repr :: "rat \<Rightarrow> string"
  we_jitter :: "int \<Rightarrow> rat"
  we_enc_key :: string
  we_enforcement :: bool
  we_allowlist :: string

definition fetch_webhook_target :: "db \<Rightarrow> int \<Rightarrow> webhook_row option" where
  "fetch_webhook_target d wid = fetchrow (\<lambda>w. wh_id w = wid) (t_rows (db_webhooks d))"

definition delivery_headers :: "webhook_env \<Rightarrow> delivery_row \<Rightarrow> string \<Rightarrow> string option \<Rightarrow> (string \<times> string) list" where
  "delivery_headers env delivery body secret =
     [(''Content-Type'', ''application/json''), (''User-Agent'', ''cve-management-webhook/1.0''),
      (''X-Webhook-Delivery-Id'', py_str_int (wd_id delivery))] @
     (if truthy secret then [(''X-Signature'', sign (we_hmac env) body (str_or_empty secret))] else [])"

text \<open>The POST through the client of \<open>app/core/http.py\<close>.\<close>

definition guarded_post ::
    "webhook_env \<Rightarrow> string \<Rightarrow> (string \<times> string) list \<Rightarrow> string \<Rightarrow> http_response result" where
  "guarded_post env url headers body =
     snd (request (we_float_repr env) (\<lambda>_. we_post env url headers body)
       \<lparr>bk_json = None, bk_content = Some body, bk_data = None\<rparr>
       \<lparr>oc_provider = ''webhook'', oc_enforcement = we_enforcement env, oc_blocks = None\<rparr>)"

definition fail_with ::
    "webhook_env \<Rightarrow> int \<Rightarrow> delivery_row \<Rightarrow> int option \<Rightarrow> string \<Rightarrow> string option \<Rightarrow> db \<Rightarrow> db" where
  "fail_with env now delivery status err body d =
     record_failure now (we_jitter env (wd_id delivery)) delivery status err body d"

definition send_delivery ::
    "webhook_env \<Rightarrow> int \<Rightarrow> delivery_row \<Rightarrow> webhook_row \<Rightarrow> string option \<Rightarrow> db \<Rightarrow> db \<times> bool result" where
  "send_delivery env now delivery target secret d =
     (let wid = wd_webhook_id delivery;
          body = serialize_payload (we_float_repr env) (wd_payload delivery);
          headers = delivery_headers env delivery body secret in
      case guarded_post env (wh_url target) headers body of
        Inl (OpsecViolationError r) \<Rightarrow>
          (fail_with env now delivery None (''opsec_violation:'' @ r) None d, Inr False)
      | Inl (HttpError s) \<Rightarrow> (fail_with env now delivery None (''http_error:'' @ s) None d, Inr False)
      | Inl e \<Rightarrow> (d, Inl e)
      | Inr resp \<Rightarrow>
          if 200 \<le> resp_status resp \<and> resp_status resp < 300
          then (bump_webhook_success now wid (mark_success now (wd_id delivery) (Some (resp_status resp))
                  (Some (take 2000 (resp_text resp))) d), Inr True)
          else (let err = ''http_'' @ py_str_int (resp_status resp) in
            (bump_webhook_failure now wid err (fail_with env now delivery (Some (resp_status resp)) err
               (Some (take 2000 (resp_text resp))) d), Inr False)))"

definition attempt_delivery :: "webhook_env \<Rightarrow> int \<Rightarrow> delivery_row \<Rightarrow> db \<Rightarrow> db \<times> bool result" where
  "attempt_delivery env now delivery d =
     (let wid = wd_webhook_id delivery in
      case fetch_webhook_target d wid of
        None \<Rightarrow> (mark_success now (wd_id delivery) (Some 410) (Some ''webhook_deleted'') d, Inr True)
      | Some target \<Rightarrow>
          if \<not> wh_enabled target
          then (fail_with env now delivery None ''webhook_disabled'' None d, Inr False)
          else (case assert_url_allowed (we_dns env) (wh_url target) (AllowText (we_allowlist env)) False of
            Inl (SsrfBlockedError s) \<Rightarrow>
              (bump_webhook_failure now wid (''ssrf_blocked:'' @ s)
                 (fail_with env now delivery None (''ssrf_blocked:'' @ s) None d), Inr False)
          | Inl e \<Rightarrow> (d, Inl e)
          | Inr _ \<Rightarrow>
              (case resolve_secret (we_fdec env) (we_enc_key env) target of
                 Inl CryptoError \<Rightarrow>
                   (fail_with env now delivery None ''webhook_secret_unreadable:CryptoError'' None d, Inr False)
               | Inl CryptoNotConfigured \<Rightarrow>
                   (fail_with env now delivery None ''webhook_secret_unreadable:CryptoNotConfigured'' None d, Inr False)
               | Inl e \<Rightarrow> (d, Inl e)
               | Inr secret \<Rightarrow> send_delivery env now delivery target secret d)))"

text \<open>\<open>_bounded\<close>: an unexpected exception is a failed attempt.\<close>

definition bounded :: "webhook_env \<Rightarrow> int \<Rightarrow> delivery_row \<Rightarrow> db \<Rightarrow> db" where
  "bounded env now delivery d =
     (case attempt_delivery env now delivery d of
        (d', Inr _) \<Rightarrow> d'
      | (d', Inl e) \<Rightarrow> if is_exception e then fail_with env now delivery None (''internal:'' @ exc_str e) None d' else d')"

definition drain_pending_deliveries :: "webhook_env \<Rightarrow> int \<Rightarrow> db \<Rightarrow> db \<times> int" where
  "drain_pending_deliveries env now d =
     (let (d1, claimed) = claim now d in
      (foldl (\<lambda>d r. bounded env now r d) d1 claimed, int (length claimed)))"

section \<open>The retry budget\<close>

text \<open>The part of the table that only claiming changes.\<close>

definition budget :: "db \<Rightarrow> (int \<times> int \<times> int) list \<times> int" where
  "budget d = (map (\<lambda>r. (wd_id r, wd_attempts r, wd_max_attempts r)) (t_rows (db_deliveries d)), t_serial (db_deliveries d))"

lemma budget_update:
  "(\<And>r. (wd_id (f r), wd_attempts (f r), wd_max_attempts (f r)) = (wd_id r, wd_attempts r, wd_max_attempts r)) \<Longrightarrow>
   budget (d\<lparr>db_deliveries := update_rows p f (db_deliveries d)\<rparr>) = budget d"
  by (simp add: budget_def update_rows_def sql_update_map)

lemma budget_marks [simp]:
  "budget (mark_success now did st b d) = budget d"
  "budget (mark_failure did st b e s d) = budget d"
  "budget (bump_webhook_success now wid d) = budget d"
  "budget (bump_webhook_failure now wid e d) = budget d"
  unfolding mark_success_def mark_failure_def
  by (rule budget_update; simp; fail)+ (simp_all add: budget_def bump_webhook_success_def bump_webhook_failure_def)

lemma budget_fail [simp]: "budget (fail_with env now r st e b d) = budget d"
  by (simp add: fail_with_def record_failure_def Let_def)

lemma budget_attempt [simp]: "budget (fst (attempt_delivery env now r d)) = budget d"
  by (auto simp: attempt_delivery_def send_delivery_def Let_def split: option.split sum.split py_exn.split)

lemma budget_bounded [simp]: "budget (bounded env now r d) = budget d"
proof (cases "attempt_delivery env now r d")
  case (Pair d' res)
  then have "budget d' = budget d" using budget_attempt [of env now r d] by simp
  then show ?thesis using Pair by (cases res) (simp_all add: bounded_def)
qed

lemma budget_fold [simp]: "budget (foldl (\<lambda>d r. bounded env now r d) d rs) = budget d"
  by (induction rs arbitrary: d) simp_all

definition budget_ok :: "db \<Rightarrow> bool" where
  "budget_ok d \<longleftrightarrow> keyed wd_id (db_deliveries d) \<and>
     list_all (\<lambda>r. 0 \<le> wd_attempts r \<and> wd_attempts r \<le> wd_max_attempts r) (t_rows (db_deliveries d))"

lemma budget_ok_cong:
  assumes "budget d = budget d'"
  shows "budget_ok d = budget_ok d'"
proof -
  let ?k = "\<lambda>r. (wd_id r, wd_attempts r, wd_max_attempts r)"
  have e: "map ?k (t_rows (db_deliveries d)) = map ?k (t_rows (db_deliveries d'))"
    "t_serial (db_deliveries d) = t_serial (db_deliveries d')"
    using assms by (simp_all add: budget_def)
  have b: "budget_ok x \<longleftrightarrow> distinct (map fst (map ?k (t_rows (db_deliveries x)))) \<and>
      (\<forall>t \<in> set (map ?k (t_rows (db_deliveries x))). fst t \<le> t_serial (db_deliveries x) \<and>
         0 \<le> fst (snd t) \<and> fst (snd t) \<le> snd (snd t))" for x
    by (auto simp: budget_ok_def keyed_def list_all_iff comp_def)
  show ?thesis unfolding b e ..
qed

lemma due_claimable: "r \<in> set (due_deliveries now n rows) \<Longrightarrow> r \<in> set rows \<and> claimable now r"
  unfolding due_deliveries_def by (drule in_set_takeD) simp

lemma claimed_iff:
  assumes "keyed wd_id (db_deliveries d)" and "r \<in> set (t_rows (db_deliveries d))"
  shows "wd_id r \<in> wd_id ` set (due_deliveries now n (t_rows (db_deliveries d))) \<longleftrightarrow>
     r \<in> set (due_deliveries now n (t_rows (db_deliveries d)))"
  using keyed_unique [OF assms(1) assms(2)] due_claimable by (metis (no_types, lifting) imageE image_eqI)

lemma claim_budget_ok:
  assumes "budget_ok d"
  shows "budget_ok (fst (claim now d))"
proof -
  let ?rows = "t_rows (db_deliveries d)"
  let ?due = "due_deliveries now BATCH_SIZE ?rows"
  have k: "keyed wd_id (db_deliveries d)" using assms by (simp add: budget_ok_def)
  have "0 \<le> wd_attempts r' \<and> wd_attempts r' \<le> wd_max_attempts r'"
    if "r' \<in> set (sql_update (\<lambda>r. wd_id r \<in> wd_id ` set ?due) (claim_row now) ?rows)" for r'
  proof -
    note r'in = that
    obtain r where r: "r \<in> set ?rows" "r' = (if wd_id r \<in> wd_id ` set ?due then claim_row now r else r)"
      using r'in unfolding in_sql_update by blast
    have "wd_attempts r < wd_max_attempts r" if "wd_id r \<in> wd_id ` set ?due"
      using due_claimable claimed_iff [OF k r(1)] that by (auto simp: claimable_def)
    then show ?thesis using assms r by (auto simp: budget_ok_def list_all_iff claim_row_def)
  qed
  moreover have "keyed wd_id (update_rows (\<lambda>r. wd_id r \<in> wd_id ` set ?due) (claim_row now) (db_deliveries d))"
    using k by (rule keyed_update) (simp add: claim_row_def)
  ultimately show ?thesis by (simp add: claim_def Let_def budget_ok_def list_all_iff)
qed

datatype queue_event =
    Enqueue int int string json "string option"
  | Drain webhook_env int

fun queue_step :: "db \<Rightarrow> queue_event \<Rightarrow> db" where
  "queue_step d (Enqueue now wid ty payload key) = fst (enqueue_delivery now wid ty payload key d)"
| "queue_step d (Drain env now) = fst (drain_pending_deliveries env now d)"

lemma enqueue_budget_ok: "budget_ok d \<Longrightarrow> budget_ok (fst (enqueue_delivery now wid ty payload key d))"
  using keyed_insert [of wd_id "db_deliveries d" "new_delivery now wid ty payload key"]
  by (auto simp: enqueue_delivery_def Let_def budget_ok_def insert_row_def new_delivery_def split: prod.split)

lemma drain_budget_ok: "budget_ok d \<Longrightarrow> budget_ok (fst (drain_pending_deliveries env now d))"
  using claim_budget_ok [of d now] budget_ok_cong [OF budget_fold]
  by (auto simp: drain_pending_deliveries_def split: prod.split)

interpretation delivery_queue: step_system queue_step budget_ok
proof unfold_locales
  fix d e
  assume "budget_ok d"
  then show "budget_ok (queue_step d e)" by (cases e) (simp_all add: enqueue_budget_ok drain_budget_ok)
qed

section \<open>Properties\<close>


definition dead_env :: webhook_env where
  "dead_env = \<lparr>we_dns = (\<lambda>_. Some [''93.184.216.34'']), we_post = (\<lambda>_ _ _. Inl (HttpError ''timeout'')),
     we_fdec = (\<lambda>_ _. Inl FernetInvalidToken), we_hmac = (\<lambda>_ _. ''00''), we_float_repr = (\<lambda>_. []),
     we_jitter = (\<lambda>_. 0), we_enc_key = [], we_enforcement = True, we_allowlist = []\<rparr>"

definition one_delivery :: db where
  "one_delivery = fst (enqueue_delivery 0 1 ''finding.kev_match'' (JObj [(''cve_id'', JStr ''CVE-1'')]) None hook_db)"


text \<open>Two workers never hold the same delivery: whatever one run claims cannot be claimed again within
  the next sixty seconds by any run that starts before the first has recorded an outcome, and a run
  claims only deliveries that are due, undelivered, unlocked and have budget left.\<close>

theorem claims_are_exclusive:
  assumes "keyed wd_id (db_deliveries d)" and "now' < now + 60000000"
    and "claim now d = (d1, c1)" and "claim now' d1 = (d2, c2)"
  shows "set (map wd_id c1) \<inter> set (map wd_id c2) = {} \<and>
     (\<forall>r \<in> set c1. \<exists>r0 \<in> set (t_rows (db_deliveries d)). r = claim_row now r0 \<and> claimable now r0)"
proof -
  let ?rows = "t_rows (db_deliveries d)"
  let ?due = "due_deliveries now BATCH_SIZE ?rows"
  have c1: "c1 = map (claim_row now) ?due"
    and rows1: "t_rows (db_deliveries d1) = sql_update (\<lambda>r. wd_id r \<in> wd_id ` set ?due) (claim_row now) ?rows"
    using assms(3) by (auto simp: claim_def Let_def)
  have c2: "c2 = map (claim_row now') (due_deliveries now' BATCH_SIZE (t_rows (db_deliveries d1)))"
    using assms(4) by (auto simp: claim_def Let_def)
  have "wd_id r1 \<noteq> wd_id r2"
    if r1: "r1 \<in> set ?due" and r2: "r2 \<in> set (due_deliveries now' BATCH_SIZE (t_rows (db_deliveries d1)))" for r1 r2
  proof
    assume eq: "wd_id r1 = wd_id r2"
    have r2': "r2 \<in> set (t_rows (db_deliveries d1))" "claimable now' r2" using due_claimable [OF r2] by simp_all
    obtain r where r: "r \<in> set ?rows" "r2 = (if wd_id r \<in> wd_id ` set ?due then claim_row now r else r)"
      using r2'(1) unfolding rows1 in_sql_update by blast
    have "wd_id r = wd_id r1" using eq r(2) by (simp add: claim_row_def split: if_splits)
    then have "r2 = claim_row now r" using r r1 by (metis image_eqI)
    then show False using r2'(2) assms(2) by (simp add: claimable_def claim_row_def LOCK_DURATION_SECONDS_def)
  qed
  then have "set (map wd_id c1) \<inter> set (map wd_id c2) = {}"
    unfolding c1 c2 by (auto simp: claim_row_def)
  then show ?thesis using due_claimable unfolding c1 by auto
qed

theorem claims_are_exclusive_witness:
  "map wd_id (snd (claim 0 one_delivery)) = [1] \<and>
   set (map wd_id (snd (claim 0 one_delivery))) \<inter> set (map wd_id (snd (claim 59999999 (fst (claim 0 one_delivery))))) = {}"
proof -
  have k: "keyed wd_id (db_deliveries one_delivery)" by code_simp
  have t: "59999999 < (0 :: int) + 60000000" by simp
  have "map wd_id (snd (claim 0 one_delivery)) = [1]" by code_simp
  then show ?thesis
    using claims_are_exclusive [OF k t surjective_pairing surjective_pairing] by blast
qed

text \<open>The documented back-off is not the one that runs: because claiming already counts the attempt and
  the failure handler counts it again, a delivery of five attempts waits 30 minutes, 2 hours and 12
  hours (plus at most a quarter) after its first three failures instead of 1, 5 and 30 minutes, and
  after the fourth failure it is logged as given up but stays claimable at once for a fifth attempt.\<close>

theorem backoff_is_off_by_two:
  assumes "wd_max_attempts r = 5" and "fetchrow (\<lambda>x. wd_id x = wd_id r) (t_rows (db_deliveries d)) = Some r"
    and "wd_delivered_at r = None"
  shows "\<exists>r'. r' \<in> set (t_rows (db_deliveries (record_failure now j r st e b d))) \<and> wd_id r' = wd_id r \<and>
     wd_attempts r' = wd_attempts r \<and>
     (wd_attempts r = 1 \<longrightarrow> wd_scheduled_at r' = now + \<lfloor>(1800 + j * 1800) * 1000000\<rfloor>) \<and>
     (wd_attempts r = 2 \<longrightarrow> wd_scheduled_at r' = now + \<lfloor>(7200 + j * 7200) * 1000000\<rfloor>) \<and>
     (wd_attempts r = 3 \<longrightarrow> wd_scheduled_at r' = now + \<lfloor>(43200 + j * 43200) * 1000000\<rfloor>) \<and>
     (wd_attempts r = 4 \<longrightarrow> claimable now r')"
proof -
  let ?n = "wd_attempts r + 1"
  let ?s = "if ?n \<ge> 5 then now else now + \<lfloor>next_attempt_delay j (?n + 1) * 1000000\<rfloor>"
  let ?r = "r\<lparr>wd_status_code := st, wd_response_body := b, wd_last_error := Some e, wd_locked_until := None,
      wd_scheduled_at := ?s\<rparr>"
  have rin: "r \<in> set (t_rows (db_deliveries d))" using fetchrow_Some [OF assms(2)] by simp
  have "record_failure now j r st e b d = mark_failure (wd_id r) st b e ?s d"
    by (simp add: record_failure_def assms(1) Let_def)
  then have "?r \<in> set (t_rows (db_deliveries (record_failure now j r st e b d)))"
    using rin by (force simp: mark_failure_def in_sql_update)
  then show ?thesis
    by (intro exI [of _ ?r])
      (auto simp: next_attempt_delay_def BACKOFF_SECONDS_def Let_def claimable_def assms(1,3))
qed

theorem backoff_is_off_by_two_witness:
  "\<exists>r'. r' \<in> set (t_rows (db_deliveries (record_failure 7 0 (hd (snd (claim 0 one_delivery))) None ''http_error:'' None (fst (claim 0 one_delivery))))) \<and>
     wd_scheduled_at r' = 7 + 1800000000"
proof -
  let ?r = "hd (snd (claim 0 one_delivery))"
  have m: "wd_max_attempts ?r = 5" "wd_attempts ?r = 1" by code_simp+
  have f: "fetchrow (\<lambda>x. wd_id x = wd_id ?r) (t_rows (db_deliveries (fst (claim 0 one_delivery)))) = Some ?r" by code_simp
  have u: "wd_delivered_at ?r = None" by code_simp
  show ?thesis using backoff_is_off_by_two [OF m(1) f u, where now = 7 and j = 0] m(2) by fastforce
qed

text \<open>A delivery is refused before anything leaves: when the webhook is gone or disabled, when its URL
  is blocked by the SSRF guard, when its stored secret cannot be read, or when enforcement is on and
  the body trips the OpSec scanner, the outcome of the attempt does not depend on the transport.\<close>

theorem refused_deliveries_are_not_sent:
  assumes "case fetch_webhook_target d (wd_webhook_id r) of
      None \<Rightarrow> True
    | Some w \<Rightarrow> \<not> wh_enabled w \<or>
        isl (assert_url_allowed (we_dns env) (wh_url w) (AllowText (we_allowlist env)) False) \<or>
        isl (resolve_secret (we_fdec env) (we_enc_key env) w) \<or>
        (we_enforcement env \<and> scan (serialize_payload (we_float_repr env) (wd_payload r)) \<noteq> None \<and>
         serialize_payload (we_float_repr env) (wd_payload r) \<noteq> [])"
  shows "attempt_delivery (env\<lparr>we_post := p\<rparr>) now r d = attempt_delivery (env\<lparr>we_post := q\<rparr>) now r d"
proof (cases "fetch_webhook_target d (wd_webhook_id r)")
  case None
  then show ?thesis by (simp add: attempt_delivery_def)
next
  case (Some w)
  have f: "fail_with (env\<lparr>we_post := p\<rparr>) = fail_with (env\<lparr>we_post := q\<rparr>)"
    by (intro ext) (simp add: fail_with_def)
  let ?body = "serialize_payload (we_float_repr env) (wd_payload r)"
  have g: "guarded_post (env\<lparr>we_post := x\<rparr>) u h ?body = Inl (OpsecViolationError (the (scan ?body)))"
    if "we_enforcement env" "scan ?body \<noteq> None" "?body \<noteq> []" for u h x
    using that by (auto simp: guarded_post_def request_def body_as_string_def Let_def)
  show ?thesis
  proof (cases "we_enforcement env \<and> scan ?body \<noteq> None \<and> ?body \<noteq> []")
    case True
    then have "send_delivery (env\<lparr>we_post := p\<rparr>) now r w sec d = send_delivery (env\<lparr>we_post := q\<rparr>) now r w sec d" for sec
      using g by (simp add: send_delivery_def Let_def f)
    then show ?thesis
      by (auto simp: attempt_delivery_def Let_def Some f split: sum.split py_exn.split)
  next
    case False
    then show ?thesis using assms
      by (auto simp: attempt_delivery_def Let_def Some f split: sum.split py_exn.split)
  qed
qed

theorem refused_deliveries_are_not_sent_witness:
  "attempt_delivery (dead_env\<lparr>we_dns := \<lambda>_. Some [''10.0.0.8''], we_post := \<lambda>_ _ _. Inr \<lparr>resp_status = 200, resp_text = []\<rparr>\<rparr>) 0
      (hd (snd (claim 0 one_delivery))) one_delivery
   = attempt_delivery (dead_env\<lparr>we_dns := \<lambda>_. Some [''10.0.0.8''], we_post := \<lambda>_ _ _. Inl (HttpError [])\<rparr>) 0
      (hd (snd (claim 0 one_delivery))) one_delivery"
proof -
  let ?e = "dead_env\<lparr>we_dns := \<lambda>_. Some [''10.0.0.8'']\<rparr>"
  have "case fetch_webhook_target one_delivery (wd_webhook_id (hd (snd (claim 0 one_delivery)))) of
      None \<Rightarrow> True
    | Some w \<Rightarrow> isl (assert_url_allowed (we_dns ?e) (wh_url w) (AllowText (we_allowlist ?e)) False)"
    by code_simp
  then show ?thesis
    by (intro refused_deliveries_are_not_sent [where env = ?e]) (auto split: option.splits)
qed

end
