(* ===== verification/Webhook_Api.thy ===== *)
theory Webhook_Api
  imports Webhook_Worker
begin

text \<open>
  \<open>app/api/routers/webhooks.py\<close>: registering, reading, changing, deleting and testing webhooks. The
  role gate in front of the writing routes is \<open>guarded_by\<close> of theory Auth; a handler receives the
  user it admitted.
\<close>

section \<open>Request bodies\<close>

record webhook_create =
  wc_name :: string
  wc_url :: string
  wc_secret :: "string option"
  wc_event_types :: "string list"
  wc_min_priority :: "int option"
  wc_enabled :: bool
  wc_created_by :: "string option"

definition len_between :: "nat \<Rightarrow> nat \<Rightarrow> string \<Rightarrow> bool" where
  "len_between a b s \<longleftrightarrow> a \<le> length s \<and> length s \<le> b"

definition opt_ok :: "('a \<Rightarrow> bool) \<Rightarrow> 'a option \<Rightarrow> bool" where
  "opt_ok p x = (case x of None \<Rightarrow> True | Some v \<Rightarrow> p v)"

definition priority_ok :: "int \<Rightarrow> bool" where
  "priority_ok n \<longleftrightarrow> 0 \<le> n \<and> n \<le> 100"

definition events_known :: "string list \<Rightarrow> bool" where
  "events_known v \<longleftrightarrow> list_all (\<lambda>e. e \<in> set ALLOWED_EVENT_TYPES) v"

definition webhook_create_valid :: "webhook_create \<Rightarrow> bool" where
  "webhook_create_valid b \<longleftrightarrow> len_between 1 200 (wc_name b) \<and> len_between 1 2000 (wc_url b) \<and>
     opt_ok (len_between 0 200) (wc_secret b) \<and> opt_ok priority_ok (wc_min_priority b) \<and>
     wc_event_types b \<noteq> [] \<and> events_known (wc_event_types b)"

record webhook_update =
  wu_name :: "string option"
  wu_url :: "string option"
  wu_secret :: "string option"
  wu_event_types :: "string list option"
  wu_min_priority :: "int option"
  wu_enabled :: "bool option"

definition webhook_update_valid :: "webhook_update \<Rightarrow> bool" where
  "webhook_update_valid b \<longleftrightarrow> opt_ok (len_between 1 200) (wu_name b) \<and> opt_ok (len_between 1 2000) (wu_url b) \<and>
     opt_ok (len_between 0 200) (wu_secret b) \<and> opt_ok events_known (wu_event_types b) \<and>
     opt_ok priority_ok (wu_min_priority b)"

definition validation_error :: py_exn where
  "validation_error = HttpException 422 ''request validation''"

section \<open>Guards\<close>

definition enc_key_or_raise :: "string \<Rightarrow> string result" where
  "enc_key_or_raise key =
     (if key = [] then Inl (HttpException 503 ''WEBHOOK_ENC_KEY is not configured'') else Inr key)"

definition url_guard :: "webhook_env \<Rightarrow> string \<Rightarrow> unit result" where
  "url_guard env url =
     (case assert_url_allowed (we_dns env) url (AllowText (we_allowlist env)) False of
        Inl (SsrfBlockedError s) \<Rightarrow> Inl (HttpException 400 (''url_rejected:'' @ s))
      | Inl e \<Rightarrow> Inl e
      | Inr _ \<Rightarrow> Inr ())"

definition webhook_audit ::
    "string \<Rightarrow> int \<Rightarrow> auth_user \<Rightarrow> client \<Rightarrow> (string \<times> json) list option \<Rightarrow> audit_args" where
  "webhook_audit action wid user cl diff =
     \<lparr>au_action = action, au_target_type = Some ''webhook'', au_target_id = Some (py_str_int wid),
      au_actor_email = Some (au_email user), au_actor_role = Some (au_role user), au_diff = diff,
      au_metadata = None, au_ip_address = client_ip cl, au_user_agent = user_agent cl\<rparr>"

section \<open>POST /api/webhooks\<close>

definition new_webhook :: "int \<Rightarrow> webhook_create \<Rightarrow> string \<Rightarrow> int \<Rightarrow> webhook_row" where
  "new_webhook now b enc n =
     \<lparr>wh_id = n, wh_name = wc_name b, wh_url = wc_url b, wh_secret = None, wh_event_types = wc_event_types b,
      wh_min_priority = wc_min_priority b, wh_enabled = wc_enabled b, wh_created_by = wc_created_by b,
      wh_created_at = now, wh_updated_at = now, wh_last_success_at = None, wh_last_error_at = None,
      wh_last_error = None, wh_secret_encrypted = Some enc\<rparr>"

definition create_webhook ::
    "webhook_env \<Rightarrow> fernet \<Rightarrow> string \<Rightarrow> int \<Rightarrow> auth_user \<Rightarrow> client \<Rightarrow> webhook_create \<Rightarrow> db \<Rightarrow> db \<times> webhook_row result" where
  "create_webhook env fenc generated now user cl body d =
     (if \<not> webhook_create_valid body then (d, Inl validation_error)
      else case url_guard env (wc_url body) of Inl e \<Rightarrow> (d, Inl e) | Inr _ \<Rightarrow>
        (let secret = str_or (wc_secret body) generated in
         case enc_key_or_raise (we_enc_key env) of Inl e \<Rightarrow> (d, Inl e) | Inr key \<Rightarrow>
         (case encrypt fenc secret key of Inl e \<Rightarrow> (d, Inl e) | Inr enc \<Rightarrow>
           (let (t, row) = insert_row (new_webhook now body enc) (db_webhooks d);
                out = row\<lparr>wh_secret := Some secret, wh_secret_encrypted := None\<rparr>;
                args = webhook_audit ''webhook.create'' (wh_id row) user cl
                  (Some [(''after'', JObj [(''url'', JStr (wc_url body)), (''name'', JStr (wc_name body)),
                     (''events'', JArr (map JStr (wc_event_types body)))])])
            in (fst (record_audit now args (d\<lparr>db_webhooks := t\<rparr>)), Inr out)))))"

section \<open>Reading\<close>

definition list_webhooks :: "db \<Rightarrow> bool option \<Rightarrow> webhook_row list" where
  "list_webhooks d enabled =
     map public_view (order_by (\<lambda>a b. wh_id b \<le> wh_id a)
       (filter (\<lambda>w. opt_ok (\<lambda>e. wh_enabled w = e) enabled) (t_rows (db_webhooks d))))"

definition get_webhook :: "db \<Rightarrow> int \<Rightarrow> webhook_row result" where
  "get_webhook d wid = (case fetchrow (\<lambda>w. wh_id w = wid) (t_rows (db_webhooks d)) of
      None \<Rightarrow> Inl (HttpException 404 ''webhook not found'') | Some row \<Rightarrow> Inr (public_view row))"

definition list_deliveries :: "db \<Rightarrow> int \<Rightarrow> int \<Rightarrow> delivery_row list" where
  "list_deliveries d wid limit =
     take (nat (max 1 (min 200 limit))) (order_by (\<lambda>a b. wd_id b \<le> wd_id a)
       (filter (\<lambda>r. wd_webhook_id r = wid) (t_rows (db_deliveries d))))"

section \<open>PATCH /api/webhooks/{webhook_id}\<close>

definition set_webhook :: "int \<Rightarrow> webhook_update \<Rightarrow> string option \<Rightarrow> webhook_row \<Rightarrow> webhook_row" where
  "set_webhook now b new_enc w =
     w\<lparr>wh_name := (case wu_name b of None \<Rightarrow> wh_name w | Some x \<Rightarrow> x),
       wh_url := (case wu_url b of None \<Rightarrow> wh_url w | Some x \<Rightarrow> x),
       wh_secret_encrypted := (if wu_secret b \<noteq> None then new_enc else wh_secret_encrypted w),
       wh_event_types := (case wu_event_types b of None \<Rightarrow> wh_event_types w | Some x \<Rightarrow> x),
       wh_min_priority := coalesce (wu_min_priority b) (wh_min_priority w),
       wh_enabled := (case wu_enabled b of None \<Rightarrow> wh_enabled w | Some x \<Rightarrow> x),
       wh_updated_at := now\<rparr>"

text \<open>\<open>body.model_dump(exclude_none=True)\<close>.\<close>

definition present :: "string \<Rightarrow> ('a \<Rightarrow> json) \<Rightarrow> 'a option \<Rightarrow> (string \<times> json) list" where
  "present k f x = (case x of None \<Rightarrow> [] | Some v \<Rightarrow> [(k, f v)])"

definition update_dump :: "webhook_update \<Rightarrow> (string \<times> json) list" where
  "update_dump b = present ''name'' JStr (wu_name b) @ present ''url'' JStr (wu_url b) @
     present ''secret'' JStr (wu_secret b) @ present ''event_types'' (JArr \<circ> map JStr) (wu_event_types b) @
     present ''min_priority'' JInt (wu_min_priority b) @ present ''enabled'' JBool (wu_enabled b)"

definition update_webhook ::
    "webhook_env \<Rightarrow> fernet \<Rightarrow> int \<Rightarrow> auth_user \<Rightarrow> client \<Rightarrow> int \<Rightarrow> webhook_update \<Rightarrow> db \<Rightarrow> db \<times> webhook_row result" where
  "update_webhook env fenc now user cl wid body d =
     (if \<not> webhook_update_valid body then (d, Inl validation_error)
      else case (case wu_url body of None \<Rightarrow> Inr () | Some u \<Rightarrow> url_guard env u) of Inl e \<Rightarrow> (d, Inl e) | Inr _ \<Rightarrow>
        (case (case wu_secret body of None \<Rightarrow> Inr None
               | Some s \<Rightarrow> (case enc_key_or_raise (we_enc_key env) of Inl e \<Rightarrow> Inl e
                   | Inr key \<Rightarrow> map_sum id Some (encrypt fenc s key))) of
           Inl e \<Rightarrow> (d, Inl e)
         | Inr new_enc \<Rightarrow>
           (let t = update_rows (\<lambda>w. wh_id w = wid) (set_webhook now body new_enc) (db_webhooks d) in
            case fetchrow (\<lambda>w. wh_id w = wid) (t_rows t) of
              None \<Rightarrow> (d, Inl (HttpException 404 ''webhook not found''))
            | Some row \<Rightarrow>
                (fst (record_audit now (webhook_audit ''webhook.update'' wid user cl
                   (Some [(''after'', JObj (update_dump body))])) (d\<lparr>db_webhooks := t\<rparr>)),
                 Inr (public_view row)))))"

section \<open>DELETE and test\<close>

text \<open>The deliveries of a deleted webhook go with it (ON DELETE CASCADE).\<close>

definition delete_webhook :: "int \<Rightarrow> auth_user \<Rightarrow> client \<Rightarrow> int \<Rightarrow> db \<Rightarrow> db \<times> unit result" where
  "delete_webhook now user cl wid d =
     (if wid \<notin> wh_id ` set (t_rows (db_webhooks d)) then (d, Inl (HttpException 404 ''webhook not found''))
      else (fst (record_audit now (webhook_audit ''webhook.delete'' wid user cl None)
              (d\<lparr>db_webhooks := delete_rows (\<lambda>w. wh_id w = wid) (db_webhooks d),
                 db_deliveries := delete_rows (\<lambda>r. wd_webhook_id r = wid) (db_deliveries d)\<rparr>)),
            Inr ()))"

record test_outcome =
  to_ok :: bool
  to_status :: "int option"
  to_excerpt :: string

definition test_event :: finding_event where
  "test_event = \<lparr>fe_event_type = ''finding.created_high_priority'', fe_cve_id = ''CVE-2024-TEST'',
     fe_severity = Some ''HIGH'', fe_priority_score = JInt 80, fe_affected_count = 1, fe_is_kev = False,
     fe_has_public_poc = None, fe_has_nuclei_template = None, fe_extra = None\<rparr>"

definition test_headers :: "webhook_env \<Rightarrow> string \<Rightarrow> string option \<Rightarrow> (string \<times> string) list" where
  "test_headers env body secret =
     [(''Content-Type'', ''application/json''), (''User-Agent'', ''cve-management-webhook/1.0'')] @
     (if truthy secret then [(''X-Signature'', sign (we_hmac env) body (str_or_empty secret))] else [])"

definition test_webhook :: "webhook_env \<Rightarrow> int \<Rightarrow> int \<Rightarrow> db \<Rightarrow> test_outcome result" where
  "test_webhook env now wid d =
     (case fetchrow (\<lambda>w. wh_id w = wid) (t_rows (db_webhooks d)) of
        None \<Rightarrow> Inl (HttpException 404 ''webhook not found'')
      | Some row \<Rightarrow>
        (case url_guard env (wh_url row) of Inl e \<Rightarrow> Inl e | Inr _ \<Rightarrow>
        (case resolve_secret (we_fdec env) (we_enc_key env) row of Inl e \<Rightarrow> Inl e | Inr secret \<Rightarrow>
        (case build_finding_event now test_event of Inl e \<Rightarrow> Inl e | Inr payload \<Rightarrow>
        (let body = serialize_payload (we_float_repr env) (JObj payload) in
         case guarded_post env (wh_url row) (test_headers env body secret) body of
           Inl (HttpError s) \<Rightarrow> Inr \<lparr>to_ok = False, to_status = None, to_excerpt = s\<rparr>
         | Inl e \<Rightarrow> Inl e
         | Inr resp \<Rightarrow> Inr \<lparr>to_ok = (200 \<le> resp_status resp \<and> resp_status resp < 300),
             to_status = Some (resp_status resp), to_excerpt = take 500 (resp_text resp)\<rparr>)))))"

section \<open>Lemmas\<close>

interpretation webhook_patch: row_update wh_id "set_webhook now b enc" for now b enc
  by unfold_locales (simp add: set_webhook_def)

lemma record_audit_webhooks [simp]: "db_webhooks (fst (record_audit now a d)) = db_webhooks d"
  "db_deliveries (fst (record_audit now a d)) = db_deliveries d"
  by (simp_all add: record_audit_def record_in_tx_def insert_row_def Let_def split: sum.split if_split)

lemma encrypt_key: "encrypt fenc s key = Inr c \<Longrightarrow> key \<noteq> [] \<and> fenc key s = Inr c"
  by (simp add: encrypt_def split: if_splits)

text \<open>A row that holds no secret in the clear.\<close>

definition sealed :: "db \<Rightarrow> bool" where
  "sealed d \<longleftrightarrow> list_all (\<lambda>w. wh_secret w = None) (t_rows (db_webhooks d))"

lemma create_sealed: "sealed d \<Longrightarrow> sealed (fst (create_webhook env fenc gen now user cl b d))"
  by (auto simp: create_webhook_def sealed_def Let_def insert_row_def new_webhook_def split: sum.split)

lemma update_sealed: "sealed d \<Longrightarrow> sealed (fst (update_webhook env fenc now user cl wid b d))"
proof -
  assume s: "sealed d"
  have u: "list_all (\<lambda>w. wh_secret w = None) (sql_update (\<lambda>w. wh_id w = wid) (set_webhook now b e) (t_rows (db_webhooks d)))"
    for e using s by (auto simp: sealed_def list_all_iff in_sql_update set_webhook_def)
  show ?thesis using s u by (auto simp: update_webhook_def sealed_def Let_def split: sum.split option.split)
qed

lemma delete_sealed: "sealed d \<Longrightarrow> sealed (fst (delete_webhook now user cl wid d))"
  by (auto simp: delete_webhook_def sealed_def list_all_iff in_sql_delete)

datatype api_event =
    Create webhook_env fernet string int auth_user client webhook_create
  | Change webhook_env fernet int auth_user client int webhook_update
  | Remove int auth_user client int

fun api_step :: "db \<Rightarrow> api_event \<Rightarrow> db" where
  "api_step d (Create env fenc gen now user cl b) = fst (create_webhook env fenc gen now user cl b d)"
| "api_step d (Change env fenc now user cl wid b) = fst (update_webhook env fenc now user cl wid b d)"
| "api_step d (Remove now user cl wid) = fst (delete_webhook now user cl wid d)"

interpretation webhook_api: step_system api_step sealed
proof unfold_locales
  fix d e
  assume "sealed d"
  then show "sealed (api_step d e)" by (cases e) (simp_all add: create_sealed update_sealed delete_sealed)
qed

section \<open>Properties\<close>

text \<open>Registering a webhook: nothing is stored unless the body is valid, the URL passes the SSRF guard and
  an encryption key is configured; when it is, exactly one row is added, it holds the secret only as
  ciphertext, signing later recovers that very secret, and the answer shows it once, without the
  ciphertext.\<close>

theorem webhook_created_sealed:
  assumes "\<forall>k s c. fenc k s = Inr c \<longrightarrow> c \<noteq> [] \<and> we_fdec env k c = Inr s"
    and "create_webhook env fenc gen now user cl b d = (d', Inr out)"
  shows "\<exists>row. t_rows (db_webhooks d') = t_rows (db_webhooks d) @ [row] \<and> wh_secret row = None \<and>
     wh_url row = wc_url b \<and> (\<exists>r. assert_url_allowed (we_dns env) (wc_url b) (AllowText (we_allowlist env)) False = Inr r) \<and>
     resolve_secret (we_fdec env) (we_enc_key env) row = Inr (wh_secret out) \<and>
     wh_secret out = Some (str_or (wc_secret b) gen) \<and> wh_secret_encrypted out = None"
proof -
  obtain enc r where e: "assert_url_allowed (we_dns env) (wc_url b) (AllowText (we_allowlist env)) False = Inr r"
    "encrypt fenc (str_or (wc_secret b) gen) (we_enc_key env) = Inr enc"
    "t_rows (db_webhooks d') = t_rows (db_webhooks d) @ [new_webhook now b enc (t_serial (db_webhooks d) + 1)]"
    "out = (new_webhook now b enc (t_serial (db_webhooks d) + 1))\<lparr>wh_secret := Some (str_or (wc_secret b) gen), wh_secret_encrypted := None\<rparr>"
    using assms(2)
    by (auto simp: create_webhook_def Let_def insert_row_def url_guard_def enc_key_or_raise_def
        split: sum.splits if_splits py_exn.splits prod.splits)
  have k: "we_enc_key env \<noteq> []" "enc \<noteq> []" "we_fdec env (we_enc_key env) enc = Inr (str_or (wc_secret b) gen)"
    using encrypt_key [OF e(2)] assms(1) by blast+
  show ?thesis using e(1) k
    by (intro exI [of _ "new_webhook now b enc (t_serial (db_webhooks d) + 1)"])
      (simp add: e(3,4) new_webhook_def resolve_secret_def decrypt_def)
qed

definition toy_fenc :: fernet where "toy_fenc k s = Inr (k @ s)"
definition toy_fdec :: fernet where
  "toy_fdec k c = (if take (length k) c = k then Inr (drop (length k) c) else Inl FernetInvalidToken)"

definition new_hook :: webhook_create where
  "new_hook = \<lparr>wc_name = ''siem'', wc_url = ''https://siem.example.com/in'', wc_secret = None,
     wc_event_types = [''finding.kev_match''], wc_min_priority = None, wc_enabled = True, wc_created_by = None\<rparr>"

definition live_env :: webhook_env where
  "live_env = dead_env\<lparr>we_enc_key := ''key'', we_fdec := (\<lambda>k c. if k = [] then Inl FernetInvalidToken else toy_fdec k c)\<rparr>"

definition safe_fenc :: fernet where
  "safe_fenc k s = (if k = [] then Inl (ValueError ''key'') else toy_fenc k s)"

theorem webhook_created_sealed_witness:
  "map wh_secret_encrypted (t_rows (db_webhooks (fst (create_webhook live_env safe_fenc ''s3cret'' 0 ann local_client new_hook (empty_db 0)))))
     = [Some ''keys3cret''] \<and>
   (\<exists>row. t_rows (db_webhooks (fst (create_webhook live_env safe_fenc ''s3cret'' 0 ann local_client new_hook (empty_db 0)))) = [row] \<and> wh_secret row = None)"
proof -
  let ?c = "create_webhook live_env safe_fenc ''s3cret'' 0 ann local_client new_hook (empty_db 0)"
  have h: "\<forall>k s c. safe_fenc k s = Inr c \<longrightarrow> c \<noteq> [] \<and> we_fdec live_env k c = Inr s"
    by (auto simp: safe_fenc_def toy_fenc_def toy_fdec_def live_env_def)
  have "\<not> isl (snd ?c)" by code_simp
  then have c: "?c = (fst ?c, Inr (projr (snd ?c)))" by (simp add: prod_eq_iff)
  have "map wh_secret_encrypted (t_rows (db_webhooks (fst ?c))) = [Some ''keys3cret'']" by code_simp
  moreover have "t_rows (db_webhooks (empty_db 0)) = []" by (simp add: empty_db_def empty_table_def)
  ultimately show ?thesis using webhook_created_sealed [OF h c] by (metis append_Nil)
qed

text \<open>No plaintext secret enters the table: from a table without plaintext secrets, any sequence of
  registrations, changes (secret rotations included) and deletions leads to one without them.\<close>

theorem webhooks_stay_sealed:
  assumes "sealed d"
  shows "list_all (\<lambda>w. wh_secret w = None) (t_rows (db_webhooks (foldl api_step d es)))"
  using webhook_api.run_inv [OF assms, of es] by (simp add: sealed_def)

theorem webhooks_stay_sealed_witness:
  "list_all (\<lambda>w. wh_secret w = None) (t_rows (db_webhooks (foldl api_step (empty_db 0)
     [Create live_env safe_fenc ''s3cret'' 0 ann local_client new_hook])))"
  by (rule webhooks_stay_sealed) (simp add: sealed_def empty_db_def empty_table_def)

text \<open>A legacy secret is shown to every reader: the view of a webhook drops the ciphertext only, so the
  list and fetch routes return the plaintext column of a row that still has one, although the module
  promises that the secret is shown once and masked on every later read.\<close>

theorem legacy_secret_exposed:
  assumes "get_webhook d wid = Inr out"
  shows "\<exists>row \<in> set (t_rows (db_webhooks d)). wh_id row = wid \<and> wh_secret out = wh_secret row \<and>
     wh_secret_encrypted out = None"
  using assms by (auto simp: get_webhook_def public_view_def dest!: fetchrow_Some split: option.splits)

theorem legacy_secret_exposed_witness:
  "map_sum id wh_secret (get_webhook hook_db 1) = Inr (Some ''legacy'') \<and>
   (\<exists>row \<in> set (t_rows (db_webhooks hook_db)). wh_secret (projr (get_webhook hook_db 1)) = wh_secret row)"
proof -
  have "map_sum id wh_secret (get_webhook hook_db 1) = Inr (Some ''legacy'')" by code_simp
  moreover have "get_webhook hook_db 1 = Inr (projr (get_webhook hook_db 1))" using calculation by (cases "get_webhook hook_db 1") auto
  ultimately show ?thesis using legacy_secret_exposed by blast
qed

end
