(* ===== verification/Version_Matcher.thy ===== *)
theory Version_Matcher
  imports Py_Text "HOL-Library.Product_Lexorder"
begin

text \<open>
  \<open>app/resolution/version_matcher.py\<close>: version components and their order, CPE string
  helpers, version ranges, the product/CPE match and the verdict for a product and a CVE. The
  order laws of the comparison are a locale (\<open>three_way\<close>), interpreted on the component
  order and on the order of parsed versions; the range facts rest on it.
\<close>

section \<open>Version components\<close>

record version_component =
  vn :: int
  pre :: "string option"
  patch :: "string option"

text \<open>
  The two regular expressions of \<open>_parse_component\<close> on a stripped lower-case part, as the
  groups they capture: \<open>(digits)(-[a-z].*)\<close> and \<open>(digits)([a-z]+digits*)\<close>. The dot does not
  match a line feed.
\<close>

definition match_pre :: "string \<Rightarrow> (string \<times> string) option" where
  "match_pre p =
     (let ds = takeWhile is_digit p; r = dropWhile is_digit p in
      case r of
        h # c # rest \<Rightarrow>
          if ds \<noteq> [] \<and> h = CHR ''-'' \<and> is_lower c \<and> CHR 0x0A \<notin> set rest
          then Some (ds, r) else None
      | _ \<Rightarrow> None)"

definition match_patch :: "string \<Rightarrow> (string \<times> string) option" where
  "match_patch p =
     (let ds = takeWhile is_digit p; r = dropWhile is_digit p in
      if ds \<noteq> [] \<and> takeWhile is_lower r \<noteq> [] \<and> list_all is_digit (dropWhile is_lower r)
      then Some (ds, r) else None)"

definition parse_component :: "string \<Rightarrow> version_component" where
  "parse_component part =
     (let p = py_strip (py_lower part) in
      case match_pre p of
        Some (ds, suffix) \<Rightarrow> \<lparr>vn = digits_val ds, pre = Some suffix, patch = None\<rparr>
      | None \<Rightarrow>
        (case match_patch p of
           Some (ds, suffix) \<Rightarrow> \<lparr>vn = digits_val ds, pre = None, patch = Some suffix\<rparr>
         | None \<Rightarrow>
           (case py_int p of
              Some n \<Rightarrow> \<lparr>vn = n, pre = None, patch = None\<rparr>
            | None \<Rightarrow> \<lparr>vn = 0, pre = Some (CHR ''-'' # p), patch = None\<rparr>)))"

definition parse_version :: "string \<Rightarrow> version_component list option" where
  "parse_version v =
     (if v = [] then None
      else let s = py_lower (py_strip v) in
        if s \<in> {''*'', ''-'', '''', ''n/a'', ''none''} then None
        else Some (map parse_component (py_split CHR ''.'' s)))"

definition component_type :: "version_component \<Rightarrow> int" where
  "component_type c = (if pre c \<noteq> None then 0 else if patch c \<noteq> None then 2 else 1)"

definition component_text :: "version_component \<Rightarrow> string" where
  "component_text c = str_or_empty (py_or (py_or (pre c) (patch c)) (Some []))"

definition compare_components :: "version_component \<Rightarrow> version_component \<Rightarrow> int" where
  "compare_components ca cb =
     (if vn ca \<noteq> vn cb then (if vn ca > vn cb then 1 else -1)
      else let ta = component_type ca; tb = component_type cb in
        if ta \<noteq> tb then (if ta > tb then 1 else -1)
        else let sa = component_text ca; sb = component_text cb in
          if sa = sb then 0 else if sa > sb then 1 else -1)"

definition zero_component :: version_component where
  "zero_component = \<lparr>vn = 0, pre = None, patch = None\<rparr>"

text \<open>The loop over the longer of the two lists; the shorter one is padded with zeros.\<close>

fun compare_padded :: "version_component list \<Rightarrow> version_component list \<Rightarrow> int" where
  "compare_padded [] [] = 0"
| "compare_padded (a # as) [] =
     (let c = compare_components a zero_component in if c \<noteq> 0 then c else compare_padded as [])"
| "compare_padded [] (b # bs) =
     (let c = compare_components zero_component b in if c \<noteq> 0 then c else compare_padded [] bs)"
| "compare_padded (a # as) (b # bs) =
     (let c = compare_components a b in if c \<noteq> 0 then c else compare_padded as bs)"

definition compare_versions :: "string \<Rightarrow> string \<Rightarrow> int" where
  "compare_versions a b =
     (case (parse_version a, parse_version b) of
        (Some pa, Some pb) \<Rightarrow> compare_padded pa pb
      | _ \<Rightarrow> 0)"

section \<open>CPE strings\<close>

definition extract_cpe_version :: "string \<Rightarrow> string option" where
  "extract_cpe_version cpe =
     (if cpe = [] then None
      else let parts = py_split CHR '':'' cpe in
        if length parts \<ge> 6 then Some (parts ! 5) else None)"

definition parse_cpe_vendor_product :: "string \<Rightarrow> string option" where
  "parse_cpe_vendor_product cpe =
     (if cpe = [] then None
      else let parts = py_split CHR '':'' cpe in
        if length parts < 5 then None else Some (parts ! 3 @ '':'' @ parts ! 4))"

definition slug_char :: "char \<Rightarrow> bool" where
  "slug_char c \<longleftrightarrow> is_lower c \<or> is_digit c \<or> c = CHR ''_'' \<or> c = CHR ''.'' \<or> c = CHR ''-''"

definition normalise_slug :: "string \<Rightarrow> string" where
  "normalise_slug s = filter slug_char (py_replace_char CHR '' '' ''_'' (py_strip (py_lower s)))"

section \<open>Version ranges\<close>

text \<open>A CPE match entry of the NVD configurations: the keys the code looks up.\<close>

record cpe_entry =
  criteria :: "string option"
  cpe :: "string option"
  version_start_including :: "string option"
  version_start :: "string option"
  version_start_excluding :: "string option"
  version_end_including :: "string option"
  version_end_excluding :: "string option"
  version_end :: "string option"

text \<open>The four bounds after the \<open>or\<close> chains; \<open>None\<close> when absent or empty.\<close>

definition start_inc :: "cpe_entry \<Rightarrow> string option" where
  "start_inc e = py_or (py_or (version_start_including e) (version_start e)) None"

definition start_exc :: "cpe_entry \<Rightarrow> string option" where
  "start_exc e = py_or (version_start_excluding e) None"

definition end_inc :: "cpe_entry \<Rightarrow> string option" where
  "end_inc e = py_or (version_end_including e) None"

definition end_exc :: "cpe_entry \<Rightarrow> string option" where
  "end_exc e = py_or (py_or (version_end_excluding e) (version_end e)) None"

definition is_version_in_range :: "string \<Rightarrow> cpe_entry \<Rightarrow> bool" where
  "is_version_in_range installed_version e =
     (let installed = py_strip installed_version in
      if installed = [] \<or> installed = ''*'' then True
      else if start_inc e = None \<and> start_exc e = None \<and> end_inc e = None \<and> end_exc e = None then
        (case extract_cpe_version (str_or_empty (if truthy (criteria e) then criteria e else cpe e)) of
           None \<Rightarrow> True
         | Some v \<Rightarrow> if v = [] \<or> v = ''*'' \<or> v = ''-'' then True
                     else compare_versions installed v = 0)
      else if opt_ex (\<lambda>v. compare_versions installed v < 0) (start_inc e) then False
      else if opt_ex (\<lambda>v. compare_versions installed v \<le> 0) (start_exc e) then False
      else if opt_ex (\<lambda>v. compare_versions installed v > 0) (end_inc e) then False
      else \<not> opt_ex (\<lambda>v. compare_versions installed v \<ge> 0) (end_exc e))"

section \<open>Matching a product\<close>

record product =
  p_id :: int
  p_name :: "string option"
  p_vendor :: "string option"
  p_version :: "string option"
  cpe_keyword :: "string option"
  normalized_cpe :: "string option"

text \<open>
  \<open>a, b = s.split(":")\<close>: the unpacking raises unless there are exactly two parts.
\<close>

definition split_pair :: "string \<Rightarrow> (string \<times> string) result" where
  "split_pair s = (case py_split CHR '':'' s of [a, b] \<Rightarrow> Inr (a, b) | _ \<Rightarrow> Inl (ValueError ''unpack''))"

definition slug_match :: "product \<Rightarrow> string \<Rightarrow> string \<Rightarrow> bool" where
  "slug_match product cpe_vendor cpe_prod =
     (let norm_name = normalise_slug (str_or_empty (p_name product));
          norm_vendor = normalise_slug (str_or_empty (p_vendor product));
          name_matches = (norm_name = cpe_prod \<or> py_in norm_name cpe_prod \<or> py_in cpe_prod norm_name) in
      if \<not> name_matches then False
      else if norm_vendor \<noteq> [] then
        norm_vendor = cpe_vendor \<or> py_in norm_vendor cpe_vendor \<or> py_in cpe_vendor norm_vendor
      else True)"

definition product_matches_cpe :: "product \<Rightarrow> string \<Rightarrow> bool result" where
  "product_matches_cpe product cpe_str =
     (case parse_cpe_vendor_product cpe_str of
        None \<Rightarrow> Inr False
      | Some cpe_vp \<Rightarrow>
        (case split_pair cpe_vp of
           Inl e \<Rightarrow> Inl e
         | Inr (cpe_vendor, cpe_prod) \<Rightarrow>
           (let keyword = py_lower (str_or_empty (py_or (cpe_keyword product) (normalized_cpe product))) in
            case (if py_startswith keyword ''cpe:'' then parse_cpe_vendor_product keyword else None) of
              Some product_vp \<Rightarrow>
                (case split_pair product_vp of
                   Inl e \<Rightarrow> Inl e
                 | Inr (p_v, p_p) \<Rightarrow> Inr (p_v = cpe_vendor \<and> p_p = cpe_prod))
            | None \<Rightarrow> Inr (slug_match product cpe_vendor cpe_prod))))"

section \<open>The verdict\<close>

datatype confidence = CERTAIN | UNCERTAIN

record match_result =
  affected :: bool
  confidence :: confidence
  reason :: string

definition cpe_name :: "cpe_entry \<Rightarrow> string" where
  "cpe_name e = str_or_empty (py_or (py_or (criteria e) (cpe e)) (Some []))"

text \<open>The loop over the entries, with the flag \<open>product_cpe_match_found\<close>.\<close>

fun match_entries :: "product \<Rightarrow> string \<Rightarrow> bool \<Rightarrow> cpe_entry list \<Rightarrow> match_result result" where
  "match_entries product installed found [] =
     Inr (if found
          then \<lparr>affected = False, confidence = CERTAIN, reason = ''version_outside_all_ranges:'' @ installed\<rparr>
          else \<lparr>affected = True, confidence = UNCERTAIN, reason = ''no_cpe_vendor_product_match''\<rparr>)"
| "match_entries product installed found (e # es) =
     (case product_matches_cpe product (cpe_name e) of
        Inl err \<Rightarrow> Inl err
      | Inr False \<Rightarrow> match_entries product installed found es
      | Inr True \<Rightarrow>
          if is_version_in_range installed e
          then Inr \<lparr>affected = True, confidence = CERTAIN, reason = ''version_in_range:'' @ cpe_name e\<rparr>
          else match_entries product installed True es)"

text \<open>\<open>installed_version = (product.get("version") or "").strip()\<close>.\<close>

definition installed_version :: "product \<Rightarrow> string" where
  "installed_version product = py_strip (str_or_empty (p_version product))"

definition is_cve_affecting_product :: "product \<Rightarrow> cpe_entry list \<Rightarrow> match_result result" where
  "is_cve_affecting_product product affected_cpes =
     (if affected_cpes = []
      then Inr \<lparr>affected = True, confidence = UNCERTAIN, reason = ''no_cpe_data''\<rparr>
      else match_entries product (installed_version product) False affected_cpes)"

text \<open>
  The configurations tree: a node has match entries and child nodes; an absent or null list is
  the empty list. The walk takes a node's entries and those of its children.
\<close>

datatype cpe_node = Node (cpe_match: "cpe_entry list") (children: "cpe_node list")

definition extract_affected_cpes :: "cpe_node list list \<Rightarrow> cpe_entry list" where
  "extract_affected_cpes configurations =
     concat (map (\<lambda>nodes. concat (map (\<lambda>nd. cpe_match nd @ concat (map cpe_match (children nd))) nodes))
       configurations)"

text \<open>All entries of a node and of everything below it.\<close>

fun all_entries :: "cpe_node \<Rightarrow> cpe_entry list" where
  "all_entries (Node es cs) = es @ concat (map all_entries cs)"

section \<open>Locale: three-way comparisons\<close>

locale three_way =
  fixes cmp :: "'a \<Rightarrow> 'a \<Rightarrow> int"
  assumes cmp_values: "cmp a b = -1 \<or> cmp a b = 0 \<or> cmp a b = 1"
    and same: "cmp a a = 0"
    and swap: "cmp b a = - cmp a b"
    and trans_le: "cmp a b \<le> 0 \<Longrightarrow> cmp b c \<le> 0 \<Longrightarrow> cmp a c \<le> 0"
begin

lemma trans_ge: "0 \<le> cmp a b \<Longrightarrow> 0 \<le> cmp b c \<Longrightarrow> 0 \<le> cmp a c"
  using trans_le [of c b a] swap [of a b] swap [of b c] swap [of a c] by linarith

lemma trans_eq: "cmp a b = 0 \<Longrightarrow> cmp b c = 0 \<Longrightarrow> cmp a c = 0"
  using trans_le [of a b c] trans_ge [of a b c] by linarith

lemma trans_less_le: "cmp a b < 0 \<Longrightarrow> cmp b c \<le> 0 \<Longrightarrow> cmp a c < 0"
  using trans_le [of a b c] trans_ge [of b c a] swap [of a c] swap [of b c] swap [of a b]
    trans_le [of b c a] by linarith

lemma trans_le_less: "cmp a b \<le> 0 \<Longrightarrow> cmp b c < 0 \<Longrightarrow> cmp a c < 0"
  using trans_le [of a b c] trans_le [of c a b] swap [of a c] swap [of b c] swap [of a b] by linarith

text \<open>Membership in an interval with optional inclusive and exclusive ends is convex.\<close>

definition inside :: "'a option \<Rightarrow> 'a option \<Rightarrow> 'a option \<Rightarrow> 'a option \<Rightarrow> 'a \<Rightarrow> bool" where
  "inside si se ei ee v \<longleftrightarrow>
     \<not> opt_ex (\<lambda>x. cmp v x < 0) si \<and> \<not> opt_ex (\<lambda>x. cmp v x \<le> 0) se \<and>
     \<not> opt_ex (\<lambda>x. cmp v x > 0) ei \<and> \<not> opt_ex (\<lambda>x. cmp v x \<ge> 0) ee"

lemma inside_convex:
  assumes u: "inside si se ei ee u" and w: "inside si se ei ee w"
    and uv: "cmp u v \<le> 0" and vw: "cmp v w \<le> 0"
  shows "inside si se ei ee v"
proof -
  have lo: "0 \<le> cmp v x" if "0 \<le> cmp u x" for x
    using trans_ge [of v u x] swap [of v u] uv that by simp
  have lo': "0 < cmp v x" if "0 < cmp u x" for x
    using trans_less_le [of x u v] swap [of x u] swap [of x v] uv that by simp
  have hi: "cmp v x \<le> 0" if "cmp w x \<le> 0" for x
    using trans_le [of v w x] vw that by simp
  have hi': "cmp v x < 0" if "cmp w x < 0" for x
    using trans_le_less [of v w x] vw that by simp
  show ?thesis using u w lo lo' hi hi' by (auto simp: inside_def opt_ex_iff not_less not_le)
qed

end

section \<open>The comparison is an order\<close>

text \<open>The three-way comparison of a linear order, and the keys the code compares by.\<close>

definition cmp3 :: "'a::linorder \<Rightarrow> 'a \<Rightarrow> int" where
  "cmp3 x y = (if x = y then 0 else if x > y then 1 else -1)"

lemma cmp3_three_way: "three_way (\<lambda>a b. cmp3 (k a) (k b))"
  by unfold_locales (auto simp: cmp3_def not_less split: if_splits)

definition component_key :: "version_component \<Rightarrow> int \<times> int \<times> string" where
  "component_key c = (vn c, component_type c, component_text c)"

lemma compare_components_key:
  "compare_components a b = cmp3 (component_key a) (component_key b)"
  by (auto simp: compare_components_def cmp3_def component_key_def Let_def less_prod_def')

interpretation components: three_way compare_components
  unfolding compare_components_key by (rule cmp3_three_way)

definition padded_key :: "nat \<Rightarrow> version_component list \<Rightarrow> (int \<times> int \<times> string) list" where
  "padded_key n xs = map component_key (xs @ replicate (n - length xs) zero_component)"

lemma padded_key_Nil [simp]:
  "padded_key (Suc n) [] = component_key zero_component # padded_key n []"
  by (simp add: padded_key_def)

lemma padded_key_Cons [simp]:
  "padded_key (Suc n) (x # xs) = component_key x # padded_key n xs"
  by (simp add: padded_key_def)

lemma cmp3_Cons: "cmp3 (x # xs) (y # ys) = (if cmp3 x y \<noteq> 0 then cmp3 x y else cmp3 xs ys)"
  by (auto simp: cmp3_def)

lemma compare_padded_key:
  "length as \<le> n \<Longrightarrow> length bs \<le> n \<Longrightarrow>
     compare_padded as bs = cmp3 (padded_key n as) (padded_key n bs)"
proof (induction as bs arbitrary: n rule: compare_padded.induct)
  case 1
  then show ?case by (simp add: padded_key_def cmp3_def)
next
  case (2 a as)
  then show ?case by (cases n) (simp_all add: cmp3_Cons compare_components_key Let_def)
next
  case (3 b bs)
  then show ?case by (cases n) (simp_all add: cmp3_Cons compare_components_key Let_def)
next
  case (4 a as b bs)
  then show ?case by (cases n) (simp_all add: cmp3_Cons compare_components_key Let_def)
qed

interpretation versions: three_way compare_padded
proof unfold_locales
  fix a b c :: "version_component list"
  define n where "n = length a + length b + length c"
  have key: "compare_padded x y = cmp3 (padded_key n x) (padded_key n y)"
    if "x \<in> {a, b, c}" "y \<in> {a, b, c}" for x y
    using that by (intro compare_padded_key) (auto simp: n_def)
  note tw = cmp3_three_way [of "padded_key n"]
  show "compare_padded a b = -1 \<or> compare_padded a b = 0 \<or> compare_padded a b = 1"
    using three_way.cmp_values [OF tw, of a b] by (simp add: key)
  show "compare_padded a a = 0" using three_way.same [OF tw, of a] by (simp add: key)
  show "compare_padded b a = - compare_padded a b"
    using three_way.swap [OF tw, of b a] by (simp add: key)
  show "compare_padded a b \<le> 0 \<Longrightarrow> compare_padded b c \<le> 0 \<Longrightarrow> compare_padded a c \<le> 0"
    using three_way.trans_le [OF tw, of a b c] by (simp add: key)
qed

lemma compare_versions_parsed:
  "parse_version a = Some pa \<Longrightarrow> parse_version b = Some pb \<Longrightarrow> compare_versions a b = compare_padded pa pb"
  by (simp add: compare_versions_def)

lemma compare_versions_wildcard:
  "parse_version b = None \<Longrightarrow> compare_versions a b = 0"
  by (simp add: compare_versions_def split: option.splits)

section \<open>Ranges are intervals\<close>

definition has_bounds :: "cpe_entry \<Rightarrow> bool" where
  "has_bounds e \<longleftrightarrow> start_inc e \<noteq> None \<or> start_exc e \<noteq> None \<or> end_inc e \<noteq> None \<or> end_exc e \<noteq> None"

text \<open>A bound as a parsed version; a wildcard bound is no bound.\<close>

definition parsed_bound :: "string option \<Rightarrow> version_component list option" where
  "parsed_bound b = Option.bind b parse_version"

definition wildcard_bound :: "string option \<Rightarrow> bool" where
  "wildcard_bound b = opt_ex (\<lambda>v. parse_version v = None) b"

lemma bound_less:
  "parse_version v = Some pv \<Longrightarrow>
     opt_ex (\<lambda>x. compare_versions v x < 0) b = opt_ex (\<lambda>x. compare_padded pv x < 0) (parsed_bound b)"
  by (cases b) (auto simp: parsed_bound_def compare_versions_def split: option.splits)

lemma bound_greater:
  "parse_version v = Some pv \<Longrightarrow>
     opt_ex (\<lambda>x. compare_versions v x > 0) b = opt_ex (\<lambda>x. compare_padded pv x > 0) (parsed_bound b)"
  by (cases b) (auto simp: parsed_bound_def compare_versions_def split: option.splits)

lemma bound_le:
  "parse_version v = Some pv \<Longrightarrow>
     opt_ex (\<lambda>x. compare_versions v x \<le> 0) b \<longleftrightarrow>
       wildcard_bound b \<or> opt_ex (\<lambda>x. compare_padded pv x \<le> 0) (parsed_bound b)"
  by (cases b) (auto simp: parsed_bound_def wildcard_bound_def compare_versions_def split: option.splits)

lemma bound_ge:
  "parse_version v = Some pv \<Longrightarrow>
     opt_ex (\<lambda>x. compare_versions v x \<ge> 0) b \<longleftrightarrow>
       wildcard_bound b \<or> opt_ex (\<lambda>x. compare_padded pv x \<ge> 0) (parsed_bound b)"
  by (cases b) (auto simp: parsed_bound_def wildcard_bound_def compare_versions_def split: option.splits)

lemma parse_version_strip: "parse_version (py_strip v) = parse_version v"
  by (auto simp: parse_version_def py_strip_idem Let_def)
     (simp_all add: py_strip_def)

lemma known_version:
  "parse_version v \<noteq> None \<Longrightarrow> py_strip v \<noteq> [] \<and> py_strip v \<noteq> ''*''"
  by (auto simp: parse_version_def Let_def py_lower_def lower_char_def is_upper_def split: if_splits)

lemma in_range_interval:
  assumes "parse_version v = Some pv" and "has_bounds e"
  shows "is_version_in_range v e \<longleftrightarrow>
     \<not> wildcard_bound (start_exc e) \<and> \<not> wildcard_bound (end_exc e) \<and>
     versions.inside (parsed_bound (start_inc e)) (parsed_bound (start_exc e))
       (parsed_bound (end_inc e)) (parsed_bound (end_exc e)) pv"
proof -
  have pv: "parse_version (py_strip v) = Some pv" using assms(1) by (simp add: parse_version_strip)
  have kn: "py_strip v \<noteq> [] \<and> py_strip v \<noteq> ''*''" using assms(1) by (intro known_version) simp
  show ?thesis
    using kn assms(2)
    by (auto simp: is_version_in_range_def versions.inside_def has_bounds_def Let_def
        bound_less [OF pv] bound_greater [OF pv] bound_le [OF pv] bound_ge [OF pv])
qed

section \<open>Unpacking never fails\<close>

lemma parsed_pair:
  assumes "parse_cpe_vendor_product c = Some vp"
  shows "split_pair vp = Inr (py_split CHR '':'' c ! 3, py_split CHR '':'' c ! 4)"
proof -
  let ?ps = "py_split CHR '':'' c"
  have len: "5 \<le> length ?ps" and vp: "vp = ?ps ! 3 @ '':'' @ ?ps ! 4"
    using assms by (auto simp: parse_cpe_vendor_product_def Let_def split: if_splits)
  have "CHR '':'' \<notin> set (?ps ! 3)" "CHR '':'' \<notin> set (?ps ! 4)"
    using len by (auto intro!: py_split_no_sep [of _ "CHR '':''" c] nth_mem)
  then have "py_split CHR '':'' vp = [?ps ! 3, ?ps ! 4]"
    by (simp add: vp py_split_append py_split_single)
  then show ?thesis by (simp add: split_pair_def)
qed

definition cpe_pair :: "string \<Rightarrow> (string \<times> string) option" where
  "cpe_pair c =
     (let ps = py_split CHR '':'' c in
      if c = [] \<or> length ps < 5 then None else Some (ps ! 3, ps ! 4))"

text \<open>The product/CPE match without the string surgery: pairs of vendor and product.\<close>

definition pair_match :: "product \<Rightarrow> string \<times> string \<Rightarrow> bool" where
  "pair_match product vp =
     (let keyword = py_lower (str_or_empty (py_or (cpe_keyword product) (normalized_cpe product))) in
      case (if py_startswith keyword ''cpe:'' then cpe_pair keyword else None) of
        Some own \<Rightarrow> own = vp
      | None \<Rightarrow> slug_match product (fst vp) (snd vp))"

lemma cpe_pair_parse:
  "cpe_pair c = (case parse_cpe_vendor_product c of None \<Rightarrow> None
     | Some vp \<Rightarrow> (case split_pair vp of Inr q \<Rightarrow> Some q | Inl _ \<Rightarrow> None))"
proof (cases "parse_cpe_vendor_product c")
  case None
  then show ?thesis
    by (auto simp: cpe_pair_def parse_cpe_vendor_product_def Let_def split: if_splits)
next
  case (Some vp)
  then have "split_pair vp = Inr (py_split CHR '':'' c ! 3, py_split CHR '':'' c ! 4)"
    by (rule parsed_pair)
  then show ?thesis using Some
    by (auto simp: cpe_pair_def parse_cpe_vendor_product_def Let_def split: if_splits)
qed

lemma product_matches_cpe_total:
  "product_matches_cpe product c = Inr (opt_ex (pair_match product) (cpe_pair c))"
proof (cases "parse_cpe_vendor_product c")
  case None
  then show ?thesis by (simp add: product_matches_cpe_def cpe_pair_parse)
next
  case (Some vp)
  define kw where "kw = py_lower (str_or_empty (py_or (cpe_keyword product) (normalized_cpe product)))"
  have sp: "split_pair vp = Inr (py_split CHR '':'' c ! 3, py_split CHR '':'' c ! 4)"
    using Some by (rule parsed_pair)
  have kp: "\<exists>a b. split_pair q = Inr (a, b)" if "parse_cpe_vendor_product kw = Some q" for q
    using parsed_pair [OF that] by blast
  show ?thesis
    using Some sp kp
    by (cases "parse_cpe_vendor_product kw")
       (auto simp: product_matches_cpe_def pair_match_def cpe_pair_parse kw_def [symmetric] Let_def)
qed

definition matching_entry :: "product \<Rightarrow> cpe_entry \<Rightarrow> bool" where
  "matching_entry product e = opt_ex (pair_match product) (cpe_pair (cpe_name e))"

lemma match_entries_spec:
  "match_entries product v found es =
     Inr (case List.find (\<lambda>e. matching_entry product e \<and> is_version_in_range v e) es of
            Some e \<Rightarrow> \<lparr>affected = True, confidence = CERTAIN, reason = ''version_in_range:'' @ cpe_name e\<rparr>
          | None \<Rightarrow>
              if found \<or> list_ex (matching_entry product) es
              then \<lparr>affected = False, confidence = CERTAIN, reason = ''version_outside_all_ranges:'' @ v\<rparr>
              else \<lparr>affected = True, confidence = UNCERTAIN, reason = ''no_cpe_vendor_product_match''\<rparr>)"
proof (induction es arbitrary: found)
  case Nil
  then show ?case by simp
next
  case (Cons e es)
  have m: "product_matches_cpe product (cpe_name e) = Inr (matching_entry product e)"
    by (simp add: product_matches_cpe_total matching_entry_def)
  show ?case
    by (cases "matching_entry product e") (simp_all add: m Cons.IH)
qed

section \<open>Properties\<close>

text \<open>C6: \<open>compare_versions\<close> is a total preorder on versions that are not wildcards: it answers
  -1, 0 or 1, calls a version equal to itself, swapping the arguments negates the answer, and it is
  transitive, so sorting and range checks by it are meaningful.\<close>

theorem compare_versions_preorder:
  assumes "parse_version a \<noteq> None" and "parse_version b \<noteq> None" and "parse_version c \<noteq> None"
  shows "compare_versions a b \<in> {-1, 0, 1} \<and> compare_versions a a = 0 \<and>
         compare_versions b a = - compare_versions a b \<and>
         (compare_versions a b \<le> 0 \<and> compare_versions b c \<le> 0 \<longrightarrow> compare_versions a c \<le> 0) \<and>
         (compare_versions a b < 0 \<and> compare_versions b c \<le> 0 \<longrightarrow> compare_versions a c < 0)"
proof -
  obtain pa pb pc where p: "parse_version a = Some pa" "parse_version b = Some pb" "parse_version c = Some pc"
    using assms by auto
  show ?thesis
    using versions.cmp_values [of pa pb] versions.same [of pa] versions.swap [of pb pa]
      versions.trans_le [of pa pb pc] versions.trans_less_le [of pa pb pc]
    by (simp add: compare_versions_parsed [OF p(1) p(2)] compare_versions_parsed [OF p(1) p(1)]
        compare_versions_parsed [OF p(2) p(1)] compare_versions_parsed [OF p(2) p(3)]
        compare_versions_parsed [OF p(1) p(3)])
qed

theorem compare_versions_preorder_witness:
  "compare_versions ''1.0.2-beta1'' ''1.0.2'' = -1 \<and> compare_versions ''1.0.2'' ''1.0.2k'' = -1 \<and>
   compare_versions ''1.0.2-beta1'' ''1.0.2k'' < 0"
proof -
  have p: "parse_version ''1.0.2-beta1'' \<noteq> None" "parse_version ''1.0.2'' \<noteq> None" "parse_version ''1.0.2k'' \<noteq> None"
    by code_simp+
  have v: "compare_versions ''1.0.2-beta1'' ''1.0.2'' = -1" "compare_versions ''1.0.2'' ''1.0.2k'' = -1"
    by code_simp+
  show ?thesis using compare_versions_preorder [OF p] v by simp
qed

text \<open>A version range has no holes: if two versions lie in the range of an entry with bounds,
  every version between them does, whatever mix of inclusive, exclusive and legacy bounds the entry
  carries.\<close>

theorem version_range_convex:
  assumes "parse_version u \<noteq> None" and "parse_version v \<noteq> None" and "parse_version w \<noteq> None"
    and "has_bounds e" and "is_version_in_range u e" and "is_version_in_range w e"
    and "compare_versions u v \<le> 0" and "compare_versions v w \<le> 0"
  shows "is_version_in_range v e"
proof -
  obtain pu pv pw where p: "parse_version u = Some pu" "parse_version v = Some pv" "parse_version w = Some pw"
    using assms(1-3) by auto
  have c: "compare_padded pu pv \<le> 0" "compare_padded pv pw \<le> 0"
    using assms(7,8) compare_versions_parsed [OF p(1) p(2)] compare_versions_parsed [OF p(2) p(3)] by simp_all
  show ?thesis
    using assms(4-6) versions.inside_convex [OF _ _ c] in_range_interval [OF p(1)]
      in_range_interval [OF p(2)] in_range_interval [OF p(3)] by blast
qed

definition example_entry :: cpe_entry where
  "example_entry = \<lparr>criteria = Some ''cpe:2.3:a:openssl:openssl:*:*:*:*:*:*:*:*'', cpe = None,
     version_start_including = Some ''1.0.1'', version_start = None, version_start_excluding = None,
     version_end_including = None, version_end_excluding = Some ''1.0.2k'', version_end = None\<rparr>"

theorem version_range_convex_witness:
  "is_version_in_range ''1.0.2'' example_entry \<and> \<not> is_version_in_range ''1.0.2k'' example_entry"
proof -
  have "is_version_in_range ''1.0.2'' example_entry"
    by (rule version_range_convex [of "''1.0.1''" _ "''1.0.2j''"]) code_simp+
  moreover have "\<not> is_version_in_range ''1.0.2k'' example_entry" by code_simp
  ultimately show ?thesis ..
qed

text \<open>The verdict never raises, and it clears a product only on evidence: \<open>affected = False\<close>
  exactly when some CPE entry names the product and every entry that does excludes the installed
  version; the answer is \<open>certain\<close> and affected exactly when a matching entry contains the version,
  and otherwise the CVE is kept as uncertain.\<close>

theorem affecting_verdict:
  "\<exists>r. is_cve_affecting_product p es = Inr r \<and>
     (\<not> affected r \<longleftrightarrow>
        list_ex (matching_entry p) es \<and>
        \<not> list_ex (\<lambda>e. matching_entry p e \<and> is_version_in_range (installed_version p) e) es) \<and>
     (affected r \<and> confidence r = CERTAIN \<longleftrightarrow>
        list_ex (\<lambda>e. matching_entry p e \<and> is_version_in_range (installed_version p) e) es) \<and>
     (confidence r = UNCERTAIN \<longleftrightarrow> \<not> list_ex (matching_entry p) es)"
proof (cases "es = []")
  case True
  then show ?thesis by (simp add: is_cve_affecting_product_def)
next
  case False
  show ?thesis
  proof (cases "List.find (\<lambda>e. matching_entry p e \<and> is_version_in_range (installed_version p) e) es")
    case None
    then have "\<not> list_ex (\<lambda>e. matching_entry p e \<and> is_version_in_range (installed_version p) e) es"
      by (auto simp: find_None_iff list_ex_iff)
    then show ?thesis using False None
      by (auto simp: is_cve_affecting_product_def match_entries_spec)
  next
    case (Some e)
    then have "e \<in> set es" "matching_entry p e" "is_version_in_range (installed_version p) e"
      by (auto simp: find_Some_iff in_set_conv_nth)
    then have "list_ex (\<lambda>e. matching_entry p e \<and> is_version_in_range (installed_version p) e) es"
      "list_ex (matching_entry p) es" by (auto simp: list_ex_iff)
    then show ?thesis using False Some
      by (auto simp: is_cve_affecting_product_def match_entries_spec)
  qed
qed

text \<open>Pre-release suffixes are compared as text, not by their number: for two versions that
  differ only in a pre-release suffix of the last component, the code's order is the lexicographic
  order of the suffixes, so release candidate 10 sorts below release candidate 9.\<close>

theorem prerelease_compared_as_text:
  assumes "parse_version a = Some (cs @ [\<lparr>vn = n, pre = Some x, patch = None\<rparr>])"
    and "parse_version b = Some (cs @ [\<lparr>vn = n, pre = Some y, patch = None\<rparr>])"
    and "x \<noteq> []" and "y \<noteq> []"
  shows "compare_versions a b = (if x = y then 0 else if x > y then 1 else -1)"
proof -
  have "compare_padded (cs @ [\<lparr>vn = n, pre = Some x, patch = None\<rparr>])
      (cs @ [\<lparr>vn = n, pre = Some y, patch = None\<rparr>]) = (if x = y then 0 else if x > y then 1 else -1)"
    using assms(3,4)
    by (induction cs)
       (auto simp: compare_components_def component_type_def component_text_def py_or_def truthy_def
          str_or_empty_def Let_def)
  then show ?thesis using assms(1,2) by (simp add: compare_versions_parsed)
qed

theorem prerelease_compared_as_text_witness: "compare_versions ''2.0-rc10'' ''2.0-rc9'' = -1"
proof -
  have a: "parse_version ''2.0-rc10'' = Some ([\<lparr>vn = 2, pre = None, patch = None\<rparr>] @ [\<lparr>vn = 0, pre = Some ''-rc10'', patch = None\<rparr>])"
    and b: "parse_version ''2.0-rc9'' = Some ([\<lparr>vn = 2, pre = None, patch = None\<rparr>] @ [\<lparr>vn = 0, pre = Some ''-rc9'', patch = None\<rparr>])"
    by code_simp+
  have l: "\<not> ''-rc10'' > ''-rc9''" by code_simp
  show ?thesis using prerelease_compared_as_text [OF a b] l by simp
qed

text \<open>The configuration walk stops one level below a node: it returns the entries of every
  node and of its direct children, which is the whole tree only when no child has entries below it.\<close>

theorem extract_one_level:
  "extract_affected_cpes cfgs =
     concat (map (\<lambda>nodes. concat (map (\<lambda>nd. all_entries (Node (cpe_match nd)
        (map (\<lambda>c. Node (cpe_match c) []) (children nd)))) nodes)) cfgs)"
  by (simp add: extract_affected_cpes_def comp_def)

end
