(* ===== verification/Json_Read.thy ===== *)
theory Json_Read
  imports Py_Json Py_Result
begin

text \<open>
  Reading JSON the way untyped Python code does: the member of a dict, the elements of a list that may
  be missing, the text of a field. A value of the wrong shape raises.
\<close>

definition AttributeError :: py_exn where
  "AttributeError = OtherError ''AttributeError''"

text \<open>\<open>x.get(k)\<close> needs a dict; \<open>v or []\<close> is iterated.\<close>

definition as_dict :: "json \<Rightarrow> (string \<times> json) list result" where
  "as_dict v = (case v of JObj kvs \<Rightarrow> Inr kvs | _ \<Rightarrow> Inl AttributeError)"

definition list_or_empty :: "json option \<Rightarrow> json list result" where
  "list_or_empty v = (case v of
      None \<Rightarrow> Inr []
    | Some (JArr xs) \<Rightarrow> Inr xs
    | Some w \<Rightarrow> if json_truthy w then Inl AttributeError else Inr [])"

text \<open>\<open>x.get(k) or {}\<close>, used as a dict.\<close>

definition dict_or_empty :: "(string \<times> json) list \<Rightarrow> string \<Rightarrow> (string \<times> json) list result" where
  "dict_or_empty kvs k = (case obj_get kvs k of None \<Rightarrow> Inr [] | Some v \<Rightarrow> if json_truthy v then as_dict v else Inr [])"

definition field_text :: "(string \<times> json) list \<Rightarrow> string \<Rightarrow> string option result" where
  "field_text kvs k = (case obj_get kvs k of
      None \<Rightarrow> Inr None
    | Some (JStr s) \<Rightarrow> Inr (Some s)
    | Some w \<Rightarrow> if json_truthy w then Inl AttributeError else Inr None)"

text \<open>\<open>d[k]\<close>, and \<open>d.get(k, {})\<close> read as a dict: the default is used only when the key is missing.\<close>

definition item :: "(string \<times> json) list \<Rightarrow> string \<Rightarrow> json result" where
  "item kvs k = (case obj_get kvs k of None \<Rightarrow> Inl (KeyError k) | Some v \<Rightarrow> Inr v)"

definition sub_dict :: "(string \<times> json) list \<Rightarrow> string \<Rightarrow> (string \<times> json) list result" where
  "sub_dict kvs k = (case obj_get kvs k of None \<Rightarrow> Inr [] | Some v \<Rightarrow> as_dict v)"

text \<open>\<open>if xs: xs[0]\<close>, where \<open>xs\<close> is \<open>d.get(k) or []\<close>; \<open>None\<close> when there is nothing.\<close>

definition first_entry :: "(string \<times> json) list \<Rightarrow> string \<Rightarrow> json option result" where
  "first_entry kvs k = (case obj_get kvs k of
      None \<Rightarrow> Inr None
    | Some (JArr []) \<Rightarrow> Inr None
    | Some (JArr (x # _)) \<Rightarrow> Inr (Some x)
    | Some (JObj (_ # _)) \<Rightarrow> Inl (KeyError ''0'')
    | Some (JStr (c # _)) \<Rightarrow> Inr (Some (JStr [c]))
    | Some v \<Rightarrow> if json_truthy v then Inl (TypeError ''object is not subscriptable'') else Inr None)"

end
