(* ===== verification/Product_Sync.thy ===== *)
theory Product_Sync
  imports Findings Version_Matcher Priority Json_Read
begin

text \<open>
  \<open>app/workers/product_sync.py\<close>: the candidates of a product among the mirrored CVEs, the version
  check of each, and the findings and counters it writes. Payloads are JSON values; one that does
  not have the shape of an NVD record raises, as the attribute access of the code would.
\<close>

section \<open>LIKE\<close>

text \<open>The pattern language of SQL: percent is any text, underscore any character, backslash quotes.\<close>

fun like :: "string \<Rightarrow> string \<Rightarrow> bool" where
  "like [] s = (s = [])"
| "like (c # p) s =
     (if c = CHR ''%'' then like p s \<or> (case s of [] \<Rightarrow> False | _ # s' \<Rightarrow> like (c # p) s')
      else if c = CHR 0x5C then
        (case p of [] \<Rightarrow> False
         | e # p' \<Rightarrow> (case s of [] \<Rightarrow> False | x # s' \<Rightarrow> e = x \<and> like p' s'))
      else (case s of [] \<Rightarrow> False | x # s' \<Rightarrow> (c = CHR ''_'' \<or> c = x) \<and> like p s'))"

definition ilike :: "string \<Rightarrow> string \<Rightarrow> bool" where
  "ilike s pat = like (py_lower pat) (py_lower s)"

section \<open>Reading a payload\<close>

definition entry_of :: "json \<Rightarrow> cpe_entry result" where
  "entry_of v = bind_r (as_dict v) (\<lambda>kvs.
     bind_r (map_r (field_text kvs) [''criteria'', ''cpe'', ''versionStartIncluding'', ''versionStart'',
       ''versionStartExcluding'', ''versionEndIncluding'', ''versionEndExcluding'', ''versionEnd''])
     (\<lambda>ts. case ts of
        [a, b, c, d, e, f, g, h] \<Rightarrow> Inr \<lparr>criteria = a, cpe = b, version_start_including = c,
          version_start = d, version_start_excluding = e, version_end_including = f,
          version_end_excluding = g, version_end = h\<rparr>
      | _ \<Rightarrow> Inl AttributeError))"

definition entries_of :: "(string \<times> json) list \<Rightarrow> cpe_entry list result" where
  "entries_of kvs = bind_r (list_or_empty (obj_get kvs ''cpeMatch'')) (map_r entry_of)"

definition node_of :: "json \<Rightarrow> cpe_node result" where
  "node_of v = bind_r (as_dict v) (\<lambda>kvs. bind_r (entries_of kvs) (\<lambda>es.
     bind_r (list_or_empty (obj_get kvs ''children''))
       (\<lambda>cs. bind_r (map_r (\<lambda>c. bind_r (as_dict c) (\<lambda>ckvs. bind_r (entries_of ckvs) (\<lambda>ces. Inr (Node ces [])))) cs)
         (\<lambda>children. Inr (Node es children)))))"

definition configurations_of :: "json \<Rightarrow> cpe_node list list result" where
  "configurations_of raw = bind_r (as_dict raw) (\<lambda>kvs.
     bind_r (list_or_empty (obj_get kvs ''configurations''))
       (map_r (\<lambda>cfg. bind_r (as_dict cfg) (\<lambda>ckvs. bind_r (list_or_empty (obj_get ckvs ''nodes'')) (map_r node_of)))))"

section \<open>Candidates\<close>

definition build_search_pattern :: "product_row \<Rightarrow> string" where
  "build_search_pattern p =
     (let cp = str_or_empty (pr_normalized_cpe p);
          slug = normalise_slug (pr_name p);
          v_slug = normalise_slug (str_or_empty (pr_vendor p));
          fallback = (if v_slug \<noteq> [] then ''cpe:2.3:%:'' @ v_slug @ '':'' @ slug @ '':%''
                      else ''cpe:2.3:%:%:'' @ slug @ '':%'') in
      case (if cp \<noteq> [] then parse_cpe_vendor_product cp else None) of
        None \<Rightarrow> fallback
      | Some vp \<Rightarrow> (case py_split CHR '':'' vp of
          [v, pd] \<Rightarrow> ''cpe:2.3:%:'' @ v @ '':'' @ pd @ '':%'' | _ \<Rightarrow> fallback))"

text \<open>\<open>jsonb_array_elements\<close> of a member: nothing for NULL, an error for what is no array.\<close>

definition sql_elements :: "json \<Rightarrow> string \<Rightarrow> json list result" where
  "sql_elements v k = (case v of
      JObj kvs \<Rightarrow> (case obj_get kvs k of
          None \<Rightarrow> Inr [] | Some (JArr xs) \<Rightarrow> Inr xs
        | Some _ \<Rightarrow> Inl (OtherError ''cannot extract elements''))
    | _ \<Rightarrow> Inr [])"

definition sql_criteria :: "json \<Rightarrow> string option" where
  "sql_criteria m = (case m of JObj kvs \<Rightarrow> (case obj_get kvs ''criteria'' of Some (JStr s) \<Rightarrow> Some s | _ \<Rightarrow> None)
     | _ \<Rightarrow> None)"

definition payload_matches :: "string \<Rightarrow> json \<Rightarrow> bool result" where
  "payload_matches pat raw =
     bind_r (sql_elements raw ''configurations'') (\<lambda>cfgs.
     bind_r (map_r (\<lambda>c. sql_elements c ''nodes'') cfgs) (\<lambda>nds.
     bind_r (map_r (\<lambda>n. sql_elements n ''cpeMatch'') (concat nds)) (\<lambda>ms.
     Inr (list_ex (\<lambda>m. opt_ex (\<lambda>s. ilike s pat) (sql_criteria m)) (concat ms)))))"

definition MAX_CANDIDATES :: nat where "MAX_CANDIDATES = 1000"

definition candidates :: "db \<Rightarrow> string \<Rightarrow> cve_row list result" where
  "candidates d pat =
     bind_r (filter_r (\<lambda>c. payload_matches pat (cv_raw_payload c)) (t_rows (db_cves d)))
       (\<lambda>hits. Inr (take MAX_CANDIDATES
          (order_by (\<lambda>a b. lex_le (desc_nulls_last (cv_cvss_v3_score a)) (desc_nulls_last (cv_cvss_v3_score b))) hits)))"

section \<open>Writing\<close>

record finding_values =
  fv_cve_id :: string
  fv_confidence :: string
  fv_reason :: string
  fv_priority :: int

definition PRESERVED :: "string list" where
  "PRESERVED = [''false_positive'', ''accepted_risk'', ''closed'']"

definition refresh_finding :: "int \<Rightarrow> finding_values \<Rightarrow> finding_row \<Rightarrow> finding_row" where
  "refresh_finding now v f =
     f\<lparr>fd_match_confidence := Some (fv_confidence v), fd_match_reason := Some (fv_reason v),
       fd_priority_score := Some (of_int (fv_priority v)), fd_updated_at := now\<rparr>"

definition new_finding :: "int \<Rightarrow> int \<Rightarrow> finding_values \<Rightarrow> int \<Rightarrow> finding_row" where
  "new_finding now pid v n =
     \<lparr>fd_id = n, fd_product_id = pid, fd_cve_id = fv_cve_id v, fd_status = ''open'',
      fd_match_confidence = Some (fv_confidence v), fd_match_reason = Some (fv_reason v),
      fd_priority_score = Some (of_int (fv_priority v)), fd_assigned_to = None, fd_due_date = None,
      fd_notes = None, fd_created_at = now, fd_updated_at = now\<rparr>"

text \<open>\<open>_FINDING_UPSERT_SQL\<close> for one row.\<close>

definition upsert_finding :: "int \<Rightarrow> int \<Rightarrow> finding_row table \<Rightarrow> finding_values \<Rightarrow> finding_row table" where
  "upsert_finding now pid t v =
     (let hit = here pid (fv_cve_id v) in
      if list_ex hit (t_rows t)
      then update_rows (\<lambda>f. hit f \<and> fd_status f \<notin> set PRESERVED) (refresh_finding now v) t
      else fst (insert_row (new_finding now pid v) t))"

definition counted :: "int \<Rightarrow> finding_row \<Rightarrow> bool" where
  "counted pid f \<longleftrightarrow> fd_product_id f = pid \<and> fd_status f \<notin> {''closed'', ''false_positive''}"

definition stats_update :: "int \<Rightarrow> int \<Rightarrow> db \<Rightarrow> db" where
  "stats_update now pid d =
     d\<lparr>db_products := update_rows (\<lambda>p. pr_id p = pid)
        (\<lambda>p. p\<lparr>pr_sync_status := ''synced'', pr_last_synced_at := Some now, pr_updated_at := now,
           pr_cve_count := sql_count (counted pid) (t_rows (db_findings d)),
           pr_critical_count := sql_count (\<lambda>f. counted pid f \<and>
             opt_ex (\<lambda>c. cv_severity c = Some ''CRITICAL'') (cve_by_id d (fd_cve_id f))) (t_rows (db_findings d))\<rparr>)
        (db_products d)\<rparr>"

definition set_sync_status :: "int \<Rightarrow> string \<Rightarrow> int \<Rightarrow> db \<Rightarrow> db" where
  "set_sync_status now s pid d =
     d\<lparr>db_products := update_rows (\<lambda>p. pr_id p = pid) (\<lambda>p. p\<lparr>pr_sync_status := s, pr_updated_at := now\<rparr>) (db_products d)\<rparr>"

section \<open>The synchronisation\<close>

definition matcher_product :: "product_row \<Rightarrow> product" where
  "matcher_product p = \<lparr>p_id = pr_id p, p_name = Some (pr_name p), p_vendor = pr_vendor p,
     p_version = pr_version p, cpe_keyword = None, normalized_cpe = pr_normalized_cpe p\<rparr>"

definition confidence_value :: "confidence \<Rightarrow> string" where
  "confidence_value c = (case c of CERTAIN \<Rightarrow> ''certain'' | UNCERTAIN \<Rightarrow> ''uncertain'')"

text \<open>The call of the priority engine leaves the two exploitability flags at their default.\<close>

definition row_signals :: "cve_row \<Rightarrow> signals" where
  "row_signals c = \<lparr>cvss_score = cv_cvss_v3_score c, severity = cv_severity c, epss_score = cv_epss_score c,
     is_kev = cv_is_kev c, published_at = Some (utc (cv_published_at c)),
     has_public_poc = False, has_nuclei_template = False\<rparr>"

text \<open>One turn of the loop: \<open>None\<close> is a filtered candidate.\<close>

definition judge :: "int \<Rightarrow> product_row \<Rightarrow> cve_row \<Rightarrow> finding_values option result" where
  "judge now p c =
     bind_r (configurations_of (cv_raw_payload c)) (\<lambda>cfg.
     bind_r (is_cve_affecting_product (matcher_product p) (extract_affected_cpes cfg)) (\<lambda>r.
     Inr (if affected r
          then Some \<lparr>fv_cve_id = cv_cve_id c, fv_confidence = confidence_value (confidence r),
                     fv_reason = take 500 (reason r),
                     fv_priority = compute_priority_score (utc now) (row_signals c)\<rparr>
          else None)))"

record sync_result =
  sr_product_id :: int
  sr_candidates :: int
  sr_matched :: int
  sr_filtered :: int

definition sync_product :: "int \<Rightarrow> int \<Rightarrow> db \<Rightarrow> db \<times> sync_result result" where
  "sync_product now pid d =
     (case product_by_id d pid of
        None \<Rightarrow> (d, Inl (ValueError ''Product not found''))
      | Some p \<Rightarrow>
        (let d1 = set_sync_status now ''syncing'' pid d in
         case candidates d1 (build_search_pattern p) of
           Inl e \<Rightarrow> (d1, Inl e)
         | Inr [] \<Rightarrow> (set_sync_status now ''synced'' pid d1,
             Inr \<lparr>sr_product_id = pid, sr_candidates = 0, sr_matched = 0, sr_filtered = 0\<rparr>)
         | Inr cs \<Rightarrow>
           (case map_r (judge now p) cs of
              Inl e \<Rightarrow> (d1, Inl e)
            | Inr verdicts \<Rightarrow>
              (let rows = List.map_filter id verdicts;
                   d2 = (if rows \<noteq> []
                         then stats_update now pid
                           (d1\<lparr>db_findings := foldl (upsert_finding now pid) (db_findings d1) rows\<rparr>)
                         else set_sync_status now ''synced'' pid d1)
               in (d2, Inr \<lparr>sr_product_id = pid, sr_candidates = int (length cs),
                      sr_matched = int (length rows), sr_filtered = int (length cs) - int (length rows)\<rparr>)))))"

section \<open>What an upsert keeps\<close>

text \<open>The columns of a finding that people own.\<close>

definition human :: "finding_row \<Rightarrow> int \<times> int \<times> string \<times> string \<times> string option \<times> int option \<times> string option \<times> int" where
  "human f = (fd_id f, fd_product_id f, fd_cve_id f, fd_status f, fd_assigned_to f, fd_due_date f, fd_notes f, fd_created_at f)"

definition kept :: "finding_row \<Rightarrow> finding_row \<Rightarrow> bool" where
  "kept a b \<longleftrightarrow> human b = human a \<and> (fd_status a \<in> set PRESERVED \<longrightarrow> b = a)"

lemma kept_refl [simp]: "kept f f"
  by (simp add: kept_def)

lemma kept_trans: "kept a b \<Longrightarrow> kept b c \<Longrightarrow> kept a c"
  by (auto simp: kept_def human_def)

lemma kept_refresh: "fd_status f \<notin> set PRESERVED \<Longrightarrow> kept f (refresh_finding now v f)"
  by (simp add: kept_def human_def refresh_finding_def)

lemma human_here: "human b = human a \<Longrightarrow> here pid cve b = here pid cve a"
  by (simp add: human_def here_def)

interpretation finding_refresh: row_update "\<lambda>f. (fd_product_id f, fd_cve_id f)" "refresh_finding now v"
  for now v
  by unfold_locales (simp add: refresh_finding_def)

text \<open>A finding as the synchronisation creates it: open, undecided, without a due date.\<close>

definition fresh :: "int \<Rightarrow> string set \<Rightarrow> finding_row \<Rightarrow> bool" where
  "fresh pid cves f \<longleftrightarrow> fd_status f = ''open'' \<and> fd_product_id f = pid \<and> fd_cve_id f \<in> cves \<and>
     fd_assigned_to f = None \<and> fd_due_date f = None \<and> fd_notes f = None"

lemma fresh_kept: "fresh pid S f \<Longrightarrow> kept f g \<Longrightarrow> fresh pid S g"
  by (simp add: fresh_def kept_def human_def)

lemma upsert_cases:
  "\<exists>g new. t_rows (upsert_finding now pid t v) = map g (t_rows t) @ new \<and> (\<forall>f \<in> set (t_rows t). kept f (g f)) \<and>
     (\<forall>f \<in> set new. fresh pid {fv_cve_id v} f \<and> fd_id f > t_serial t) \<and>
     t_serial t \<le> t_serial (upsert_finding now pid t v)"
proof (cases "list_ex (here pid (fv_cve_id v)) (t_rows t)")
  case True
  show ?thesis
    by (rule exI [of _ "\<lambda>f. if here pid (fv_cve_id v) f \<and> fd_status f \<notin> set PRESERVED then refresh_finding now v f else f"],
        rule exI [of _ "[]"])
      (use True in \<open>auto simp: upsert_finding_def Let_def update_rows_def sql_update_def kept_refresh\<close>)
next
  case False
  show ?thesis
    by (rule exI [of _ id], rule exI [of _ "[new_finding now pid v (t_serial t + 1)]"])
      (use False in \<open>simp add: upsert_finding_def Let_def insert_row_def fresh_def new_finding_def\<close>)
qed

lemma upserts_cases:
  "\<exists>g new. t_rows (foldl (upsert_finding now pid) t vs) = map g (t_rows t) @ new \<and> (\<forall>f \<in> set (t_rows t). kept f (g f)) \<and>
     (\<forall>f \<in> set new. fresh pid (fv_cve_id ` set vs) f \<and> fd_id f > t_serial t)"
proof (induction vs arbitrary: t)
  case Nil
  show ?case by (rule exI [of _ id], rule exI [of _ "[]"]) simp
next
  case (Cons v vs)
  let ?t = "upsert_finding now pid t v"
  obtain g new where 1: "t_rows ?t = map g (t_rows t) @ new" "\<forall>f \<in> set (t_rows t). kept f (g f)"
    "\<forall>f \<in> set new. fresh pid {fv_cve_id v} f \<and> fd_id f > t_serial t" "t_serial t \<le> t_serial ?t"
    using upsert_cases [of now pid t v] by blast
  obtain g' new' where 2: "t_rows (foldl (upsert_finding now pid) ?t vs) = map g' (t_rows ?t) @ new'"
    "\<forall>f \<in> set (t_rows ?t). kept f (g' f)" "\<forall>f \<in> set new'. fresh pid (fv_cve_id ` set vs) f \<and> fd_id f > t_serial ?t"
    using Cons.IH by blast
  have n: "fresh pid (fv_cve_id ` set (v # vs)) f \<and> fd_id f > t_serial t" if f: "f \<in> set (map g' new @ new')" for f
  proof (cases "f \<in> set new'")
    case True
    then show ?thesis using 2(3) 1(4) by (fastforce simp: fresh_def)
  next
    case False
    then obtain f0 where f0: "f0 \<in> set new" "f = g' f0" using f by auto
    then have k: "kept f0 f" using 2(2) 1(1) by simp
    then have "fd_id f = fd_id f0" by (simp add: kept_def human_def)
    then show ?thesis using fresh_kept [OF _ k] 1(3) f0(1) by (fastforce simp: fresh_def)
  qed
  have "t_rows (foldl (upsert_finding now pid) t (v # vs)) = map (g' \<circ> g) (t_rows t) @ (map g' new @ new')"
    using 1(1) 2(1) by simp
  moreover have "\<forall>f \<in> set (t_rows t). kept f ((g' \<circ> g) f)" using 1(1,2) 2(2) kept_trans by fastforce
  ultimately show ?case using n by blast
qed

lemma upsert_present:
  "list_ex (here pid (fv_cve_id v)) (t_rows (upsert_finding now pid t v))"
proof (cases "list_ex (here pid (fv_cve_id v)) (t_rows t)")
  case True
  then obtain x where x: "x \<in> set (t_rows t)" "here pid (fv_cve_id v) x" by (auto simp: list_ex_iff)
  let ?y = "if fd_status x \<notin> set PRESERVED then refresh_finding now v x else x"
  have "?y \<in> set (t_rows (upsert_finding now pid t v))"
    using True x by (auto simp: upsert_finding_def Let_def update_rows_def in_sql_update)
  moreover have "here pid (fv_cve_id v) ?y" using x(2) by (simp add: here_def refresh_finding_def)
  ultimately show ?thesis unfolding list_ex_iff by blast
next
  case False
  then show ?thesis by (simp add: upsert_finding_def Let_def insert_row_def new_finding_def here_def)
qed

lemma upserts_mono:
  "list_ex (here pid cve) (t_rows t) \<Longrightarrow> list_ex (here pid cve) (t_rows (foldl (upsert_finding now pid') t vs))"
proof -
  assume "list_ex (here pid cve) (t_rows t)"
  then obtain x where x: "x \<in> set (t_rows t)" "here pid cve x" by (auto simp: list_ex_iff)
  obtain g new where g: "t_rows (foldl (upsert_finding now pid') t vs) = map g (t_rows t) @ new"
    "\<forall>f \<in> set (t_rows t). kept f (g f)"
    using upserts_cases [of now pid' t vs] by blast
  have "here pid cve (g x)" using human_here [of "g x" x] g(2) x by (simp add: kept_def)
  then show ?thesis using g(1) x(1) by (auto simp: list_ex_iff)
qed

lemma upserts_present:
  "v \<in> set vs \<Longrightarrow> list_ex (here pid (fv_cve_id v)) (t_rows (foldl (upsert_finding now pid) t vs))"
proof (induction vs arbitrary: t)
  case (Cons w vs)
  then show ?case using upserts_mono [OF upsert_present] by (cases "v = w") auto
qed simp

definition table_ok :: "finding_row table \<Rightarrow> bool" where
  "table_ok t \<longleftrightarrow> keyed fd_id t \<and> list_all finding_check (t_rows t) \<and>
     distinct (map (\<lambda>f. (fd_product_id f, fd_cve_id f)) (t_rows t))"

lemma findings_ok_table: "findings_ok d \<longleftrightarrow> table_ok (db_findings d)"
  by (simp add: findings_ok_def table_ok_def)

lemma upsert_table_ok:
  assumes "table_ok t" and "fv_confidence v \<in> {''certain'', ''uncertain''}"
  shows "table_ok (upsert_finding now pid t v)"
proof (cases "list_ex (here pid (fv_cve_id v)) (t_rows t)")
  case True
  let ?p = "\<lambda>f. here pid (fv_cve_id v) f \<and> fd_status f \<notin> set PRESERVED"
  have "keyed fd_id (update_rows ?p (refresh_finding now v) t)"
    using assms(1) by (intro keyed_update) (simp_all add: table_ok_def refresh_finding_def)
  moreover have "list_all finding_check (sql_update ?p (refresh_finding now v) (t_rows t))"
    using assms by (auto simp: table_ok_def list_all_iff in_sql_update refresh_finding_def finding_check_def)
  ultimately show ?thesis
    using assms(1) True by (simp add: upsert_finding_def Let_def table_ok_def finding_refresh.distinct_kept)
next
  case False
  have "keyed fd_id (fst (insert_row (new_finding now pid v) t))"
    using assms(1) by (intro keyed_insert) (simp_all add: table_ok_def new_finding_def)
  moreover have "finding_check (new_finding now pid v n)" for n
    using assms(2) by (auto simp: finding_check_def new_finding_def FINDING_STATUSES_def)
  moreover have "(pid, fv_cve_id v) \<notin> set (map (\<lambda>f. (fd_product_id f, fd_cve_id f)) (t_rows t))"
    using False by (auto simp: list_ex_iff here_def)
  ultimately show ?thesis
    using assms(1) False by (auto simp: upsert_finding_def Let_def table_ok_def snd_insert_row new_finding_def)
qed

lemma upserts_table_ok:
  "table_ok t \<Longrightarrow> \<forall>v \<in> set vs. fv_confidence v \<in> {''certain'', ''uncertain''} \<Longrightarrow>
   table_ok (foldl (upsert_finding now pid) t vs)"
  by (induction vs arbitrary: t) (simp_all add: upsert_table_ok)

section \<open>The shape of a run\<close>

lemma judge_confidence: "judge now p c = Inr (Some v) \<Longrightarrow> fv_confidence v \<in> {''certain'', ''uncertain''} \<and> fv_cve_id v = cv_cve_id c"
  by (auto simp: judge_def bind_r_Inr confidence_value_def split: if_splits confidence.split)

lemma sync_product_shape:
  assumes "sync_product now pid d = (d', res)"
  obtains "d' = d" "isl res"
  | vs where "db_findings d' = foldl (upsert_finding now pid) (db_findings d) vs" "db_history d' = db_history d"
      "db_cves d' = db_cves d" "\<forall>v \<in> set vs. fv_confidence v \<in> {''certain'', ''uncertain''}"
      "\<forall>r. res = Inr r \<longrightarrow> (\<exists>p cs. product_by_id d pid = Some p \<and> candidates d (build_search_pattern p) = Inr cs \<and>
         sr_candidates r = int (length cs) \<and> sr_matched r = int (length vs) \<and>
         (\<forall>v. v \<in> set vs \<longleftrightarrow> (\<exists>c \<in> set cs. judge now p c = Inr (Some v))) \<and>
         (\<forall>c \<in> set cs. \<exists>x. judge now p c = Inr x))"
proof (cases "product_by_id d pid")
  case None
  then show thesis using assms by (intro that(1)) (auto simp: sync_product_def)
next
  case (Some p)
  let ?d1 = "set_sync_status now ''syncing'' pid d"
  let ?pat = "build_search_pattern p"
  have c: "candidates ?d1 ?pat = candidates d ?pat" by (simp add: candidates_def set_sync_status_def)
  have s: "db_findings (set_sync_status now st pid x) = db_findings x" "db_history (set_sync_status now st pid x) = db_history x"
    "db_cves (set_sync_status now st pid x) = db_cves x" for st x by (simp_all add: set_sync_status_def)
  have u: "db_findings (stats_update now pid x) = db_findings x" "db_history (stats_update now pid x) = db_history x"
    "db_cves (stats_update now pid x) = db_cves x" for x by (simp_all add: stats_update_def)
  show thesis
  proof (cases "candidates d ?pat")
    case (Inl e)
    then show thesis using assms that(2) [of "[]"] Some c s by (auto simp: sync_product_def Let_def)
  next
    case (Inr cs)
    show thesis
    proof (cases cs)
      case Nil
      then show thesis using assms that(2) [of "[]"] Some c s Inr by (auto simp: sync_product_def Let_def)
    next
      case (Cons c0 cs0)
      show thesis
      proof (cases "map_r (judge now p) cs")
        case (Inl e)
        then show thesis using assms that(2) [of "[]"] Some c s Inr Cons by (auto simp: sync_product_def Let_def)
      next
        case verdicts: (Inr verdicts)
        let ?vs = "List.map_filter id verdicts"
        have mem: "v \<in> set ?vs \<longleftrightarrow> (\<exists>c \<in> set cs. judge now p c = Inr (Some v))" for v
          using map_r_mem [OF verdicts, of "Some v"] by (induction verdicts) (auto simp: List.map_filter_def split: option.splits)
        have all: "\<exists>x. judge now p c = Inr x" if "c \<in> set cs" for c
          using verdicts that unfolding map_r_Inr by (auto simp: list_all2_conv_all_nth in_set_conv_nth)
        have conf: "\<forall>v \<in> set ?vs. fv_confidence v \<in> {''certain'', ''uncertain''}"
          using mem judge_confidence by blast
        have r: "db_findings d' = foldl (upsert_finding now pid) (db_findings d) ?vs \<and> db_history d' = db_history d \<and> db_cves d' = db_cves d \<and>
           res = Inr \<lparr>sr_product_id = pid, sr_candidates = int (length cs), sr_matched = int (length ?vs),
              sr_filtered = int (length cs) - int (length ?vs)\<rparr>"
          using assms Some c s u Inr Cons verdicts by (auto simp: sync_product_def Let_def split: if_splits)
        show thesis
          by (rule that(2) [of ?vs]) (use r mem all conf Some Inr in \<open>simp_all\<close>)
      qed
    qed
  qed
qed

section \<open>Properties\<close>

text \<open>C1: A synchronisation never overrides people: whatever it returns, every finding that existed keeps its
  id, status, assignee, due date, notes and creation time, the ones marked false positive, accepted or
  closed are not touched at all, no finding is deleted, and the new ones are open and undecided; the
  history is unchanged and still tells, for every finding, how it got to its status.\<close>

theorem sync_preserves_decisions:
  assumes "findings_ok d" and "history_ok d" and "trails_ok d" and "sync_product now pid d = (d', res)"
  shows "(\<exists>g new. t_rows (db_findings d') = map g (t_rows (db_findings d)) @ new \<and>
       (\<forall>f \<in> set (t_rows (db_findings d)). human (g f) = human f \<and> (fd_status f \<in> set PRESERVED \<longrightarrow> g f = f)) \<and>
       (\<forall>f \<in> set new. fd_status f = ''open'' \<and> fd_product_id f = pid \<and> fd_assigned_to f = None)) \<and>
     db_history d' = db_history d \<and> findings_ok d' \<and> trails_ok d'"
  using assms(4)
proof (rule sync_product_shape)
  assume "d' = d"
  then show ?thesis using assms(1,3) by (intro conjI exI [of _ id] exI [of _ "[]"]) simp_all
next
  fix vs
  assume f: "db_findings d' = foldl (upsert_finding now pid) (db_findings d) vs" and h: "db_history d' = db_history d"
    and c: "\<forall>v \<in> set vs. fv_confidence v \<in> {''certain'', ''uncertain''}"
  obtain g new where g: "t_rows (db_findings d') = map g (t_rows (db_findings d)) @ new"
    "\<forall>f \<in> set (t_rows (db_findings d)). kept f (g f)"
    "\<forall>f \<in> set new. fresh pid (fv_cve_id ` set vs) f \<and> fd_id f > t_serial (db_findings d)"
    using upserts_cases [of now pid "db_findings d" vs] unfolding f by blast
  have ok: "findings_ok d'" using upserts_table_ok [OF _ c] assms(1) by (simp add: findings_ok_table f)
  have tr: "trail d' i = trail d i" for i by (simp add: trail_def h)
  have "linked ''open'' (trail d (fd_id (g x))) = Some (fd_status (g x))" if "x \<in> set (t_rows (db_findings d))" for x
    using assms(3) g(2) that by (fastforce simp: trails_ok_def list_all_iff kept_def human_def)
  moreover have "trail d (fd_id x) = []" if "x \<in> set new" for x
  proof -
    have "fd_id x \<notin> fd_id ` set (t_rows (db_findings d))"
      using g(3) that assms(1) by (fastforce simp: findings_ok_def keyed_def)
    then have "fh_finding_id h \<noteq> fd_id x" if "h \<in> set (t_rows (db_history d))" for h
      using assms(2) that unfolding history_ok_def list_all_iff by metis
    then show ?thesis by (simp add: trail_def filter_empty_conv)
  qed
  ultimately have "trails_ok d'"
    using g(1,3) by (auto simp: trails_ok_def list_all_iff tr fresh_def)
  then show ?thesis using g h ok
    by (intro conjI exI [of _ g] exI [of _ new]) (auto simp: kept_def fresh_def)
qed

definition nginx :: product_row where
  "nginx = \<lparr>pr_id = 3, pr_name = ''nginx'', pr_vendor = None, pr_version = Some ''1.18.0'',
     pr_normalized_cpe = Some ''cpe:2.3:a:f5:nginx:1.18.0:*'', pr_cpe_confidence = None, pr_sync_status = ''pending'',
     pr_last_synced_at = None, pr_cve_count = 0, pr_critical_count = 0, pr_created_at = 0, pr_updated_at = 0,
     pr_is_deleted = False, pr_deleted_at = None, pr_deleted_by = None\<rparr>"

definition nvd_payload :: "string \<Rightarrow> string \<Rightarrow> json" where
  "nvd_payload crit before = JObj [(''configurations'', JArr [JObj [(''nodes'', JArr [JObj [(''cpeMatch'',
     JArr [JObj [(''criteria'', JStr crit), (''versionEndExcluding'', JStr before)]])]])]])]"

definition nginx_cve :: cve_row where
  "nginx_cve = \<lparr>cv_id = 1, cv_cve_id = ''CVE-2021-23017'', cv_source = ''nvd_api'',
     cv_raw_payload = nvd_payload ''cpe:2.3:a:f5:nginx:*:*'' ''1.20.1'', cv_cvss_v3_score = Some 8, cv_cvss_v3_vector = None,
     cv_cvss_v2_score = None, cv_severity = Some ''HIGH'', cv_epss_score = None, cv_epss_percentile = None,
     cv_epss_updated_at = None, cv_is_kev = False, cv_kev_added_date = None, cv_published_at = 0,
     cv_last_modified_at = 0, cv_created_at = 0, cv_updated_at = 0, cv_has_public_poc = None,
     cv_has_nuclei_template = None, cv_exploitability_updated_at = None\<rparr>"

definition sync_db :: db where
  "sync_db = sample_db\<lparr>db_products := \<lparr>t_rows = [nginx], t_serial = 3\<rparr>, db_cves := \<lparr>t_rows = [nginx_cve], t_serial = 1\<rparr>\<rparr>"

theorem sync_preserves_decisions_witness:
  "map (\<lambda>f. (fd_id f, fd_status f)) (t_rows (db_findings (fst (sync_product 9 3 sync_db))))
     = [(1, ''open''), (2, ''closed''), (3, ''open'')] \<and> trails_ok (fst (sync_product 9 3 sync_db))"
proof -
  have ok: "findings_ok sync_db" "history_ok sync_db" "trails_ok sync_db" by code_simp+
  have "map (\<lambda>f. (fd_id f, fd_status f)) (t_rows (db_findings (fst (sync_product 9 3 sync_db))))
     = [(1, ''open''), (2, ''closed''), (3, ''open'')]" by code_simp
  then show ?thesis using sync_preserves_decisions [OF ok surjective_pairing, of 9 3] by blast
qed



text \<open>Products whose CPE has quoted characters are never matched: the backslash that CPE uses to quote
  punctuation is the quote of LIKE too, so the search pattern built from the CPE of Notepad++ does not
  match that CPE itself.\<close>

theorem quoted_cpe_not_found:
  "(let cp = ''cpe:2.3:a:notepad'' @ [CHR 0x5C] @ ''+'' @ [CHR 0x5C] @ ''+:notepad'' @ [CHR 0x5C] @ ''+'' @ [CHR 0x5C] @ ''+:8.1:*'';
        pat = build_search_pattern (nginx\<lparr>pr_normalized_cpe := Some cp\<rparr>) in
    \<not> ilike cp pat \<and> product_matches_cpe (matcher_product (nginx\<lparr>pr_normalized_cpe := Some cp\<rparr>)) cp = Inr True) \<and>
   ilike ''cpe:2.3:a:f5:nginx:1.18.0:*'' (build_search_pattern nginx)"
  by code_simp

text \<open>A failed synchronisation leaves its product in the state \<open>syncing\<close>: once the product is found, an
  exception in the query or the matcher escapes after the status was set, and nothing sets it to the
  \<open>error\<close> state that the table provides for.\<close>

theorem failed_sync_stays_syncing:
  assumes "product_by_id d pid = Some p" and "sync_product now pid d = (d', Inl e)"
  shows "d' = set_sync_status now ''syncing'' pid d \<and>
     (\<exists>q \<in> set (t_rows (db_products d')). pr_id q = pid \<and> pr_sync_status q = ''syncing'')"
proof -
  have d': "d' = set_sync_status now ''syncing'' pid d"
    using assms by (auto simp: sync_product_def Let_def split: sum.splits list.splits if_splits)
  have "p \<in> set (t_rows (db_products d))" "pr_id p = pid"
    using fetchrow_Some [OF assms(1) [unfolded product_by_id_def]] by simp_all
  then have "p\<lparr>pr_sync_status := ''syncing'', pr_updated_at := now\<rparr> \<in> set (t_rows (db_products d'))"
    unfolding d' by (auto simp: set_sync_status_def update_rows_def in_sql_update)
  then have "\<exists>q \<in> set (t_rows (db_products d')). pr_id q = pid \<and> pr_sync_status q = ''syncing''"
    using \<open>pr_id p = pid\<close> by (rule_tac bexI) simp_all
  then show ?thesis using d' by blast
qed

theorem failed_sync_stays_syncing_witness:
  "map pr_sync_status (t_rows (db_products (fst (sync_product 9 3 (sync_db\<lparr>db_cves := \<lparr>t_rows =
     [nginx_cve\<lparr>cv_raw_payload := JObj [(''configurations'', JNull)]\<rparr>], t_serial = 1\<rparr>\<rparr>))))) = [''syncing'']"
proof -
  let ?d = "sync_db\<lparr>db_cves := \<lparr>t_rows = [nginx_cve\<lparr>cv_raw_payload := JObj [(''configurations'', JNull)]\<rparr>], t_serial = 1\<rparr>\<rparr>"
  have p: "product_by_id ?d 3 = Some nginx" by code_simp
  have "isl (snd (sync_product 9 3 ?d))" by code_simp
  then have s: "sync_product 9 3 ?d = (fst (sync_product 9 3 ?d), Inl (projl (snd (sync_product 9 3 ?d))))"
    by (simp add: prod_eq_iff)
  have "map pr_sync_status (t_rows (db_products (set_sync_status 9 ''syncing'' 3 ?d))) = [''syncing'']" by code_simp
  then show ?thesis using failed_sync_stays_syncing [OF p s] by simp
qed

end
