(* ===== verification/Sync_Jobs.thy ===== *)
theory Sync_Jobs
  imports Product_Sync Sql_Order
begin

text \<open>
  \<open>app/workers/sync_job_worker.py\<close> and the enqueueing statement of \<open>app/api/routers/products.py\<close>:
  the queue of synchronisation jobs. A worker claims a job, runs the synchronisation of its product
  and records the outcome; each of the three is a transaction of its own, so the life of the queue is
  a step relation in which the transactions of several workers, and their deaths, interleave.
\<close>

section \<open>Enqueueing\<close>

definition active :: "job_row \<Rightarrow> bool" where
  "active j \<longleftrightarrow> sj_status j \<in> {''pending'', ''running''}"

definition new_job :: "int \<Rightarrow> int \<Rightarrow> int \<Rightarrow> int \<Rightarrow> job_row" where
  "new_job now pid prio n =
     \<lparr>sj_id = n, sj_job_type = ''product_sync'', sj_target_id = Some (py_str_int pid), sj_status = ''pending'',
      sj_priority = prio, sj_attempts = 0, sj_max_attempts = 3, sj_scheduled_at = now, sj_started_at = None,
      sj_completed_at = None, sj_locked_until = None, sj_error_message = None, sj_metadata = JObj []\<rparr>"

definition queued :: "int \<Rightarrow> job_row \<Rightarrow> bool" where
  "queued pid j \<longleftrightarrow> sj_job_type j = ''product_sync'' \<and> sj_target_id j = Some (py_str_int pid) \<and> active j"

definition enqueue_sync :: "int \<Rightarrow> int \<Rightarrow> int \<Rightarrow> db \<Rightarrow> db \<times> int option" where
  "enqueue_sync now product_id priority d =
     (if list_ex (queued product_id) (t_rows (db_jobs d)) then (d, None)
      else (let (t, r) = insert_row (new_job now product_id priority) (db_jobs d)
            in (d\<lparr>db_jobs := t\<rparr>, Some (sj_id r))))"

section \<open>Claiming\<close>

definition LOCK_TTL :: int where "LOCK_TTL = 5 * 60 * 1000000"

definition ready :: "int \<Rightarrow> job_row \<Rightarrow> bool" where
  "ready now j \<longleftrightarrow> sj_status j = ''pending'' \<and> (case sj_locked_until j of None \<Rightarrow> True | Some t \<Rightarrow> t < now)"

definition job_le :: "job_row \<Rightarrow> job_row \<Rightarrow> bool" where
  "job_le a b \<longleftrightarrow> sj_priority b < sj_priority a \<or> (sj_priority a = sj_priority b \<and> sj_scheduled_at a \<le> sj_scheduled_at b)"

definition next_job :: "int \<Rightarrow> db \<Rightarrow> job_row option" where
  "next_job now d = (case order_by job_le (filter (ready now) (t_rows (db_jobs d))) of
      [] \<Rightarrow> None | j # _ \<Rightarrow> Some j)"

definition start_job :: "int \<Rightarrow> job_row \<Rightarrow> job_row" where
  "start_job now j = j\<lparr>sj_status := ''running'', sj_started_at := Some now,
     sj_locked_until := Some (now + LOCK_TTL), sj_attempts := sj_attempts j + 1\<rparr>"

definition claim_job :: "int \<Rightarrow> db \<Rightarrow> db \<times> job_row option" where
  "claim_job now d = (case next_job now d of
      None \<Rightarrow> (d, None)
    | Some j \<Rightarrow> (d\<lparr>db_jobs := update_rows (\<lambda>x. sj_id x = sj_id j) (start_job now) (db_jobs d)\<rparr>, Some (start_job now j)))"

section \<open>Outcomes\<close>

definition completed :: "int \<Rightarrow> job_row \<Rightarrow> job_row" where
  "completed now j = j\<lparr>sj_status := ''completed'', sj_completed_at := Some now, sj_error_message := None\<rparr>"

definition complete_job :: "int \<Rightarrow> int \<Rightarrow> db \<Rightarrow> db" where
  "complete_job now i d = d\<lparr>db_jobs := update_rows (\<lambda>j. sj_id j = i) (completed now) (db_jobs d)\<rparr>"

text \<open>The counter is at least one when a job fails, so the power is a whole number of seconds.\<close>

definition retry_delay :: "int \<Rightarrow> int" where
  "retry_delay attempts = 30 * 2 ^ nat (attempts - 1) * 1000000"

definition failed_job :: "int \<Rightarrow> string \<Rightarrow> job_row \<Rightarrow> job_row" where
  "failed_job now msg j =
     j\<lparr>sj_status := (if sj_attempts j \<ge> sj_max_attempts j then ''dead'' else ''pending''),
       sj_error_message := Some msg,
       sj_scheduled_at := (if sj_attempts j < sj_max_attempts j then now + retry_delay (sj_attempts j) else sj_scheduled_at j)\<rparr>"

definition fail_job :: "int \<Rightarrow> int \<Rightarrow> string \<Rightarrow> db \<Rightarrow> db" where
  "fail_job now i msg d = d\<lparr>db_jobs := update_rows (\<lambda>j. sj_id j = i) (failed_job now msg) (db_jobs d)\<rparr>"

text \<open>\<open>f"{type(exc).__name__}: {str(exc)[:400]}"\<close>; of the exceptions outside this module only the text is kept.\<close>

definition error_message :: "py_exn \<Rightarrow> string" where
  "error_message e = (case e of
      ValueError s \<Rightarrow> ''ValueError: '' @ take 400 s
    | TypeError s \<Rightarrow> ''TypeError: '' @ take 400 s
    | KeyError s \<Rightarrow> ''KeyError: '' @ take 400 s
    | OtherError s \<Rightarrow> take 400 s
    | _ \<Rightarrow> ''Exception: '')"

section \<open>The worker\<close>

definition dispatch :: "int \<Rightarrow> job_row \<Rightarrow> (db, unit) action" where
  "dispatch now j d =
     (if sj_job_type j = ''product_sync'' \<and> truthy (sj_target_id j)
      then (case py_int (str_or_empty (sj_target_id j)) of
          None \<Rightarrow> (d, Inl (ValueError ''invalid literal for int()''))
        | Some pid \<Rightarrow> (case sync_product now pid d of (d', r) \<Rightarrow> (d', bind_r r (\<lambda>_. Inr ()))))
      else (d, Inr ()))"

text \<open>The clock is read when the job is claimed, when it is synchronised and when the outcome is written.\<close>

type_synonym clock = "int \<times> int \<times> int"

definition process_one_job :: "clock \<Rightarrow> db \<Rightarrow> db \<times> bool result" where
  "process_one_job clk d = (case clk of (t1, t2, t3) \<Rightarrow>
     (case claim_job t1 d of
        (d1, None) \<Rightarrow> (d1, Inr False)
      | (d1, Some j) \<Rightarrow> (case dispatch t2 j d1 of
            (d2, Inr _) \<Rightarrow> (complete_job t3 (sj_id j) d2, Inr True)
          | (d2, Inl e) \<Rightarrow> if is_exception e then (fail_job t3 (sj_id j) (error_message e) d2, Inr True)
                           else (d2, Inl e))))"

text \<open>The drain loop over the clock readings it gets; \<open>None\<close> means that it is still running.\<close>

fun drain_pending_jobs :: "clock list \<Rightarrow> db \<Rightarrow> (db \<times> int result) option" where
  "drain_pending_jobs [] d = None"
| "drain_pending_jobs (t # ts) d = (case process_one_job t d of
      (d', Inl e) \<Rightarrow> Some (d', Inl e)
    | (d', Inr processed) \<Rightarrow>
        if \<not> processed then Some (d', Inr 0)
        else map_option (\<lambda>(d'', r). (d'', bind_r r (\<lambda>n. Inr (n + 1)))) (drain_pending_jobs ts d'))"

section \<open>The life of the queue\<close>

text \<open>A state is the database and the jobs that live workers have in hand.\<close>

type_synonym queue = "db \<times> int set"

inductive job_step :: "queue \<Rightarrow> queue \<Rightarrow> bool" where
  enqueue: "job_step (d, H) (fst (enqueue_sync now pid prio d), H)"
| claim: "claim_job now d = (d', Some j) \<Longrightarrow> job_step (d, H) (d', insert (sj_id j) H)"
| sync: "job_step (d, H) (fst (sync_product now pid d), H)"
| complete: "i \<in> H \<Longrightarrow> job_step (d, H) (complete_job now i d, H - {i})"
| fail: "i \<in> H \<Longrightarrow> job_step (d, H) (fail_job now i msg d, H - {i})"
| die: "i \<in> H \<Longrightarrow> job_step (d, H) (d, H - {i})"

inductive_cases job_stepE: "job_step q q'"

definition in_budget :: "job_row \<Rightarrow> bool" where
  "in_budget j \<longleftrightarrow> 0 \<le> sj_attempts j \<and> sj_attempts j \<le> sj_max_attempts j \<and>
     (sj_status j = ''pending'' \<longrightarrow> sj_attempts j < sj_max_attempts j)"

fun queue_ok :: "queue \<Rightarrow> bool" where
  "queue_ok (d, H) \<longleftrightarrow> jobs_ok d \<and> list_all in_budget (t_rows (db_jobs d)) \<and>
     (\<forall>i \<in> H. \<exists>j \<in> set (t_rows (db_jobs d)). sj_id j = i \<and> sj_status j = ''running'')"

section \<open>What a transaction keeps\<close>

text \<open>A row change that keeps a job's identity and never makes an inactive job active.\<close>

definition tame :: "(job_row \<Rightarrow> job_row) \<Rightarrow> bool" where
  "tame f \<longleftrightarrow> (\<forall>j. sj_id (f j) = sj_id j \<and> sj_job_type (f j) = sj_job_type j \<and> sj_target_id (f j) = sj_target_id j \<and>
     sj_status (f j) \<in> {''pending'', ''running'', ''completed'', ''dead''})"

lemma tame_changes: "tame (start_job now)" "tame (completed now)" "tame (failed_job now msg)"
  by (simp_all add: tame_def start_job_def completed_def failed_job_def)

lemma tame_id [simp]: "tame f \<Longrightarrow> sj_id (f j) = sj_id j"
  by (simp add: tame_def)

definition slots :: "job_row list \<Rightarrow> (string \<times> string option) list" where
  "slots js = map (\<lambda>j. (sj_job_type j, sj_target_id j)) (filter (\<lambda>j. active j \<and> sj_target_id j \<noteq> None) js)"

lemma job_unique_slots: "job_unique js \<longleftrightarrow> distinct (slots js)"
  by (simp add: job_unique_def slots_def active_def)

lemma distinct_slots_update:
  assumes "tame f" and "\<forall>j \<in> set js. p j \<longrightarrow> active j" and "distinct (slots js)"
  shows "distinct (slots (sql_update p f js)) \<and> set (slots (sql_update p f js)) \<subseteq> set (slots js)"
  using assms(2,3)
proof (induction js)
  case Nil
  then show ?case by simp
next
  case (Cons j js)
  have "distinct (slots js)" using Cons.prems(2) by (auto simp: slots_def split: if_splits)
  then have IH: "distinct (slots (sql_update p f js))" "set (slots (sql_update p f js)) \<subseteq> set (slots js)"
    using Cons by auto
  have k: "(sj_job_type (f j), sj_target_id (f j)) = (sj_job_type j, sj_target_id j)"
    using assms(1) by (simp add: tame_def)
  have split: "slots (x # xs) = (if active x \<and> sj_target_id x \<noteq> None then [(sj_job_type x, sj_target_id x)] else []) @ slots xs"
    for x xs by (simp add: slots_def)
  show ?case using IH Cons.prems k unfolding sql_update_Cons split by (auto split: if_splits)
qed

lemma jobs_ok_update:
  assumes "jobs_ok d" and "tame f" and "\<forall>j \<in> set (t_rows (db_jobs d)). sj_id j = i \<longrightarrow> active j"
  shows "jobs_ok (d\<lparr>db_jobs := update_rows (\<lambda>j. sj_id j = i) f (db_jobs d)\<rparr>)"
proof -
  have "keyed sj_id (update_rows (\<lambda>j. sj_id j = i) f (db_jobs d))"
    using assms(1,2) by (intro keyed_update) (simp_all add: jobs_ok_def)
  moreover have "list_all job_check (sql_update (\<lambda>j. sj_id j = i) f (t_rows (db_jobs d)))"
  proof -
    have "job_check (f j)" if "job_check j" for j using assms(2) that by (auto simp: tame_def job_check_def)
    then show ?thesis using assms(1) by (auto simp: jobs_ok_def list_all_iff in_sql_update)
  qed
  moreover have "job_unique (sql_update (\<lambda>j. sj_id j = i) f (t_rows (db_jobs d)))"
    using distinct_slots_update [OF assms(2), of "t_rows (db_jobs d)" "\<lambda>j. sj_id j = i"] assms(1,3)
    by (simp add: jobs_ok_def job_unique_slots)
  ultimately show ?thesis by (simp add: jobs_ok_def)
qed

lemma next_job_order: "next_job now d = Some j \<Longrightarrow> \<exists>js. order_by job_le (filter (ready now) (t_rows (db_jobs d))) = j # js"
  by (simp add: next_job_def split: list.splits)

lemma next_job_ready:
  assumes "next_job now d = Some j"
  shows "j \<in> set (t_rows (db_jobs d)) \<and> ready now j"
proof -
  obtain js where "order_by job_le (filter (ready now) (t_rows (db_jobs d))) = j # js"
    using next_job_order [OF assms] by blast
  then have "j \<in> set (order_by job_le (filter (ready now) (t_rows (db_jobs d))))" by simp
  then show ?thesis by simp
qed

lemma job_le_key: "sort_key job_le"
  by (auto simp: sort_key_def job_le_def)

lemma next_job_first: "next_job now d = Some j \<Longrightarrow> k \<in> set (t_rows (db_jobs d)) \<Longrightarrow> ready now k \<Longrightarrow> job_le j k"
  using next_job_order [of now d j] order_by_head [OF job_le_key, where z = k] by auto

lemma claim_jobE:
  assumes "claim_job now d = (d', Some j)"
  obtains j0 where "next_job now d = Some j0" "j0 \<in> set (t_rows (db_jobs d))" "ready now j0" "j = start_job now j0"
    "sj_id j = sj_id j0"
    "d' = d\<lparr>db_jobs := update_rows (\<lambda>x. sj_id x = sj_id j0) (start_job now) (db_jobs d)\<rparr>"
  using assms next_job_ready by (auto simp: claim_job_def start_job_def split: option.splits)

lemma sync_keeps_jobs [simp]: "db_jobs (fst (sync_product now pid d)) = db_jobs d"
  by (auto simp: sync_product_def Let_def set_sync_status_def stats_update_def split: option.splits sum.splits list.splits)

lemma py_str_int_inj [simp]: "py_str_int m = py_str_int n \<longleftrightarrow> m = n"
  by (metis py_int_str_int option.inject)

section \<open>The invariant of the queue\<close>

lemma enqueue_ok:
  assumes "queue_ok (d, H)"
  shows "queue_ok (fst (enqueue_sync now pid prio d), H)"
proof (cases "list_ex (queued pid) (t_rows (db_jobs d))")
  case True
  then show ?thesis using assms by (simp add: enqueue_sync_def)
next
  case False
  let ?n = "new_job now pid prio"
  have "keyed sj_id (fst (insert_row ?n (db_jobs d)))"
    using assms by (intro keyed_insert) (simp_all add: jobs_ok_def new_job_def)
  moreover have "job_unique (t_rows (db_jobs d) @ [?n m])" for m
    using assms False by (auto simp: job_unique_slots jobs_ok_def slots_def new_job_def active_def list_ex_iff queued_def)
  moreover have "job_check (?n m) \<and> in_budget (?n m)" for m by (simp add: job_check_def in_budget_def new_job_def)
  ultimately show ?thesis using assms False
    by (auto simp: enqueue_sync_def jobs_ok_def insert_row_def Let_def)
qed

lemma held_active:
  assumes "queue_ok (d, H)" and "i \<in> H" and "j \<in> set (t_rows (db_jobs d))" and "sj_id j = i"
  shows "sj_status j = ''running''"
proof -
  obtain k where k: "k \<in> set (t_rows (db_jobs d))" "sj_id k = i" "sj_status k = ''running''" using assms(1,2) by auto
  then show ?thesis using keyed_unique [of sj_id "db_jobs d" j k] assms by (auto simp: jobs_ok_def)
qed

lemma finish_ok:
  assumes q: "queue_ok (d, H)" and i: "i \<in> H" and f: "tame f" "\<And>j. in_budget j \<Longrightarrow> in_budget (f j)"
  shows "queue_ok (d\<lparr>db_jobs := update_rows (\<lambda>j. sj_id j = i) f (db_jobs d)\<rparr>, H - {i})"
proof -
  have "\<forall>j \<in> set (t_rows (db_jobs d)). sj_id j = i \<longrightarrow> active j"
    using held_active [OF q i] by (simp add: active_def)
  then have "jobs_ok (d\<lparr>db_jobs := update_rows (\<lambda>j. sj_id j = i) f (db_jobs d)\<rparr>)"
    using q f(1) by (intro jobs_ok_update) simp_all
  moreover have "list_all in_budget (sql_update (\<lambda>j. sj_id j = i) f (t_rows (db_jobs d)))"
    using q f(2) by (auto simp: list_all_iff in_sql_update)
  moreover have "\<exists>j \<in> set (sql_update (\<lambda>j. sj_id j = i) f (t_rows (db_jobs d))). sj_id j = k \<and> sj_status j = ''running''"
    if k: "k \<in> H - {i}" for k
  proof -
    obtain j where "j \<in> set (t_rows (db_jobs d))" "sj_id j = k" "sj_status j = ''running''"
      using q k by fastforce
    then show ?thesis using k by (intro bexI [of _ j]) (auto simp: in_sql_update intro: bexI [of _ j])
  qed
  ultimately show ?thesis by simp
qed

lemma claim_ok:
  assumes q: "queue_ok (d, H)" and c: "claim_job now d = (d', Some j)"
  shows "queue_ok (d', insert (sj_id j) H)" and "sj_id j \<notin> H"
proof -
  obtain j0 where j0: "j0 \<in> set (t_rows (db_jobs d))" "ready now j0" "j = start_job now j0" "sj_id j = sj_id j0"
    "d' = d\<lparr>db_jobs := update_rows (\<lambda>x. sj_id x = sj_id j0) (start_job now) (db_jobs d)\<rparr>"
    using claim_jobE [OF c] by metis
  have u: "x = j0" if "x \<in> set (t_rows (db_jobs d))" "sj_id x = sj_id j0" for x
    using keyed_unique [OF _ that(1) j0(1) that(2)] q by (simp add: jobs_ok_def)
  show new: "sj_id j \<notin> H" using held_active [OF q _ j0(1)] j0(2,4) by (auto simp: ready_def)
  have "jobs_ok d'" unfolding j0(5)
    using q u j0(2) by (intro jobs_ok_update) (auto simp: tame_changes active_def ready_def)
  moreover have "list_all in_budget (t_rows (db_jobs d'))"
  proof -
    have b: "in_budget (start_job now j0)"
      using q j0(1,2) by (auto simp: list_all_iff in_budget_def start_job_def ready_def)
    have "in_budget (if sj_id x = sj_id j0 then start_job now x else x)" if x: "x \<in> set (t_rows (db_jobs d))" for x
      using b u [OF x] q x by (cases "sj_id x = sj_id j0") (simp_all add: list_all_iff)
    then show ?thesis by (auto simp: j0(5) list_all_iff in_sql_update)
  qed
  moreover have "\<exists>x \<in> set (t_rows (db_jobs d')). sj_id x = k \<and> sj_status x = ''running''" if k: "k \<in> H" for k
  proof -
    obtain x where "x \<in> set (t_rows (db_jobs d))" "sj_id x = k" "sj_status x = ''running''"
      using q k by auto
    then show ?thesis using k new j0(4) by (intro bexI [of _ x]) (auto simp: j0(5) in_sql_update intro: bexI [of _ x])
  qed
  moreover have "\<exists>x \<in> set (t_rows (db_jobs d')). sj_id x = sj_id j \<and> sj_status x = ''running''"
    using j0 by (intro bexI [of _ j]) (auto simp: start_job_def in_sql_update intro: bexI [of _ j0])
  ultimately show "queue_ok (d', insert (sj_id j) H)" by simp
qed

lemma job_step_ok: "job_step q q' \<Longrightarrow> queue_ok q \<Longrightarrow> queue_ok q'"
proof (induction rule: job_step.induct)
  case (enqueue d H now pid prio)
  then show ?case by (rule enqueue_ok)
next
  case (claim now d d' j H)
  then show ?case by (metis claim_ok(1))
next
  case (sync d H now pid)
  then show ?case by (simp add: jobs_ok_def)
next
  case (complete i H d now)
  then show ?case unfolding complete_job_def
    by (intro finish_ok) (auto simp: tame_changes in_budget_def completed_def)
next
  case (fail i H d now msg)
  then show ?case unfolding fail_job_def
    by (intro finish_ok) (auto simp: tame_changes in_budget_def failed_job_def)
next
  case (die i H d)
  then show ?case by simp
qed

lemma job_steps_ok: "job_step\<^sup>*\<^sup>* q q' \<Longrightarrow> queue_ok q \<Longrightarrow> queue_ok q'"
  by (induction rule: rtranclp_induct) (auto intro: job_step_ok)

section \<open>One turn of the worker\<close>

text \<open>What one turn does to the row it claims.\<close>

definition turn :: "int \<Rightarrow> int \<Rightarrow> unit result \<Rightarrow> job_row \<Rightarrow> job_row" where
  "turn t1 t3 res j = (case res of
      Inr _ \<Rightarrow> completed t3 (start_job t1 j)
    | Inl e \<Rightarrow> if is_exception e then failed_job t3 (error_message e) (start_job t1 j) else start_job t1 j)"

definition after_claim :: "int \<Rightarrow> job_row \<Rightarrow> db \<Rightarrow> db" where
  "after_claim t1 j d = d\<lparr>db_jobs := update_rows (\<lambda>x. sj_id x = sj_id j) (start_job t1) (db_jobs d)\<rparr>"

lemma sql_update_twice:
  "(\<And>x. p (f x) = p x) \<Longrightarrow> sql_update p g (sql_update p f xs) = sql_update p (\<lambda>x. g (f x)) xs"
  by (induction xs) auto

lemma dispatch_jobs [simp]: "db_jobs (fst (dispatch now j d)) = db_jobs d"
  by (simp add: dispatch_def case_prod_beta split: option.split)

lemma start_job_id [simp]: "sj_id (start_job t j) = sj_id j"
  by (simp add: start_job_def)

lemma process_one_job_cases:
  assumes "process_one_job (t1, t2, t3) d = (d', r)"
  obtains "next_job t1 d = None" "d' = d" "r = Inr False"
  | j d2 res where "next_job t1 d = Some j" "dispatch t2 (start_job t1 j) (after_claim t1 j d) = (d2, res)"
      "t_rows (db_jobs d') = sql_update (\<lambda>x. sj_id x = sj_id j) (turn t1 t3 res) (t_rows (db_jobs d))"
      "r = (case res of Inl e \<Rightarrow> if is_exception e then Inr True else Inl e | Inr _ \<Rightarrow> Inr True)"
      "d' = d2\<lparr>db_jobs := db_jobs d'\<rparr>"
proof (cases "next_job t1 d")
  case None
  then show thesis using assms by (intro that(1)) (simp_all add: process_one_job_def claim_job_def)
next
  case (Some j)
  obtain d2 res where d2: "dispatch t2 (start_job t1 j) (after_claim t1 j d) = (d2, res)" by fastforce
  then have jobs: "db_jobs d2 = db_jobs (after_claim t1 j d)" using dispatch_jobs by (metis fst_conv)
  have c: "claim_job t1 d = (after_claim t1 j d, Some (start_job t1 j))"
    by (simp add: claim_job_def Some after_claim_def)
  have p: "(d', r) = (case res of Inr _ \<Rightarrow> (complete_job t3 (sj_id j) d2, Inr True)
      | Inl e \<Rightarrow> if is_exception e then (fail_job t3 (sj_id j) (error_message e) d2, Inr True) else (d2, Inl e))"
    using assms by (auto simp: process_one_job_def c d2 split: sum.splits if_splits)
  show thesis
    by (rule that(2) [OF Some d2])
      (use p in \<open>auto simp: jobs turn_def [abs_def] complete_job_def fail_job_def after_claim_def
          sql_update_twice split: sum.splits if_splits\<close>)
qed

section \<open>The budget of the queue\<close>

definition tries_left :: "job_row \<Rightarrow> nat" where
  "tries_left j = (if sj_status j = ''pending'' then nat (sj_max_attempts j - sj_attempts j) else 0)"

definition budget :: "db \<Rightarrow> nat" where
  "budget d = sum_list (map tries_left (t_rows (db_jobs d)))"

lemma sum_update_one:
  assumes "distinct (map key xs)" and "x \<in> set xs"
  shows "sum_list (map h (sql_update (\<lambda>y. key y = key x) f xs)) + h x = sum_list (map h xs) + (h (f x) :: nat)"
  using assms
proof (induction xs)
  case Nil
  then show ?case by simp
next
  case (Cons y ys)
  show ?case
  proof (cases "y = x")
    case True
    then have "sql_update (\<lambda>y. key y = key x) f ys = ys"
      using Cons.prems(1) by (intro sql_update_none ballI) (auto simp: image_iff)
    then show ?thesis using True by simp
  next
    case False
    then have x: "x \<in> set ys" "key y \<noteq> key x" using Cons.prems by auto
    then show ?thesis using Cons by simp
  qed
qed

lemma turn_tries: "sj_status j = ''pending'' \<Longrightarrow> sj_attempts j < sj_max_attempts j \<Longrightarrow> tries_left (turn t1 t3 res j) < tries_left j"
  by (simp add: tries_left_def turn_def completed_def failed_job_def start_job_def split: sum.splits)

lemma budget_decreases:
  assumes "queue_ok (d, H)" and "process_one_job clk d = (d', r)" and "r \<noteq> Inr False"
  shows "budget d' < budget d"
proof -
  obtain t1 t2 t3 where clk: "clk = (t1, t2, t3)" by (cases clk) auto
  show ?thesis using assms(2) [unfolded clk]
  proof (rule process_one_job_cases)
    assume "r = Inr False"
    then show ?thesis using assms(3) by simp
  next
    fix j d2 res
    assume j: "next_job t1 d = Some j"
      and rows: "t_rows (db_jobs d') = sql_update (\<lambda>x. sj_id x = sj_id j) (turn t1 t3 res) (t_rows (db_jobs d))"
    have in_j: "j \<in> set (t_rows (db_jobs d))" "ready t1 j" using next_job_ready [OF j] by simp_all
    have "tries_left (turn t1 t3 res j) < tries_left j"
      using assms(1) in_j by (intro turn_tries) (auto simp: list_all_iff in_budget_def ready_def)
    moreover have "budget d' + tries_left j = budget d + tries_left (turn t1 t3 res j)"
      unfolding budget_def rows
      using sum_update_one [of sj_id "t_rows (db_jobs d)" j tries_left "turn t1 t3 res"] assms(1) in_j
      by (simp add: jobs_ok_def keyed_def)
    ultimately show ?thesis by simp
  qed
qed

lemma process_steps:
  assumes "queue_ok (d, H)"
  shows "job_step\<^sup>*\<^sup>* (d, H) (fst (process_one_job clk d), H)"
proof -
  obtain t1 t2 t3 where clk: "clk = (t1, t2, t3)" by (cases clk) auto
  show ?thesis
  proof (cases "next_job t1 d")
    case None
    then show ?thesis by (simp add: process_one_job_def claim_job_def clk)
  next
    case (Some j)
    let ?j = "start_job t1 j" and ?d1 = "after_claim t1 j d"
    have c: "claim_job t1 d = (?d1, Some ?j)" by (simp add: claim_job_def Some after_claim_def)
    have new: "sj_id ?j \<notin> H" by (rule claim_ok(2) [OF assms c])
    then have put: "insert (sj_id ?j) H - {sj_id ?j} = H" by simp
    obtain d2 res where d2: "dispatch t2 ?j ?d1 = (d2, res)" by fastforce
    have "job_step (d, H) (?d1, insert (sj_id ?j) H)" by (rule job_step.claim [OF c])
    moreover have "job_step\<^sup>*\<^sup>* (?d1, K) (d2, K)" for K
      using d2 job_step.sync [of ?d1 K t2]
      by (auto simp: dispatch_def case_prod_beta split: if_splits option.splits)
    moreover have "job_step (d2, insert (sj_id ?j) H) (fst (process_one_job clk d), H)"
      using job_step.complete [of "sj_id ?j" "insert (sj_id ?j) H" d2 t3] job_step.die [of "sj_id ?j" "insert (sj_id ?j) H" d2]
        job_step.fail [of "sj_id ?j" "insert (sj_id ?j) H" d2 t3]
      unfolding put by (simp add: process_one_job_def clk c d2 split: sum.split)
    ultimately show ?thesis by (meson converse_rtranclp_into_rtranclp rtranclp.rtrancl_into_rtrancl)
  qed
qed

lemma process_ok: "queue_ok (d, H) \<Longrightarrow> queue_ok (fst (process_one_job clk d), H)"
  using job_steps_ok [OF process_steps] by blast

lemma queued_once: "distinct (slots js) \<Longrightarrow> length (filter (queued pid) js) \<le> 1"
proof (induction js)
  case Nil
  then show ?case by simp
next
  case (Cons j js)
  have d: "distinct (slots js)" using Cons.prems by (auto simp: slots_def split: if_splits)
  show ?case
  proof (cases "queued pid j")
    case True
    then have "(''product_sync'', Some (py_str_int pid)) \<notin> set (slots js)"
      using Cons.prems by (simp add: slots_def queued_def)
    moreover have "(''product_sync'', Some (py_str_int pid)) \<in> set (slots js)" if "k \<in> set js" "queued pid k" for k
      using that by (force simp: slots_def queued_def)
    ultimately have "filter (queued pid) js = []" by (auto simp: filter_empty_conv)
    then show ?thesis by simp
  next
    case False
    then show ?thesis using Cons.IH [OF d] by simp
  qed
qed

lemma drain_run:
  assumes "queue_ok (d, H)" and "budget d < length ts"
  shows "\<exists>d' r. drain_pending_jobs ts d = Some (d', r) \<and> job_step\<^sup>*\<^sup>* (d, H) (d', H) \<and>
     (\<forall>n. r = Inr n \<longrightarrow> 0 \<le> n \<and> n \<le> int (budget d) \<and> (\<exists>c \<in> set ts. next_job (fst c) d' = None))"
  using assms
proof (induction ts arbitrary: d)
  case Nil
  then show ?case by simp
next
  case (Cons c ts)
  obtain d1 r1 where p: "process_one_job c d = (d1, r1)" by fastforce
  have s1: "job_step\<^sup>*\<^sup>* (d, H) (d1, H)" and q1: "queue_ok (d1, H)"
    using process_steps [OF Cons.prems(1), of c] process_ok [OF Cons.prems(1), of c] p by simp_all
  show ?case
  proof (cases r1)
    case (Inl e)
    then show ?thesis using p s1 by simp
  next
    case (Inr b)
    show ?thesis
    proof (cases b)
      case False
      obtain t1 t2 t3 where c: "c = (t1, t2, t3)" by (cases c) auto
      have "next_job t1 d = None \<and> d1 = d"
        using p Inr False unfolding c by (elim process_one_job_cases) (auto split: sum.splits if_splits)
      then show ?thesis using p Inr False s1 c by simp
    next
      case True
      have less: "budget d1 < budget d" using budget_decreases [OF Cons.prems(1) p] Inr True by simp
      obtain d2 r where d2: "drain_pending_jobs ts d1 = Some (d2, r)" "job_step\<^sup>*\<^sup>* (d1, H) (d2, H)"
        "\<forall>n. r = Inr n \<longrightarrow> 0 \<le> n \<and> n \<le> int (budget d1) \<and> (\<exists>c \<in> set ts. next_job (fst c) d2 = None)"
        using Cons.IH [OF q1] less Cons.prems(2) by auto
      have "drain_pending_jobs (c # ts) d = Some (d2, bind_r r (\<lambda>n. Inr (n + 1)))" using p Inr True d2(1) by simp
      moreover have "job_step\<^sup>*\<^sup>* (d, H) (d2, H)" using s1 d2(2) by simp
      moreover have "\<forall>n. bind_r r (\<lambda>n. Inr (n + 1)) = Inr n \<longrightarrow> 0 \<le> n \<and> n \<le> int (budget d) \<and>
          (\<exists>c \<in> set (c # ts). next_job (fst c) d2 = None)"
        using d2(3) less by (auto simp: bind_r_Inr)
      ultimately show ?thesis by blast
    qed
  qed
qed

text \<open>A job that is running in nobody's hands is out of reach of every step.\<close>

lemma abandoned_step:
  assumes "job_step q q'" and "queue_ok q" and "j \<in> set (t_rows (db_jobs (fst q)))" "sj_status j = ''running''"
    and "sj_id j \<notin> snd q"
  shows "j \<in> set (t_rows (db_jobs (fst q'))) \<and> sj_id j \<notin> snd q'"
  using assms
proof (cases rule: job_step.cases)
  case (enqueue d H now pid prio)
  then show ?thesis using assms by (auto simp: enqueue_sync_def insert_row_def Let_def)
next
  case (claim now d d' k H)
  obtain k0 where k0: "k0 \<in> set (t_rows (db_jobs d))" "ready now k0" "sj_id k = sj_id k0"
    "d' = d\<lparr>db_jobs := update_rows (\<lambda>x. sj_id x = sj_id k0) (start_job now) (db_jobs d)\<rparr>"
    using claim_jobE [OF claim(3)] by metis
  have "sj_id j \<noteq> sj_id k0"
    using keyed_unique [of sj_id "db_jobs d" j k0] k0(1,2) assms(2-4) claim(1) by (auto simp: jobs_ok_def ready_def)
  then show ?thesis using claim(1,2) assms(3,5) k0(3,4) by (auto simp: in_sql_update intro!: bexI [of _ j])
next
  case (sync d H now pid)
  then show ?thesis using assms(3,5) by simp
next
  case (complete i H d now)
  then show ?thesis using assms(3,5) by (auto simp: complete_job_def in_sql_update intro!: bexI [of _ j])
next
  case (fail i H d now msg)
  then show ?thesis using assms(3,5) by (auto simp: fail_job_def in_sql_update intro!: bexI [of _ j])
next
  case (die i H d)
  then show ?thesis using assms(3,5) by simp
qed

lemma abandoned_steps:
  assumes "job_step\<^sup>*\<^sup>* q q'" and "queue_ok q" and "j \<in> set (t_rows (db_jobs (fst q)))" "sj_status j = ''running''"
    and "sj_id j \<notin> snd q"
  shows "j \<in> set (t_rows (db_jobs (fst q'))) \<and> sj_id j \<notin> snd q'"
  using assms(1)
proof (induction rule: rtranclp_induct)
  case base
  then show ?case using assms by simp
next
  case (step x y)
  then show ?case using abandoned_step [OF step(2) job_steps_ok [OF step(1) assms(2)]] assms(4) by blast
qed

section \<open>Properties\<close>

text \<open>C7: The queue under concurrent workers: however the transactions of any number of workers and of the
  API interleave, and whichever workers die on the way, no job is attempted more often than its
  \<open>max_attempts\<close>, no product has two active jobs, and no job that a worker has in hand is handed
  out a second time.\<close>

theorem job_queue_invariant:
  assumes "queue_ok (d, H)" and "job_step\<^sup>*\<^sup>* (d, H) (d', H')"
  shows "list_all (\<lambda>j. 0 \<le> sj_attempts j \<and> sj_attempts j \<le> sj_max_attempts j) (t_rows (db_jobs d')) \<and>
     (\<forall>pid. length (filter (queued pid) (t_rows (db_jobs d'))) \<le> 1) \<and>
     (\<forall>now d'' j. claim_job now d' = (d'', Some j) \<longrightarrow> sj_id j \<notin> H')"
proof -
  have q: "queue_ok (d', H')" by (rule job_steps_ok [OF assms(2,1)])
  have "\<forall>pid. length (filter (queued pid) (t_rows (db_jobs d'))) \<le> 1"
    using q queued_once by (simp add: jobs_ok_def job_unique_slots)
  then show ?thesis using q claim_ok(2) [OF q] by (auto simp: list_all_iff in_budget_def)
qed

definition queue_db :: db where
  "queue_db = fst (enqueue_sync 0 3 10 sync_db)"

lemma queue_db_ok: "queue_ok (queue_db, {})"
proof -
  have "queue_ok (sync_db, {})"
    by (simp add: sync_db_def sample_db_def empty_db_def empty_table_def jobs_ok_def keyed_def job_unique_def)
  then show ?thesis unfolding queue_db_def by (rule enqueue_ok)
qed

theorem job_queue_invariant_witness:
  "length (filter (queued 3) (t_rows (db_jobs (fst (claim_job 5 (fst (enqueue_sync 4 3 10 queue_db))))))) \<le> 1"
proof -
  let ?d = "fst (enqueue_sync 4 3 10 queue_db)"
  have "snd (claim_job 5 ?d) \<noteq> None" by code_simp
  then obtain j where "claim_job 5 ?d = (fst (claim_job 5 ?d), Some j)" by (metis option.exhaust prod.collapse)
  then have "job_step (?d, {}) (fst (claim_job 5 ?d), {sj_id j})" by (rule job_step.claim)
  then have "job_step\<^sup>*\<^sup>* (queue_db, {}) (fst (claim_job 5 ?d), {sj_id j})"
    using converse_rtranclp_into_rtranclp [of job_step, OF job_step.enqueue] by blast
  then show ?thesis using job_queue_invariant [OF queue_db_ok] by blast
qed

text \<open>A worker that finds a job serves the best one and reports what happened: the claimed job is ready
  and none that is ready has a higher priority, or the same priority and an older schedule; no other
  job changes; the attempt is counted; the job ends completed when the synchronisation returned,
  and after an exception it waits again while it has attempts left and is dead when it has none.\<close>

theorem best_job_served:
  assumes "queue_ok (d, H)" and "process_one_job (t1, t2, t3) d = (d', Inr True)"
  shows "\<exists>j j' res. j \<in> set (t_rows (db_jobs d)) \<and> ready t1 j \<and>
     (\<forall>k \<in> set (t_rows (db_jobs d)). ready t1 k \<longrightarrow> job_le j k) \<and>
     res = snd (dispatch t2 (start_job t1 j) (after_claim t1 j d)) \<and>
     set (t_rows (db_jobs d')) = insert j' (set (t_rows (db_jobs d)) - {j}) \<and>
     sj_id j' = sj_id j \<and> sj_attempts j' = sj_attempts j + 1 \<and>
     sj_status j' = (if \<not> isl res then ''completed''
        else if sj_attempts j + 1 < sj_max_attempts j then ''pending'' else ''dead'')"
  using assms(2)
proof (rule process_one_job_cases)
  assume "(Inr True :: bool result) = Inr False"
  then show ?thesis by simp
next
  fix j d2 res
  assume j: "next_job t1 d = Some j" and d2: "dispatch t2 (start_job t1 j) (after_claim t1 j d) = (d2, res)"
    and rows: "t_rows (db_jobs d') = sql_update (\<lambda>x. sj_id x = sj_id j) (turn t1 t3 res) (t_rows (db_jobs d))"
    and r: "Inr True = (case res of Inl e \<Rightarrow> if is_exception e then Inr True else Inl e | Inr _ \<Rightarrow> Inr True)"
  have in_j: "j \<in> set (t_rows (db_jobs d))" "ready t1 j" using next_job_ready [OF j] by simp_all
  have u: "x = j" if "x \<in> set (t_rows (db_jobs d))" "sj_id x = sj_id j" for x
    using keyed_unique [of sj_id "db_jobs d" x j] that in_j(1) assms(1) by (simp add: jobs_ok_def)
  have "set (t_rows (db_jobs d')) = insert (turn t1 t3 res j) (set (t_rows (db_jobs d)) - {j})"
  proof (intro set_eqI iffI)
    fix x
    assume "x \<in> set (t_rows (db_jobs d'))"
    then obtain y where "y \<in> set (t_rows (db_jobs d))" "x = (if sj_id y = sj_id j then turn t1 t3 res y else y)"
      unfolding rows in_sql_update by blast
    then show "x \<in> insert (turn t1 t3 res j) (set (t_rows (db_jobs d)) - {j})"
      using u [of y] by (cases "sj_id y = sj_id j") auto
  next
    fix x
    assume "x \<in> insert (turn t1 t3 res j) (set (t_rows (db_jobs d)) - {j})"
    then show "x \<in> set (t_rows (db_jobs d'))" using in_j(1) u unfolding rows in_sql_update by auto
  qed
  moreover have "sj_id (turn t1 t3 res j) = sj_id j \<and> sj_attempts (turn t1 t3 res j) = sj_attempts j + 1 \<and>
     sj_status (turn t1 t3 res j) = (if \<not> isl res then ''completed''
        else if sj_attempts j + 1 < sj_max_attempts j then ''pending'' else ''dead'')"
    using r by (auto simp: turn_def completed_def failed_job_def start_job_def split: sum.splits if_splits)
  ultimately show ?thesis using in_j next_job_first [OF j] d2
    by (intro exI [of _ j] exI [of _ "turn t1 t3 res j"] exI [of _ res]) simp
qed

theorem best_job_served_witness:
  "\<exists>j'. set (t_rows (db_jobs (fst (process_one_job (5, 6, 7) queue_db)))) = {j'} \<and> sj_status j' = ''completed'' \<and> sj_attempts j' = 1"
proof -
  have "process_one_job (5, 6, 7) queue_db = (fst (process_one_job (5, 6, 7) queue_db), Inr True)"
  proof -
    have "snd (process_one_job (5, 6, 7) queue_db) = Inr True" by code_simp
    then show ?thesis by (metis prod.collapse)
  qed
  from best_job_served [OF queue_db_ok this]
  have "\<exists>j j' res. j \<in> set (t_rows (db_jobs queue_db)) \<and>
     res = snd (dispatch 6 (start_job 5 j) (after_claim 5 j queue_db)) \<and>
     set (t_rows (db_jobs (fst (process_one_job (5, 6, 7) queue_db)))) = insert j' (set (t_rows (db_jobs queue_db)) - {j}) \<and>
     sj_attempts j' = sj_attempts j + 1 \<and> (\<not> isl res \<longrightarrow> sj_status j' = ''completed'')"
    by (elim exE conjE, intro exI conjI) (assumption | simp)+
  moreover have "t_rows (db_jobs queue_db) = [new_job 0 3 10 1]" by code_simp
  moreover have "\<not> isl (snd (dispatch 6 (start_job 5 (new_job 0 3 10 1)) (after_claim 5 (new_job 0 3 10 1) queue_db)))" by code_simp
  moreover have "sj_attempts (new_job 0 3 10 1) = 0" by (simp add: new_job_def)
  ultimately show ?thesis by auto
qed

text \<open>C8: The drain loop ends: with one clock reading more than the attempts that the pending jobs have left, it
  returns, having processed at most that many jobs; everything it did is a run of the queue's
  transactions, and unless it was cancelled no job was ready any more when it stopped.\<close>

theorem drain_returns:
  assumes "queue_ok (d, H)" and "budget d < length ts"
  shows "\<exists>d' r. drain_pending_jobs ts d = Some (d', r) \<and> job_step\<^sup>*\<^sup>* (d, H) (d', H) \<and>
     (\<forall>n. r = Inr n \<longrightarrow> 0 \<le> n \<and> n \<le> int (budget d) \<and> (\<exists>c \<in> set ts. next_job (fst c) d' = None))"
  using assms by (rule drain_run)

theorem drain_returns_witness:
  "budget queue_db = 3 \<and> (\<exists>d' r. drain_pending_jobs [(5, 6, 7), (8, 9, 10), (11, 12, 13), (14, 15, 16)] queue_db = Some (d', r))"
proof -
  have b: "budget queue_db = 3" by code_simp
  then show ?thesis
    using drain_returns [OF queue_db_ok, where ts = "[(5, 6, 7), (8, 9, 10), (11, 12, 13), (14, 15, 16)]"] by auto
qed

text \<open>The documented back-off is not what delays a retry: a job that failed with attempts left is taken again
  as soon as the five-minute lock of the failed attempt has expired, whatever the time of the failure
  and however far in the future the schedule that the failure wrote lies.\<close>

theorem retry_waits_for_the_lock_only:
  assumes "sj_attempts j + 1 < sj_max_attempts j"
  shows "(ready now (failed_job t' msg (start_job t j)) \<longleftrightarrow> t + 300000000 < now) \<and>
     sj_scheduled_at (failed_job t' msg (start_job t j)) = t' + 30000000 * 2 ^ nat (sj_attempts j)"
  using assms by (simp add: ready_def failed_job_def start_job_def LOCK_TTL_def retry_delay_def)

theorem retry_waits_for_the_lock_only_witness:
  "ready 300000001 (failed_job 299000000 [] (start_job 0 (new_job 0 3 10 1))) \<and>
   300000001 < sj_scheduled_at (failed_job 299000000 [] (start_job 0 (new_job 0 3 10 1)))"
proof -
  have "sj_attempts (new_job 0 3 10 1) + 1 < sj_max_attempts (new_job 0 3 10 1)" by (simp add: new_job_def)
  from retry_waits_for_the_lock_only [OF this, of 300000001 299000000 "[]" 0]
  show ?thesis by (simp add: new_job_def)
qed

text \<open>C32: A job whose worker dies is lost, and its product with it: once a job is running in nobody's hands, no
  step of any worker or of the API ever touches it again, although its lock expires, and every
  request to synchronise its product is turned away because an active job exists.\<close>

theorem abandoned_job_blocks_its_product:
  assumes "queue_ok (d, H)" and "j \<in> set (t_rows (db_jobs d))" and "sj_status j = ''running''"
    and "sj_id j \<notin> H" and "sj_job_type j = ''product_sync''" and "sj_target_id j = Some (py_str_int pid)"
    and "job_step\<^sup>*\<^sup>* (d, H) (d', H')"
  shows "j \<in> set (t_rows (db_jobs d')) \<and> enqueue_sync now pid prio d' = (d', None)"
proof -
  have j: "j \<in> set (t_rows (db_jobs d'))"
    using abandoned_steps [OF assms(7,1)] assms(2-4) by simp
  moreover have "list_ex (queued pid) (t_rows (db_jobs d'))"
    using j assms(3,5,6) by (auto simp: list_ex_iff queued_def active_def)
  ultimately show ?thesis by (simp add: enqueue_sync_def)
qed

theorem abandoned_job_blocks_its_product_witness:
  "enqueue_sync 999999999999 3 100 (fst (claim_job 5 queue_db)) = (fst (claim_job 5 queue_db), None)"
proof -
  let ?d = "fst (claim_job 5 queue_db)"
  let ?j = "start_job 5 (new_job 0 3 10 1)"
  have c: "claim_job 5 queue_db = (?d, Some ?j)" by code_simp
  have "job_step (queue_db, {}) (?d, {sj_id ?j})" using job_step.claim [OF c, of "{}"] by simp
  then have q1: "queue_ok (?d, {sj_id ?j})" by (rule job_step_ok) (rule queue_db_ok)
  then have q: "queue_ok (?d, {})" using job_step_ok [OF job_step.die [of "sj_id ?j" "{sj_id ?j}" ?d] q1] by simp
  have j: "?j \<in> set (t_rows (db_jobs ?d))" by code_simp
  have s: "sj_status ?j = ''running''" "sj_job_type ?j = ''product_sync''" "sj_target_id ?j = Some (py_str_int 3)"
    by (simp_all add: start_job_def new_job_def)
  have "job_step\<^sup>*\<^sup>* (?d, {}) (?d, {})" by simp
  from abandoned_job_blocks_its_product [OF q j s(1) _ s(2,3) this] show ?thesis by simp
qed

end
