(* ===== verification/Products.thy ===== *)
theory Products
  imports Sync_Jobs
begin

text \<open>
  \<open>app/api/routers/products.py\<close>: the product inventory. Creation, bulk import, soft deletion and the
  requests for synchronisation, with the unique index of migration 0011 and the audit of each route.
  The collation by which names are sorted is an argument.
\<close>

section \<open>Inserting\<close>

record product_create =
  pc_name :: string
  pc_version :: string
  pc_vendor :: "string option"
  pc_cpe_keyword :: "string option"

record unique_index =
  ui_columns :: "string list"
  ui_predicate :: "string option"

definition product_indexes :: "unique_index list" where
  "product_indexes = [\<lparr>ui_columns = [''id''], ui_predicate = None\<rparr>,
     \<lparr>ui_columns = [''name'', ''vendor'', ''version''], ui_predicate = Some ''is_deleted = FALSE''\<rparr>]"

text \<open>The index that \<open>ON CONFLICT (columns)\<close> without a WHERE clause stands for: a partial one never does.\<close>

definition conflict_arbiter :: "string list \<Rightarrow> unique_index option" where
  "conflict_arbiter cols = fetchrow (\<lambda>i. set (ui_columns i) = set cols \<and> ui_predicate i = None) product_indexes"

text \<open>Rows that the unique index counts as equal: live ones, and NULL is never equal to anything.\<close>

definition same_product :: "string \<Rightarrow> string option \<Rightarrow> string \<Rightarrow> product_row \<Rightarrow> bool" where
  "same_product name vendor version p \<longleftrightarrow> \<not> pr_is_deleted p \<and> pr_name p = name \<and>
     vendor \<noteq> None \<and> pr_vendor p = vendor \<and> pr_version p = Some version"

definition new_product :: "int \<Rightarrow> string \<Rightarrow> string \<Rightarrow> string option \<Rightarrow> string option \<Rightarrow> int \<Rightarrow> product_row" where
  "new_product now name version vendor kw n =
     \<lparr>pr_id = n, pr_name = name, pr_vendor = vendor, pr_version = Some version, pr_normalized_cpe = kw,
      pr_cpe_confidence = None, pr_sync_status = ''pending'', pr_last_synced_at = None, pr_cve_count = 0,
      pr_critical_count = 0, pr_created_at = now, pr_updated_at = now, pr_is_deleted = False,
      pr_deleted_at = None, pr_deleted_by = None\<rparr>"

text \<open>\<open>x.strip() if x else None\<close>.\<close>

definition strip_opt :: "string option \<Rightarrow> string option" where
  "strip_opt x = (if truthy x then map_option py_strip x else None)"

definition insert_product :: "int \<Rightarrow> product_create \<Rightarrow> db \<Rightarrow> (db \<times> product_row) result" where
  "insert_product now b d =
     (let name = py_strip (pc_name b); version = py_strip (pc_version b); vendor = strip_opt (pc_vendor b) in
      if list_ex (same_product name vendor version) (t_rows (db_products d)) then Inl UniqueViolation
      else (let (t, r) = insert_row (new_product now name version vendor (strip_opt (pc_cpe_keyword b))) (db_products d)
            in Inr (d\<lparr>db_products := t\<rparr>, r)))"

definition insert_on_conflict :: "int \<Rightarrow> product_create \<Rightarrow> db \<Rightarrow> (db \<times> product_row option) result" where
  "insert_on_conflict now b d = (case conflict_arbiter [''name'', ''vendor'', ''version''] of
      None \<Rightarrow> Inl (OtherError ''there is no unique or exclusion constraint matching the ON CONFLICT specification'')
    | Some _ \<Rightarrow> (case insert_product now b d of
          Inl _ \<Rightarrow> Inr (d, None) | Inr (d', r) \<Rightarrow> Inr (d', Some r)))"

section \<open>A row as a dict\<close>

text \<open>The values of a \<open>Record\<close>; \<open>json.dumps\<close> raises on a \<open>datetime\<close>.\<close>

datatype column = Plain json | Datetime int

definition time_column :: "int option \<Rightarrow> column" where
  "time_column t = (case t of None \<Rightarrow> Plain JNull | Some n \<Rightarrow> Datetime n)"

definition product_dict :: "product_row \<Rightarrow> (string \<times> column) list" where
  "product_dict p =
     [(''id'', Plain (JInt (pr_id p))), (''name'', Plain (JStr (pr_name p))), (''vendor'', Plain (jopt JStr (pr_vendor p))),
      (''version'', Plain (jopt JStr (pr_version p))), (''cpe_confidence'', Plain (jopt JStr (pr_cpe_confidence p))),
      (''sync_status'', Plain (JStr (pr_sync_status p))), (''last_synced_at'', time_column (pr_last_synced_at p)),
      (''cve_count'', Plain (JInt (pr_cve_count p))), (''critical_count'', Plain (JInt (pr_critical_count p))),
      (''created_at'', Datetime (pr_created_at p)), (''updated_at'', Datetime (pr_updated_at p)),
      (''is_deleted'', Plain (JBool (pr_is_deleted p))), (''deleted_at'', time_column (pr_deleted_at p)),
      (''deleted_by'', Plain (jopt JStr (pr_deleted_by p))), (''cpe_keyword'', Plain (jopt JStr (pr_normalized_cpe p)))]"

definition dump_column :: "string \<times> column \<Rightarrow> (string \<times> json) result" where
  "dump_column kv = (case kv of
      (k, Plain v) \<Rightarrow> Inr (k, v)
    | (k, Datetime _) \<Rightarrow> Inl (TypeError ''Object of type datetime is not JSON serializable''))"

definition dump_dict :: "(string \<times> column) list \<Rightarrow> (string \<times> json) list result" where
  "dump_dict kvs = map_r dump_column kvs"

section \<open>Routes that add products\<close>

definition product_audit :: "auth_user \<Rightarrow> client \<Rightarrow> string \<Rightarrow> string option \<Rightarrow> (string \<times> json) list \<Rightarrow> audit_args" where
  "product_audit user cl action target diff =
     \<lparr>au_action = action, au_target_type = Some ''product'', au_target_id = target,
      au_actor_email = Some (au_email user), au_actor_role = Some (au_role user), au_diff = Some diff,
      au_metadata = None, au_ip_address = client_ip cl, au_user_agent = user_agent cl\<rparr>"

definition create_product ::
    "int \<Rightarrow> auth_user \<Rightarrow> client \<Rightarrow> product_create \<Rightarrow> db \<Rightarrow> db \<times> (product_row \<times> bool) result" where
  "create_product now user cl body d =
     (case insert_product now body d of
        Inl e \<Rightarrow> (d, Inl (if e = UniqueViolation then HttpException 409 ''Product already exists'' else e))
      | Inr (d1, row) \<Rightarrow>
          (let (d2, job_id) = enqueue_sync now (pr_id row) 10 d1 in
           case dump_dict (product_dict row) of
             Inl e \<Rightarrow> (d, Inl e)
           | Inr diff \<Rightarrow>
               (case record_in_tx now (product_audit user cl ''product.create'' (Some (py_str_int (pr_id row)))
                   [(''after'', JObj diff)]) d2 of
                  Inl e \<Rightarrow> (d, Inl e)
                | Inr (d3, _) \<Rightarrow> (d3, Inr (row, job_id \<noteq> None)))))"

record bulk_result =
  br_created :: "product_row list"
  br_skipped :: "product_create list"
  br_errors :: "(product_create \<times> string) list"

definition import_one :: "int \<Rightarrow> db \<times> bulk_result \<Rightarrow> product_create \<Rightarrow> db \<times> bulk_result" where
  "import_one now s p = (case s of (d, r) \<Rightarrow>
     if pc_name p = [] \<or> pc_version p = []
     then (d, r\<lparr>br_errors := br_errors r @ [(p, ''missing name or version'')]\<rparr>)
     else (case insert_on_conflict now p d of
        Inl e \<Rightarrow> (d, r\<lparr>br_errors := br_errors r @ [(p, exc_str e)]\<rparr>)
      | Inr (d1, Some row) \<Rightarrow> (fst (enqueue_sync now (pr_id row) 50 d1), r\<lparr>br_created := br_created r @ [row]\<rparr>)
      | Inr (d1, None) \<Rightarrow> (d1, r\<lparr>br_skipped := br_skipped r @ [p]\<rparr>)))"

definition bulk_import ::
    "int \<Rightarrow> auth_user \<Rightarrow> client \<Rightarrow> product_create list \<Rightarrow> db \<Rightarrow> db \<times> bulk_result result" where
  "bulk_import now user cl products d =
     (if length products > 500 then (d, Inl (HttpException 422 ''Validation Error''))
      else (let (d1, r) = foldl (import_one now) (d, \<lparr>br_created = [], br_skipped = [], br_errors = []\<rparr>) products;
                counts = JObj [(''created'', JInt (int (length (br_created r)))),
                   (''skipped'', JInt (int (length (br_skipped r)))), (''errors'', JInt (int (length (br_errors r))))]
            in (fst (record_audit now (product_audit user cl ''product.bulk_import'' None [(''counts'', counts)]) d1), Inr r)))"

section \<open>Synchronisation requests\<close>

definition resync_one :: "int \<Rightarrow> db \<times> int \<Rightarrow> product_row \<Rightarrow> db \<times> int" where
  "resync_one now s p = (case s of (d, n) \<Rightarrow>
     (case enqueue_sync now (pr_id p) 100 d of (d', job) \<Rightarrow> (d', if job = None then n else n + 1)))"

record resync_result =
  rs_count :: int
  rs_total :: "int option"

definition resync_all :: "(string \<Rightarrow> string \<Rightarrow> bool) \<Rightarrow> int \<Rightarrow> auth_user \<Rightarrow> client \<Rightarrow> db \<Rightarrow> db \<times> resync_result" where
  "resync_all collate now user cl d =
     (let rows = order_by (\<lambda>a b. collate (pr_name a) (pr_name b)) (t_rows (db_products d)) in
      if rows = [] then (d, \<lparr>rs_count = 0, rs_total = None\<rparr>)
      else (let (d1, n) = foldl (resync_one now) (d, 0) rows in
        (fst (record_audit now (product_audit user cl ''product.resync_all'' None
            [(''counts'', JObj [(''enqueued'', JInt n), (''total'', JInt (int (length rows)))])]) d1),
         \<lparr>rs_count = n, rs_total = Some (int (length rows))\<rparr>)))"

definition manual_sync :: "int \<Rightarrow> auth_user \<Rightarrow> client \<Rightarrow> int \<Rightarrow> db \<Rightarrow> db \<times> int option result" where
  "manual_sync now user cl pid d =
     (case product_by_id d pid of
        None \<Rightarrow> (d, Inl (HttpException 404 ''Product not found''))
      | Some _ \<Rightarrow>
          (let (d1, job_id) = enqueue_sync now pid 10 d in
           case record_in_tx now (product_audit user cl ''product.sync'' (Some (py_str_int pid))
               [(''job_id'', jopt JInt job_id)]) d1 of
             Inl e \<Rightarrow> (d, Inl e)
           | Inr (d2, _) \<Rightarrow> (d2, Inr job_id)))"

section \<open>Reading\<close>

definition active_job :: "db \<Rightarrow> int \<Rightarrow> job_row option" where
  "active_job d pid = fetchrow (queued pid) (t_rows (db_jobs d))"

definition product_le :: "(string \<Rightarrow> string \<Rightarrow> bool) \<Rightarrow> product_row \<Rightarrow> product_row \<Rightarrow> bool" where
  "product_le collate a b \<longleftrightarrow> pr_critical_count b < pr_critical_count a \<or>
     (pr_critical_count a = pr_critical_count b \<and> (pr_cve_count b < pr_cve_count a \<or>
       (pr_cve_count a = pr_cve_count b \<and> collate (pr_name a) (pr_name b))))"

text \<open>A left join: a product row for each of its active jobs, one without a job when it has none.\<close>

definition list_products :: "(string \<Rightarrow> string \<Rightarrow> bool) \<Rightarrow> db \<Rightarrow> (product_row \<times> job_row option) list" where
  "list_products collate d =
     concat (map (\<lambda>p. case filter (queued (pr_id p)) (t_rows (db_jobs d)) of
          [] \<Rightarrow> [(p, None)] | js \<Rightarrow> map (\<lambda>j. (p, Some j)) js)
       (order_by (product_le collate) (filter (\<lambda>p. \<not> pr_is_deleted p) (t_rows (db_products d)))))"

definition sync_status :: "db \<Rightarrow> int \<Rightarrow> (product_row \<times> job_row option) result" where
  "sync_status d pid = (case product_by_id d pid of
      None \<Rightarrow> Inl (HttpException 404 ''Product not found'')
    | Some p \<Rightarrow> Inr (p, active_job d pid))"

section \<open>Deletion\<close>

definition actionable :: "int \<Rightarrow> finding_row \<Rightarrow> bool" where
  "actionable pid f \<longleftrightarrow> fd_product_id f = pid \<and> fd_status f \<notin> {''closed'', ''remediated'', ''false_positive''}"

definition close_finding :: "int \<Rightarrow> finding_row \<Rightarrow> finding_row" where
  "close_finding now f = f\<lparr>fd_status := ''closed'', fd_updated_at := now\<rparr>"

definition mark_deleted :: "int \<Rightarrow> string \<Rightarrow> product_row \<Rightarrow> product_row" where
  "mark_deleted now email p = p\<lparr>pr_is_deleted := True, pr_deleted_at := Some now, pr_deleted_by := Some email, pr_updated_at := now\<rparr>"

definition delete_audit :: "auth_user \<Rightarrow> client \<Rightarrow> product_row \<Rightarrow> nat \<Rightarrow> audit_args" where
  "delete_audit user cl p n = product_audit user cl ''product.delete'' (Some (py_str_int (pr_id p)))
     [(''before'', JObj [(''id'', JInt (pr_id p)), (''name'', JStr (pr_name p)), (''vendor'', jopt JStr (pr_vendor p)),
        (''version'', jopt JStr (pr_version p)), (''cve_count'', JInt (pr_cve_count p)),
        (''critical_count'', JInt (pr_critical_count p))]),
      (''after'', JObj [(''is_deleted'', JBool True)]), (''findings_closed'', JInt (int n))]"

definition delete_product :: "int \<Rightarrow> auth_user \<Rightarrow> client \<Rightarrow> int \<Rightarrow> db \<Rightarrow> db \<times> int result" where
  "delete_product now user cl pid d =
     (case product_by_id d pid of
        None \<Rightarrow> (d, Inl (HttpException 404 ''Product not found''))
      | Some p \<Rightarrow>
          if pr_is_deleted p then (d, Inl (HttpException 409 ''Product already deleted''))
          else (let d1 = d\<lparr>db_products := update_rows (\<lambda>x. pr_id x = pid) (mark_deleted now (au_email user)) (db_products d)\<rparr>;
                    affected = filter (actionable pid) (t_rows (db_findings d1));
                    d2 = d1\<lparr>db_findings := update_rows (actionable pid) (close_finding now) (db_findings d1)\<rparr>;
                    d3 = foldl (\<lambda>s f. insert_history now (fd_id f) (Some ''open'') ''closed'' (au_email user)
                       (Some ''product soft-deleted'') s) d2 affected in
                case record_in_tx now (delete_audit user cl p (length affected)) d3 of
                  Inl e \<Rightarrow> (d, Inl e)
                | Inr (d4, _) \<Rightarrow> (d4, Inr (int (length affected)))))"

section \<open>What the routes do\<close>

lemma enqueue_products [simp]:
  "db_products (fst (enqueue_sync now pid prio d)) = db_products d"
  "db_findings (fst (enqueue_sync now pid prio d)) = db_findings d"
  by (simp_all add: enqueue_sync_def insert_row_def Let_def)

lemma record_audit_products [simp]:
  "db_products (fst (record_audit now a d)) = db_products d"
  "db_jobs (fst (record_audit now a d)) = db_jobs d"
  using record_in_tx_cases(1) [of now a d] by (auto simp: record_audit_def split: sum.split)

lemma no_arbiter: "conflict_arbiter [''name'', ''vendor'', ''version''] = None"
  by code_simp

lemma product_dict_dates: "isl (dump_dict (product_dict p))"
  by (simp add: dump_dict_def product_dict_def dump_column_def time_column_def split: option.splits)

lemma create_product_fails: "\<exists>e. create_product now user cl body d = (d, Inl e)"
proof (cases "insert_product now body d")
  case (Inl e)
  then show ?thesis by (simp add: create_product_def)
next
  case (Inr x)
  obtain d1 row where x: "x = (d1, row)" by (cases x)
  obtain e where "dump_dict (product_dict row) = Inl e" using product_dict_dates [of row] by (auto simp: isl_def)
  then show ?thesis using Inr x by (simp add: create_product_def case_prod_beta Let_def)
qed

lemma import_fold:
  "foldl (import_one now) (d, r) ps = (d, r\<lparr>br_errors := br_errors r @ map (\<lambda>p. (p,
     if pc_name p = [] \<or> pc_version p = [] then ''missing name or version''
     else ''there is no unique or exclusion constraint matching the ON CONFLICT specification'')) ps\<rparr>)"
  by (induction ps arbitrary: r) (simp_all add: import_one_def insert_on_conflict_def no_arbiter exc_str_def)

text \<open>Closing the findings of a product: the history rows, one after the other.\<close>

abbreviation closing :: "int \<Rightarrow> string \<Rightarrow> db \<Rightarrow> finding_row \<Rightarrow> db" where
  "closing now email s f \<equiv> insert_history now (fd_id f) (Some ''open'') ''closed'' email (Some ''product soft-deleted'') s"

lemma closing_keeps [simp]:
  "db_findings (foldl (closing now email) d fs) = db_findings d"
  "db_products (foldl (closing now email) d fs) = db_products d"
  "db_jobs (foldl (closing now email) d fs) = db_jobs d"
  by (induction fs arbitrary: d) (simp_all add: insert_history_def)

lemma closing_length:
  "length (t_rows (db_history (foldl (closing now email) d fs))) = length (t_rows (db_history d)) + length fs"
  by (induction fs arbitrary: d) (simp_all add: insert_history_def insert_row_def Let_def)

lemma closing_trail:
  "distinct (map fd_id fs) \<Longrightarrow>
   \<exists>n. trail (foldl (closing now email) d fs) i = trail d i @ (if i \<in> fd_id ` set fs then
     [\<lparr>fh_id = n, fh_finding_id = i, fh_old_status = Some ''open'', fh_new_status = ''closed'', fh_changed_by = email,
       fh_changed_at = now, fh_reason = Some ''product soft-deleted''\<rparr>] else [])"
proof (induction fs arbitrary: d)
  case Nil
  then show ?case by simp
next
  case (Cons f fs)
  then obtain n where "trail (foldl (closing now email) (closing now email d f) fs) i =
      trail (closing now email d f) i @ (if i \<in> fd_id ` set fs then
     [\<lparr>fh_id = n, fh_finding_id = i, fh_old_status = Some ''open'', fh_new_status = ''closed'', fh_changed_by = email,
       fh_changed_at = now, fh_reason = Some ''product soft-deleted''\<rparr>] else [])"
    by fastforce
  then show ?case using Cons.prems by (auto simp: trail_insert_history)
qed

lemma delete_product_success:
  assumes "delete_product now user cl pid d = (d', Inr n)"
  obtains p where "product_by_id d pid = Some p" "\<not> pr_is_deleted p"
    "n = int (length (filter (actionable pid) (t_rows (db_findings d))))"
    "db_products d' = update_rows (\<lambda>x. pr_id x = pid) (mark_deleted now (au_email user)) (db_products d)"
    "db_findings d' = update_rows (actionable pid) (close_finding now) (db_findings d)"
    "db_history d' = db_history (foldl (closing now (au_email user)) d (filter (actionable pid) (t_rows (db_findings d))))"
proof -
  have h: "db_history (foldl (closing now e) x fs) = db_history (foldl (closing now e) y fs)"
    if "db_history x = db_history y" for x y e fs
    using that by (induction fs arbitrary: x y) (simp_all add: insert_history_def)
  let ?d2 = "d\<lparr>db_products := update_rows (\<lambda>x. pr_id x = pid) (mark_deleted now (au_email user)) (db_products d),
      db_findings := update_rows (actionable pid) (close_finding now) (db_findings d)\<rparr>"
  from assms obtain p i where p: "product_by_id d pid = Some p" "\<not> pr_is_deleted p"
      "n = int (length (filter (actionable pid) (t_rows (db_findings d))))"
    and r: "record_in_tx now (delete_audit user cl p (length (filter (actionable pid) (t_rows (db_findings d)))))
        (foldl (closing now (au_email user)) ?d2 (filter (actionable pid) (t_rows (db_findings d)))) = Inr (d', i)"
    by (auto simp: delete_product_def Let_def split: option.splits if_splits sum.splits)
  show thesis
    by (rule that [OF p]) (use record_in_tx_cases(1) [OF r] h [of ?d2 d] in simp_all)
qed

lemma close_keeps [simp]: "fd_id (close_finding now f) = fd_id f" "fd_status (close_finding now f) = ''closed''"
    "fd_product_id (close_finding now f) = fd_product_id f" "fd_cve_id (close_finding now f) = fd_cve_id f"
    "fd_match_confidence (close_finding now f) = fd_match_confidence f"
  by (simp_all add: close_finding_def)

lemma delete_trails:
  assumes "findings_ok d" and "trails_ok d" and "delete_product now user cl pid d = (d', Inr n)"
  shows "trails_ok d' \<longleftrightarrow> (\<forall>f \<in> set (t_rows (db_findings d)). actionable pid f \<longrightarrow> fd_status f = ''open'')"
proof -
  let ?fs = "filter (actionable pid) (t_rows (db_findings d))"
  let ?g = "\<lambda>f. if actionable pid f then close_finding now f else f"
  have rows: "t_rows (db_findings d') = sql_update (actionable pid) (close_finding now) (t_rows (db_findings d))"
    and hist: "db_history d' = db_history (foldl (closing now (au_email user)) d ?fs)"
    using delete_product_success [OF assms(3)] by (metis t_rows_update)+
  have dist: "distinct (map fd_id ?fs)" using assms(1) by (simp add: findings_ok_def keyed_def distinct_map_filter)
  have mem: "fd_id f \<in> fd_id ` set ?fs \<longleftrightarrow> actionable pid f" if f: "f \<in> set (t_rows (db_findings d))" for f
    using finding_key_unique(2) [OF assms(1) f] f by auto
  have one: "linked ''open'' (trail d' (fd_id f)) = Some (fd_status (?g f)) \<longleftrightarrow> (actionable pid f \<longrightarrow> fd_status f = ''open'')"
    if f: "f \<in> set (t_rows (db_findings d))" for f
  proof -
    have l: "linked ''open'' (trail d (fd_id f)) = Some (fd_status f)"
      using assms(2) f by (simp add: trails_ok_def list_all_iff)
    obtain m where "trail d' (fd_id f) = trail d (fd_id f) @ (if actionable pid f then
     [\<lparr>fh_id = m, fh_finding_id = fd_id f, fh_old_status = Some ''open'', fh_new_status = ''closed'',
       fh_changed_by = au_email user, fh_changed_at = now, fh_reason = Some ''product soft-deleted''\<rparr>] else [])"
      using closing_trail [OF dist, of now "au_email user" d "fd_id f"] mem [OF f] by (auto simp: trail_def hist)
    then show ?thesis using linked_snoc [OF l] l by (auto split: if_splits)
  qed
  have "trails_ok d' \<longleftrightarrow> (\<forall>f \<in> set (t_rows (db_findings d)). linked ''open'' (trail d' (fd_id (?g f))) = Some (fd_status (?g f)))"
    unfolding trails_ok_def list_all_iff rows sql_update_def set_map by (simp only: ball_simps)
  also have "\<dots> \<longleftrightarrow> (\<forall>f \<in> set (t_rows (db_findings d)). actionable pid f \<longrightarrow> fd_status f = ''open'')"
  proof (intro ball_cong refl)
    fix f
    assume "f \<in> set (t_rows (db_findings d))"
    moreover have "fd_id (?g f) = fd_id f" by simp
    ultimately show "linked ''open'' (trail d' (fd_id (?g f))) = Some (fd_status (?g f)) \<longleftrightarrow> (actionable pid f \<longrightarrow> fd_status f = ''open'')"
      using one by presburger
  qed
  finally show ?thesis .
qed

section \<open>Properties\<close>

text \<open>A successful deletion flags the product and no other row, closes exactly its findings that are not yet
  closed, remediated or false positives, keeps every finding (nothing is erased, and the constraints
  of the table still hold), reports how many it closed and writes that many history rows.\<close>

theorem delete_product_correct:
  assumes "findings_ok d" and "delete_product now user cl pid d = (d', Inr n)"
  shows "(\<exists>p. product_by_id d pid = Some p \<and> \<not> pr_is_deleted p) \<and>
     t_rows (db_products d') = map (\<lambda>x. if pr_id x = pid then mark_deleted now (au_email user) x else x) (t_rows (db_products d)) \<and>
     t_rows (db_findings d') = map (\<lambda>f. if actionable pid f then close_finding now f else f) (t_rows (db_findings d)) \<and>
     findings_ok d' \<and> filter (actionable pid) (t_rows (db_findings d')) = [] \<and>
     n = int (length (filter (actionable pid) (t_rows (db_findings d)))) \<and>
     int (length (t_rows (db_history d'))) = int (length (t_rows (db_history d))) + n"
proof -
  obtain p where p: "product_by_id d pid = Some p" "\<not> pr_is_deleted p"
    "n = int (length (filter (actionable pid) (t_rows (db_findings d))))"
    "db_products d' = update_rows (\<lambda>x. pr_id x = pid) (mark_deleted now (au_email user)) (db_products d)"
    "db_findings d' = update_rows (actionable pid) (close_finding now) (db_findings d)"
    "db_history d' = db_history (foldl (closing now (au_email user)) d (filter (actionable pid) (t_rows (db_findings d))))"
    by (rule delete_product_success [OF assms(2)])
  have "keyed fd_id (db_findings d')" unfolding p(5) using assms(1) by (intro keyed_update) (simp_all add: findings_ok_def)
  moreover have "list_all finding_check (t_rows (db_findings d'))"
  proof -
    have "finding_check (close_finding now f)" if "finding_check f" for f
      using that by (simp add: finding_check_def FINDING_STATUSES_def)
    then show ?thesis using assms(1) by (auto simp: p(5) findings_ok_def list_all_iff in_sql_update)
  qed
  moreover have "map (\<lambda>f. (fd_product_id f, fd_cve_id f)) (t_rows (db_findings d')) = map (\<lambda>f. (fd_product_id f, fd_cve_id f)) (t_rows (db_findings d))"
    unfolding p(5) t_rows_update by (rule sql_update_map) simp
  ultimately have "findings_ok d'" using assms(1) by (simp add: findings_ok_def)
  moreover have "filter (actionable pid) (t_rows (db_findings d')) = []"
  proof -
    have "\<not> actionable pid (close_finding now f)" for f by (simp add: actionable_def)
    then have "\<not> actionable pid (if actionable pid f then close_finding now f else f)" for f by simp
    then have "\<forall>x \<in> set (t_rows (db_findings d')). \<not> actionable pid x"
      unfolding p(5) t_rows_update sql_update_def set_map by blast
    then show ?thesis by (simp add: filter_empty_conv)
  qed
  ultimately show ?thesis using p closing_length [of now "au_email user" d] by (simp add: sql_update_def)
qed

definition review_db :: db where
  "review_db = sync_db\<lparr>db_findings := \<lparr>t_rows = [sample_finding\<lparr>fd_status := ''in_review''\<rparr>,
     sample_finding\<lparr>fd_id := 2, fd_cve_id := ''CVE-2014-0160'', fd_status := ''closed''\<rparr>], t_serial = 2\<rparr>,
     db_history := \<lparr>t_rows = [\<lparr>fh_id = 1, fh_finding_id = 2, fh_old_status = Some ''open'',
       fh_new_status = ''closed'', fh_changed_by = ''ann'', fh_changed_at = 0, fh_reason = None\<rparr>,
       \<lparr>fh_id = 2, fh_finding_id = 1, fh_old_status = Some ''open'',
       fh_new_status = ''in_review'', fh_changed_by = ''ann'', fh_changed_at = 0, fh_reason = None\<rparr>], t_serial = 2\<rparr>\<rparr>"

lemma review_db_ok: "findings_ok review_db" "trails_ok review_db"
    "delete_product 9 ann local_client 3 review_db = (fst (delete_product 9 ann local_client 3 review_db), Inr 1)"
proof -
  show "findings_ok review_db" by code_simp
  show "trails_ok review_db" by code_simp
  have "snd (delete_product 9 ann local_client 3 review_db) = Inr 1" by code_simp
  then show "delete_product 9 ann local_client 3 review_db = (fst (delete_product 9 ann local_client 3 review_db), Inr 1)"
    by (metis prod.collapse)
qed

theorem delete_product_correct_witness:
  "filter (actionable 3) (t_rows (db_findings (fst (delete_product 9 ann local_client 3 review_db)))) = []"
  using delete_product_correct [OF review_db_ok(1,3)] by blast

text \<open>The history that a deletion writes is true only for findings that were open: the handler records
  \<open>open\<close> as the old status of every finding it closes, so, starting from a truthful history, the history
  is truthful afterwards exactly when no finding of the product was in review, planned or accepted.\<close>

theorem deletion_history_truthful_iff:
  assumes "findings_ok d" and "trails_ok d" and "delete_product now user cl pid d = (d', Inr n)"
  shows "trails_ok d' \<longleftrightarrow> (\<forall>f \<in> set (t_rows (db_findings d)). actionable pid f \<longrightarrow> fd_status f = ''open'')"
  using assms by (rule delete_trails)

theorem deletion_history_truthful_iff_witness:
  "\<not> trails_ok (fst (delete_product 9 ann local_client 3 review_db))"
proof -
  have "\<exists>f \<in> set (t_rows (db_findings review_db)). actionable 3 f \<and> fd_status f \<noteq> ''open''" by code_simp
  then show ?thesis using deletion_history_truthful_iff [OF review_db_ok] by blast
qed

text \<open>C31: No route of the API adds a product. Creating one always fails before its transaction commits, because
  the audit entry of the new row contains timestamps that \<open>json.dumps\<close> refuses; importing many
  reports every single one as an error, because the unique index that \<open>ON CONFLICT\<close> names became partial
  with migration 0011.\<close>

theorem no_product_is_ever_created:
  "fst (create_product now user cl body d) = d \<and> isl (snd (create_product now user cl body d)) \<and>
   db_products (fst (bulk_import now user cl bodies d)) = db_products d \<and>
   db_jobs (fst (bulk_import now user cl bodies d)) = db_jobs d \<and>
   (case snd (bulk_import now user cl bodies d) of
      Inl e \<Rightarrow> length bodies > 500
    | Inr r \<Rightarrow> br_created r = [] \<and> br_skipped r = [] \<and> map fst (br_errors r) = bodies)"
proof -
  have "fst (create_product now user cl body d) = d \<and> isl (snd (create_product now user cl body d))"
    using create_product_fails [of now user cl body d] by auto
  then show ?thesis
    by (simp add: bulk_import_def Let_def import_fold case_prod_beta comp_def)
qed

lemma resync_fold:
  "\<exists>new. t_rows (db_jobs (fst (foldl (resync_one now) (d, n) ps))) = t_rows (db_jobs d) @ new \<and>
     snd (foldl (resync_one now) (d, n) ps) = n + int (length new) \<and>
     (\<forall>p \<in> set ps. list_ex (queued (pr_id p)) (t_rows (db_jobs (fst (foldl (resync_one now) (d, n) ps)))))"
proof (induction ps arbitrary: d n)
  case Nil
  then show ?case by (intro exI [of _ "[]"]) simp
next
  case (Cons p ps)
  obtain d1 job where e: "enqueue_sync now (pr_id p) 100 d = (d1, job)" by fastforce
  obtain new1 where n1: "t_rows (db_jobs d1) = t_rows (db_jobs d) @ new1" "list_ex (queued (pr_id p)) (t_rows (db_jobs d1))"
    "(if job = None then n else n + 1) = n + int (length new1)"
  proof (cases "list_ex (queued (pr_id p)) (t_rows (db_jobs d))")
    case True
    then show thesis using e that [of "[]"] by (simp add: enqueue_sync_def)
  next
    case False
    then show thesis using e that [of "[new_job now (pr_id p) 100 (t_serial (db_jobs d) + 1)]"]
      by (auto simp: enqueue_sync_def insert_row_def Let_def queued_def new_job_def active_def)
  qed
  have one: "resync_one now (d, n) p = (d1, n + int (length new1))"
    using n1(3) by (simp add: resync_one_def e)
  obtain new2 where n2: "t_rows (db_jobs (fst (foldl (resync_one now) (d1, n + int (length new1)) ps))) = t_rows (db_jobs d1) @ new2"
    "snd (foldl (resync_one now) (d1, n + int (length new1)) ps) = n + int (length new1) + int (length new2)"
    "\<forall>p \<in> set ps. list_ex (queued (pr_id p)) (t_rows (db_jobs (fst (foldl (resync_one now) (d1, n + int (length new1)) ps))))"
    using Cons.IH [of d1 "n + int (length new1)"] by blast
  show ?case unfolding foldl.simps one
    by (rule exI [of _ "new1 @ new2"]) (use n1(1,2) n2 in auto)
qed

text \<open>A resynchronisation of everything leaves an active job for every product, deleted ones included, keeps
  every job that was there, and reports exactly how many jobs it added.\<close>

theorem resync_all_covers_every_product:
  "\<exists>new. t_rows (db_jobs (fst (resync_all collate now user cl d))) = t_rows (db_jobs d) @ new \<and>
     rs_count (snd (resync_all collate now user cl d)) = int (length new) \<and>
     list_all (\<lambda>p. list_ex (queued (pr_id p)) (t_rows (db_jobs (fst (resync_all collate now user cl d))))) (t_rows (db_products d))"
proof -
  let ?ps = "order_by (\<lambda>a b. collate (pr_name a) (pr_name b)) (t_rows (db_products d))"
  obtain new where n: "t_rows (db_jobs (fst (foldl (resync_one now) (d, 0) ?ps))) = t_rows (db_jobs d) @ new"
     "snd (foldl (resync_one now) (d, 0) ?ps) = int (length new)"
     "\<forall>p \<in> set ?ps. list_ex (queued (pr_id p)) (t_rows (db_jobs (fst (foldl (resync_one now) (d, 0) ?ps))))"
    using resync_fold [of now d 0 ?ps] by auto
  show ?thesis
  proof (cases "t_rows (db_products d) = []")
    case True
    then show ?thesis by (simp add: resync_all_def)
  next
    case False
    then show ?thesis using n
      by (intro exI [of _ new]) (simp add: resync_all_def Let_def case_prod_beta list_all_iff)
  qed
qed

text \<open>Deletion does not stop the synchronisation: a request to synchronise a deleted product is accepted and
  queues a job for it (which the worker serves like any other, recording new open findings), while
  the product itself is in no list.\<close>

theorem deleted_product_still_synchronised:
  assumes "product_by_id d pid = Some p" and "pr_is_deleted p" and "inet_ok (client_ip cl)"
    and "\<not> list_ex (queued pid) (t_rows (db_jobs d))"
  shows "\<exists>d' i. manual_sync now user cl pid d = (d', Inr (Some i)) \<and> active_job d' pid = Some (new_job now pid 10 i) \<and>
     p \<notin> fst ` set (list_products collate d')"
proof -
  let ?j = "new_job now pid 10 (t_serial (db_jobs d) + 1)"
  let ?d1 = "d\<lparr>db_jobs := \<lparr>t_rows = t_rows (db_jobs d) @ [?j], t_serial = t_serial (db_jobs d) + 1\<rparr>\<rparr>"
  have e: "enqueue_sync now pid 10 d = (?d1, Some (t_serial (db_jobs d) + 1))"
    using assms(4) by (simp add: enqueue_sync_def insert_row_def Let_def new_job_def)
  let ?a = "product_audit user cl ''product.sync'' (Some (py_str_int pid)) [(''job_id'', JInt (t_serial (db_jobs d) + 1))]"
  have m: "manual_sync now user cl pid d = (?d1\<lparr>db_audit := fst (insert_row (audit_row_of now ?a) (db_audit d))\<rparr>,
      Inr (Some (t_serial (db_jobs d) + 1)))"
    using assms(1,3) by (simp add: manual_sync_def e record_in_tx_ok product_audit_def)
  have "queued pid ?j" by (simp add: queued_def new_job_def active_def)
  then have "fetchrow (queued pid) (t_rows (db_jobs d) @ [?j]) = Some ?j"
    using assms(4) by (auto simp: fetchrow_def find_filter filter_empty_conv list_ex_iff)
  moreover have "p \<notin> fst ` set (list_products collate x)" for x
    using assms(2) by (auto simp: list_products_def split: list.splits)
  ultimately show ?thesis unfolding m active_job_def by (intro exI conjI) (rule refl | simp)+
qed

definition gone_db :: db where
  "gone_db = fst (delete_product 9 ann local_client 3 sync_db)"

theorem deleted_product_still_synchronised_witness:
  "\<exists>d'. manual_sync 10 ann local_client 3 gone_db = (d', Inr (Some 1)) \<and>
     list_products (\<lambda>a b. True) d' = [] \<and>
     map fd_status (t_rows (db_findings (fst (process_one_job (11, 12, 13) d')))) = [''closed'', ''closed'', ''open'']"
proof -
  have p: "product_by_id gone_db 3 = Some (mark_deleted 9 ''ann@corp.io'' nginx)" by code_simp
  have del: "pr_is_deleted (mark_deleted 9 ''ann@corp.io'' nginx)" by (simp add: mark_deleted_def)
  have ip: "inet_ok (client_ip local_client)" by code_simp
  have q: "\<not> list_ex (queued 3) (t_rows (db_jobs gone_db))" by code_simp
  obtain d' i where m: "manual_sync 10 ann local_client 3 gone_db = (d', Inr (Some i))"
    using deleted_product_still_synchronised [OF p del ip q] by blast
  have "snd (manual_sync 10 ann local_client 3 gone_db) = Inr (Some 1)" by code_simp
  then have i: "i = 1" using m by simp
  have "list_products (\<lambda>a b. True) (fst (manual_sync 10 ann local_client 3 gone_db)) = []" by code_simp
  moreover have "map fd_status (t_rows (db_findings (fst (process_one_job (11, 12, 13)
      (fst (manual_sync 10 ann local_client 3 gone_db)))))) = [''closed'', ''closed'', ''open'']" by code_simp
  ultimately show ?thesis using m i by simp
qed

end
