(* ===== verification/Py_Datetime.thy ===== *)
theory Py_Datetime
  imports Py_Json Py_Time
begin

text \<open>
  \<open>datetime.fromisoformat\<close> of Python 3.12, as the interpreter's C code scans it: where the date ends,
  the fields of the time, and the UTC offset. \<open>None\<close> is the \<open>ValueError\<close>.
\<close>

definition two_digits :: "string \<Rightarrow> (int \<times> string) option" where
  "two_digits s = (case s of
      a # b # r \<Rightarrow> if is_digit a \<and> is_digit b then Some (digits_val [a, b], r) else None
    | _ \<Rightarrow> None)"

record clock_fields =
  cf_values :: "int list"
  cf_micros :: int
  cf_trailing :: bool

definition parse_fraction :: "int list \<Rightarrow> string \<Rightarrow> clock_fields option" where
  "parse_fraction vs s =
     (let n = min 6 (length s); ds = take n s in
      if py_isdigit ds
      then Some \<lparr>cf_values = vs, cf_micros = digits_val ds * 10 ^ (6 - n),
                 cf_trailing = dropWhile is_digit (drop n s) \<noteq> []\<rparr>
      else None)"

text \<open>\<open>parse_hh_mm_ss_ff\<close>: \<open>n\<close> more fields may follow; the first separator decides for all.\<close>

primrec parse_fields :: "nat \<Rightarrow> bool \<Rightarrow> int list \<Rightarrow> string \<Rightarrow> clock_fields option" where
  "parse_fields 0 sep vs s = parse_fraction vs s"
| "parse_fields (Suc n) sep vs s =
     (case two_digits s of
        None \<Rightarrow> None
      | Some (v, r) \<Rightarrow>
          (case r of
             [] \<Rightarrow> Some \<lparr>cf_values = vs @ [v], cf_micros = 0, cf_trailing = False\<rparr>
           | [c] \<Rightarrow> Some \<lparr>cf_values = vs @ [v], cf_micros = 0, cf_trailing = True\<rparr>
           | c # r' \<Rightarrow>
               (let sep' = (if vs = [] then c = CHR '':'' else sep) in
                if sep' \<and> c = CHR '':'' then parse_fields n sep' (vs @ [v]) r'
                else if c = CHR ''.'' \<or> c = CHR '','' then (if n > 0 then None else parse_fraction (vs @ [v]) r')
                else if \<not> sep' then parse_fields n sep' (vs @ [v]) r
                else None)))"

definition cfield :: "clock_fields \<Rightarrow> nat \<Rightarrow> int" where
  "cfield c i = (if i < length (cf_values c) then cf_values c ! i else 0)"

definition clock_us :: "clock_fields \<Rightarrow> int" where
  "clock_us c = (cfield c 0 * 3600 + cfield c 1 * 60 + cfield c 2) * 1000000 + cf_micros c"

text \<open>The time of day in microseconds and the offset, if any.\<close>

definition parse_time :: "string \<Rightarrow> (int \<times> int option) option" where
  "parse_time s =
     (let t = takeWhile (\<lambda>c. c \<notin> {CHR ''+'', CHR ''-'', CHR ''Z''}) s; z = drop (length t) s in
      case parse_fields 3 True [] t of
        None \<Rightarrow> None
      | Some c \<Rightarrow>
          if \<not> (cfield c 0 < 24 \<and> cfield c 1 < 60 \<and> cfield c 2 < 60) then None
          else (case z of
             [] \<Rightarrow> if cf_trailing c then None else Some (clock_us c, None)
           | d # z' \<Rightarrow>
               if d = CHR ''Z'' then (if z' = [] then Some (clock_us c, Some 0) else None)
               else (case parse_fields 3 True [] z' of
                  None \<Rightarrow> None
                | Some c' \<Rightarrow>
                    if cf_trailing c' \<or> \<not> clock_us c' < day_us then None
                    else Some (clock_us c, Some (if d = CHR ''-'' then - clock_us c' else clock_us c')))))"

definition date_end :: "string \<Rightarrow> nat option" where
  "date_end s =
     (let n = length s in
      if n < 7 then None
      else if n = 7 then Some 7
      else if s ! 4 = CHR ''-'' then
        (if s ! 5 = CHR ''W'' then
           (if n > 8 \<and> s ! 8 = CHR ''-'' then
              (if n = 9 then None else if n > 10 \<and> is_digit (s ! 10) then Some 8 else Some 10)
            else Some 8)
         else Some 10)
      else if s ! 4 = CHR ''W'' then
        (let pos = 7 + length (takeWhile is_digit (drop 7 s)) in
         if pos < 9 then Some pos else if even pos then Some 7 else Some 8)
      else Some 8)"

definition datetime_fromisoformat :: "string \<Rightarrow> py_datetime option" where
  "datetime_fromisoformat s =
     (case date_end s of
        None \<Rightarrow> None
      | Some k \<Rightarrow>
          (case date_fromisoformat (take k s) of
             None \<Rightarrow> None
           | Some d \<Rightarrow>
               if length s \<le> k then Some (DT (d * day_us) None)
               else (case parse_time (drop (k + 1) s) of
                  None \<Rightarrow> None
                | Some (us, off) \<Rightarrow> Some (DT (d * day_us + us) off))))"

lemma fromiso_samples:
  "datetime_fromisoformat ''2021-12-10T10:15:09.143'' = Some (DT 1639131309143000 None)"
  "datetime_fromisoformat ''2021-12-10T10:15:09+00:00'' = Some (DT 1639131309000000 (Some 0))"
  "datetime_fromisoformat ''2021-12-10 10:15-05:30'' = Some (DT 1639131300000000 (Some (-19800000000)))"
  "datetime_fromisoformat ''20211210T101509Z'' = Some (DT 1639131309000000 (Some 0))"
  "datetime_fromisoformat ''2021-12-10'' = Some (DT 1639094400000000 None)"
  "datetime_fromisoformat ''2021-12-10T24:00'' = None"
  "datetime_fromisoformat ''10/12/2021'' = None"
  by code_simp+

end
