(* ===== verification/Nvd_Model.thy ===== *)
theory Nvd_Model
  imports Json_Read Py_Datetime
begin

text \<open>
  \<open>app/models/nvd.py\<close>: one CVE object of the NVD 2.0 format as a record of the columns it fills. The
  validation of the finished record is pydantic's; how it reads a number that is not a JSON number
  is the argument \<open>lax_float\<close> (\<open>None\<close> is its validation error, a \<open>ValueError\<close>). Times are instants.
\<close>

definition parse_dt :: "json \<Rightarrow> int result" where
  "parse_dt v = (case v of
      JStr s \<Rightarrow> (case datetime_fromisoformat (py_replace_char CHR ''Z'' ''+00:00'' s) of
          None \<Rightarrow> Inl (ValueError ''Invalid isoformat string'')
        | Some dt \<Rightarrow> Inr (instant (assume_utc dt)))
    | _ \<Rightarrow> Inl AttributeError)"

record nvd_record =
  nr_cve_id :: string
  nr_published_at :: int
  nr_last_modified_at :: int
  nr_cvss_v3_score :: "rat option"
  nr_cvss_v3_vector :: "string option"
  nr_cvss_v2_score :: "rat option"
  nr_severity :: "string option"
  nr_raw_payload :: json

text \<open>The three values of the first metric entry, \<open>None\<close> where the key is missing.\<close>

definition v3_data :: "(string \<times> json) list \<Rightarrow> string \<Rightarrow> (json option \<times> json option \<times> json option) option result" where
  "v3_data metrics k =
     bind_r (first_entry metrics k) (\<lambda>e. case e of
        None \<Rightarrow> Inr None
      | Some v \<Rightarrow> bind_r (as_dict v) (\<lambda>kvs. bind_r (sub_dict kvs ''cvssData'') (\<lambda>c.
          Inr (Some (obj_get c ''baseScore'', obj_get c ''vectorString'', obj_get c ''baseSeverity'')))))"

definition v2_score :: "(string \<times> json) list \<Rightarrow> json option result" where
  "v2_score metrics =
     bind_r (first_entry metrics ''cvssMetricV2'') (\<lambda>e. case e of
        None \<Rightarrow> Inr None
      | Some v \<Rightarrow> bind_r (as_dict v) (\<lambda>kvs. bind_r (sub_dict kvs ''cvssData'') (\<lambda>c. Inr (obj_get c ''baseScore''))))"

text \<open>\<open>v >= bound\<close> of a JSON value that is not null.\<close>

definition at_least :: "json \<Rightarrow> rat \<Rightarrow> bool result" where
  "at_least v b = (case v of
      JInt n \<Rightarrow> Inr (of_int n \<ge> b) | JFloat x \<Rightarrow> Inr (x \<ge> b) | JBool t \<Rightarrow> Inr ((if t then 1 else 0) \<ge> b)
    | _ \<Rightarrow> Inl (TypeError ''not supported between instances''))"

definition present :: "json option \<Rightarrow> json option" where
  "present v = (if v = Some JNull then None else v)"

definition is_truthy :: "json option \<Rightarrow> bool" where
  "is_truthy v = opt_ex json_truthy v"

text \<open>The severity: of CVSS 3 when there is one, else by the score of CVSS 2, in upper case.\<close>

definition fallback_severity :: "json option \<Rightarrow> json option \<Rightarrow> json option result" where
  "fallback_severity severity v2 =
     (case present v2 of
        None \<Rightarrow> Inr severity
      | Some s \<Rightarrow>
          if is_truthy severity then Inr severity
          else bind_r (at_least s 7) (\<lambda>high. if high then Inr (Some (JStr ''HIGH''))
            else bind_r (at_least s 4) (\<lambda>medium. Inr (Some (JStr (if medium then ''MEDIUM'' else ''LOW''))))))"

definition upper_severity :: "json option \<Rightarrow> json option result" where
  "upper_severity severity = (case severity of
      Some (JStr s) \<Rightarrow> Inr (Some (JStr (py_upper s)))
    | v \<Rightarrow> if is_truthy v then Inl AttributeError else Inr v)"

section \<open>Validation\<close>

definition ValidationError :: py_exn where
  "ValidationError = ValueError ''ValidationError''"

definition text_field :: "json option \<Rightarrow> string option result" where
  "text_field v = (case present v of None \<Rightarrow> Inr None | Some (JStr s) \<Rightarrow> Inr (Some s) | Some _ \<Rightarrow> Inl ValidationError)"

definition float_field :: "(json \<Rightarrow> rat option) \<Rightarrow> json option \<Rightarrow> rat option result" where
  "float_field lax_float v = (case present v of
      None \<Rightarrow> Inr None | Some (JInt n) \<Rightarrow> Inr (Some (of_int n)) | Some (JFloat x) \<Rightarrow> Inr (Some x)
    | Some w \<Rightarrow> (case lax_float w of None \<Rightarrow> Inl ValidationError | Some x \<Rightarrow> Inr (Some x)))"

definition required_text :: "json \<Rightarrow> string result" where
  "required_text v = (case v of JStr s \<Rightarrow> Inr s | _ \<Rightarrow> Inl ValidationError)"

section \<open>The record\<close>

definition inner_object :: "json \<Rightarrow> (string \<times> json) list result" where
  "inner_object v = bind_r (as_dict v) (\<lambda>kvs. as_dict (get_or kvs ''cve'' v))"

definition best_v3 :: "(string \<times> json) list \<Rightarrow> (json option \<times> json option \<times> json option) result" where
  "best_v3 metrics =
     bind_r (v3_data metrics ''cvssMetricV31'') (\<lambda>a. case a of
        Some x \<Rightarrow> Inr x
      | None \<Rightarrow> bind_r (v3_data metrics ''cvssMetricV30'') (\<lambda>b. Inr (case b of Some x \<Rightarrow> x | None \<Rightarrow> (None, None, None))))"

definition from_nvd_cve :: "(json \<Rightarrow> rat option) \<Rightarrow> json \<Rightarrow> nvd_record result" where
  "from_nvd_cve lax_float v =
     bind_r (inner_object v) (\<lambda>kvs.
     bind_r (sub_dict kvs ''metrics'') (\<lambda>metrics.
     bind_r (best_v3 metrics) (\<lambda>(score, vector, severity).
     bind_r (v2_score metrics) (\<lambda>v2.
     bind_r (bind_r (fallback_severity severity v2) upper_severity) (\<lambda>sev.
     bind_r (item kvs ''id'') (\<lambda>i.
     bind_r (bind_r (item kvs ''published'') parse_dt) (\<lambda>pub.
     bind_r (bind_r (item kvs ''lastModified'') parse_dt) (\<lambda>modified.
     bind_r (required_text i) (\<lambda>cve_id.
     bind_r (float_field lax_float score) (\<lambda>s3.
     bind_r (text_field vector) (\<lambda>vec.
     bind_r (float_field lax_float v2) (\<lambda>s2.
     bind_r (text_field sev) (\<lambda>sevt.
       Inr \<lparr>nr_cve_id = cve_id, nr_published_at = pub, nr_last_modified_at = modified, nr_cvss_v3_score = s3,
            nr_cvss_v3_vector = vec, nr_cvss_v2_score = s2, nr_severity = sevt, nr_raw_payload = JObj kvs\<rparr>)))))))))))))"

text \<open>\<open>to_row\<close>: the nine values of the upsert.\<close>

record cve_values =
  cvv_cve_id :: string
  cvv_source :: string
  cvv_raw_payload :: json
  cvv_cvss_v3_score :: "rat option"
  cvv_cvss_v3_vector :: "string option"
  cvv_cvss_v2_score :: "rat option"
  cvv_severity :: "string option"
  cvv_published_at :: int
  cvv_last_modified_at :: int

definition to_row :: "string \<Rightarrow> nvd_record \<Rightarrow> cve_values" where
  "to_row source r = \<lparr>cvv_cve_id = nr_cve_id r, cvv_source = source, cvv_raw_payload = nr_raw_payload r,
     cvv_cvss_v3_score = nr_cvss_v3_score r, cvv_cvss_v3_vector = nr_cvss_v3_vector r,
     cvv_cvss_v2_score = nr_cvss_v2_score r, cvv_severity = nr_severity r,
     cvv_published_at = nr_published_at r, cvv_last_modified_at = nr_last_modified_at r\<rparr>"

section \<open>Properties\<close>

lemma upper_char_idem [simp]: "upper_char (upper_char c) = upper_char c"
proof (cases "is_lower c")
  case True
  then have c: "97 \<le> (of_char c :: nat)" "(of_char c :: nat) \<le> 122"
    by (simp_all add: is_lower_def less_eq_char_def)
  then have "\<not> is_lower (upper_char c)"
    by (simp add: is_lower_def upper_char_def True less_eq_char_def of_char_of)
  then show ?thesis by (simp add: upper_char_def)
next
  case False
  then show ?thesis by (simp add: upper_char_def)
qed

lemma py_upper_idem [simp]: "py_upper (py_upper s) = py_upper s"
  by (simp add: py_upper_def)

lemma item_Inr: "item kvs k = Inr v \<longleftrightarrow> obj_get kvs k = Some v"
  by (simp add: item_def split: option.splits)

lemma required_text_Inr: "required_text v = Inr s \<longleftrightarrow> v = JStr s"
  by (cases v) (auto simp: required_text_def)

lemma from_nvd_cve_cases:
  assumes "from_nvd_cve lax_float v = Inr r"
  obtains kvs metrics score vector severity v2 sev where
    "inner_object v = Inr kvs" "sub_dict kvs ''metrics'' = Inr metrics" "best_v3 metrics = Inr (score, vector, severity)"
    "v2_score metrics = Inr v2" "bind_r (fallback_severity severity v2) upper_severity = Inr sev"
    "obj_get kvs ''id'' = Some (JStr (nr_cve_id r))" "float_field lax_float v2 = Inr (nr_cvss_v2_score r)"
    "text_field sev = Inr (nr_severity r)" "nr_raw_payload r = JObj kvs"
  using assms by (auto simp: from_nvd_cve_def bind_r_Inr item_Inr required_text_Inr split: prod.splits)

text \<open>What a parsed record says about severity: it is in upper case; a record with a CVSS 2 score always has
  one; and without a CVSS 3 severity it is the band of the CVSS 2 score (from 7 high, from 4 medium,
  else low). The payload that is kept is the whole CVE object, and the id is that object's.\<close>

theorem nvd_severity_rule:
  assumes "from_nvd_cve lax_float v = Inr r"
  shows "\<exists>kvs metrics score vector severity v2. inner_object v = Inr kvs \<and> nr_raw_payload r = JObj kvs \<and>
     obj_get kvs ''id'' = Some (JStr (nr_cve_id r)) \<and> sub_dict kvs ''metrics'' = Inr metrics \<and>
     best_v3 metrics = Inr (score, vector, severity) \<and> v2_score metrics = Inr v2 \<and>
     (\<forall>s. nr_severity r = Some s \<longrightarrow> py_upper s = s) \<and>
     (nr_cvss_v2_score r \<noteq> None \<longrightarrow> truthy (nr_severity r)) \<and>
     (\<forall>x. severity = None \<and> v2 = Some (JFloat x) \<longrightarrow>
        nr_severity r = Some (if x \<ge> 7 then ''HIGH'' else if x \<ge> 4 then ''MEDIUM'' else ''LOW''))"
proof -
  obtain kvs metrics score vector severity v2 sev where c:
    "inner_object v = Inr kvs" "sub_dict kvs ''metrics'' = Inr metrics" "best_v3 metrics = Inr (score, vector, severity)"
    "v2_score metrics = Inr v2" "bind_r (fallback_severity severity v2) upper_severity = Inr sev"
    "obj_get kvs ''id'' = Some (JStr (nr_cve_id r))" "float_field lax_float v2 = Inr (nr_cvss_v2_score r)"
    "text_field sev = Inr (nr_severity r)" "nr_raw_payload r = JObj kvs"
    by (rule from_nvd_cve_cases [OF assms])
  obtain sev0 where s0: "fallback_severity severity v2 = Inr sev0" "upper_severity sev0 = Inr sev"
    using c(5) by (auto simp: bind_r_Inr)
  have up: "py_upper s = s" if "nr_severity r = Some s" for s
    using s0(2) c(8) that
    by (auto simp: upper_severity_def text_field_def present_def split: option.splits json.splits if_splits)
  have tr: "truthy (nr_severity r)" if "nr_cvss_v2_score r \<noteq> None"
  proof -
    have "present v2 \<noteq> None" using c(7) that by (cases "present v2") (simp_all add: float_field_def)
    then have "is_truthy sev0"
      using s0(1) by (auto simp: fallback_severity_def is_truthy_def bind_r_Inr split: option.splits if_splits)
    then have "\<exists>t. nr_severity r = Some t \<and> t \<noteq> []" using s0(2) c(8)
      by (auto simp: upper_severity_def is_truthy_def text_field_def present_def py_upper_def eq_commute [of "Some _" "nr_severity r"]
          split: option.splits json.splits if_splits)
    then show ?thesis by (auto simp: truthy_def)
  qed
  have band: "nr_severity r = Some (if x \<ge> 7 then ''HIGH'' else if x \<ge> 4 then ''MEDIUM'' else ''LOW'')"
    if "severity = None" "v2 = Some (JFloat x)" for x
  proof -
    have u: "py_upper ''HIGH'' = ''HIGH''" "py_upper ''MEDIUM'' = ''MEDIUM''" "py_upper ''LOW'' = ''LOW''" by code_simp+
    show ?thesis using s0 c(8) that
      by (auto simp: fallback_severity_def present_def is_truthy_def at_least_def upper_severity_def text_field_def u split: if_splits)
  qed
  show ?thesis using c up tr band by (intro exI conjI) auto
qed

definition heartbleed :: json where
  "heartbleed = JObj [(''cve'', JObj [(''id'', JStr ''CVE-2014-0160''), (''published'', JStr ''2014-04-07T22:55:03.893Z''),
     (''lastModified'', JStr ''2024-11-21T02:01:30.000''),
     (''metrics'', JObj [(''cvssMetricV2'', JArr [JObj [(''cvssData'', JObj [(''baseScore'', JFloat 5)])]])])])]"

theorem nvd_severity_rule_witness:
  "map_option nr_severity (case from_nvd_cve (\<lambda>_. None) heartbleed of Inr r \<Rightarrow> Some r | Inl _ \<Rightarrow> None) = Some (Some ''MEDIUM'')"
proof -
  obtain r where r: "from_nvd_cve (\<lambda>_. None) heartbleed = Inr r"
  proof -
    have "\<not> isl (from_nvd_cve (\<lambda>_. None) heartbleed)" by code_simp
    then show thesis using that by (metis sum.collapse(2))
  qed
  have i: "inner_object heartbleed = Inr [(''id'', JStr ''CVE-2014-0160''), (''published'', JStr ''2014-04-07T22:55:03.893Z''),
     (''lastModified'', JStr ''2024-11-21T02:01:30.000''),
     (''metrics'', JObj [(''cvssMetricV2'', JArr [JObj [(''cvssData'', JObj [(''baseScore'', JFloat 5)])]])])]"
    by code_simp
  let ?m = "[(''cvssMetricV2'', JArr [JObj [(''cvssData'', JObj [(''baseScore'', JFloat 5)])]])]"
  have m: "sub_dict [(''id'', JStr ''CVE-2014-0160''), (''published'', JStr ''2014-04-07T22:55:03.893Z''),
     (''lastModified'', JStr ''2024-11-21T02:01:30.000''), (''metrics'', JObj ?m)] ''metrics'' = Inr ?m"
    "best_v3 ?m = Inr (None, None, None)" "v2_score ?m = Inr (Some (JFloat 5))" by code_simp+
  have "nr_severity r = Some ''MEDIUM''"
    using nvd_severity_rule [OF r] i m by (auto simp: sub_dict_def)
  then show ?thesis using r by simp
qed

end
