(* ===== verification/Nvd_Clients.thy ===== *)
theory Nvd_Clients
  imports Nvd_Model
begin

text \<open>
  \<open>app/ingestion/vulncheck_client.py\<close> and \<open>app/ingestion/nvd_client.py\<close>: the windows of a delta, the
  pages of a window, and the records they yield. The HTTP service is an argument that answers the
  \<open>n\<close>-th request for a page; a generator is the list of what it yields and the exception it ends
  with, if any. Loops run on fuel: \<open>None\<close> means that the generator is still waiting for answers.
\<close>

section \<open>Generators\<close>

type_synonym stream = "nvd_record list \<times> py_exn option"

text \<open>\<open>async for r in first: yield r\<close>, then the rest, unless the first raised.\<close>

definition followed_by :: "stream \<Rightarrow> stream \<Rightarrow> stream" where
  "followed_by a b = (if snd a = None then (fst a @ fst b, snd b) else a)"

text \<open>The loop over the items of a page: a record that is malformed is skipped, any other exception ends it.\<close>

fun parse_items :: "(json \<Rightarrow> rat option) \<Rightarrow> json list \<Rightarrow> stream" where
  "parse_items lax_float [] = ([], None)"
| "parse_items lax_float (v # vs) = (case from_nvd_cve lax_float v of
      Inr r \<Rightarrow> (r # fst (parse_items lax_float vs), snd (parse_items lax_float vs))
    | Inl (KeyError _) \<Rightarrow> parse_items lax_float vs
    | Inl (ValueError _) \<Rightarrow> parse_items lax_float vs
    | Inl e \<Rightarrow> ([], Some e))"

record response =
  r_status :: int
  r_retry_after :: "string option"
  r_body :: "json option"

text \<open>\<open>raise_for_status\<close> raises on everything that is no success; \<open>json()\<close> on what is no JSON.\<close>

definition checked_body :: "response \<Rightarrow> (string \<times> json) list result" where
  "checked_body r =
     (if \<not> (200 \<le> r_status r \<and> r_status r < 300) then Inl (HttpError ''HTTPStatusError'')
      else case r_body r of None \<Rightarrow> Inl (ValueError ''JSONDecodeError'') | Some v \<Rightarrow> as_dict v)"

definition retry_after_seconds :: "response \<Rightarrow> int result" where
  "retry_after_seconds r = (case r_retry_after r of
      None \<Rightarrow> Inr 30
    | Some s \<Rightarrow> (case py_int s of None \<Rightarrow> Inl (ValueError ''invalid literal for int()'') | Some n \<Rightarrow> Inr n))"

section \<open>Windows\<close>

definition CHUNK_DAYS :: int where "CHUNK_DAYS = 119"

function windows :: "int \<Rightarrow> int \<Rightarrow> (int \<times> int) list" where
  "windows now current = (if current < now
     then (let e = min (current + CHUNK_DAYS * day_us) now in (current, e) # windows now e) else [])"
  by pat_completeness auto
termination
  by (relation "measure (\<lambda>(now, current). nat (now - current))") (auto simp: CHUNK_DAYS_def day_us_def)

declare windows.simps [simp del]

text \<open>\<open>datetime(now.year, 1, 1, tzinfo=UTC)\<close>.\<close>

definition year_start :: "int \<Rightarrow> int" where
  "year_start now = (case civil_from_days (now div day_us) of (y, _, _) \<Rightarrow> days_from_civil y 1 1 * day_us)"

definition delta_start :: "int \<Rightarrow> int option \<Rightarrow> int" where
  "delta_start now last_mod = (case last_mod of None \<Rightarrow> year_start now | Some t \<Rightarrow> t)"

section \<open>VulnCheck\<close>

definition VC_MAX_PAGES :: int where "VC_MAX_PAGES = 500"

text \<open>\<open>page >= total_pages\<close> against the number in the answer; anything but a number raises.\<close>

definition is_last_page :: "int \<Rightarrow> (string \<times> json) list \<Rightarrow> bool result" where
  "is_last_page page meta = (case get_or meta ''total_pages'' (JInt 1) of
      JInt n \<Rightarrow> Inr (page \<ge> n) | JFloat x \<Rightarrow> Inr (of_int page \<ge> x) | JBool b \<Rightarrow> Inr (page \<ge> (if b then 1 else 0))
    | _ \<Rightarrow> Inl (TypeError ''not supported between instances''))"

primrec vc_iter_pages ::
    "nat \<Rightarrow> (json \<Rightarrow> rat option) \<Rightarrow> (nat \<Rightarrow> int \<Rightarrow> response result) \<Rightarrow> nat \<Rightarrow> int \<Rightarrow> stream option" where
  "vc_iter_pages 0 lax_float srv n page = (if page \<le> VC_MAX_PAGES then None else Some ([], None))"
| "vc_iter_pages (Suc fuel) lax_float srv n page =
     (if \<not> page \<le> VC_MAX_PAGES then Some ([], None)
      else case srv n page of
        Inl e \<Rightarrow> Some ([], Some e)
      | Inr resp \<Rightarrow>
          if r_status resp = 429
          then (case retry_after_seconds resp of
              Inl e \<Rightarrow> Some ([], Some e)
            | Inr _ \<Rightarrow> vc_iter_pages fuel lax_float srv (n + 1) page)
          else (case bind_r (checked_body resp) (\<lambda>body. bind_r (list_or_empty (obj_get body ''data'')) (\<lambda>items. Inr (body, items))) of
              Inl e \<Rightarrow> Some ([], Some e)
            | Inr (body, items) \<Rightarrow>
                if items = [] then Some ([], None)
                else (let s = parse_items lax_float items in
                  if snd s \<noteq> None then Some s
                  else (case bind_r (sub_dict body ''_meta'') (is_last_page page) of
                      Inl e \<Rightarrow> Some (fst s, Some e)
                    | Inr True \<Rightarrow> Some s
                    | Inr False \<Rightarrow> map_option (followed_by s) (vc_iter_pages fuel lax_float srv (n + 1) (page + 1))))))"

text \<open>The windows one after the other, each with its own answers.\<close>

primrec run_windows :: "((int \<times> int) \<Rightarrow> stream option) \<Rightarrow> (int \<times> int) list \<Rightarrow> stream option" where
  "run_windows pages [] = Some ([], None)"
| "run_windows pages (w # ws) = (case pages w of
      None \<Rightarrow> None
    | Some s \<Rightarrow> if snd s \<noteq> None then Some s else map_option (followed_by s) (run_windows pages ws))"

definition vc_iter_delta ::
    "nat \<Rightarrow> (json \<Rightarrow> rat option) \<Rightarrow> ((int \<times> int) \<Rightarrow> nat \<Rightarrow> int \<Rightarrow> response result) \<Rightarrow> int \<Rightarrow> int option \<Rightarrow> stream option" where
  "vc_iter_delta fuel lax_float srv now last_mod =
     run_windows (\<lambda>w. vc_iter_pages fuel lax_float (srv w) 0 1) (windows now (delta_start now last_mod))"

text \<open>The bulk backup: the list of files, then the lines of each. Only broken JSON and missing keys are skipped.\<close>

definition url_entry :: "json \<Rightarrow> string option result" where
  "url_entry v = (case v of
      JObj kvs \<Rightarrow> (case obj_get kvs ''url'' of None \<Rightarrow> Inr None | Some (JStr u) \<Rightarrow> Inr (Some u) | Some _ \<Rightarrow> Inl (TypeError ''url''))
    | JStr s \<Rightarrow> if py_in ''url'' s then Inl (TypeError ''string indices must be integers'') else Inr None
    | JArr xs \<Rightarrow> if JStr ''url'' \<in> set xs then Inl (TypeError ''list indices must be integers'') else Inr None
    | _ \<Rightarrow> Inl (TypeError ''argument is not iterable''))"

definition fetch_backup_urls :: "response result \<Rightarrow> string list option result" where
  "fetch_backup_urls answer = bind_r answer (\<lambda>resp.
     if r_status resp \<in> {402, 403} then Inr None
     else bind_r (checked_body resp) (\<lambda>body. case obj_get body ''data'' of
         None \<Rightarrow> Inr (Some [])
       | Some (JArr xs) \<Rightarrow> bind_r (map_r url_entry xs) (\<lambda>us. Inr (Some (List.map_filter id us)))
       | Some _ \<Rightarrow> Inl (TypeError ''object is not iterable'')))"

fun parse_lines :: "(json \<Rightarrow> rat option) \<Rightarrow> (string \<Rightarrow> json option) \<Rightarrow> string list \<Rightarrow> stream" where
  "parse_lines lax_float loads [] = ([], None)"
| "parse_lines lax_float loads (l # ls) =
     (if py_strip l = [] then parse_lines lax_float loads ls
      else case loads (py_strip l) of
        None \<Rightarrow> parse_lines lax_float loads ls
      | Some v \<Rightarrow> (case from_nvd_cve lax_float v of
            Inr r \<Rightarrow> (r # fst (parse_lines lax_float loads ls), snd (parse_lines lax_float loads ls))
          | Inl (KeyError _) \<Rightarrow> parse_lines lax_float loads ls
          | Inl e \<Rightarrow> ([], Some e)))"

primrec stream_files :: "(json \<Rightarrow> rat option) \<Rightarrow> (string \<Rightarrow> json option) \<Rightarrow> (string \<Rightarrow> string list result) \<Rightarrow> string list \<Rightarrow> stream" where
  "stream_files lax_float loads fetch [] = ([], None)"
| "stream_files lax_float loads fetch (u # us) = (case fetch u of
      Inl e \<Rightarrow> ([], Some e)
    | Inr ls \<Rightarrow> followed_by (parse_lines lax_float loads ls) (stream_files lax_float loads fetch us))"

definition iter_bulk ::
    "nat \<Rightarrow> (json \<Rightarrow> rat option) \<Rightarrow> (string \<Rightarrow> json option) \<Rightarrow> response result \<Rightarrow> (string \<Rightarrow> string list result) \<Rightarrow>
     ((int \<times> int) \<Rightarrow> nat \<Rightarrow> int \<Rightarrow> response result) \<Rightarrow> int \<Rightarrow> stream option" where
  "iter_bulk fuel lax_float loads index fetch srv now = (case fetch_backup_urls index of
      Inl e \<Rightarrow> Some ([], Some e)
    | Inr None \<Rightarrow> vc_iter_delta fuel lax_float srv now None
    | Inr (Some urls) \<Rightarrow> Some (stream_files lax_float loads fetch urls))"

section \<open>NVD\<close>

definition NVD_MAX_PAGES :: int where "NVD_MAX_PAGES = 1000"

text \<open>\<open>start_index >= total_results\<close>.\<close>

definition reached :: "int \<Rightarrow> json \<Rightarrow> bool result" where
  "reached i v = (case v of
      JInt n \<Rightarrow> Inr (i \<ge> n) | JFloat x \<Rightarrow> Inr (of_int i \<ge> x) | JBool b \<Rightarrow> Inr (i \<ge> (if b then 1 else 0))
    | _ \<Rightarrow> Inl (TypeError ''not supported between instances''))"

definition vulnerabilities :: "(string \<times> json) list \<Rightarrow> json list result" where
  "vulnerabilities body = (case get_or body ''vulnerabilities'' (JArr []) of
      JArr xs \<Rightarrow> Inr xs | _ \<Rightarrow> Inl (TypeError ''object has no len()''))"

primrec nvd_iter_pages ::
    "nat \<Rightarrow> (json \<Rightarrow> rat option) \<Rightarrow> (nat \<Rightarrow> int \<Rightarrow> response result) \<Rightarrow> nat \<Rightarrow> int \<Rightarrow> int \<Rightarrow> stream option" where
  "nvd_iter_pages 0 lax_float srv n start_index page_num = (if page_num < NVD_MAX_PAGES then None else Some ([], None))"
| "nvd_iter_pages (Suc fuel) lax_float srv n start_index page_num =
     (if \<not> page_num < NVD_MAX_PAGES then Some ([], None)
      else case srv n start_index of
        Inl e \<Rightarrow> Some ([], Some e)
      | Inr resp \<Rightarrow>
          if r_status resp = 429
          then (case retry_after_seconds resp of
              Inl e \<Rightarrow> Some ([], Some e)
            | Inr _ \<Rightarrow> nvd_iter_pages fuel lax_float srv (n + 1) start_index page_num)
          else if r_status resp = 404 then Some ([], None)
          else (case bind_r (checked_body resp) (\<lambda>body. bind_r (vulnerabilities body) (\<lambda>vulns. Inr (body, vulns))) of
              Inl e \<Rightarrow> Some ([], Some e)
            | Inr (body, vulns) \<Rightarrow>
                (let s = parse_items lax_float vulns; i = start_index + int (length vulns) in
                  if snd s \<noteq> None then Some s
                  else (case reached i (get_or body ''totalResults'' (JInt 0)) of
                      Inl e \<Rightarrow> Some (fst s, Some e)
                    | Inr finished \<Rightarrow> if finished \<or> vulns = [] then Some s
                        else map_option (followed_by s) (nvd_iter_pages fuel lax_float srv (n + 1) i (page_num + 1))))))"

text \<open>An initial load asks for publication dates, a delta for modification dates.\<close>

definition nvd_iter_delta ::
    "nat \<Rightarrow> (json \<Rightarrow> rat option) \<Rightarrow> (bool \<Rightarrow> (int \<times> int) \<Rightarrow> nat \<Rightarrow> int \<Rightarrow> response result) \<Rightarrow> int \<Rightarrow> int option \<Rightarrow> stream option" where
  "nvd_iter_delta fuel lax_float srv now last_mod =
     run_windows (\<lambda>w. nvd_iter_pages fuel lax_float (srv (last_mod = None) w) 0 0 0) (windows now (delta_start now last_mod))"

section \<open>The windows partition the range\<close>

lemma windows_bounds: "list_all (\<lambda>(a, b). start \<le> a \<and> a < b \<and> b \<le> now \<and> b - a \<le> CHUNK_DAYS * day_us) (windows now start)"
proof (induction now start rule: windows.induct)
  case (1 now current)
  let ?e = "min (current + CHUNK_DAYS * day_us) now"
  show ?case
  proof (cases "current < now")
    case True
    have e: "current < ?e" using True by (simp add: CHUNK_DAYS_def day_us_def)
    have "list_all (\<lambda>(a, b). ?e \<le> a \<and> a < b \<and> b \<le> now \<and> b - a \<le> CHUNK_DAYS * day_us) (windows now ?e)"
      using 1 True by simp
    then have "list_all (\<lambda>(a, b). current \<le> a \<and> a < b \<and> b \<le> now \<and> b - a \<le> CHUNK_DAYS * day_us) (windows now ?e)"
      using e by (fastforce simp: list_all_iff)
    then show ?thesis using True e by (subst windows.simps) (simp add: Let_def)
  next
    case False
    then show ?thesis by (simp add: windows.simps)
  qed
qed

lemma windows_count:
  "length (filter (\<lambda>(a, b). a \<le> t \<and> t < b) (windows now start)) = (if start \<le> t \<and> t < now then 1 else 0)"
proof (induction now start rule: windows.induct)
  case (1 now current)
  let ?e = "min (current + CHUNK_DAYS * day_us) now"
  show ?case
  proof (cases "current < now")
    case True
    have "current < ?e" using True by (simp add: CHUNK_DAYS_def day_us_def)
    then show ?thesis using 1 True by (subst windows.simps) (auto simp: Let_def)
  next
    case False
    then show ?thesis by (simp add: windows.simps)
  qed
qed

section \<open>What a page yields\<close>

text \<open>Exceptions that end a generator, and the records of the items that are well formed.\<close>

definition fatal :: "nvd_record result \<Rightarrow> bool" where
  "fatal r = (case r of Inr _ \<Rightarrow> False | Inl (KeyError _) \<Rightarrow> False | Inl (ValueError _) \<Rightarrow> False | Inl _ \<Rightarrow> True)"

definition well_formed :: "(json \<Rightarrow> rat option) \<Rightarrow> json \<Rightarrow> nvd_record option" where
  "well_formed lax_float v = (case from_nvd_cve lax_float v of Inl _ \<Rightarrow> None | Inr r \<Rightarrow> Some r)"

lemma parse_items_records:
  "\<forall>v \<in> set vs. \<not> fatal (from_nvd_cve lax_float v) \<Longrightarrow>
   parse_items lax_float vs = (List.map_filter (well_formed lax_float) vs, None)"
  by (induction vs) (auto simp: fatal_def well_formed_def List.map_filter_simps split: sum.splits py_exn.splits)

text \<open>A service that answers 429 at the requests \<open>busy\<close> and otherwise serves the list in pages of \<open>p\<close>.\<close>

definition nvd_service :: "(nat \<Rightarrow> bool) \<Rightarrow> nat \<Rightarrow> json list \<Rightarrow> nat \<Rightarrow> int \<Rightarrow> response result" where
  "nvd_service busy p xs n i =
     (if busy n then Inr \<lparr>r_status = 429, r_retry_after = None, r_body = None\<rparr>
      else Inr \<lparr>r_status = 200, r_retry_after = None, r_body = Some (JObj
        [(''totalResults'', JInt (int (length xs))), (''vulnerabilities'', JArr (take p (drop (nat i) xs)))])\<rparr>)"

lemma map_filter_append: "List.map_filter f (xs @ ys) = List.map_filter f xs @ List.map_filter f ys"
  by (simp add: List.map_filter_def)

lemma nvd_page_step:
  assumes "srv n i = Inr \<lparr>r_status = 200, r_retry_after = None, r_body = Some (JObj
      [(''totalResults'', JInt t), (''vulnerabilities'', JArr vs)])\<rparr>"
    and "k < NVD_MAX_PAGES" and "parse_items lax_float vs = (rs, None)"
  shows "nvd_iter_pages (Suc fuel) lax_float srv n i k =
     (if i + int (length vs) \<ge> t \<or> vs = [] then Some (rs, None)
      else map_option (followed_by (rs, None)) (nvd_iter_pages fuel lax_float srv (n + 1) (i + int (length vs)) (k + 1)))"
  using assms by (simp add: checked_body_def as_dict_def vulnerabilities_def get_or_def obj_get_def reached_def)

lemma nvd_pages_from:
  assumes "\<forall>v \<in> set xs. \<not> fatal (from_nvd_cve lax_float v)" and "0 < p" and "\<forall>m \<ge> R. \<not> busy m"
    and "i \<le> length xs" and "length xs - i \<le> p * (1000 - k)" and "k < 1000" and "R - n + (1000 - k) \<le> fuel"
  shows "nvd_iter_pages fuel lax_float (nvd_service busy p xs) n (int i) (int k) =
     Some (List.map_filter (well_formed lax_float) (drop i xs), None)"
  using assms(4-7)
proof (induction fuel arbitrary: n i k)
  case 0
  then show ?case by simp
next
  case (Suc fuel)
  show ?case
  proof (cases "busy n")
    case True
    then have "n < R" using assms(3) by (meson not_le)
    then have "nvd_iter_pages fuel lax_float (nvd_service busy p xs) (n + 1) (int i) (int k) =
        Some (List.map_filter (well_formed lax_float) (drop i xs), None)"
      using Suc.prems by (intro Suc.IH) simp_all
    moreover have "nvd_service busy p xs n (int i) = Inr \<lparr>r_status = 429, r_retry_after = None, r_body = None\<rparr>"
      using True by (simp add: nvd_service_def)
    ultimately show ?thesis using Suc.prems(3) by (simp add: NVD_MAX_PAGES_def retry_after_seconds_def)
  next
    case False
    let ?pg = "take p (drop i xs)" and ?j = "min (i + p) (length xs)"
    have resp: "nvd_service busy p xs n (int i) = Inr \<lparr>r_status = 200, r_retry_after = None, r_body = Some (JObj
        [(''totalResults'', JInt (int (length xs))), (''vulnerabilities'', JArr ?pg)])\<rparr>"
      using False by (simp add: nvd_service_def)
    have "\<forall>v \<in> set ?pg. \<not> fatal (from_nvd_cve lax_float v)"
      using assms(1) by (meson in_set_dropD in_set_takeD)
    note items = parse_items_records [OF this]
    have len: "int i + int (length ?pg) = int ?j" using Suc.prems(1) by simp
    have split: "drop i xs = ?pg @ drop ?j xs"
    proof (cases "i + p \<le> length xs")
      case True
      then have "drop ?j xs = drop p (drop i xs)" by (simp add: add.commute)
      then show ?thesis by (simp only: append_take_drop_id)
    next
      case False
      then show ?thesis by simp
    qed
    have e: "int i + int (length ?pg) \<ge> int (length xs) \<or> ?pg = [] \<longleftrightarrow> ?j \<ge> length xs"
      unfolding len using assms(2) by auto
    have k: "int k < NVD_MAX_PAGES" "int k + 1 = int (k + 1)" using Suc.prems(3) by (simp_all add: NVD_MAX_PAGES_def)
    note step = nvd_page_step [where srv = "nvd_service busy p xs" and n = n and fuel = fuel, OF resp k(1) items,
        unfolded e, unfolded len k(2)]
    show ?thesis
    proof (cases "?j \<ge> length xs")
      case True
      then show ?thesis unfolding step using items split by simp
    next
      case False
      then have j: "?j = i + p" "i + p < length xs" by simp_all
      have k: "k + 1 < 1000" using Suc.prems(2,3) j(2) by (cases "k = 999") simp_all
      have "length xs - ?j \<le> p * (1000 - (k + 1))"
        using Suc.prems(2,3) j by (simp add: diff_mult_distrib2)
      then have "nvd_iter_pages fuel lax_float (nvd_service busy p xs) (n + 1) (int ?j) (int (k + 1)) =
          Some (List.map_filter (well_formed lax_float) (drop ?j xs), None)"
        using Suc.prems k j by (intro Suc.IH) simp_all
      moreover have "List.map_filter (well_formed lax_float) (drop i xs) =
          List.map_filter (well_formed lax_float) ?pg @ List.map_filter (well_formed lax_float) (drop ?j xs)"
        using arg_cong [OF split, of "List.map_filter (well_formed lax_float)"] by (simp only: map_filter_append)
      ultimately show ?thesis unfolding step using False by (simp only: if_False option.map followed_by_def fst_conv snd_conv) simp
    qed
  qed
qed

section \<open>Properties\<close>

text \<open>The windows of a delta partition the time since the last checkpoint: each lies inside it and is at most
  119 days long, every instant from the start up to the time of the call is in exactly one of them,
  and no other instant is in any.\<close>

theorem delta_windows_partition:
  "list_all (\<lambda>(a, b). start \<le> a \<and> a < b \<and> b \<le> now \<and> b - a \<le> 119 * day_us) (windows now start) \<and>
   length (filter (\<lambda>(a, b). a \<le> t \<and> t < b) (windows now start)) = (if start \<le> t \<and> t < now then 1 else 0)"
  using windows_bounds [of start now] windows_count [of t now start] by (simp add: CHUNK_DAYS_def)

text \<open>A window of the NVD is read completely: against a service that serves a list of at most a thousand pages
  and refuses some of the first requests with 429, the generator returns and yields the record of
  every well-formed item exactly once and in order, skipping the malformed ones.\<close>

theorem nvd_window_read_completely:
  assumes "\<forall>v \<in> set xs. \<not> fatal (from_nvd_cve lax_float v)" and "0 < p" and "length xs \<le> p * 1000"
    and "\<forall>m \<ge> R. \<not> busy m"
  shows "nvd_iter_pages (R + 1000) lax_float (nvd_service busy p xs) 0 0 0 =
     Some (List.map_filter (well_formed lax_float) xs, None)"
  using nvd_pages_from [OF assms(1,2,4), of 0 0 0 "R + 1000"] assms(3) by simp

definition sample_cve :: "string \<Rightarrow> json" where
  "sample_cve i = JObj [(''cve'', JObj [(''id'', JStr i), (''published'', JStr ''2021-12-10T10:15:09.143''),
     (''lastModified'', JStr ''2023-11-07T03:39:36.747''), (''metrics'', JObj [(''cvssMetricV2'',
       JArr [JObj [(''cvssData'', JObj [(''baseScore'', JFloat (93 / 10))])]])])])]"

theorem nvd_window_read_completely_witness:
  "map_option (\<lambda>s. (map nr_cve_id (fst s), snd s))
     (nvd_iter_pages (2 + 1000) (\<lambda>_. None) (nvd_service (\<lambda>n. n < 2) 2
       [sample_cve ''CVE-1'', JObj [(''id'', JStr ''CVE-2'')], sample_cve ''CVE-3'']) 0 0 0)
   = Some ([''CVE-1'', ''CVE-3''], None)"
proof -
  let ?xs = "[sample_cve ''CVE-1'', JObj [(''id'', JStr ''CVE-2'')], sample_cve ''CVE-3'']"
  have f: "\<not> fatal (from_nvd_cve (\<lambda>_. None) (sample_cve ''CVE-1''))"
    "\<not> fatal (from_nvd_cve (\<lambda>_. None) (JObj [(''id'', JStr ''CVE-2'')]))"
    "\<not> fatal (from_nvd_cve (\<lambda>_. None) (sample_cve ''CVE-3''))" by code_simp+
  then have xs: "\<forall>v \<in> set ?xs. \<not> fatal (from_nvd_cve (\<lambda>_. None) v)" by simp
  have "nvd_iter_pages (2 + 1000) (\<lambda>_. None) (nvd_service (\<lambda>n. n < 2) 2 ?xs) 0 0 0 =
     Some (List.map_filter (well_formed (\<lambda>_. None)) ?xs, None)"
    by (rule nvd_window_read_completely [OF xs]) simp_all
  moreover have "map nr_cve_id (List.map_filter (well_formed (\<lambda>_. None)) ?xs) = [''CVE-1'', ''CVE-3'']" by code_simp
  ultimately show ?thesis by simp
qed

text \<open>The page cap does not bound the work: against a service that keeps answering 429, a generator of
  either client never returns, however many requests it is given, because a refused page is retried
  without being counted.\<close>

theorem rate_limited_for_ever:
  assumes "\<forall>n i. \<exists>r. srv n i = Inr r \<and> r_status r = 429 \<and> r_retry_after r = None" and "page \<le> 500" and "num < 1000"
  shows "vc_iter_pages fuel lax_float srv n page = None \<and> nvd_iter_pages fuel lax_float srv n i num = None"
proof (induction fuel arbitrary: n)
  case 0
  then show ?case using assms(2,3) by (simp add: VC_MAX_PAGES_def NVD_MAX_PAGES_def)
next
  case (Suc fuel)
  obtain r where "srv n page = Inr r" "r_status r = 429" "r_retry_after r = None" using assms(1) by blast
  moreover obtain r' where "srv n i = Inr r'" "r_status r' = 429" "r_retry_after r' = None" using assms(1) by blast
  ultimately show ?case using Suc assms(2,3) by (simp add: VC_MAX_PAGES_def NVD_MAX_PAGES_def retry_after_seconds_def)
qed

theorem rate_limited_for_ever_witness:
  "vc_iter_pages 100000 (\<lambda>_. None) (\<lambda>n i. Inr \<lparr>r_status = 429, r_retry_after = None, r_body = None\<rparr>) 0 1 = None"
  using rate_limited_for_ever [where srv = "\<lambda>n i. Inr \<lparr>r_status = 429, r_retry_after = None, r_body = None\<rparr>"
      and page = 1 and num = 0] by simp

text \<open>One malformed date aborts a bulk load: a line whose record has the id and the fields but a date that
  cannot be parsed ends the stream of the file with an exception, losing everything after it, while
  the same item in a delta page is skipped.\<close>

theorem bad_date_aborts_bulk:
  assumes "from_nvd_cve lax_float v = Inl (ValueError e)" and "loads (py_strip l) = Some v" and "py_strip l \<noteq> []"
  shows "parse_lines lax_float loads (l # ls) = ([], Some (ValueError e)) \<and>
     parse_items lax_float (v # vs) = parse_items lax_float vs"
  using assms by simp

theorem bad_date_aborts_bulk_witness:
  "parse_lines (\<lambda>_. None) (\<lambda>s. if s = ''x'' then Some (JObj [(''id'', JStr ''CVE-1''), (''published'', JStr ''n/a'')]) else None) [''x'', ''y'']
     = ([], Some (ValueError ''Invalid isoformat string''))"
proof -
  have "from_nvd_cve (\<lambda>_. None) (JObj [(''id'', JStr ''CVE-1''), (''published'', JStr ''n/a'')]) =
      Inl (ValueError ''Invalid isoformat string'')" by code_simp
  moreover have "py_strip ''x'' = ''x''" by code_simp
  ultimately show ?thesis
    using bad_date_aborts_bulk [of "\<lambda>_. None" "JObj [(''id'', JStr ''CVE-1''), (''published'', JStr ''n/a'')]"
      "''Invalid isoformat string''" "\<lambda>s. if s = ''x'' then Some (JObj [(''id'', JStr ''CVE-1''), (''published'', JStr ''n/a'')]) else None" "''x''"]
    by simp
qed

end
