(* ===== verification/Ingest.thy ===== *)
theory Ingest
  imports Database Circuit_Breaker Nvd_Clients "HOL-Library.Option_ord"
begin

text \<open>
  \<open>app/ingestion/ingest_worker.py\<close>: the upsert of CVE records in batches, the checkpoints in
  \<open>sync_state\<close>, and the choice between the two sources. A client is the generator it returns for a last
  modification date; a NUMERIC column keeps the rational it is given.
\<close>

section \<open>Upsert\<close>

definition UPSERT_BATCH :: nat where "UPSERT_BATCH = 500"

definition new_cve :: "int \<Rightarrow> cve_values \<Rightarrow> int \<Rightarrow> cve_row" where
  "new_cve now v n = \<lparr>cv_id = n, cv_cve_id = cvv_cve_id v, cv_source = cvv_source v, cv_raw_payload = cvv_raw_payload v,
     cv_cvss_v3_score = cvv_cvss_v3_score v, cv_cvss_v3_vector = cvv_cvss_v3_vector v,
     cv_cvss_v2_score = cvv_cvss_v2_score v, cv_severity = cvv_severity v, cv_epss_score = None,
     cv_epss_percentile = None, cv_epss_updated_at = None, cv_is_kev = False, cv_kev_added_date = None,
     cv_published_at = cvv_published_at v, cv_last_modified_at = cvv_last_modified_at v, cv_created_at = now,
     cv_updated_at = now, cv_has_public_poc = None, cv_has_nuclei_template = None, cv_exploitability_updated_at = None\<rparr>"

definition refresh_cve :: "int \<Rightarrow> cve_values \<Rightarrow> cve_row \<Rightarrow> cve_row" where
  "refresh_cve now v c = c\<lparr>cv_raw_payload := cvv_raw_payload v, cv_cvss_v3_score := cvv_cvss_v3_score v,
     cv_cvss_v3_vector := cvv_cvss_v3_vector v, cv_cvss_v2_score := cvv_cvss_v2_score v, cv_severity := cvv_severity v,
     cv_last_modified_at := cvv_last_modified_at v, cv_source := cvv_source v, cv_updated_at := now\<rparr>"

definition upsert_cve :: "int \<Rightarrow> cve_row table \<Rightarrow> cve_values \<Rightarrow> cve_row table" where
  "upsert_cve now t v =
     (if list_ex (\<lambda>c. cv_cve_id c = cvv_cve_id v) (t_rows t)
      then update_rows (\<lambda>c. cv_cve_id c = cvv_cve_id v \<and> cv_last_modified_at c < cvv_last_modified_at v) (refresh_cve now v) t
      else fst (insert_row (new_cve now v) t))"

text \<open>The CHECK constraints are tested on the proposed row, before the conflict.\<close>

definition values_check :: "cve_values \<Rightarrow> bool" where
  "values_check v \<longleftrightarrow> cvv_source v \<in> {''vulncheck_nvd'', ''nvd_api'', ''circl''} \<and>
     (case cvv_severity v of None \<Rightarrow> True | Some s \<Rightarrow> s \<in> {''CRITICAL'', ''HIGH'', ''MEDIUM'', ''LOW'', ''NONE''})"

record progress =
  pg_db :: db
  pg_processed :: int
  pg_errors :: int

text \<open>\<open>_flush\<close>: \<open>executemany\<close> stores the whole batch or none of it.\<close>

definition flush :: "int \<Rightarrow> cve_values list \<Rightarrow> progress \<Rightarrow> progress" where
  "flush now batch p =
     (if batch = [] then p
      else if list_all values_check batch
      then p\<lparr>pg_db := (pg_db p)\<lparr>db_cves := foldl (upsert_cve now) (db_cves (pg_db p)) batch\<rparr>,
             pg_processed := pg_processed p + int (length batch)\<rparr>
      else p\<lparr>pg_errors := pg_errors p + int (length batch)\<rparr>)"

primrec feed :: "int \<Rightarrow> string \<Rightarrow> cve_values list \<Rightarrow> progress \<Rightarrow> nvd_record list \<Rightarrow> cve_values list \<times> progress" where
  "feed now source batch p [] = (batch, p)"
| "feed now source batch p (r # rs) =
     (let batch' = batch @ [to_row source r] in
      if length batch' \<ge> UPSERT_BATCH then feed now source [] (flush now batch' p) rs
      else feed now source batch' p rs)"

definition upsert_batched :: "int \<Rightarrow> string \<Rightarrow> stream \<Rightarrow> (db, int \<times> int) action" where
  "upsert_batched now source records d =
     (case feed now source [] \<lparr>pg_db = d, pg_processed = 0, pg_errors = 0\<rparr> (fst records) of (batch, p) \<Rightarrow>
       (case snd records of
          Some e \<Rightarrow> (pg_db p, Inl e)
        | None \<Rightarrow> (let p' = flush now batch p in (pg_db p', Inr (pg_processed p', pg_errors p')))))"

section \<open>Checkpoints\<close>

definition get_last_mod_date :: "db \<Rightarrow> string \<Rightarrow> int option" where
  "get_last_mod_date d source = (case fetchrow (\<lambda>s. ss_source s = source) (t_rows (db_sync_state d)) of
      None \<Rightarrow> None | Some s \<Rightarrow> ss_last_mod_date s)"

definition checkpoint :: "int \<Rightarrow> string \<Rightarrow> int \<Rightarrow> int \<Rightarrow> db \<Rightarrow> db" where
  "checkpoint now source last_mod count d =
     d\<lparr>db_sync_state := update_rows (\<lambda>s. ss_source s = source)
        (\<lambda>s. s\<lparr>ss_last_success_at := Some now, ss_last_mod_date := Some last_mod,
           ss_total_ingested := ss_total_ingested s + count, ss_last_error := None, ss_updated_at := now\<rparr>) (db_sync_state d)\<rparr>"

definition record_error :: "int \<Rightarrow> string \<Rightarrow> string \<Rightarrow> db \<Rightarrow> db" where
  "record_error now source err d =
     d\<lparr>db_sync_state := update_rows (\<lambda>s. ss_source s = source)
        (\<lambda>s. s\<lparr>ss_last_error := Some (take 500 err), ss_updated_at := now\<rparr>) (db_sync_state d)\<rparr>"

section \<open>Runs\<close>

text \<open>The readings of the two clocks: the breaker's on entry and on failure, and the wall clock.\<close>

record ingest_clock =
  ic_enter :: rat
  ic_fail :: rat
  ic_db :: int
  ic_end :: int

record ingest_result =
  ir_source :: string
  ir_processed :: int
  ir_errors :: int

type_synonym client = "int option \<Rightarrow> stream"

text \<open>What the three runs share; they differ in the generator and in what an open circuit records.\<close>

definition run_ingest ::
    "string \<Rightarrow> bool \<Rightarrow> ingest_clock \<Rightarrow> stream \<Rightarrow> breaker \<Rightarrow> db \<Rightarrow> breaker \<times> db \<times> ingest_result result" where
  "run_ingest source log_open clk records cb d =
     (case cb_call (ic_enter clk) (ic_fail clk) (upsert_batched (ic_db clk) source records) cb d of (cb', d1, r) \<Rightarrow>
       (case r of
          Inr (processed, errors) \<Rightarrow>
            (cb', checkpoint (ic_end clk) source (ic_end clk) processed d1,
             Inr \<lparr>ir_source = source, ir_processed = processed, ir_errors = errors\<rparr>)
        | Inl (CircuitOpenError n) \<Rightarrow>
            (cb', (if log_open then record_error (ic_end clk) source (exc_str (CircuitOpenError n)) d1 else d1),
             Inr \<lparr>ir_source = source, ir_processed = 0, ir_errors = 1\<rparr>)
        | Inl e \<Rightarrow> (cb', (if is_exception e then record_error (ic_end clk) source (exc_str e) d1 else d1), Inl e)))"

definition run_bulk_ingest :: "ingest_clock \<Rightarrow> stream \<Rightarrow> breaker \<Rightarrow> db \<Rightarrow> breaker \<times> db \<times> ingest_result result" where
  "run_bulk_ingest clk records cb d = run_ingest ''vulncheck_nvd'' True clk records cb d"

definition run_delta_ingest :: "ingest_clock \<Rightarrow> client \<Rightarrow> breaker \<Rightarrow> db \<Rightarrow> breaker \<times> db \<times> ingest_result result" where
  "run_delta_ingest clk client cb d =
     run_ingest ''vulncheck_nvd'' False clk (client (get_last_mod_date d ''vulncheck_nvd'')) cb d"

definition run_nvd_delta_ingest :: "ingest_clock \<Rightarrow> client \<Rightarrow> breaker \<Rightarrow> db \<Rightarrow> breaker \<times> db \<times> ingest_result result" where
  "run_nvd_delta_ingest clk client cb d =
     run_ingest ''nvd_api'' False clk (client (get_last_mod_date d ''nvd_api'')) cb d"

record circuits =
  c_vulncheck :: breaker
  c_nvd :: breaker

definition run_smart_delta ::
    "ingest_clock \<Rightarrow> ingest_clock \<Rightarrow> client option \<Rightarrow> client \<Rightarrow> circuits \<Rightarrow> db \<Rightarrow> circuits \<times> db \<times> ingest_result result" where
  "run_smart_delta clk nclk vc_client nvd_client cs d =
     (let fallback = (\<lambda>cs d. case run_nvd_delta_ingest nclk nvd_client (c_nvd cs) d of (b, d', r) \<Rightarrow> (cs\<lparr>c_nvd := b\<rparr>, d', r)) in
      case vc_client of
        None \<Rightarrow> fallback cs d
      | Some vc \<Rightarrow>
          if cstate (c_vulncheck cs) = OPEN then fallback cs d
          else (case run_delta_ingest clk vc (c_vulncheck cs) d of (b, d1, r) \<Rightarrow>
            (let cs1 = cs\<lparr>c_vulncheck := b\<rparr> in
             case r of
               Inr v \<Rightarrow> (cs1, d1, Inr v)
             | Inl e \<Rightarrow> if is_exception e then fallback cs1 d1 else (cs1, d1, Inl e))))"

section \<open>Newest wins\<close>

definition ids_distinct :: "cve_row table \<Rightarrow> bool" where
  "ids_distinct t \<longleftrightarrow> distinct (map cv_cve_id (t_rows t))"

text \<open>The modification date that the table holds for a CVE.\<close>

definition stamp :: "cve_row table \<Rightarrow> string \<Rightarrow> int option" where
  "stamp t k = map_option cv_last_modified_at (fetchrow (\<lambda>c. cv_cve_id c = k) (t_rows t))"

lemma refresh_cve_id [simp]: "cv_cve_id (refresh_cve now v c) = cv_cve_id c"
  and new_cve_id [simp]: "cv_cve_id (new_cve now v n) = cvv_cve_id v"
  by (simp_all add: refresh_cve_def new_cve_def)

lemma find_stamp_update:
  "distinct (map cv_cve_id rows) \<Longrightarrow>
   map_option cv_last_modified_at (fetchrow (\<lambda>c. cv_cve_id c = k)
     (sql_update (\<lambda>c. cv_cve_id c = cvv_cve_id v \<and> cv_last_modified_at c < cvv_last_modified_at v) (refresh_cve now v) rows)) =
   (if cvv_cve_id v = k
    then map_option (\<lambda>c. max (cv_last_modified_at c) (cvv_last_modified_at v)) (fetchrow (\<lambda>c. cv_cve_id c = k) rows)
    else map_option cv_last_modified_at (fetchrow (\<lambda>c. cv_cve_id c = k) rows))"
  by (induction rows) (auto simp: fetchrow_def refresh_cve_def max_def)

lemma find_append: "List.find p (xs @ ys) = (case List.find p xs of None \<Rightarrow> List.find p ys | Some x \<Rightarrow> Some x)"
  by (induction xs) auto

lemma list_ex_fetch: "list_ex p xs \<longleftrightarrow> fetchrow p xs \<noteq> None"
  using fetchrow_None [of p xs] by (auto simp: list_ex_iff)

lemma stamp_upsert:
  assumes "ids_distinct t"
  shows "stamp (upsert_cve now t v) k =
     (if cvv_cve_id v = k then max (stamp t k) (Some (cvv_last_modified_at v)) else stamp t k)"
proof (cases "list_ex (\<lambda>c. cv_cve_id c = cvv_cve_id v) (t_rows t)")
  case True
  then obtain c where "fetchrow (\<lambda>c. cv_cve_id c = cvv_cve_id v) (t_rows t) = Some c" by (auto simp: list_ex_fetch)
  moreover have "stamp (upsert_cve now t v) k =
     (if cvv_cve_id v = k
      then map_option (\<lambda>c. max (cv_last_modified_at c) (cvv_last_modified_at v)) (fetchrow (\<lambda>c. cv_cve_id c = k) (t_rows t))
      else stamp t k)"
    using find_stamp_update [OF assms [unfolded ids_distinct_def]] True by (simp add: stamp_def upsert_cve_def)
  ultimately show ?thesis by (auto simp: stamp_def max_def)
next
  case False
  then have "fetchrow (\<lambda>c. cv_cve_id c = cvv_cve_id v) (t_rows t) = None" by (simp add: list_ex_fetch)
  then show ?thesis
    using False by (auto simp: stamp_def upsert_cve_def find_append fetchrow_def snd_insert_row new_cve_def
        max_def less_eq_option_def split: option.splits)
qed

lemma upsert_ids_distinct: "ids_distinct t \<Longrightarrow> ids_distinct (upsert_cve now t v)"
  by (auto simp: ids_distinct_def upsert_cve_def sql_update_map snd_insert_row list_ex_iff)

lemma upsert_stale:
  assumes "ids_distinct t" and "Some (cvv_last_modified_at v) \<le> stamp t (cvv_cve_id v)"
  shows "upsert_cve now t v = t"
proof -
  obtain c where c: "fetchrow (\<lambda>c. cv_cve_id c = cvv_cve_id v) (t_rows t) = Some c"
    and le: "cvv_last_modified_at v \<le> cv_last_modified_at c"
    using assms(2) by (auto simp: stamp_def less_eq_option_def split: option.splits)
  have "x = c" if "x \<in> set (t_rows t)" "cv_cve_id x = cvv_cve_id v" for x
    using that fetchrow_Some [OF c] assms(1) by (auto simp: ids_distinct_def distinct_map inj_on_def)
  then have "sql_update (\<lambda>c. cv_cve_id c = cvv_cve_id v \<and> cv_last_modified_at c < cvv_last_modified_at v)
      (refresh_cve now v) (t_rows t) = t_rows t"
    using le by (intro sql_update_none) auto
  then show ?thesis using c by (simp add: upsert_cve_def list_ex_fetch update_rows_def)
qed

interpretation upserts: monotone_system "upsert_cve now" ids_distinct "\<lambda>t. stamp t k" for now k
  by unfold_locales (auto simp: upsert_ids_distinct stamp_upsert)

definition dates_of :: "cve_values list \<Rightarrow> string \<Rightarrow> int option list" where
  "dates_of vs k = map (\<lambda>v. Some (cvv_last_modified_at v)) (filter (\<lambda>v. cvv_cve_id v = k) vs)"

lemma stamp_run: "ids_distinct t \<Longrightarrow> stamp (foldl (upsert_cve now) t vs) k = foldl max (stamp t k) (dates_of vs k)"
  by (induction vs arbitrary: t) (simp_all add: dates_of_def stamp_upsert upsert_ids_distinct)

lemma foldl_max: "foldl max a xs = Max (insert a (set xs))" for a :: "'a::linorder"
proof (induction xs arbitrary: a)
  case Nil
  then show ?case by simp
next
  case (Cons x xs)
  then show ?case by (cases "set xs = {}") (simp_all add: max.assoc max.left_commute max.commute)
qed

lemma replay_noop:
  assumes "ids_distinct t" and "\<And>v. v \<in> set vs \<Longrightarrow> Some (cvv_last_modified_at v) \<le> stamp t (cvv_cve_id v)"
  shows "foldl (upsert_cve now) t vs = t"
  using assms(2) by (induction vs) (simp_all add: upsert_stale [OF assms(1)])

section \<open>Batches\<close>

fun batches :: "nat \<Rightarrow> 'a list \<Rightarrow> 'a list list" where
  "batches n xs = (if xs = [] \<or> n = 0 then [] else take n xs # batches n (drop n xs))"

declare batches.simps [simp del]

lemma concat_batches: "0 < n \<Longrightarrow> concat (batches n xs) = xs"
  by (induction n xs rule: batches.induct) (subst batches.simps, simp)

text \<open>The batches kept are those of which every row passes the CHECK constraints.\<close>

definition kept :: "cve_values list \<Rightarrow> cve_values list" where
  "kept vs = concat (filter (list_all values_check) (batches UPSERT_BATCH vs))"

definition dropped :: "cve_values list \<Rightarrow> cve_values list" where
  "dropped vs = concat (filter (\<lambda>b. \<not> list_all values_check b) (batches UPSERT_BATCH vs))"

definition account :: "int \<Rightarrow> progress \<Rightarrow> cve_values list list \<Rightarrow> progress" where
  "account now p bs = p\<lparr>pg_db := (pg_db p)\<lparr>db_cves := foldl (upsert_cve now) (db_cves (pg_db p)) (concat (filter (list_all values_check) bs))\<rparr>,
     pg_processed := pg_processed p + int (length (concat (filter (list_all values_check) bs))),
     pg_errors := pg_errors p + int (length (concat (filter (\<lambda>b. \<not> list_all values_check b) bs)))\<rparr>"

lemma account_Nil [simp]: "account now p [] = p"
  by (simp add: account_def)

lemma account_Cons: "account now p (b # bs) = account now (flush now b p) bs"
  by (simp add: account_def flush_def)

lemma feed_batches:
  assumes "length batch < UPSERT_BATCH"
  shows "(case feed now source batch p rs of (b, p') \<Rightarrow> flush now b p') =
     account now p (batches UPSERT_BATCH (batch @ map (to_row source) rs))"
  using assms
proof (induction rs arbitrary: batch p)
  case Nil
  then show ?case
    by (simp add: batches.simps [of _ batch] batches.simps [of _ "[]"] account_Cons flush_def UPSERT_BATCH_def)
next
  case (Cons r rs)
  let ?b = "batch @ [to_row source r]"
  show ?case
  proof (cases "length ?b \<ge> UPSERT_BATCH")
    case True
    then have len: "UPSERT_BATCH = length ?b" using Cons.prems by simp
    have "batches UPSERT_BATCH (?b @ map (to_row source) rs) = ?b # batches UPSERT_BATCH (map (to_row source) rs)"
      unfolding len by (subst batches.simps) simp
    then show ?thesis
      using True Cons.IH [of "[]" "flush now ?b p"] by (simp add: account_Cons UPSERT_BATCH_def)
  next
    case False
    then show ?thesis using Cons.IH [of ?b p] by simp
  qed
qed

lemma feed_sync_state: "db_sync_state (pg_db (snd (feed now source batch p rs))) = db_sync_state (pg_db p)"
  by (induction rs arbitrary: batch p) (auto simp: Let_def flush_def)

lemma upsert_sync_state: "db_sync_state (fst (upsert_batched now source records d)) = db_sync_state d"
  using feed_sync_state [of now source "[]" "\<lparr>pg_db = d, pg_processed = 0, pg_errors = 0\<rparr>" "fst records"]
  by (auto simp: upsert_batched_def Let_def flush_def split: prod.splits option.splits)

lemma cb_call_state:
  "fst (snd (cb_call t0 t1 fn cb s)) = s \<or> fst (snd (cb_call t0 t1 fn cb s)) = fst (fn s)"
  by (auto simp: cb_call_def split: sum.splits prod.splits py_exn.splits)

lemma ingest_finished: "snd records = None \<Longrightarrow> \<exists>d1 pe. upsert_batched now source records d = (d1, Inr pe)"
  by (simp add: upsert_batched_def Let_def split: prod.splits)

lemma fetchrow_update:
  "(\<And>r. p (f r) = p r) \<Longrightarrow> fetchrow p (sql_update p f rows) = map_option f (fetchrow p rows)"
  by (induction rows) (simp_all add: fetchrow_def)

text \<open>A finished run of one source whose row exists moves its checkpoint to the time it ends.\<close>

lemma checkpoint_moved:
  assumes "run_ingest source b clk records cb d = (cb', d', Inr res)" and "cb_call (ic_enter clk) (ic_fail clk)
      (upsert_batched (ic_db clk) source records) cb d = (cb1, d1, Inr pe)"
    and "\<exists>s \<in> set (t_rows (db_sync_state d)). ss_source s = source"
  shows "get_last_mod_date d' source = Some (ic_end clk)"
proof -
  have d1: "db_sync_state d1 = db_sync_state d"
    using cb_call_state [of "ic_enter clk" "ic_fail clk" "upsert_batched (ic_db clk) source records" cb d]
      upsert_sync_state [of "ic_db clk" source records d] by (simp only: assms(2) fst_conv snd_conv) metis
  have d': "d' = checkpoint (ic_end clk) source (ic_end clk) (fst pe) d1"
    using assms(1,2) by (cases pe) (simp add: run_ingest_def)
  let ?f = "\<lambda>s. s\<lparr>ss_last_success_at := Some (ic_end clk), ss_last_mod_date := Some (ic_end clk),
      ss_total_ingested := ss_total_ingested s + fst pe, ss_last_error := None, ss_updated_at := ic_end clk\<rparr>"
  have rows: "t_rows (db_sync_state d') = sql_update (\<lambda>s. ss_source s = source) ?f (t_rows (db_sync_state d))"
    by (simp add: d' checkpoint_def d1)
  have "fetchrow (\<lambda>s. ss_source s = source) (t_rows (db_sync_state d')) =
      map_option ?f (fetchrow (\<lambda>s. ss_source s = source) (t_rows (db_sync_state d)))"
    unfolding rows by (rule fetchrow_update) simp
  moreover have "fetchrow (\<lambda>s. ss_source s = source) (t_rows (db_sync_state d)) \<noteq> None"
    unfolding fetchrow_None using assms(3) by blast
  ultimately show ?thesis unfolding get_last_mod_date_def by (auto simp del: t_rows_update)
qed

lemma smart_vulncheck:
  "cstate (c_vulncheck cs) = OPEN \<Longrightarrow> c_vulncheck (fst (run_smart_delta clk nclk vc nvd cs d)) = c_vulncheck cs"
  by (auto simp: run_smart_delta_def Let_def split: option.splits prod.splits)

section \<open>Properties\<close>

text \<open>C33: Newest wins, in any order: after any sequence of upserts the table still has one row per CVE, the
  modification date of each row is the greatest one it ever had or was sent, and sending the whole
  sequence again, at whatever time, changes nothing at all.\<close>

theorem ingest_newest_wins:
  assumes "ids_distinct t"
  shows "ids_distinct (foldl (upsert_cve now) t vs) \<and>
    stamp (foldl (upsert_cve now) t vs) k =
      Max (insert (stamp t k) (set (dates_of vs k))) \<and>
    foldl (upsert_cve now') (foldl (upsert_cve now) t vs) vs = foldl (upsert_cve now) t vs"
proof -
  let ?t = "foldl (upsert_cve now) t vs"
  have distinct': "ids_distinct ?t" by (rule upserts.run_inv [OF assms(1)])
  have stamp': "stamp ?t k = Max (insert (stamp t k) (set (dates_of vs k)))" for k
    by (simp only: stamp_run [OF assms(1)] foldl_max)
  have "Some (cvv_last_modified_at v) \<le> stamp ?t (cvv_cve_id v)" if v: "v \<in> set vs" for v
    unfolding stamp' by (rule Max_ge) (use v in \<open>auto simp: dates_of_def\<close>)
  then have "foldl (upsert_cve now') ?t vs = ?t" by (rule replay_noop [OF distinct'])
  then show ?thesis using distinct' stamp' [of k] by simp
qed

definition sample_values :: "string \<Rightarrow> int \<Rightarrow> cve_values" where
  "sample_values i t = \<lparr>cvv_cve_id = i, cvv_source = ''nvd_api'', cvv_raw_payload = JNull, cvv_cvss_v3_score = None,
     cvv_cvss_v3_vector = None, cvv_cvss_v2_score = None, cvv_severity = None, cvv_published_at = 0,
     cvv_last_modified_at = t\<rparr>"

theorem ingest_newest_wins_witness:
  "stamp (foldl (upsert_cve 9) empty_table [sample_values ''a'' 5, sample_values ''b'' 1, sample_values ''a'' 3]) ''a'' = Some 5"
proof -
  let ?vs = "[sample_values ''a'' 5, sample_values ''b'' 1, sample_values ''a'' 3]"
  have "ids_distinct empty_table" by (simp add: ids_distinct_def empty_table_def)
  note ingest_newest_wins [OF this, of 9 ?vs "''a''" 9]
  moreover have "dates_of ?vs ''a'' = [Some 5, Some 3]" by (simp add: dates_of_def sample_values_def)
  ultimately show ?thesis by (simp add: stamp_def empty_table_def fetchrow_def max_def)
qed

text \<open>C34: What a run over a source that does not fail stores and reports: the records are cut into batches of 500,
  a batch with a row that violates a CHECK constraint is dropped whole, every other one is upserted in
  order, and the two counters are the numbers of rows in the batches kept and dropped, so that no
  record is lost or counted twice.\<close>

theorem ingest_accounts_for_every_record:
  "upsert_batched now source (rs, None) d =
     (d\<lparr>db_cves := foldl (upsert_cve now) (db_cves d) (kept (map (to_row source) rs))\<rparr>,
      Inr (int (length (kept (map (to_row source) rs))), int (length (dropped (map (to_row source) rs))))) \<and>
   length (kept (map (to_row source) rs)) + length (dropped (map (to_row source) rs)) = length rs"
proof -
  let ?p = "\<lparr>pg_db = d, pg_processed = 0, pg_errors = 0\<rparr>"
  have "(case feed now source [] ?p rs of (b, p') \<Rightarrow> flush now b p') = account now ?p (batches UPSERT_BATCH (map (to_row source) rs))"
    using feed_batches [of "[]" now source ?p rs] by (simp add: UPSERT_BATCH_def)
  then have "upsert_batched now source (rs, None) d =
     (let p = account now ?p (batches UPSERT_BATCH (map (to_row source) rs)) in (pg_db p, Inr (pg_processed p, pg_errors p)))"
    by (simp add: upsert_batched_def split: prod.splits)
  moreover have "length (concat (filter q bs)) + length (concat (filter (\<lambda>b. \<not> q b) bs)) = length (concat bs)"
    for q :: "cve_values list \<Rightarrow> bool" and bs by (induction bs) simp_all
  ultimately show ?thesis
    by (simp add: account_def kept_def dropped_def Let_def concat_batches UPSERT_BATCH_def)
qed

text \<open>The VulnCheck checkpoint is never written: with the sources that the schema admits for \<open>sync_state\<close>, a
  delta leaves the table as it was and always asks for the initial load, because the worker's source
  name is not one of them; so every delta is a full load.\<close>

theorem vulncheck_checkpoint_never_written:
  assumes "list_all sync_state_check (t_rows (db_sync_state d))"
  shows "db_sync_state (fst (snd (run_delta_ingest clk client cb d))) = db_sync_state d \<and>
     run_delta_ingest clk client cb d = run_delta_ingest clk (\<lambda>_. client None) cb d"
proof -
  have none: "\<not> ss_source s = ''vulncheck_nvd''" if s: "s \<in> set (t_rows (db_sync_state d))" for s
    using assms s by (auto simp: list_all_iff sync_state_check_def)
  then have last: "get_last_mod_date d ''vulncheck_nvd'' = None"
    by (simp add: get_last_mod_date_def fetchrow_None [THEN iffD2])
  have upd: "update_rows (\<lambda>s. ss_source s = ''vulncheck_nvd'') f (db_sync_state d) = db_sync_state d" for f
    using none by (simp add: update_rows_def sql_update_none)
  obtain cb' d1 r where call: "cb_call (ic_enter clk) (ic_fail clk) (upsert_batched (ic_db clk) ''vulncheck_nvd'' (client None)) cb d
     = (cb', d1, r)" using prod_cases3 by blast
  have d1: "db_sync_state d1 = db_sync_state d"
    using cb_call_state [of "ic_enter clk" "ic_fail clk" "upsert_batched (ic_db clk) ''vulncheck_nvd'' (client None)" cb d]
      upsert_sync_state [of "ic_db clk" "''vulncheck_nvd''" "client None" d] by (simp only: call fst_conv snd_conv) metis
  have "db_sync_state (fst (snd (run_delta_ingest clk client cb d))) = db_sync_state d"
    using d1 upd by (auto simp: run_delta_ingest_def run_ingest_def last call checkpoint_def record_error_def
        split: sum.splits prod.splits py_exn.splits)
  then show ?thesis by (simp add: run_delta_ingest_def last)
qed

theorem vulncheck_checkpoint_never_written_witness:
  "db_sync_state (fst (snd (run_delta_ingest \<lparr>ic_enter = 0, ic_fail = 1, ic_db = 2, ic_end = 3\<rparr> (\<lambda>_. ([], None))
     (new_breaker ''vulncheck'' 5 60) (empty_db 0)))) = seed_sync_state 0"
  using vulncheck_checkpoint_never_written [of "empty_db 0" "\<lparr>ic_enter = 0, ic_fail = 1, ic_db = 2, ic_end = 3\<rparr>" "\<lambda>_. ([], None)"]
  by (simp add: empty_db_def seed_sync_state_def sync_state_check_def)

text \<open>What the scheduler does over time: one smart delta after the other.\<close>

definition smart_deltas ::
    "(ingest_clock \<times> ingest_clock \<times> client option \<times> client) list \<Rightarrow> circuits \<times> db \<Rightarrow> circuits \<times> db" where
  "smart_deltas runs s = foldl (\<lambda>(cs, d) (clk, nclk, vc, nvd).
     (case run_smart_delta clk nclk vc nvd cs d of (cs', d', _) \<Rightarrow> (cs', d'))) s runs"

text \<open>An open VulnCheck circuit is never probed: however often the smart delta runs and however much time
  passes, an open breaker keeps its state, because its call is the only place that would let a probe
  through and the delta does not call it while it is open.\<close>

theorem open_breaker_never_probed:
  assumes "cstate (c_vulncheck cs) = OPEN"
  shows "c_vulncheck (fst (smart_deltas runs (cs, d))) = c_vulncheck cs"
  unfolding smart_deltas_def using assms
proof (induction runs arbitrary: cs d)
  case Nil
  then show ?case by simp
next
  case (Cons r runs)
  obtain clk nclk vc nvd where r: "r = (clk, nclk, vc, nvd)" using prod_cases4 by blast
  obtain cs' d' v where run: "run_smart_delta clk nclk vc nvd cs d = (cs', d', v)" using prod_cases3 by blast
  have "c_vulncheck cs' = c_vulncheck cs" using smart_vulncheck [OF Cons.prems, of clk nclk vc nvd d] run by simp
  then show ?case using Cons by (simp add: r run)
qed

theorem open_breaker_never_probed_witness:
  "cstate (c_vulncheck (fst (smart_deltas (replicate 1000 (\<lparr>ic_enter = 10^9, ic_fail = 10^9, ic_db = 0, ic_end = 0\<rparr>,
       \<lparr>ic_enter = 10^9, ic_fail = 10^9, ic_db = 0, ic_end = 0\<rparr>, Some (\<lambda>_. ([], None)), \<lambda>_. ([], None)))
     (\<lparr>c_vulncheck = (new_breaker ''vulncheck'' 5 60)\<lparr>cstate := OPEN, open_until := 60\<rparr>, c_nvd = new_breaker ''nvd'' 5 120\<rparr>, empty_db 0)))) = OPEN"
  using open_breaker_never_probed [of "\<lparr>c_vulncheck = (new_breaker ''vulncheck'' 5 60)\<lparr>cstate := OPEN, open_until := 60\<rparr>,
      c_nvd = new_breaker ''nvd'' 5 120\<rparr>"] by simp

text \<open>Modifications made while a delta runs are asked for by nobody: the windows of a run end when its client
  starts, its checkpoint is the later time at which it ends, and an instant between the two is in no
  window of this run nor of any later one that starts from that checkpoint.\<close>

theorem modifications_during_a_run_are_missed:
  assumes "run_nvd_delta_ingest clk client cb d = (cb', d', Inr res)" and "\<not> cb_rejects (ic_enter clk) cb"
    and "\<exists>s \<in> set (t_rows (db_sync_state d)). ss_source s = ''nvd_api''"
    and "started \<le> t" and "t < ic_end clk"
    and "snd (client (get_last_mod_date d ''nvd_api'')) = None"
  shows "list_all (\<lambda>(a, b). \<not> (a \<le> t \<and> t < b))
    (windows started (delta_start started (get_last_mod_date d ''nvd_api'')) @
     windows later (delta_start later (get_last_mod_date d' ''nvd_api'')))"
proof -
  let ?up = "upsert_batched (ic_db clk) ''nvd_api'' (client (get_last_mod_date d ''nvd_api''))"
  obtain d1 pe where up: "?up d = (d1, Inr pe)"
    using ingest_finished [OF assms(6)] by blast
  then have "cb_call (ic_enter clk) (ic_fail clk) ?up cb d = (fst (cb_call (ic_enter clk) (ic_fail clk) ?up cb d), d1, Inr pe)"
    using cb_call_accepted [OF assms(2), of "ic_fail clk" ?up d] by (metis prod.collapse)
  then have last: "get_last_mod_date d' ''nvd_api'' = Some (ic_end clk)"
    by (rule checkpoint_moved [OF assms(1) [unfolded run_nvd_delta_ingest_def] _ assms(3)])
  have "list_all (\<lambda>(a, b). \<not> (a \<le> t \<and> t < b)) (windows now s)" if "t < s \<or> now \<le> t" for now s
    using windows_bounds [of s now] that by (fastforce simp: list_all_iff)
  from this [of "delta_start started (get_last_mod_date d ''nvd_api'')" started]
    this [of "delta_start later (get_last_mod_date d' ''nvd_api'')" later]
  show ?thesis using assms(4,5) by (simp add: last delta_start_def)
qed

theorem modifications_during_a_run_are_missed_witness:
  "list_all (\<lambda>(a, b). \<not> (a \<le> 70 \<and> 70 < b)) (windows 50 (delta_start 50 None) @ windows 1000 (delta_start 1000
     (get_last_mod_date (fst (snd (run_nvd_delta_ingest \<lparr>ic_enter = 0, ic_fail = 0, ic_db = 60, ic_end = 100\<rparr> (\<lambda>_. ([], None))
       (new_breaker ''nvd'' 5 120) (empty_db 0)))) ''nvd_api'')))"
proof -
  let ?clk = "\<lparr>ic_enter = 0, ic_fail = 0, ic_db = 60, ic_end = 100\<rparr> :: ingest_clock"
  let ?cb = "new_breaker ''nvd'' 5 120"
  have run: "run_nvd_delta_ingest ?clk (\<lambda>_. ([], None)) ?cb (empty_db 0) =
      (on_success ?cb, checkpoint 100 ''nvd_api'' 100 0 (empty_db 0), Inr \<lparr>ir_source = ''nvd_api'', ir_processed = 0, ir_errors = 0\<rparr>)"
    by (simp add: run_nvd_delta_ingest_def run_ingest_def cb_call_def admit_def new_breaker_def upsert_batched_def flush_def)
  have "\<exists>s \<in> set (t_rows (db_sync_state (empty_db 0))). ss_source s = ''nvd_api''"
    by (simp add: empty_db_def seed_sync_state_def)
  moreover have "\<not> cb_rejects (ic_enter ?clk) ?cb" by (simp add: cb_rejects_def new_breaker_def)
  moreover have "get_last_mod_date (empty_db 0) ''nvd_api'' = None"
    by (simp add: get_last_mod_date_def empty_db_def seed_sync_state_def fetchrow_def)
  ultimately show ?thesis
    using modifications_during_a_run_are_missed [OF run, of 50 70 1000] by (simp add: run)
qed

end
