(* ===== verification/Redis_Store.thy ===== *)
theory Redis_Store
  imports Prelude "HOL-Library.AList"
begin

text \<open>
  The commands that the code sends to its Redis, and \<open>app/core/cache.py\<close> over them. A key holds a text
  and the instant at which it expires, in seconds of the server's clock; an expired key is absent.
  Every helper of the cache swallows a failing call: \<open>up\<close> says whether the server answers.
\<close>

section \<open>Commands\<close>

type_synonym redis = "(string \<times> string \<times> rat option) list"

definition unexpired :: "rat \<Rightarrow> string \<times> rat option \<Rightarrow> bool" where
  "unexpired now e = (case snd e of None \<Rightarrow> True | Some t \<Rightarrow> now < t)"

text \<open>\<open>GET\<close>, \<open>SETEX\<close> (which refuses a TTL that is not positive), \<open>SET NX EX\<close>, \<open>EXPIRE\<close> and \<open>DEL\<close>.\<close>

definition r_get :: "rat \<Rightarrow> redis \<Rightarrow> string \<Rightarrow> string option" where
  "r_get now r k = (case map_of r k of None \<Rightarrow> None | Some e \<Rightarrow> if unexpired now e then Some (fst e) else None)"

definition r_setex :: "rat \<Rightarrow> string \<Rightarrow> int \<Rightarrow> string \<Rightarrow> redis \<Rightarrow> redis result" where
  "r_setex now k ttl v r =
     (if ttl \<le> 0 then Inl (OtherError ''ResponseError'') else Inr (AList.update k (v, Some (now + of_int ttl)) r))"

definition r_set_nx :: "rat \<Rightarrow> string \<Rightarrow> int \<Rightarrow> string \<Rightarrow> redis \<Rightarrow> redis \<times> bool" where
  "r_set_nx now k ttl v r =
     (if r_get now r k = None then (AList.update k (v, Some (now + of_int ttl)) r, True) else (r, False))"

definition r_expire :: "rat \<Rightarrow> string \<Rightarrow> int \<Rightarrow> redis \<Rightarrow> redis \<times> bool" where
  "r_expire now k ttl r = (case r_get now r k of
      None \<Rightarrow> (r, False) | Some v \<Rightarrow> (AList.update k (v, Some (now + of_int ttl)) r, True))"

definition r_del :: "string \<Rightarrow> redis \<Rightarrow> redis" where
  "r_del k r = AList.delete k r"

lemma r_get_update [simp]:
  "r_get now (AList.update k e r) k' = (if k = k' then if unexpired now e then Some (fst e) else None else r_get now r k')"
  by (simp add: r_get_def update_conv')

lemma r_get_del [simp]: "r_get now (r_del k r) k' = (if k = k' then None else r_get now r k')"
  by (simp add: r_get_def r_del_def delete_conv')

lemma r_get_later: "now \<le> later \<Longrightarrow> r_get later r k = Some v \<Longrightarrow> r_get now r k = Some v"
  by (auto simp: r_get_def unexpired_def split: option.splits if_splits)

lemma unexpired_simps [simp]: "unexpired now (v, Some t) = (now < t)" "unexpired now (v, None)"
  by (simp_all add: unexpired_def)

section \<open>The cache\<close>

definition get_cached :: "bool \<Rightarrow> rat \<Rightarrow> redis \<Rightarrow> string \<Rightarrow> string option" where
  "get_cached up now r k = (if up then r_get now r k else None)"

definition set_cached :: "bool \<Rightarrow> rat \<Rightarrow> string \<Rightarrow> string \<Rightarrow> int \<Rightarrow> redis \<Rightarrow> redis" where
  "set_cached up now k v ttl r =
     (if \<not> up then r else case r_setex now k ttl v r of Inl _ \<Rightarrow> r | Inr r' \<Rightarrow> r')"

text \<open>\<open>MULTI\<close> executes every queued command, a failing one does not undo the others.\<close>

definition set_with_stale :: "bool \<Rightarrow> rat \<Rightarrow> string \<Rightarrow> string \<Rightarrow> int \<Rightarrow> int \<Rightarrow> redis \<Rightarrow> redis" where
  "set_with_stale up now k v fresh_ttl stale_ttl r =
     set_cached up now (k @ '':stale'') v stale_ttl (set_cached up now k v fresh_ttl r)"

definition get_stale :: "bool \<Rightarrow> rat \<Rightarrow> redis \<Rightarrow> string \<Rightarrow> string option" where
  "get_stale up now r k = (if up then r_get now r (k @ '':stale'') else None)"

text \<open>\<open>delete_pattern\<close>; which keys a glob pattern matches is Redis's, an argument.\<close>

definition delete_pattern :: "(string \<Rightarrow> string \<Rightarrow> bool) \<Rightarrow> bool \<Rightarrow> rat \<Rightarrow> string \<Rightarrow> redis \<Rightarrow> redis \<times> int" where
  "delete_pattern glob up now pattern r =
     (if \<not> up then (r, 0)
      else let ks = filter (\<lambda>k. glob pattern k \<and> r_get now r k \<noteq> None) (remdups (map fst r)) in
        (foldl (\<lambda>r k. r_del k r) r ks, int (length ks)))"

lemma stale_key [simp]: "k @ '':stale'' \<noteq> k"
  by simp

end
