(* ===== verification/Py_Number.thy ===== *)
theory Py_Number
  imports Json_Read
begin

text \<open>
  \<open>float(v)\<close> of a JSON value: numbers, and texts in decimal or scientific notation with single underscores
  between digits. Values are exact; \<open>nan\<close> and the infinities, which are no rational numbers, are left out.
\<close>

definition digit_run :: "string \<Rightarrow> string option" where
  "digit_run s = (if s = [] then Some [] else int_digits s)"

definition signed :: "string \<Rightarrow> bool \<times> string" where
  "signed s = (case s of [] \<Rightarrow> (False, []) | c # cs \<Rightarrow>
     if c = CHR ''-'' then (True, cs) else if c = CHR ''+'' then (False, cs) else (False, s))"

definition exponent :: "string \<Rightarrow> int option" where
  "exponent s = (case signed s of (neg, ds) \<Rightarrow>
     map_option (\<lambda>e. if neg then - digits_val e else digits_val e) (int_digits ds))"

definition mantissa :: "string \<Rightarrow> rat option" where
  "mantissa s = (case py_split CHR ''.'' s of
      [i] \<Rightarrow> map_option (\<lambda>ds. of_int (digits_val ds)) (int_digits i)
    | [i, f] \<Rightarrow> (case (digit_run i, digit_run f) of
          (Some a, Some b) \<Rightarrow> if a @ b = [] then None else Some (of_int (digits_val (a @ b)) / 10 ^ length b)
        | _ \<Rightarrow> None)
    | _ \<Rightarrow> None)"

definition scale10 :: "rat \<Rightarrow> int \<Rightarrow> rat" where
  "scale10 x e = (if 0 \<le> e then x * 10 ^ nat e else x / 10 ^ nat (- e))"

definition py_float :: "string \<Rightarrow> rat option" where
  "py_float s = (case signed (py_strip s) of (neg, body) \<Rightarrow>
     map_option (\<lambda>x. if neg then - x else x)
       (case py_split CHR ''e'' (py_lower body) of
          [m] \<Rightarrow> mantissa m
        | [m, e] \<Rightarrow> (case (mantissa m, exponent e) of (Some x, Some n) \<Rightarrow> Some (scale10 x n) | _ \<Rightarrow> None)
        | _ \<Rightarrow> None))"

definition to_float :: "json \<Rightarrow> rat result" where
  "to_float v = (case v of
      JInt n \<Rightarrow> Inr (of_int n) | JFloat x \<Rightarrow> Inr x | JBool b \<Rightarrow> Inr (if b then 1 else 0)
    | JStr s \<Rightarrow> (case py_float s of None \<Rightarrow> Inl (ValueError ''could not convert string to float'') | Some x \<Rightarrow> Inr x)
    | _ \<Rightarrow> Inl (TypeError ''float() argument''))"

lemma py_float_samples:
  "py_float ''0.97560'' = Some (9756 / 10000)" "py_float '' -1_0.5e-1'' = Some (- 21 / 20)" "py_float ''.5'' = Some (1 / 2)"
  "py_float ''1.'' = Some 1" "py_float ''.'' = None" "py_float ''1..2'' = None" "py_float ''e5'' = None" "py_float ''7'' = Some 7"
  by code_simp+

text \<open>\<open>for x in v\<close>, and \<open>v[k]\<close> with a text key.\<close>

definition iterate :: "json \<Rightarrow> json list result" where
  "iterate v = (case v of
      JArr xs \<Rightarrow> Inr xs | JStr s \<Rightarrow> Inr (map (\<lambda>c. JStr [c]) s) | JObj kvs \<Rightarrow> Inr (map (\<lambda>e. JStr (fst e)) kvs)
    | _ \<Rightarrow> Inl (TypeError ''object is not iterable''))"

definition subscript :: "json \<Rightarrow> string \<Rightarrow> json result" where
  "subscript v k = (case v of JObj kvs \<Rightarrow> item kvs k | _ \<Rightarrow> Inl (TypeError ''indices must be integers''))"

end
