(* ===== verification/Enrichment.thy ===== *)
theory Enrichment
  imports Ingest Redis_Store Py_Number Sql_Order
begin

text \<open>
  \<open>app/ingestion/epss_client.py\<close>, \<open>app/ingestion/kev_client.py\<close> and \<open>app/ingestion/enrichment.py\<close>: the scores of
  the EPSS service and the KEV catalogue of CISA, each behind a cache, and the two jobs that write them
  into \<open>cves\<close>. The services, \<open>json.loads\<close> and \<open>json.dumps\<close> are arguments; the waiting for the rate governor
  is left out, and \<open>up\<close> says whether Redis answers.
\<close>

section \<open>The EPSS client\<close>

definition EPSS_BATCH :: nat where "EPSS_BATCH = 100"
definition EPSS_TTL :: int where "EPSS_TTL = 86400"

type_synonym scores = "(string \<times> rat \<times> rat) list"

definition score_of :: "json \<Rightarrow> (rat \<times> rat) result" where
  "score_of v = bind_r (bind_r (subscript v ''epss'') to_float) (\<lambda>s.
     bind_r (bind_r (subscript v ''percentile'') to_float) (\<lambda>p. Inr (s, p)))"

text \<open>One entry of an answer; an id that is a number or null is stored under a key that nobody looks up.\<close>

definition score_entry :: "json \<Rightarrow> (string \<times> rat \<times> rat) option result" where
  "score_entry v = bind_r (subscript v ''cve'') (\<lambda>i. bind_r (score_of v) (\<lambda>s.
     case i of JStr cve \<Rightarrow> Inr (Some (cve, s))
     | JArr _ \<Rightarrow> Inl (TypeError ''unhashable type'') | JObj _ \<Rightarrow> Inl (TypeError ''unhashable type'') | _ \<Rightarrow> Inr None))"

fun score_entries :: "scores \<Rightarrow> json list \<Rightarrow> scores result" where
  "score_entries m [] = Inr m"
| "score_entries m (v # vs) = (case score_entry v of
      Inr (Some (cve, s)) \<Rightarrow> score_entries (dict_put cve s m) vs
    | Inr None \<Rightarrow> score_entries m vs
    | Inl (KeyError _) \<Rightarrow> score_entries m vs
    | Inl (ValueError _) \<Rightarrow> score_entries m vs
    | Inl e \<Rightarrow> Inl e)"

text \<open>\<open>_fetch_from_api\<close>: one request per batch of a hundred ids.\<close>

fun fetch_batches :: "(string list \<Rightarrow> response result) \<Rightarrow> scores \<Rightarrow> string list list \<Rightarrow> scores result" where
  "fetch_batches srv m [] = Inr m"
| "fetch_batches srv m (b # bs) =
     bind_r (bind_r (bind_r (srv b) checked_body) (\<lambda>body. bind_r (iterate (get_or body ''data'' (JArr []))) (score_entries m)))
       (\<lambda>m'. fetch_batches srv m' bs)"

definition fetch_from_api :: "(string list \<Rightarrow> response result) \<Rightarrow> string list \<Rightarrow> scores result" where
  "fetch_from_api srv ids = fetch_batches srv [] (batches EPSS_BATCH ids)"

text \<open>The cached values: a missing key or broken JSON counts as not cached, anything else raises.\<close>

definition epss_key :: "string \<Rightarrow> string" where "epss_key i = ''epss:'' @ i"

definition cached_score :: "(string \<Rightarrow> json option) \<Rightarrow> rat \<Rightarrow> redis \<Rightarrow> string \<Rightarrow> (rat \<times> rat) option result" where
  "cached_score loads now r i = (case r_get now r (epss_key i) of
      None \<Rightarrow> Inr None
    | Some t \<Rightarrow> if t = [] then Inr None else (case loads t of
        None \<Rightarrow> Inr None
      | Some v \<Rightarrow> (case score_of v of Inr s \<Rightarrow> Inr (Some s) | Inl (KeyError _) \<Rightarrow> Inr None | Inl e \<Rightarrow> Inl e)))"

fun split_cached :: "(string \<Rightarrow> json option) \<Rightarrow> rat \<Rightarrow> redis \<Rightarrow> string list \<Rightarrow> (scores \<times> string list) result" where
  "split_cached loads now r [] = Inr ([], [])"
| "split_cached loads now r (i # is) = bind_r (cached_score loads now r i) (\<lambda>c.
     bind_r (split_cached loads now r is) (\<lambda>(m, us).
       Inr (case c of Some s \<Rightarrow> (if map_of m i = None then (i, s) # m else m, us) | None \<Rightarrow> (m, i # us))))"

definition cache_score :: "(json \<Rightarrow> string) \<Rightarrow> rat \<Rightarrow> string \<times> rat \<times> rat \<Rightarrow> redis \<Rightarrow> redis" where
  "cache_score dumps now e r = set_cached True now (epss_key (fst e))
     (dumps (JObj [(''epss'', JFloat (fst (snd e))), (''percentile'', JFloat (snd (snd e)))])) EPSS_TTL r"

definition update_scores :: "scores \<Rightarrow> scores \<Rightarrow> scores" where
  "update_scores m new = foldl (\<lambda>m (i, s). dict_put i s m) m new"

definition ConnectionError :: py_exn where "ConnectionError = OtherError ''ConnectionError''"

definition fetch_scores :: "(string \<Rightarrow> json option) \<Rightarrow> (json \<Rightarrow> string) \<Rightarrow> (string list \<Rightarrow> response result) \<Rightarrow>
    bool \<Rightarrow> rat \<Rightarrow> string list \<Rightarrow> (redis, scores) action" where
  "fetch_scores loads dumps srv up now ids r =
     (if ids = [] then (r, Inr [])
      else if \<not> up then (r, Inl ConnectionError)
      else case split_cached loads now r ids of
        Inl e \<Rightarrow> (r, Inl e)
      | Inr (m, []) \<Rightarrow> (r, Inr m)
      | Inr (m, us) \<Rightarrow> (case fetch_from_api srv us of
            Inl e \<Rightarrow> (r, Inl e)
          | Inr new \<Rightarrow> (fold (cache_score dumps now) new r, Inr (update_scores m new))))"

section \<open>The EPSS job\<close>

definition EPSS_PAGE :: nat where "EPSS_PAGE = 5000"
definition EPSS_STALE :: int where "EPSS_STALE = 24 * 3600000000"

definition stale_cve :: "int \<Rightarrow> cve_row \<Rightarrow> bool" where
  "stale_cve now c \<longleftrightarrow> (case cv_epss_updated_at c of None \<Rightarrow> True | Some t \<Rightarrow> t < now - EPSS_STALE)"

definition cvss_key :: "cve_row \<Rightarrow> rat" where
  "cvss_key c = (case coalesce (cv_cvss_v3_score c) (cv_cvss_v2_score c) of None \<Rightarrow> 0 | Some x \<Rightarrow> x)"

definition stale_le :: "cve_row \<Rightarrow> cve_row \<Rightarrow> bool" where
  "stale_le a b \<longleftrightarrow> (cv_is_kev a \<and> \<not> cv_is_kev b) \<or> (cv_is_kev a = cv_is_kev b \<and> cvss_key b \<le> cvss_key a)"

definition stale_cves :: "int \<Rightarrow> db \<Rightarrow> cve_row list" where
  "stale_cves now d = take EPSS_PAGE (order_by stale_le (filter (stale_cve now) (t_rows (db_cves d))))"

definition update_epss :: "int \<Rightarrow> string \<times> rat \<times> rat \<Rightarrow> db \<Rightarrow> db" where
  "update_epss now e d = d\<lparr>db_cves := update_rows (\<lambda>c. cv_cve_id c = fst e)
     (\<lambda>c. c\<lparr>cv_epss_score := Some (fst (snd e)), cv_epss_percentile := Some (snd (snd e)), cv_epss_updated_at := Some now\<rparr>) (db_cves d)\<rparr>"

definition insert_epss_history :: "int \<Rightarrow> string \<times> rat \<times> rat \<Rightarrow> db \<Rightarrow> db" where
  "insert_epss_history now e d = d\<lparr>db_epss_history := fst (insert_row (\<lambda>n. \<lparr>eh_id = n, eh_cve_id = fst e,
     eh_score = fst (snd e), eh_percentile = Some (snd (snd e)), eh_recorded_at = now\<rparr>) (db_epss_history d))\<rparr>"

definition found_scores :: "scores \<Rightarrow> string list \<Rightarrow> scores" where
  "found_scores m ids = List.map_filter (\<lambda>i. map_option (Pair i) (map_of m i)) ids"

definition write_scores :: "int \<Rightarrow> scores \<Rightarrow> db \<Rightarrow> db" where
  "write_scores now es d = fold (insert_epss_history now) es (fold (update_epss now) es d)"

record enrich_result =
  er_job :: string
  er_updated :: int
  er_skipped :: int
  er_errors :: int

text \<open>The clocks of a run: the breaker's on entry and on failure, that of Redis and that of the database.\<close>

record enrich_clock =
  ec_enter :: rat
  ec_fail :: rat
  ec_redis :: rat
  ec_db :: int

definition epss_pass :: "int \<Rightarrow> (string list \<Rightarrow> (redis, scores) action) \<Rightarrow> (db \<times> redis, int \<times> int) action" where
  "epss_pass now fetch s = (case s of (d, r) \<Rightarrow>
     (let ids = map cv_cve_id (stale_cves now d) in
      if ids = [] then ((d, r), Inr (0, 0))
      else case fetch ids r of
        (r', Inl e) \<Rightarrow> ((d, r'), Inl e)
      | (r', Inr m) \<Rightarrow> (let es = found_scores m ids in
          ((write_scores now es d, r'), Inr (int (length es), int (length ids) - int (length es))))))"

definition run_enrich ::
    "string \<Rightarrow> enrich_clock \<Rightarrow> (db \<times> redis, int \<times> int) action \<Rightarrow> breaker \<Rightarrow> db \<times> redis \<Rightarrow> breaker \<times> (db \<times> redis) \<times> enrich_result result" where
  "run_enrich job clk pass cb s = (case cb_call (ec_enter clk) (ec_fail clk) pass cb s of (cb', s', res) \<Rightarrow>
     (cb', s', (case res of
        Inr (u, k) \<Rightarrow> Inr \<lparr>er_job = job, er_updated = u, er_skipped = k, er_errors = 0\<rparr>
      | Inl (CircuitOpenError _) \<Rightarrow> Inr \<lparr>er_job = job, er_updated = 0, er_skipped = 0, er_errors = 1\<rparr>
      | Inl e \<Rightarrow> Inl e)))"

definition run_epss_refresh where
  "run_epss_refresh loads dumps srv up clk =
     run_enrich ''epss_refresh'' clk (epss_pass (ec_db clk) (fetch_scores loads dumps srv up (ec_redis clk)))"

section \<open>The KEV client\<close>

definition KEV_TTL :: int where "KEV_TTL = 6 * 3600"
definition KEV_CACHE_KEY :: string where "KEV_CACHE_KEY = ''kev:catalog''"

type_synonym catalog = "(string \<times> int) list"

definition iso_date :: "json \<Rightarrow> int result" where
  "iso_date v = (case v of
      JStr s \<Rightarrow> (case date_fromisoformat s of None \<Rightarrow> Inl (ValueError ''Invalid isoformat string'') | Some n \<Rightarrow> Inr n)
    | _ \<Rightarrow> Inl (TypeError ''fromisoformat: argument must be str''))"

definition cached_catalog :: "json \<Rightarrow> catalog result" where
  "cached_catalog v = bind_r (as_dict v) (map_r (\<lambda>(k, w). bind_r (iso_date w) (\<lambda>n. Inr (k, n))))"

text \<open>One entry of the catalogue; an id that is no text raises, at the latest in the query.\<close>

definition kev_entry :: "json \<Rightarrow> (string \<times> int) option result" where
  "kev_entry v = bind_r (as_dict v) (\<lambda>kvs.
     if opt_ex json_truthy (obj_get kvs ''cveID'') \<and> opt_ex json_truthy (obj_get kvs ''dateAdded'')
     then bind_r (iso_date (the (obj_get kvs ''dateAdded''))) (\<lambda>n.
       case the (obj_get kvs ''cveID'') of JStr i \<Rightarrow> Inr (Some (i, n)) | _ \<Rightarrow> Inl (TypeError ''cveID''))
     else Inr None)"

fun kev_entries :: "catalog \<Rightarrow> json list \<Rightarrow> catalog result" where
  "kev_entries m [] = Inr m"
| "kev_entries m (v # vs) = (case kev_entry v of
      Inr (Some (i, n)) \<Rightarrow> kev_entries (dict_put i n m) vs
    | Inr None \<Rightarrow> kev_entries m vs
    | Inl (ValueError _) \<Rightarrow> kev_entries m vs
    | Inl e \<Rightarrow> Inl e)"

definition fetch_catalog :: "response result \<Rightarrow> catalog result" where
  "fetch_catalog answer = bind_r (bind_r answer checked_body) (\<lambda>body.
     bind_r (iterate (get_or body ''vulnerabilities'' (JArr []))) (kev_entries []))"

definition get_catalog :: "(string \<Rightarrow> json option) \<Rightarrow> (json \<Rightarrow> string) \<Rightarrow> response result \<Rightarrow> bool \<Rightarrow> rat \<Rightarrow> (redis, catalog) action" where
  "get_catalog loads dumps answer up now r =
     (if \<not> up then (r, Inl ConnectionError)
      else let fetched = (case fetch_catalog answer of
             Inl e \<Rightarrow> (r, Inl e)
           | Inr m \<Rightarrow> (set_cached True now KEV_CACHE_KEY (dumps (JObj (map (\<lambda>(k, n). (k, JStr (date_isoformat n))) m))) KEV_TTL r, Inr m))
        in case r_get now r KEV_CACHE_KEY of
          None \<Rightarrow> fetched
        | Some t \<Rightarrow> if t = [] then fetched else (case loads t of
            None \<Rightarrow> fetched
          | Some v \<Rightarrow> (case cached_catalog v of
              Inr m \<Rightarrow> (r, Inr m) | Inl (ValueError _) \<Rightarrow> fetched | Inl e \<Rightarrow> (r, Inl e))))"

section \<open>The KEV job\<close>

definition update_kev :: "int \<times> string \<Rightarrow> db \<Rightarrow> db" where
  "update_kev e d = d\<lparr>db_cves := update_rows
     (\<lambda>c. cv_cve_id c = snd e \<and> (\<not> cv_is_kev c \<or> cv_kev_added_date c = None))
     (\<lambda>c. c\<lparr>cv_is_kev := True, cv_kev_added_date := Some (fst e)\<rparr>) (db_cves d)\<rparr>"

definition kev_updates :: "catalog \<Rightarrow> db \<Rightarrow> (int \<times> string) list" where
  "kev_updates m d = List.map_filter (\<lambda>c. map_option (\<lambda>n. (n, cv_cve_id c)) (map_of m (cv_cve_id c))) (t_rows (db_cves d))"

definition kev_pass :: "(redis, catalog) action \<Rightarrow> (db \<times> redis, int \<times> int) action" where
  "kev_pass fetch s = (case s of (d, r) \<Rightarrow> (case fetch r of
      (r', Inl e) \<Rightarrow> ((d, r'), Inl e)
    | (r', Inr m) \<Rightarrow>
        if m = [] then ((d, r'), Inr (0, 0))
        else (let us = kev_updates m d in
          ((fold update_kev us d, r'), Inr (int (length us), int (length m) - int (length us))))))"

definition run_kev_refresh where
  "run_kev_refresh loads dumps answer up clk =
     run_enrich ''kev_refresh'' clk (kev_pass (get_catalog loads dumps answer up (ec_redis clk)))"

section \<open>Updates one by one are one update\<close>

lemma fold_keyed_updates:
  assumes "\<And>k v r. key (f k v r) = key r" and "distinct (map fst es)"
  shows "fold (\<lambda>(k, v). sql_update (\<lambda>r. key r = k \<and> p r) (f k v)) es rows =
     map (\<lambda>r. case map_of es (key r) of None \<Rightarrow> r | Some v \<Rightarrow> if p r then f (key r) v r else r) rows"
  using assms(2)
proof (induction es arbitrary: rows)
  case Nil
  then show ?case by simp
next
  case (Cons e es)
  obtain k v where e: "e = (k, v)" by (cases e)
  have "map_of es k = None" using Cons.prems by (simp add: e map_of_eq_None_iff)
  then show ?case using Cons assms(1) by (auto simp: e sql_update_def split: option.splits)
qed

definition flagged :: "catalog \<Rightarrow> cve_row \<Rightarrow> cve_row" where
  "flagged m c = (case map_of m (cv_cve_id c) of None \<Rightarrow> c | Some n \<Rightarrow>
     if \<not> cv_is_kev c \<or> cv_kev_added_date c = None then c\<lparr>cv_is_kev := True, cv_kev_added_date := Some n\<rparr> else c)"

lemma fold_update_kev:
  "fold update_kev us d = d\<lparr>db_cves := (db_cves d)\<lparr>t_rows :=
     fold (\<lambda>(k, v). sql_update (\<lambda>c. cv_cve_id c = k \<and> (\<not> cv_is_kev c \<or> cv_kev_added_date c = None))
       (\<lambda>c. c\<lparr>cv_is_kev := True, cv_kev_added_date := Some v\<rparr>)) (map (\<lambda>(n, i). (i, n)) us) (t_rows (db_cves d))\<rparr>\<rparr>"
  by (induction us arbitrary: d) (simp_all add: update_kev_def update_rows_def split_beta)

lemma kev_updates_rows:
  "map (\<lambda>(n, i). (i, n)) (kev_updates m d) =
     List.map_filter (\<lambda>c. map_option (Pair (cv_cve_id c)) (map_of m (cv_cve_id c))) (t_rows (db_cves d))"
  by (induction "t_rows (db_cves d)" arbitrary: d rule: list.induct)
    (auto simp: kev_updates_def List.map_filter_def option.map_comp o_def)

lemma map_filter_keys:
  "distinct (map key xs) \<Longrightarrow> distinct (map fst (List.map_filter (\<lambda>x. map_option (Pair (key x)) (m (key x))) xs)) \<and>
   map_of (List.map_filter (\<lambda>x. map_option (Pair (key x)) (m (key x))) xs) k = (if k \<in> key ` set xs then m k else None)"
proof (induction xs)
  case Nil
  then show ?case by (simp add: List.map_filter_simps)
next
  case (Cons x xs)
  have keys: "fst ` set (List.map_filter (\<lambda>x. map_option (Pair (key x)) (m (key x))) xs) \<subseteq> key ` set xs"
    by (auto simp: List.map_filter_def)
  then show ?case using Cons by (auto simp: List.map_filter_simps split: option.splits)
qed

lemma kev_rows:
  assumes "ids_distinct (db_cves d)"
  shows "t_rows (db_cves (fold update_kev (kev_updates m d) d)) = map (flagged m) (t_rows (db_cves d))"
proof -
  let ?rows = "t_rows (db_cves d)"
  note keys = map_filter_keys [OF assms [unfolded ids_distinct_def], of "map_of m"]
  let ?es = "List.map_filter (\<lambda>c. map_option (Pair (cv_cve_id c)) (map_of m (cv_cve_id c))) ?rows"
  have "t_rows (db_cves (fold update_kev (kev_updates m d) d)) =
      fold (\<lambda>(k, v). sql_update (\<lambda>c. cv_cve_id c = k \<and> (\<not> cv_is_kev c \<or> cv_kev_added_date c = None))
       (\<lambda>c. c\<lparr>cv_is_kev := True, cv_kev_added_date := Some v\<rparr>)) ?es ?rows"
    by (simp add: fold_update_kev kev_updates_rows)
  also have "\<dots> = map (\<lambda>c. case map_of ?es (cv_cve_id c) of
        None \<Rightarrow> c | Some n \<Rightarrow> if \<not> cv_is_kev c \<or> cv_kev_added_date c = None
          then c\<lparr>cv_is_kev := True, cv_kev_added_date := Some n\<rparr> else c) ?rows"
    using keys by (intro fold_keyed_updates) simp_all
  also have "\<dots> = map (flagged m) ?rows"
    using keys by (auto simp: flagged_def split: option.splits)
  finally show ?thesis .
qed

definition scored :: "int \<Rightarrow> scores \<Rightarrow> cve_row \<Rightarrow> cve_row" where
  "scored now m c = (case map_of m (cv_cve_id c) of None \<Rightarrow> c | Some (s, p) \<Rightarrow>
     c\<lparr>cv_epss_score := Some s, cv_epss_percentile := Some p, cv_epss_updated_at := Some now\<rparr>)"

lemma fold_update_epss:
  "fold (update_epss now) es d = d\<lparr>db_cves := (db_cves d)\<lparr>t_rows :=
     fold (\<lambda>(k, v). sql_update (\<lambda>c. cv_cve_id c = k \<and> True)
       (\<lambda>c. c\<lparr>cv_epss_score := Some (fst v), cv_epss_percentile := Some (snd v), cv_epss_updated_at := Some now\<rparr>)) es (t_rows (db_cves d))\<rparr>\<rparr>"
  by (induction es arbitrary: d) (simp_all add: update_epss_def update_rows_def split_beta)

lemma fold_history_cves [simp]: "db_cves (fold (insert_epss_history now) es d) = db_cves d"
  by (induction es arbitrary: d) (simp_all add: insert_epss_history_def)

lemma epss_rows:
  assumes "distinct (map fst es)"
  shows "t_rows (db_cves (write_scores now es d)) = map (scored now es) (t_rows (db_cves d))"
proof -
  have "t_rows (db_cves (write_scores now es d)) =
      fold (\<lambda>(k, v). sql_update (\<lambda>c. cv_cve_id c = k \<and> True)
       (\<lambda>c. c\<lparr>cv_epss_score := Some (fst v), cv_epss_percentile := Some (snd v), cv_epss_updated_at := Some now\<rparr>)) es (t_rows (db_cves d))"
    by (simp add: write_scores_def fold_update_epss)
  also have "\<dots> = map (\<lambda>c. case map_of es (cv_cve_id c) of None \<Rightarrow> c | Some v \<Rightarrow> if True
      then c\<lparr>cv_epss_score := Some (fst v), cv_epss_percentile := Some (snd v), cv_epss_updated_at := Some now\<rparr> else c) (t_rows (db_cves d))"
    using assms by (intro fold_keyed_updates) simp_all
  finally show ?thesis by (auto simp: scored_def split: option.splits)
qed

lemma history_rows:
  "map (\<lambda>h. (eh_cve_id h, eh_score h, eh_percentile h)) (t_rows (db_epss_history (write_scores now es d))) =
   map (\<lambda>h. (eh_cve_id h, eh_score h, eh_percentile h)) (t_rows (db_epss_history d)) @ map (\<lambda>(i, s, p). (i, s, Some p)) es"
proof -
  have "map (\<lambda>h. (eh_cve_id h, eh_score h, eh_percentile h)) (t_rows (db_epss_history (fold (insert_epss_history now) es d'))) =
     map (\<lambda>h. (eh_cve_id h, eh_score h, eh_percentile h)) (t_rows (db_epss_history d')) @ map (\<lambda>(i, s, p). (i, s, Some p)) es" for d'
    by (induction es arbitrary: d') (auto simp: insert_epss_history_def snd_insert_row)
  then show ?thesis by (simp add: write_scores_def fold_update_epss)
qed

lemma stale_le_key: "sort_key stale_le"
  unfolding sort_key_def stale_le_def by (meson linear order_trans)

lemma distinct_insert_by: "distinct (map f (insert_by le x ys)) = distinct (map f (x # ys))"
proof (induction ys)
  case Nil
  then show ?case by simp
next
  case (Cons y ys)
  then show ?case by auto
qed

lemma distinct_order_by: "distinct (map f (order_by le xs)) = distinct (map f xs)"
  unfolding order_by_def by (induction xs) (simp_all add: distinct_insert_by order_by_set [unfolded order_by_def])

lemma stale_ids_distinct:
  assumes "ids_distinct (db_cves d)"
  shows "distinct (map cv_cve_id (stale_cves now d))"
proof -
  have "distinct (map cv_cve_id (order_by stale_le (filter (stale_cve now) (t_rows (db_cves d)))))"
    using assms by (simp add: distinct_order_by ids_distinct_def distinct_map_filter)
  then show ?thesis unfolding stale_cves_def by (simp only: take_map [symmetric] distinct_take)
qed

text \<open>Whoever has enough rows before it is not among the first of a sorted answer.\<close>

lemma not_among_first:
  assumes "sort_key le" and "c \<in> set (take n (order_by le xs))"
  shows "length (filter (\<lambda>x. \<not> le c x) (order_by le xs)) < n"
proof -
  let ?ys = "order_by le xs"
  obtain i where i: "i < n" "i < length ?ys" "?ys ! i = c"
    using assms(2) by (auto simp: in_set_conv_nth)
  have "sorted_wrt le ?ys" by (rule order_by_sorted [OF assms(1)])
  moreover have refl: "le c c" using assms(1) by (auto simp: sort_key_def)
  ultimately have "le c x" if x: "x \<in> set (drop i ?ys)" for x
  proof -
    obtain j where "j < length (drop i ?ys)" "drop i ?ys ! j = x" using x unfolding in_set_conv_nth by blast
    then have "x = ?ys ! (i + j)" "i + j < length ?ys" by simp_all
    then show ?thesis using \<open>sorted_wrt le ?ys\<close> i refl by (cases j) (auto simp: sorted_wrt_iff_nth_less)
  qed
  then have "filter (\<lambda>x. \<not> le c x) (drop i ?ys) = []" by (simp add: filter_empty_conv)
  then have "filter (\<lambda>x. \<not> le c x) ?ys = filter (\<lambda>x. \<not> le c x) (take i ?ys)"
    by (metis append_take_drop_id filter_append append_Nil2)
  then have "length (filter (\<lambda>x. \<not> le c x) ?ys) \<le> length (take i ?ys)" by (metis length_filter_le)
  then show ?thesis using i by simp
qed

lemma length_filter_insert_by: "length (filter p (insert_by le x ys)) = length (filter p (x # ys))"
  by (induction ys) auto

lemma length_filter_order_by: "length (filter p (order_by le xs)) = length (filter p xs)"
  unfolding order_by_def by (induction xs) (simp_all add: length_filter_insert_by)

lemma first_not_taken:
  assumes "EPSS_PAGE \<le> length (filter (\<lambda>x. cv_epss_updated_at x = None \<and> \<not> stale_le c x) (t_rows (db_cves d)))"
  shows "c \<notin> set (stale_cves now d)"
proof
  assume "c \<in> set (stale_cves now d)"
  then have "length (filter (\<lambda>x. \<not> stale_le c x) (filter (stale_cve now) (t_rows (db_cves d)))) < EPSS_PAGE"
    unfolding stale_cves_def using not_among_first [OF stale_le_key] by (simp only: length_filter_order_by)
  moreover have "length (filter (\<lambda>x. cv_epss_updated_at x = None \<and> \<not> stale_le c x) rows) \<le>
      length (filter (\<lambda>x. \<not> stale_le c x) (filter (stale_cve now) rows))" for rows
    by (induction rows) (auto simp: stale_cve_def)
  ultimately show False using assms by (meson le_trans not_le)
qed

lemma found_scores_of:
  assumes "distinct ids"
  shows "distinct (map fst (found_scores m ids)) \<and> map_of (found_scores m ids) i = (if i \<in> set ids then map_of m i else None)"
  using map_filter_keys [where key = "\<lambda>x. x" and m = "map_of m" and xs = ids and k = i] assms by (simp add: found_scores_def)

lemma epss_pass_rows:
  assumes "ids_distinct (db_cves d)"
  shows "fst (fst (epss_pass now fetch (d, r))) = d \<or> (\<exists>r' m. fetch (map cv_cve_id (stale_cves now d)) r = (r', Inr m) \<and>
    fst (fst (epss_pass now fetch (d, r))) = write_scores now (found_scores m (map cv_cve_id (stale_cves now d))) d)"
  by (auto simp: epss_pass_def Let_def split: prod.splits sum.splits)

lemma scored_id [simp]: "cv_cve_id (scored now m c) = cv_cve_id c"
  by (simp add: scored_def split: option.splits prod.splits)

definition starving :: "string set \<Rightarrow> cve_row \<Rightarrow> db \<Rightarrow> bool" where
  "starving U c d \<longleftrightarrow> ids_distinct (db_cves d) \<and> c \<in> set (t_rows (db_cves d)) \<and>
     EPSS_PAGE \<le> length (filter (\<lambda>x. cv_cve_id x \<in> U \<and> cv_epss_updated_at x = None \<and> \<not> stale_le c x) (t_rows (db_cves d)))"

lemma starving_pass:
  assumes "starving U c d" and unscored: "\<And>ids r r' m. fetch ids r = (r', Inr m) \<Longrightarrow> \<forall>u \<in> U. map_of m u = None"
  shows "starving U c (fst (fst (epss_pass now fetch (d, r))))"
proof -
  let ?rows = "t_rows (db_cves d)" and ?ids = "map cv_cve_id (stale_cves now d)"
  have ids: "ids_distinct (db_cves d)" and c: "c \<in> set ?rows"
    and many: "EPSS_PAGE \<le> length (filter (\<lambda>x. cv_cve_id x \<in> U \<and> cv_epss_updated_at x = None \<and> \<not> stale_le c x) ?rows)"
    using assms(1) by (simp_all add: starving_def)
  have "length (filter (\<lambda>x. cv_cve_id x \<in> U \<and> p x) rows) \<le> length (filter p rows)" for p and rows :: "cve_row list"
    by (induction rows) auto
  from le_trans [OF many this] have "c \<notin> set (stale_cves now d)" by (rule first_not_taken)
  moreover have "x = c" if "x \<in> set ?rows" "cv_cve_id x = cv_cve_id c" for x
    using ids c that by (auto simp: ids_distinct_def distinct_map inj_on_def)
  moreover have "set (stale_cves now d) \<subseteq> set ?rows" by (auto simp: stale_cves_def dest: in_set_takeD)
  ultimately have out: "cv_cve_id c \<notin> set ?ids" by auto
  from epss_pass_rows [OF ids, of now fetch r] show ?thesis
  proof
    assume "fst (fst (epss_pass now fetch (d, r))) = d"
    then show ?thesis using assms(1) by simp
  next
    assume "\<exists>r' m. fetch ?ids r = (r', Inr m) \<and> fst (fst (epss_pass now fetch (d, r))) = write_scores now (found_scores m ?ids) d"
    then obtain r' m where m: "fetch ?ids r = (r', Inr m)"
      and d': "fst (fst (epss_pass now fetch (d, r))) = write_scores now (found_scores m ?ids) d" by blast
    note found = found_scores_of [OF stale_ids_distinct [OF ids, of now], of m]
    have rows: "t_rows (db_cves (write_scores now (found_scores m ?ids) d)) = map (scored now (found_scores m ?ids)) ?rows"
      using found by (intro epss_rows) simp
    have same: "scored now (found_scores m ?ids) x = x" if "cv_cve_id x \<in> U \<or> x = c" for x
      using that unscored [OF m] found [of "cv_cve_id x"] out by (auto simp: scored_def)
    have "length (filter p xs) \<le> length (filter p (map g xs))" if "\<And>x. p x \<Longrightarrow> g x = x" for p and g :: "cve_row \<Rightarrow> cve_row" and xs
      using that by (induction xs) auto
    from this [of "\<lambda>x. cv_cve_id x \<in> U \<and> cv_epss_updated_at x = None \<and> \<not> stale_le c x" "scored now (found_scores m ?ids)" ?rows]
    have "EPSS_PAGE \<le> length (filter (\<lambda>x. cv_cve_id x \<in> U \<and> cv_epss_updated_at x = None \<and> \<not> stale_le c x)
        (map (scored now (found_scores m ?ids)) ?rows))"
      using many same by (meson le_trans)
    moreover have "c \<in> set (map (scored now (found_scores m ?ids)) ?rows)"
      using c same [of c] by (metis image_eqI set_map)
    ultimately show ?thesis using ids unfolding starving_def d' rows ids_distinct_def by (simp add: comp_def)
  qed
qed

section \<open>The cache of scores\<close>

definition score_json :: "rat \<times> rat \<Rightarrow> json" where
  "score_json s = JObj [(''epss'', JFloat (fst s)), (''percentile'', JFloat (snd s))]"

lemma score_of_json [simp]: "score_of (score_json s) = Inr s"
  by (simp add: score_of_def score_json_def subscript_def item_def obj_get_def to_float_def)

lemma epss_key_inj [simp]: "epss_key i = epss_key j \<longleftrightarrow> i = j"
  by (simp add: epss_key_def)

lemma score_entries_distinct:
  "score_entries m vs = Inr m' \<Longrightarrow> distinct (map fst m) \<Longrightarrow> distinct (map fst m')"
  by (induction m vs rule: score_entries.induct) (auto split: sum.splits option.splits prod.splits py_exn.splits)

lemma fetch_batches_distinct:
  "fetch_batches srv m bs = Inr m' \<Longrightarrow> distinct (map fst m) \<Longrightarrow> distinct (map fst m')"
  by (induction bs arbitrary: m) (auto simp: bind_r_Inr dest: score_entries_distinct)

lemma fold_cache_scores:
  "distinct (map fst new) \<Longrightarrow> r_get t (fold (cache_score dumps now) new r) (epss_key i) = (case map_of new i of
      Some s \<Rightarrow> if t < now + 86400 then Some (dumps (score_json s)) else None
    | None \<Rightarrow> r_get t r (epss_key i))"
proof (induction new arbitrary: r)
  case Nil
  then show ?case by simp
next
  case (Cons e new)
  obtain k v where e: "e = (k, v)" by (cases e)
  have "map_of new k = None" using Cons.prems by (simp add: e map_of_eq_None_iff)
  moreover have "r_get t (cache_score dumps now (k, v) r) (epss_key i) =
     (if k = i then if t < now + 86400 then Some (dumps (score_json v)) else None else r_get t r (epss_key i))"
    by (simp add: cache_score_def set_cached_def r_setex_def EPSS_TTL_def score_json_def)
  ultimately show ?case using Cons.IH [of "cache_score dumps now (k, v) r"] Cons.prems
    by (cases "i = k"; cases "map_of new i") (simp_all add: e)
qed

lemma map_of_update_scores:
  "distinct (map fst new) \<Longrightarrow> map_of (update_scores m new) i = (case map_of new i of Some s \<Rightarrow> Some s | None \<Rightarrow> map_of m i)"
proof (induction new arbitrary: m)
  case Nil
  then show ?case by (simp add: update_scores_def)
next
  case (Cons e new)
  obtain k v where e: "e = (k, v)" by (cases e)
  have "map_of new k = None" using Cons.prems by (simp add: e map_of_eq_None_iff)
  moreover have "update_scores m (e # new) = update_scores (dict_put k v m) new" by (simp add: update_scores_def e)
  ultimately show ?case using Cons by (auto simp: e split: option.splits)
qed

lemma split_uncached: "split_cached loads now [] ids = Inr ([], ids)"
  by (induction ids) (simp_all add: cached_score_def r_get_def)

lemma split_keys: "split_cached loads t r js = Inr (n, us) \<Longrightarrow> map_of n j \<noteq> None \<Longrightarrow> j \<in> set js"
proof (induction js arbitrary: n us)
  case Nil
  then show ?case by simp
next
  case (Cons a js)
  obtain c m us' where c: "cached_score loads t r a = Inr c" and m: "split_cached loads t r js = Inr (m, us')"
    using Cons.prems(1) by (cases "cached_score loads t r a"; cases "split_cached loads t r js") auto
  have "n = (case c of None \<Rightarrow> m | Some s \<Rightarrow> if map_of m a = None then (a, s) # m else m)"
    using Cons.prems(1) c m by (cases c) auto
  then have "j = a \<or> map_of m j \<noteq> None" using Cons.prems(2) by (cases c) (auto split: if_splits)
  then show ?case using Cons.IH [OF m] by auto
qed

lemma split_all_cached:
  "\<forall>i \<in> set ids. \<exists>s. cached_score loads t r i = Inr (Some s) \<and> map_of m i = Some s \<Longrightarrow>
   \<exists>m'. split_cached loads t r ids = Inr (m', []) \<and> (\<forall>i \<in> set ids. map_of m' i = map_of m i)"
proof (induction ids)
  case Nil
  then show ?case by simp
next
  case (Cons i ids)
  obtain s where s: "cached_score loads t r i = Inr (Some s)" "map_of m i = Some s" using Cons.prems by auto
  obtain m' where m': "split_cached loads t r ids = Inr (m', [])" "\<forall>j \<in> set ids. map_of m' j = map_of m j"
    using Cons by auto
  show ?case
  proof (cases "i \<in> set ids")
    case True
    then have "map_of m' i = Some s" using m'(2) s(2) by simp
    then show ?thesis using s m' by simp
  next
    case False
    then have "map_of m' i = None" using split_keys [OF m'(1)] by blast
    then show ?thesis using s m' False by auto
  qed
qed

section \<open>Properties\<close>

text \<open>What the EPSS client caches it reads back: if every id asked for got a score, then for a day the same
  call answers with the same scores and without asking the service, whatever that would say now, given
  that reading JSON undoes writing it.\<close>

theorem epss_scores_read_back:
  assumes "list_all (\<lambda>(_, s). loads (dumps (score_json s)) = Some (score_json s)) m" and "loads [] = None"
    and "fetch_scores loads dumps srv True now ids [] = (r, Inr m)" and "list_all (\<lambda>i. map_of m i \<noteq> None) ids"
    and "t < now + 86400"
  shows "\<exists>m'. fetch_scores loads dumps srv' True t ids r = (r, Inr m') \<and> list_all (\<lambda>i. map_of m' i = map_of m i) ids"
proof (cases "ids = []")
  case True
  then show ?thesis by (simp add: fetch_scores_def)
next
  case False
  then obtain new where new: "fetch_from_api srv ids = Inr new" and r: "r = fold (cache_score dumps now) new []"
    and m: "m = update_scores [] new"
    using assms(3) unfolding fetch_scores_def split_uncached by (cases ids) (auto split: sum.splits)
  have distinct: "distinct (map fst new)"
    using fetch_batches_distinct [OF new [unfolded fetch_from_api_def]] by simp
  have "\<exists>s. cached_score loads t r i = Inr (Some s) \<and> map_of m i = Some s" if i: "i \<in> set ids" for i
  proof -
    obtain s where s: "map_of new i = Some s"
      using assms(4) i by (auto simp: list_all_iff m map_of_update_scores [OF distinct] split: option.splits)
    then have "r_get t r (epss_key i) = Some (dumps (score_json s))"
      unfolding r fold_cache_scores [OF distinct] using assms(5) by simp
    moreover have ms: "map_of m i = Some s" using s by (simp add: m map_of_update_scores [OF distinct])
    then have same: "loads (dumps (score_json s)) = Some (score_json s)"
      using assms(1) by (auto simp: list_all_iff dest!: map_of_SomeD)
    then have "dumps (score_json s) \<noteq> []" using assms(2) by (metis option.distinct(1))
    ultimately show ?thesis using same s by (simp add: cached_score_def m map_of_update_scores [OF distinct])
  qed
  then have "\<exists>m'. split_cached loads t r ids = Inr (m', []) \<and> (\<forall>i \<in> set ids. map_of m' i = map_of m i)"
    by (intro split_all_cached) blast
  then show ?thesis using False by (auto simp: fetch_scores_def list_all_iff)
qed

text \<open>A run of the KEV job is one update: every stored CVE of the catalogue becomes a known exploited one with
  the date of the catalogue unless it already has both the flag and a date, every other row is left
  alone, the counters are the numbers of catalogue entries with and without a row, and a second run with
  the same catalogue changes nothing. In particular no flag and no date is ever taken back.\<close>

theorem kev_refresh_correct:
  assumes "ids_distinct (db_cves d)" and "fetch r = (r', Inr m)"
  shows "t_rows (db_cves (fst (fst (kev_pass fetch (d, r))))) = map (flagged m) (t_rows (db_cves d)) \<and>
    snd (kev_pass fetch (d, r)) = Inr (int (length (filter (\<lambda>c. map_of m (cv_cve_id c) \<noteq> None) (t_rows (db_cves d)))),
       int (length m) - int (length (filter (\<lambda>c. map_of m (cv_cve_id c) \<noteq> None) (t_rows (db_cves d))))) \<and>
    map (flagged m) (map (flagged m) (t_rows (db_cves d))) = map (flagged m) (t_rows (db_cves d))"
proof -
  have "length (kev_updates m d) = length (filter (\<lambda>c. map_of m (cv_cve_id c) \<noteq> None) (t_rows (db_cves d)))"
    by (simp add: kev_updates_def List.map_filter_def)
  moreover have "map (flagged []) rows = rows" for rows by (rule map_idI) (simp add: flagged_def)
  moreover have "flagged m (flagged m c) = flagged m c" for c by (simp add: flagged_def split: option.splits)
  ultimately show ?thesis using kev_rows [OF assms(1), of m] assms(2)
    by (cases "m = []") (simp_all add: kev_pass_def Let_def)
qed

text \<open>A run of the EPSS job that gets an answer writes, for exactly the first 5000 stale CVEs that the answer
  scores, the score, the percentile and the time, appends one row of history for each of them in that
  order, leaves every other CVE alone, and counts the others of the 5000 as skipped.\<close>

theorem epss_refresh_correct:
  assumes "ids_distinct (db_cves d)" and "fetch (map cv_cve_id (stale_cves now d)) r = (r', Inr m)"
    and "stale_cves now d \<noteq> []"
  defines "es \<equiv> found_scores m (map cv_cve_id (stale_cves now d))"
  shows "\<exists>d'. epss_pass now fetch (d, r) = ((d', r'), Inr (int (length es), int (length (stale_cves now d)) - int (length es))) \<and>
    t_rows (db_cves d') = map (\<lambda>c. if cv_cve_id c \<in> cv_cve_id ` set (stale_cves now d) then scored now m c else c) (t_rows (db_cves d)) \<and>
    map (\<lambda>h. (eh_cve_id h, eh_score h, eh_percentile h)) (t_rows (db_epss_history d')) =
      map (\<lambda>h. (eh_cve_id h, eh_score h, eh_percentile h)) (t_rows (db_epss_history d)) @ map (\<lambda>(i, s, p). (i, s, Some p)) es"
proof -
  note found = found_scores_of [OF stale_ids_distinct [OF assms(1), of now], of m, folded es_def]
  have "epss_pass now fetch (d, r) = ((write_scores now es d, r'), Inr (int (length es), int (length (stale_cves now d)) - int (length es)))"
    using assms(2,3) by (simp add: epss_pass_def Let_def es_def)
  moreover have "t_rows (db_cves (write_scores now es d)) = map (scored now es) (t_rows (db_cves d))"
    using found by (intro epss_rows) simp
  moreover have "scored now es c = (if cv_cve_id c \<in> cv_cve_id ` set (stale_cves now d) then scored now m c else c)" for c
    using found [of "cv_cve_id c"] by (simp add: scored_def)
  ultimately show ?thesis using history_rows [of now es d] by (intro exI [of _ "write_scores now es d"]) simp
qed

text \<open>Starvation: a CVE that has no score is skipped without being marked, so it stays at the head of the
  queue. If 5000 never scored CVEs come before a CVE, then that CVE's row stays as it is through any
  number of runs at any times, whatever scores the service has for it.\<close>

theorem epss_refresh_starves:
  assumes "ids_distinct (db_cves d)" and "c \<in> set (t_rows (db_cves d))"
    and "5000 \<le> length (filter (\<lambda>x. cv_cve_id x \<in> U \<and> cv_epss_updated_at x = None \<and> \<not> stale_le c x) (t_rows (db_cves d)))"
    and "list_all (\<lambda>(now, fetch). \<forall>ids r r' m. fetch ids r = (r', Inr m) \<longrightarrow> (\<forall>u \<in> U. map_of m u = None)) runs"
  shows "c \<in> set (t_rows (db_cves (fst (foldl (\<lambda>s (now, fetch). fst (epss_pass now fetch s)) (d, r) runs))))"
proof -
  have "starving U c d" using assms(1-3) by (simp add: starving_def EPSS_PAGE_def)
  then have "starving U c (fst (foldl (\<lambda>s (now, fetch). fst (epss_pass now fetch s)) (d, r) runs))"
    using assms(4)
  proof (induction runs arbitrary: d r)
    case Nil
    then show ?case by simp
  next
    case (Cons x runs)
    obtain now fetch where x: "x = (now, fetch)" by (cases x)
    have "starving U c (fst (fst (epss_pass now fetch (d, r))))"
      by (rule starving_pass [OF Cons.prems(1)]) (use Cons.prems(2) in \<open>auto simp: x\<close>)
    then show ?case using Cons.IH [of "fst (fst (epss_pass now fetch (d, r)))" "snd (fst (epss_pass now fetch (d, r)))"] Cons.prems(2)
      by (simp add: x)
  qed
  then show ?thesis by (simp add: starving_def)
qed

text \<open>Rows that nobody has scored yet.\<close>

definition sample_row :: "int \<Rightarrow> bool \<Rightarrow> cve_row" where
  "sample_row n kev = (new_cve 0 (sample_values (py_str_int n) 0) n)\<lparr>cv_is_kev := kev\<rparr>"

definition crowded_db :: "int \<Rightarrow> db" where
  "crowded_db n = (empty_db 0)\<lparr>db_cves := \<lparr>t_rows = sample_row 0 False # map (\<lambda>i. sample_row i True) [1..n], t_serial = n\<rparr>\<rparr>"

lemma sample_row_fields [simp]:
  "cv_cve_id (sample_row n b) = py_str_int n" "cv_is_kev (sample_row n b) = b" "cv_epss_updated_at (sample_row n b) = None"
  by (simp_all add: sample_row_def new_cve_def sample_values_def)

lemma crowded_distinct: "ids_distinct (db_cves (crowded_db n))"
proof -
  have "inj_on (\<lambda>i. py_str_int i) {1..n}" by (rule inj_onI) (metis py_int_str_int option.inject)
  moreover have "py_str_int 0 \<noteq> py_str_int i" if "1 \<le> i" for i using that by (metis py_int_str_int option.inject not_one_le_zero)
  ultimately show ?thesis by (force simp: ids_distinct_def crowded_db_def distinct_map comp_def)
qed

theorem kev_refresh_correct_witness:
  "t_rows (db_cves (fst (fst (kev_pass (\<lambda>r. (r, Inr [(''0'', 19000)])) (crowded_db 2, []))))) =
     map (flagged [(''0'', 19000)]) (t_rows (db_cves (crowded_db 2)))"
  using kev_refresh_correct [OF crowded_distinct, of "\<lambda>r. (r, Inr [(''0'', 19000)])" "[]" "[]" "[(''0'', 19000)]" 2] by simp

lemma crowded_before:
  "nat n \<le> length (filter (\<lambda>x. cv_cve_id x \<in> UNIV - {''0''} \<and> cv_epss_updated_at x = None \<and> \<not> stale_le (sample_row 0 False) x)
     (t_rows (db_cves (crowded_db n))))"
proof -
  let ?p = "\<lambda>x. cv_cve_id x \<in> UNIV - {''0''} \<and> cv_epss_updated_at x = None \<and> \<not> stale_le (sample_row 0 False) x"
  have "py_str_int i \<noteq> ''0''" if i: "1 \<le> i" for i
  proof
    assume "py_str_int i = ''0''"
    then have "Some i = py_int ''0''" by (metis py_int_str_int)
    moreover have "py_int ''0'' = Some 0" by code_simp
    ultimately show False using i by simp
  qed
  then have "?p x" if "x \<in> set (map (\<lambda>i. sample_row i True) [1..n])" for x
    using that by (auto simp: stale_le_def)
  then have "filter ?p (map (\<lambda>i. sample_row i True) [1..n]) = map (\<lambda>i. sample_row i True) [1..n]"
    by (intro filter_True ballI) blast
  then show ?thesis by (simp add: crowded_db_def)
qed

theorem epss_refresh_starves_witness:
  "sample_row 0 False \<in> set (t_rows (db_cves (fst (foldl (\<lambda>s (now, fetch). fst (epss_pass now fetch s)) (crowded_db 5000, [])
     (replicate 1000 (5, \<lambda>ids r. (r, Inr [(''0'', 9/10, 99/100)])))))))"
proof (rule epss_refresh_starves [OF crowded_distinct])
  show "sample_row 0 False \<in> set (t_rows (db_cves (crowded_db 5000)))" by (simp add: crowded_db_def del: upto.simps)
  show "5000 \<le> length (filter (\<lambda>x. cv_cve_id x \<in> UNIV - {''0''} \<and> cv_epss_updated_at x = None \<and> \<not> stale_le (sample_row 0 False) x)
      (t_rows (db_cves (crowded_db 5000))))"
    using crowded_before [of 5000] by (simp only: nat_numeral)
  have all: "p x \<Longrightarrow> list_all p (replicate n x)" for p and x :: "int \<times> (string list \<Rightarrow> (redis, scores) action)" and n
    by (simp add: list_all_iff)
  show "list_all (\<lambda>(now, fetch). \<forall>ids r r' m. fetch ids r = (r', Inr m) \<longrightarrow> (\<forall>u \<in> UNIV - {''0''}. map_of m u = None))
      (replicate 1000 (5 :: int, (\<lambda>ids r. (r, Inr [(''0'', 9/10, 99/100)])) :: string list \<Rightarrow> (redis, scores) action))"
    by (rule all) auto
qed

theorem epss_refresh_correct_witness:
  "\<exists>d'. epss_pass 5 (\<lambda>ids r. (r, Inr [(''0'', 9/10, 99/100)])) (crowded_db 2, []) = ((d', []), Inr (1, 2))"
proof -
  have ids: "map cv_cve_id (stale_cves 5 (crowded_db 2)) = [''1'', ''2'', ''0'']" by code_simp
  then have ne: "stale_cves 5 (crowded_db 2) \<noteq> []" and len: "length (stale_cves 5 (crowded_db 2)) = 3"
    using arg_cong [OF ids, of length] by auto
  have found: "found_scores [(''0'', 9/10, 99/100)] [''1'', ''2'', ''0''] = [(''0'', 9/10, 99/100)]" by code_simp
  show ?thesis
    using epss_refresh_correct [OF crowded_distinct _ ne, where fetch = "\<lambda>ids r. (r, Inr [(''0'', 9/10, 99/100)])"
        and r = "[]" and r' = "[]" and m = "[(''0'', 9/10, 99/100)]", unfolded ids found len] by force
qed

definition one_score :: json where
  "one_score = JObj [(''data'', JArr [JObj [(''cve'', JStr ''a''), (''epss'', JStr ''1.0''), (''percentile'', JInt 1)]])]"

theorem epss_scores_read_back_witness:
  "\<exists>m'. fetch_scores (\<lambda>t. if t = ''x'' then Some (score_json (1, 1)) else None) (\<lambda>_. ''x'') (\<lambda>_. Inl ConnectionError) True 9 [''a'']
     [(''epss:a'', ''x'', Some 86400)] = ([(''epss:a'', ''x'', Some 86400)], Inr m')"
proof -
  let ?loads = "\<lambda>t. if t = ''x'' then Some (score_json (1, 1)) else None"
  have "fetch_scores ?loads (\<lambda>_. ''x'') (\<lambda>_. Inr \<lparr>r_status = 200, r_retry_after = None, r_body = Some one_score\<rparr>) True 0 [''a''] [] =
      ([(''epss:a'', ''x'', Some 86400)], Inr [(''a'', 1, 1)])" by code_simp
  from epss_scores_read_back [OF _ _ this, of 9 "\<lambda>_. Inl ConnectionError"] show ?thesis by auto
qed

end
