(* ===== verification/Leader.thy ===== *)
theory Leader
  imports Redis_Store
begin

text \<open>
  \<open>app/core/leader.py\<close>: the election of the replica that runs the cron jobs. An elector is its node
  name and its flag; each call to Redis is answered, lost before it arrives, or lost after it took
  effect. The cluster is the Redis server, its clock and the flag of every node; its steps are the
  calls of the nodes and the passing of time, in any order.
\<close>

section \<open>One elector\<close>

definition LOCK_KEY :: string where "LOCK_KEY = ''scheduler:leader''"
definition TTL_SECONDS :: int where "TTL_SECONDS = 30"
definition REFRESH_INTERVAL_SECONDS :: int where "REFRESH_INTERVAL_SECONDS = 10"

record elector =
  el_node :: string
  el_is_leader :: bool

datatype delivery = Answered | Unsent | Unanswered

text \<open>A call: \<open>None\<close> is the exception of a call that brought no answer.\<close>

definition send :: "delivery \<Rightarrow> (redis \<Rightarrow> redis \<times> 'a) \<Rightarrow> redis \<Rightarrow> redis \<times> 'a option" where
  "send dl cmd r = (case dl of Answered \<Rightarrow> (fst (cmd r), Some (snd (cmd r))) | Unsent \<Rightarrow> (r, None) | Unanswered \<Rightarrow> (fst (cmd r), None))"

definition leader_acquire :: "rat \<Rightarrow> delivery \<Rightarrow> elector \<Rightarrow> redis \<Rightarrow> elector \<times> redis \<times> bool" where
  "leader_acquire now dl e r =
     (if el_is_leader e then (e, r, True)
      else case send dl (r_set_nx now LOCK_KEY TTL_SECONDS (el_node e)) r of
        (r', None) \<Rightarrow> (e, r', False)
      | (r', Some ok) \<Rightarrow> (e\<lparr>el_is_leader := ok\<rparr>, r', ok))"

text \<open>The two scripts compare the holder and act, atomically.\<close>

definition extend_script :: "rat \<Rightarrow> string \<Rightarrow> redis \<Rightarrow> redis \<times> bool" where
  "extend_script now node r =
     (if r_get now r LOCK_KEY = Some node then r_expire now LOCK_KEY TTL_SECONDS r else (r, False))"

definition release_script :: "rat \<Rightarrow> string \<Rightarrow> redis \<Rightarrow> redis \<times> bool" where
  "release_script now node r =
     (if r_get now r LOCK_KEY = Some node then (r_del LOCK_KEY r, True) else (r, False))"

definition leader_refresh :: "rat \<Rightarrow> delivery \<Rightarrow> elector \<Rightarrow> redis \<Rightarrow> elector \<times> redis \<times> bool" where
  "leader_refresh now dl e r =
     (if \<not> el_is_leader e then leader_acquire now dl e r
      else case send dl (extend_script now (el_node e)) r of
        (r', None) \<Rightarrow> (e, r', el_is_leader e)
      | (r', Some res) \<Rightarrow> (let e' = (if res then e else e\<lparr>el_is_leader := False\<rparr>) in (e', r', el_is_leader e')))"

definition leader_release :: "rat \<Rightarrow> delivery \<Rightarrow> elector \<Rightarrow> redis \<Rightarrow> elector \<times> redis" where
  "leader_release now dl e r =
     (if \<not> el_is_leader e then (e, r)
      else (e\<lparr>el_is_leader := False\<rparr>, fst (send dl (release_script now (el_node e)) r)))"

section \<open>The cluster\<close>

record cluster =
  cl_now :: rat
  cl_redis :: redis
  cl_leads :: "string \<Rightarrow> bool"

datatype cluster_event =
    Elapse rat
  | Refresh string delivery
  | Release string delivery

definition elector_of :: "cluster \<Rightarrow> string \<Rightarrow> elector" where
  "elector_of s n = \<lparr>el_node = n, el_is_leader = cl_leads s n\<rparr>"

definition put_elector :: "cluster \<Rightarrow> elector \<times> redis \<Rightarrow> cluster" where
  "put_elector s er = s\<lparr>cl_redis := snd er, cl_leads := (cl_leads s)(el_node (fst er) := el_is_leader (fst er))\<rparr>"

fun cluster_step :: "cluster \<Rightarrow> cluster_event \<Rightarrow> cluster" where
  "cluster_step s (Elapse d) = s\<lparr>cl_now := cl_now s + max 0 d\<rparr>"
| "cluster_step s (Refresh n dl) =
     (case leader_refresh (cl_now s) dl (elector_of s n) (cl_redis s) of (e, r, _) \<Rightarrow> put_elector s (e, r))"
| "cluster_step s (Release n dl) = put_elector s (leader_release (cl_now s) dl (elector_of s n) (cl_redis s))"

abbreviation holder :: "cluster \<Rightarrow> string option" where
  "holder s \<equiv> r_get (cl_now s) (cl_redis s) LOCK_KEY"

text \<open>Every node that believes to lead holds the lock.\<close>

definition leaders_hold :: "cluster \<Rightarrow> bool" where
  "leaders_hold s \<longleftrightarrow> (\<forall>n. cl_leads s n \<longrightarrow> holder s = Some n)"

text \<open>A step is timely unless it lets the lock of a node that believes to lead expire.\<close>

definition timely :: "cluster \<Rightarrow> cluster_event \<Rightarrow> bool" where
  "timely s e = (case e of
      Elapse d \<Rightarrow> (\<forall>n. cl_leads s n \<longrightarrow> r_get (cl_now s + max 0 d) (cl_redis s) LOCK_KEY \<noteq> None)
    | _ \<Rightarrow> True)"

primrec timely_run :: "cluster \<Rightarrow> cluster_event list \<Rightarrow> bool" where
  "timely_run s [] = True"
| "timely_run s (e # es) = (timely s e \<and> timely_run (cluster_step s e) es)"

lemmas leader_defs = leader_acquire_def leader_refresh_def leader_release_def send_def extend_script_def
  release_script_def r_set_nx_def r_expire_def put_elector_def elector_of_def TTL_SECONDS_def

lemma timely_step: "leaders_hold s \<Longrightarrow> timely s e \<Longrightarrow> leaders_hold (cluster_step s e)"
proof (cases e)
  case (Elapse d)
  assume "leaders_hold s" "timely s e"
  moreover have "cl_now s \<le> cl_now s + max 0 d" by simp
  ultimately show ?thesis
    using r_get_later [of "cl_now s" "cl_now s + max 0 d" "cl_redis s" LOCK_KEY]
    by (fastforce simp: Elapse leaders_hold_def timely_def)
next
  case (Refresh n dl)
  assume "leaders_hold s" "timely s e"
  then show ?thesis
    by (cases dl; auto simp: Refresh leaders_hold_def leader_defs Let_def split: option.splits; metis option.inject)
next
  case (Release n dl)
  assume "leaders_hold s" "timely s e"
  then show ?thesis
    by (cases dl; auto simp: Release leaders_hold_def leader_defs; metis option.inject)
qed

lemma timely_run_holds: "leaders_hold s \<Longrightarrow> timely_run s es \<Longrightarrow> leaders_hold (foldl cluster_step s es)"
  by (induction es arbitrary: s) (simp_all add: timely_step)

text \<open>The lock never outlives its time to live, counted from now.\<close>

definition lock_bounded :: "cluster \<Rightarrow> bool" where
  "lock_bounded s \<longleftrightarrow> (\<forall>t \<ge> cl_now s + 30. r_get t (cl_redis s) LOCK_KEY = None)"

lemma lock_bounded_step: "lock_bounded s \<Longrightarrow> lock_bounded (cluster_step s e)"
  by (cases e) (auto simp: lock_bounded_def leader_defs Let_def split: option.splits delivery.splits)

interpretation bounded_lock: step_system cluster_step lock_bounded
  by unfold_locales (rule lock_bounded_step)

text \<open>A node cut off from Redis: none of its calls arrives.\<close>

definition cut_off :: "string \<Rightarrow> cluster_event \<Rightarrow> bool" where
  "cut_off a e = (case e of Elapse _ \<Rightarrow> True | Refresh n dl \<Rightarrow> n = a \<longrightarrow> dl = Unsent | Release n dl \<Rightarrow> n \<noteq> a)"

lemma cut_off_step: "cl_leads s a \<Longrightarrow> cut_off a e \<Longrightarrow> cl_leads (cluster_step s e) a"
  by (cases e) (auto simp: cut_off_def leader_defs Let_def split: option.splits delivery.splits)

lemma cut_off_run: "cl_leads s a \<Longrightarrow> list_all (cut_off a) es \<Longrightarrow> cl_leads (foldl cluster_step s es) a"
  by (induction es arbitrary: s) (simp_all add: cut_off_step)

lemma step_other: "(case e of Elapse _ \<Rightarrow> True | Refresh n _ \<Rightarrow> n \<noteq> b | Release n _ \<Rightarrow> n \<noteq> b) \<Longrightarrow>
   cl_leads (cluster_step s e) b = cl_leads s b"
  by (cases e) (auto simp: leader_defs Let_def split: option.splits delivery.splits)

lemma crash_takeover:
  assumes "lock_bounded s" and "30 \<le> d" and "\<not> cl_leads s b"
  shows "cl_leads (foldl cluster_step s [Elapse d, Refresh b Answered]) b \<and>
     holder (foldl cluster_step s [Elapse d, Refresh b Answered]) = Some b"
  using assms by (auto simp: lock_bounded_def leader_defs max_def)

section \<open>Properties\<close>

text \<open>C35: At most one leader: as long as the lock of no node that believes to lead expires, whatever calls are
  made, lost or lost after taking effect, and in whatever order, at most one node leads, and it holds the lock.\<close>

theorem at_most_one_leader:
  assumes "leaders_hold s" and "timely_run s es"
    and "cl_leads (foldl cluster_step s es) a" and "cl_leads (foldl cluster_step s es) b"
  shows "a = b \<and> holder (foldl cluster_step s es) = Some a"
  using timely_run_holds [OF assms(1,2)] assms(3,4) unfolding leaders_hold_def by (metis option.inject)

definition start_cluster :: cluster where
  "start_cluster = \<lparr>cl_now = 0, cl_redis = [], cl_leads = (\<lambda>_. False)\<rparr>"

theorem at_most_one_leader_witness:
  "holder (foldl cluster_step start_cluster [Refresh ''a'' Answered, Refresh ''b'' Answered, Elapse 10, Refresh ''a'' Unsent,
     Elapse 10, Refresh ''a'' Answered, Elapse 20]) = Some ''a''"
proof -
  let ?es = "[Refresh ''a'' Answered, Refresh ''b'' Answered, Elapse 10, Refresh ''a'' Unsent,
     Elapse 10, Refresh ''a'' Answered, Elapse 20]"
  note defs = start_cluster_def timely_def leader_defs Let_def r_get_def LOCK_KEY_def
  have "leaders_hold start_cluster" by (simp add: leaders_hold_def start_cluster_def)
  moreover have "timely_run start_cluster ?es" by (simp add: defs)
  moreover have "cl_leads (foldl cluster_step start_cluster ?es) ''a''" by (simp add: defs)
  ultimately show ?thesis using at_most_one_leader by blast
qed

text \<open>A crashed leader is replaced: once the lock has expired, the next refresh that reaches Redis makes its
  node the holder of the lock and the leader.\<close>

theorem crashed_leader_is_replaced:
  assumes "lock_bounded s" and "30 \<le> d" and "\<not> cl_leads s b"
  shows "cl_leads (foldl cluster_step s [Elapse d, Refresh b Answered]) b \<and>
     holder (foldl cluster_step s [Elapse d, Refresh b Answered]) = Some b"
  using assms by (rule crash_takeover)

theorem crashed_leader_is_replaced_witness:
  "holder (foldl cluster_step (foldl cluster_step start_cluster [Refresh ''a'' Answered]) [Elapse 30, Refresh ''b'' Answered]) = Some ''b''"
proof -
  let ?s = "foldl cluster_step start_cluster [Refresh ''a'' Answered]"
  have "lock_bounded start_cluster" by (simp add: lock_bounded_def start_cluster_def r_get_def)
  then have "lock_bounded ?s" by (rule bounded_lock.run_inv)
  moreover have "\<not> cl_leads ?s ''b''" by (simp add: start_cluster_def leader_defs r_get_def)
  ultimately show ?thesis using crashed_leader_is_replaced [of ?s 30 "''b''"] by simp
qed

text \<open>A leader that is cut off from Redis never steps down: whatever happens, as long as its own calls are
  lost, it goes on to lead, and thirty seconds after the last step a second node leads beside it.\<close>

theorem cut_off_leader_keeps_leading:
  assumes "lock_bounded s" and "cl_leads s a" and "list_all (cut_off a) es"
    and "30 \<le> d" and "b \<noteq> a" and "\<not> cl_leads (foldl cluster_step s es) b"
  shows "cl_leads (foldl cluster_step s (es @ [Elapse d, Refresh b Answered])) a \<and>
     cl_leads (foldl cluster_step s (es @ [Elapse d, Refresh b Answered])) b"
proof -
  have "cl_leads (foldl cluster_step s (es @ [Elapse d, Refresh b Answered])) a"
    using assms(3,5) by (intro cut_off_run [OF assms(2)]) (simp add: cut_off_def)
  moreover have "lock_bounded (foldl cluster_step s es)" using assms(1) by (rule bounded_lock.run_inv)
  ultimately show ?thesis using crash_takeover [OF _ assms(4,6)] by simp
qed

theorem cut_off_leader_keeps_leading_witness:
  "cl_leads (foldl cluster_step (cluster_step start_cluster (Refresh ''a'' Answered))
     ([Elapse 10, Refresh ''a'' Unsent] @ [Elapse 30, Refresh ''b'' Answered])) ''a''"
proof -
  let ?s = "cluster_step start_cluster (Refresh ''a'' Answered)"
  have "lock_bounded start_cluster" by (simp add: lock_bounded_def start_cluster_def r_get_def)
  then have "lock_bounded ?s" by (rule lock_bounded_step)
  moreover have "cl_leads ?s ''a''" by (simp add: start_cluster_def leader_defs r_get_def)
  moreover have "\<not> cl_leads (foldl cluster_step ?s [Elapse 10, Refresh ''a'' Unsent]) ''b''"
    by (simp add: start_cluster_def leader_defs r_get_def)
  moreover have "list_all (cut_off ''a'') [Elapse 10, Refresh ''a'' Unsent]" by (simp add: cut_off_def)
  ultimately show ?thesis
    using cut_off_leader_keeps_leading [of ?s "''a''" "[Elapse 10, Refresh ''a'' Unsent]" 30 "''b''"] by simp
qed

end
