(* ===== verification/Scheduler.thy ===== *)
theory Scheduler
  imports Enrichment Sync_Jobs Leader
begin

text \<open>
  \<open>app/workers/scheduler.py\<close>: which replica runs a job, and the two clean-up jobs that the module holds
  itself. The other jobs call the components that their theories model and log what they raise. Deleting a
  CVE follows the foreign keys of the migrations: findings, their risk acceptances and the EPSS history go with
  it, while a row of the findings history forbids it.
\<close>

section \<open>Who runs a job\<close>

definition leader_only :: "bool option \<Rightarrow> ('s \<Rightarrow> 's) \<Rightarrow> 's \<Rightarrow> 's" where
  "leader_only is_leader job s = (if is_leader = Some False then s else job s)"

text \<open>The body of a job: whatever it raises is logged, and the transaction it raised in has no effect.\<close>

definition logged :: "'s result \<Rightarrow> 's \<Rightarrow> 's" where
  "logged r s = (case r of Inl _ \<Rightarrow> s | Inr s' \<Rightarrow> s')"

section \<open>Deleting CVEs\<close>

definition doomed_findings :: "(cve_row \<Rightarrow> bool) \<Rightarrow> db \<Rightarrow> finding_row list" where
  "doomed_findings p d = filter (\<lambda>f. list_ex (\<lambda>c. p c \<and> cv_cve_id c = fd_cve_id f) (t_rows (db_cves d))) (t_rows (db_findings d))"

definition delete_cves :: "(cve_row \<Rightarrow> bool) \<Rightarrow> db \<Rightarrow> db result" where
  "delete_cves p d =
     (let ids = map cv_cve_id (filter p (t_rows (db_cves d))); fids = map fd_id (doomed_findings p d) in
      if list_ex (\<lambda>h. fh_finding_id h \<in> set fids) (t_rows (db_history d)) then Inl ForeignKeyViolation
      else Inr (d\<lparr>db_cves := delete_rows p (db_cves d),
                  db_findings := delete_rows (\<lambda>f. fd_cve_id f \<in> set ids) (db_findings d),
                  db_risks := delete_rows (\<lambda>r. ra_finding_id r \<in> set fids) (db_risks d),
                  db_epss_history := delete_rows (\<lambda>e. eh_cve_id e \<in> set ids) (db_epss_history d)\<rparr>))"

section \<open>Retention\<close>

definition year_of :: "int \<Rightarrow> int" where
  "year_of t = fst (civil_from_days (t div day_us))"

definition expired_cve :: "int \<Rightarrow> cve_row \<Rightarrow> bool" where
  "expired_cve now c \<longleftrightarrow> year_of (cv_published_at c) < year_of now \<and> \<not> cv_is_kev c"

definition retention_cleanup :: "int \<Rightarrow> db \<Rightarrow> db" where
  "retention_cleanup now d = logged
     (let old = map cv_cve_id (filter (expired_cve now) (t_rows (db_cves d))) in
      delete_cves (expired_cve now) (d\<lparr>db_epss_history := delete_rows (\<lambda>e. eh_cve_id e \<in> set old) (db_epss_history d)\<rparr>)) d"

section \<open>Clean-up of the queues\<close>

definition days_us :: "int \<Rightarrow> int" where "days_us n = n * day_us"

definition older_than :: "int \<Rightarrow> int option \<Rightarrow> bool" where
  "older_than limit t = (case t of None \<Rightarrow> False | Some x \<Rightarrow> x < limit)"

definition purge_completed :: "int \<Rightarrow> db \<Rightarrow> db" where
  "purge_completed now d = d\<lparr>db_jobs := delete_rows
     (\<lambda>j. sj_status j = ''completed'' \<and> older_than (now - days_us 90) (sj_completed_at j)) (db_jobs d)\<rparr>"

definition purge_dead :: "int \<Rightarrow> db \<Rightarrow> db" where
  "purge_dead now d = d\<lparr>db_jobs := delete_rows
     (\<lambda>j. sj_status j = ''dead'' \<and> older_than (now - days_us 30) (sj_completed_at j)) (db_jobs d)\<rparr>"

definition purge_deliveries :: "int \<Rightarrow> db \<Rightarrow> db" where
  "purge_deliveries now d = d\<lparr>db_deliveries := delete_rows
     (\<lambda>w. older_than (now - days_us 90) (wd_delivered_at w)) (db_deliveries d)\<rparr>"

definition queue_cleanup :: "int \<Rightarrow> db \<Rightarrow> db" where
  "queue_cleanup now d = purge_deliveries now (purge_dead now (purge_completed now d))"

section \<open>Completion times\<close>

text \<open>Only a completed job has a completion time.\<close>

definition timed :: "job_row \<Rightarrow> bool" where
  "timed j \<longleftrightarrow> sj_status j = ''completed'' \<or> sj_completed_at j = None"

lemma timed_update:
  assumes "list_all timed (t_rows t)" and "\<And>j. j \<in> set (t_rows t) \<Longrightarrow> p j \<Longrightarrow> timed (f j)"
  shows "list_all timed (t_rows (update_rows p f t))"
  using assms by (auto simp: list_all_iff in_sql_update)

lemma timed_step:
  "job_step q q' \<Longrightarrow> queue_ok q \<Longrightarrow> list_all timed (t_rows (db_jobs (fst q))) \<Longrightarrow> list_all timed (t_rows (db_jobs (fst q')))"
proof (induction rule: job_step.induct)
  case (enqueue d H now pid prio)
  then show ?case by (auto simp: enqueue_sync_def insert_row_def Let_def new_job_def timed_def)
next
  case (claim now d d' j H)
  then obtain j0 where j0: "j0 \<in> set (t_rows (db_jobs d))" "ready now j0"
    "d' = d\<lparr>db_jobs := update_rows (\<lambda>x. sj_id x = sj_id j0) (start_job now) (db_jobs d)\<rparr>"
    using claim_jobE by metis
  have "timed (start_job now x)" if x: "x \<in> set (t_rows (db_jobs d))" "sj_id x = sj_id j0" for x
  proof -
    have "x = j0" using keyed_unique [OF _ x(1) j0(1) x(2)] claim.prems(1) by (simp add: jobs_ok_def)
    moreover have "timed j0" using claim.prems(2) j0(1) by (simp add: list_all_iff)
    ultimately show ?thesis using j0(2) by (simp add: timed_def ready_def start_job_def)
  qed
  then have "list_all timed (t_rows (update_rows (\<lambda>x. sj_id x = sj_id j0) (start_job now) (db_jobs d)))"
    using claim.prems(2) by (intro timed_update) simp_all
  then show ?case by (simp add: j0(3))
next
  case (sync d H now pid)
  then show ?case by simp
next
  case (complete i H d now)
  have "timed (completed now x)" for x by (simp add: timed_def completed_def)
  then have "list_all timed (t_rows (update_rows (\<lambda>j. sj_id j = i) (completed now) (db_jobs d)))"
    using complete.prems(2) by (intro timed_update) simp_all
  then show ?case by (simp add: complete_job_def)
next
  case (fail i H d now msg)
  have "timed (failed_job now msg x)" if x: "x \<in> set (t_rows (db_jobs d))" "sj_id x = i" for x
  proof -
    have "sj_status x = ''running''" by (rule held_active [OF fail.prems(1) fail.hyps x])
    moreover have "timed x" using fail.prems(2) x(1) by (simp add: list_all_iff)
    ultimately show ?thesis by (simp add: timed_def failed_job_def)
  qed
  then have "list_all timed (t_rows (update_rows (\<lambda>j. sj_id j = i) (failed_job now msg) (db_jobs d)))"
    using fail.prems(2) by (intro timed_update) simp_all
  then show ?case by (simp add: fail_job_def)
next
  case (die i H d)
  then show ?case by simp
qed

lemma timed_steps:
  assumes "job_step\<^sup>*\<^sup>* q q'" and "queue_ok q" and "list_all timed (t_rows (db_jobs (fst q)))"
  shows "list_all timed (t_rows (db_jobs (fst q')))"
  using assms(1)
proof (induction rule: rtranclp_induct)
  case base
  then show ?case using assms(3) by simp
next
  case (step y z)
  then show ?case using timed_step job_steps_ok [OF step(1) assms(2)] by blast
qed

section \<open>Properties\<close>

text \<open>Dead jobs are never purged: from a queue in which only completed jobs have a completion time, and every
  queue starts like that, whatever the workers do, a clean-up at whatever time removes no job but
  completed ones; the thirty days after which a dead job should go never pass, because nothing gives it
  a completion time.\<close>

theorem dead_jobs_never_purged:
  assumes "queue_ok (d, H)" and "list_all timed (t_rows (db_jobs d))" and "job_step\<^sup>*\<^sup>* (d, H) (d', H')"
  shows "filter (\<lambda>j. sj_status j \<noteq> ''completed'') (t_rows (db_jobs (queue_cleanup now d'))) =
     filter (\<lambda>j. sj_status j \<noteq> ''completed'') (t_rows (db_jobs d'))"
proof -
  have "list_all timed (t_rows (db_jobs d'))" using timed_steps [OF assms(3,1)] assms(2) by simp
  then have "filter (\<lambda>j. sj_status j \<noteq> ''completed'' \<and> \<not> (sj_status j = ''dead'' \<and> older_than l (sj_completed_at j)) \<and>
        \<not> (sj_status j = ''completed'' \<and> older_than l' (sj_completed_at j))) (t_rows (db_jobs d')) =
      filter (\<lambda>j. sj_status j \<noteq> ''completed'') (t_rows (db_jobs d'))" for l l'
    by (intro filter_cong refl) (auto simp: list_all_iff timed_def older_than_def)
  then show ?thesis
    by (simp add: queue_cleanup_def purge_completed_def purge_dead_def purge_deliveries_def sql_delete_def conj_ac)
qed

theorem dead_jobs_never_purged_witness:
  "length (filter (\<lambda>j. sj_status j \<noteq> ''completed'') (t_rows (db_jobs (queue_cleanup (10 ^ 20) queue_db)))) = 1"
proof -
  have "list_all timed (t_rows (db_jobs queue_db))" by code_simp
  from dead_jobs_never_purged [OF queue_db_ok this, of queue_db "{}"]
  have "filter (\<lambda>j. sj_status j \<noteq> ''completed'') (t_rows (db_jobs (queue_cleanup (10 ^ 20) queue_db))) =
     filter (\<lambda>j. sj_status j \<noteq> ''completed'') (t_rows (db_jobs queue_db))" by blast
  moreover have "length (filter (\<lambda>j. sj_status j \<noteq> ''completed'') (t_rows (db_jobs queue_db))) = 1" by code_simp
  ultimately show ?thesis by simp
qed

text \<open>What a retention run deletes, when nothing forbids it: exactly the CVEs published in an earlier year that
  are not known to be exploited, and with them, unasked and whatever their status, every finding on such
  a CVE with its risk acceptances, and the EPSS history of the CVE; nothing else.\<close>

theorem retention_deletes_findings_too:
  assumes "\<forall>h \<in> set (t_rows (db_history d)). fh_finding_id h \<notin> fd_id ` set (doomed_findings (expired_cve now) d)"
  shows "t_rows (db_cves (retention_cleanup now d)) =
      filter (\<lambda>c. year_of now \<le> year_of (cv_published_at c) \<or> cv_is_kev c) (t_rows (db_cves d)) \<and>
    t_rows (db_findings (retention_cleanup now d)) = filter (\<lambda>f. f \<notin> set (doomed_findings (expired_cve now) d)) (t_rows (db_findings d)) \<and>
    t_rows (db_risks (retention_cleanup now d)) =
      filter (\<lambda>r. ra_finding_id r \<notin> fd_id ` set (doomed_findings (expired_cve now) d)) (t_rows (db_risks d)) \<and>
    t_rows (db_epss_history (retention_cleanup now d)) =
      filter (\<lambda>e. eh_cve_id e \<notin> cv_cve_id ` set (filter (expired_cve now) (t_rows (db_cves d)))) (t_rows (db_epss_history d))"
proof -
  let ?d = "d\<lparr>db_epss_history := delete_rows (\<lambda>e. eh_cve_id e \<in> cv_cve_id ` set (filter (expired_cve now) (t_rows (db_cves d)))) (db_epss_history d)\<rparr>"
  have doomed: "doomed_findings (expired_cve now) ?d = doomed_findings (expired_cve now) d" by (simp add: doomed_findings_def)
  have no: "\<not> list_ex (\<lambda>h. fh_finding_id h \<in> fd_id ` set (doomed_findings (expired_cve now) d)) (t_rows (db_history d))"
    using assms by (auto simp: list_ex_iff)
  have "f \<in> set (doomed_findings (expired_cve now) d) \<longleftrightarrow> fd_cve_id f \<in> cv_cve_id ` set (filter (expired_cve now) (t_rows (db_cves d)))"
    if "f \<in> set (t_rows (db_findings d))" for f
    using that by (force simp: doomed_findings_def list_ex_iff)
  then have "filter (\<lambda>f. fd_cve_id f \<notin> cv_cve_id ` set (filter (expired_cve now) (t_rows (db_cves d)))) (t_rows (db_findings d)) =
      filter (\<lambda>f. f \<notin> set (doomed_findings (expired_cve now) d)) (t_rows (db_findings d))"
    by (intro filter_cong) auto
  moreover have "filter (\<lambda>c. year_of now \<le> year_of (cv_published_at c) \<or> cv_is_kev c) (t_rows (db_cves d)) =
      filter (\<lambda>c. \<not> expired_cve now c) (t_rows (db_cves d))"
    by (intro filter_cong) (auto simp: expired_cve_def)
  ultimately show ?thesis
    using no by (simp add: retention_cleanup_def logged_def delete_cves_def Let_def doomed sql_delete_def del: set_filter)
qed

definition old_db :: "string list \<Rightarrow> db" where
  "old_db ids = sample_db\<lparr>db_cves := \<lparr>t_rows = map (\<lambda>i. new_cve 0 (sample_values i 0) 1) ids, t_serial = 1\<rparr>\<rparr>"

theorem retention_deletes_findings_too_witness:
  "map fd_id (t_rows (db_findings (retention_cleanup (2 * 10 ^ 15) (old_db [''CVE-2021-44228''])))) = [2] \<and>
   fd_status sample_finding = ''open''"
proof -
  let ?d = "old_db [''CVE-2021-44228'']"
  have "map fd_id (doomed_findings (expired_cve (2 * 10 ^ 15)) ?d) = [1]" by code_simp
  then have ids: "fd_id ` set (doomed_findings (expired_cve (2 * 10 ^ 15)) ?d) = {1}"
    by (metis list.simps(15) list.set(1) set_map)
  have "map fh_finding_id (t_rows (db_history ?d)) = [2]" by code_simp
  then have "fh_finding_id ` set (t_rows (db_history ?d)) = {2}" by (metis list.simps(15) list.set(1) set_map)
  then have "\<forall>h \<in> set (t_rows (db_history ?d)). fh_finding_id h \<notin> fd_id ` set (doomed_findings (expired_cve (2 * 10 ^ 15)) ?d)"
    unfolding ids by (metis image_eqI one_eq_numeral_iff semiring_norm(85) singletonD)
  from retention_deletes_findings_too [OF this]
  have "t_rows (db_findings (retention_cleanup (2 * 10 ^ 15) ?d)) =
      filter (\<lambda>f. f \<notin> set (doomed_findings (expired_cve (2 * 10 ^ 15)) ?d)) (t_rows (db_findings ?d))" by blast
  moreover have "map fd_id (filter (\<lambda>f. f \<notin> set (doomed_findings (expired_cve (2 * 10 ^ 15)) ?d)) (t_rows (db_findings ?d))) = [2]" by code_simp
  moreover have "fd_status sample_finding = ''open''" by code_simp
  ultimately show ?thesis by simp
qed

text \<open>One change of a finding's status stops the retention for ever: once a finding on a CVE that a run would
  delete has a row of history, every run fails on that row's foreign key and deletes nothing at all, be
  it another CVE or the EPSS history.\<close>

theorem retention_blocked_by_history:
  assumes "h \<in> set (t_rows (db_history d))" and "f \<in> set (t_rows (db_findings d))" and "fh_finding_id h = fd_id f"
    and "c \<in> set (t_rows (db_cves d))" and "cv_cve_id c = fd_cve_id f" and "list_all (\<lambda>now. expired_cve now c) runs"
  shows "foldl (\<lambda>d now. retention_cleanup now d) d runs = d"
  using assms(6)
proof (induction runs)
  case Nil
  then show ?case by simp
next
  case (Cons now runs)
  let ?e = "\<lambda>es. d\<lparr>db_epss_history := es\<rparr>"
  have "f \<in> set (doomed_findings (expired_cve now) (?e es))" for es
    using assms(2,4,5) Cons.prems by (auto simp: doomed_findings_def list_ex_iff)
  then have "list_ex (\<lambda>h. fh_finding_id h \<in> set (map fd_id (doomed_findings (expired_cve now) (?e es)))) (t_rows (db_history (?e es)))" for es
    using assms(1,3) by (auto simp: list_ex_iff intro!: bexI [of _ h] rev_image_eqI [of f])
  then have "delete_cves (expired_cve now) (?e es) = Inl ForeignKeyViolation" for es
    unfolding delete_cves_def Let_def by (simp only: if_True)
  then show ?case using Cons by (simp add: retention_cleanup_def logged_def Let_def)
qed

theorem retention_blocked_by_history_witness:
  "foldl (\<lambda>d now. retention_cleanup now d) (old_db [''CVE-2014-0160'', ''CVE-2020-1'']) [2 * 10 ^ 15, 3 * 10 ^ 15] =
     old_db [''CVE-2014-0160'', ''CVE-2020-1'']"
proof -
  let ?d = "old_db [''CVE-2014-0160'', ''CVE-2020-1'']"
  let ?h = "t_rows (db_history ?d) ! 0" and ?f = "t_rows (db_findings ?d) ! 1" and ?c = "t_rows (db_cves ?d) ! 0"
  have "?h \<in> set (t_rows (db_history ?d))" "?f \<in> set (t_rows (db_findings ?d))" "?c \<in> set (t_rows (db_cves ?d))"
    by (simp_all add: old_db_def sample_db_def)
  moreover have "fh_finding_id ?h = fd_id ?f" "cv_cve_id ?c = fd_cve_id ?f"
    "list_all (\<lambda>now. expired_cve now ?c) [2 * 10 ^ 15, 3 * 10 ^ 15]" by code_simp+
  ultimately show ?thesis by (intro retention_blocked_by_history [where h = ?h and f = ?f and c = ?c])
qed

end
