(* ===== verification/Daily_Snapshot.thy ===== *)
theory Daily_Snapshot
  imports Sla Risk_Acceptance Sync_Jobs
begin

text \<open>
  \<open>app/workers/daily_snapshot.py\<close>: the figures of the executive dashboard, their composite risk score, and
  the table \<open>exec_snapshots\<close> of migration 0008 with one row per day. The queries of a run see one state
  of the database at one time; floats are exact rational numbers.
\<close>

section \<open>The table\<close>

record snapshot_values =
  sv_total_cves :: int
  sv_kev_total :: int
  sv_critical_open :: int
  sv_high_open :: int
  sv_medium_open :: int
  sv_low_open :: int
  sv_findings_open :: int
  sv_findings_in_review :: int
  sv_findings_remediated_24h :: int
  sv_findings_breached :: int
  sv_findings_at_risk :: int
  sv_risk_pending :: int
  sv_risk_approved :: int
  sv_risk_expiring_soon :: int
  sv_mttr_critical_days :: "rat option"
  sv_mttr_high_days :: "rat option"
  sv_mttr_medium_days :: "rat option"
  sv_mttr_low_days :: "rat option"
  sv_kev_with_open_finding :: int
  sv_poc_with_open_finding :: int
  sv_nuclei_with_open_finding :: int
  sv_risk_score :: int

record snapshot_row =
  ex_id :: int
  ex_captured_on :: int
  ex_captured_at :: int
  ex_values :: snapshot_values

definition upsert_snapshot :: "int \<Rightarrow> snapshot_values \<Rightarrow> snapshot_row table \<Rightarrow> snapshot_row table" where
  "upsert_snapshot now v t =
     (if list_ex (\<lambda>x. ex_captured_on x = current_date now) (t_rows t)
      then update_rows (\<lambda>x. ex_captured_on x = current_date now) (\<lambda>x. x\<lparr>ex_captured_at := now, ex_values := v\<rparr>) t
      else fst (insert_row (\<lambda>n. \<lparr>ex_id = n, ex_captured_on = current_date now, ex_captured_at = now, ex_values = v\<rparr>) t))"

section \<open>The figures\<close>

definition count_severity :: "db \<Rightarrow> string \<Rightarrow> int" where
  "count_severity d s = sql_count (\<lambda>c. cv_severity c = Some s) (t_rows (db_cves d))"

definition unresolved :: "finding_row \<Rightarrow> bool" where
  "unresolved f \<longleftrightarrow> fd_status f \<in> {''open'', ''in_review'', ''planned''}"

definition breached :: "int \<Rightarrow> finding_row \<Rightarrow> bool" where
  "breached today f \<longleftrightarrow> unresolved f \<and> opt_ex (\<lambda>x. x < today) (fd_due_date f)"

definition at_risk :: "int \<Rightarrow> finding_row \<Rightarrow> bool" where
  "at_risk today f \<longleftrightarrow> unresolved f \<and> opt_ex (\<lambda>x. today \<le> x \<and> x \<le> today + 7) (fd_due_date f)"

definition signal_rows :: "db \<Rightarrow> (finding_row \<times> cve_row) list" where
  "signal_rows d = List.map_filter (join_cve d) (t_rows (db_findings d))"

definition open_total :: "db \<Rightarrow> int" where
  "open_total d = sql_count (\<lambda>(f, c). unresolved f) (signal_rows d)"

definition prio80_count :: "db \<Rightarrow> int" where
  "prio80_count d = sql_count (\<lambda>(f, c). unresolved f \<and> (case fd_priority_score f of None \<Rightarrow> 0 | Some x \<Rightarrow> x) \<ge> 80) (signal_rows d)"

definition kev_open_count :: "db \<Rightarrow> int" where
  "kev_open_count d = sql_count (\<lambda>(f, c). unresolved f \<and> cv_is_kev c) (signal_rows d)"

definition poc_open_count :: "db \<Rightarrow> int" where
  "poc_open_count d = sql_count (\<lambda>(f, c). unresolved f \<and> cv_has_public_poc c = Some True) (signal_rows d)"

definition nuclei_open_count :: "db \<Rightarrow> int" where
  "nuclei_open_count d = sql_count (\<lambda>(f, c). unresolved f \<and> cv_has_nuclei_template c = Some True) (signal_rows d)"

definition breached_count :: "int \<Rightarrow> db \<Rightarrow> int" where
  "breached_count now d = sql_count (breached (current_date now)) (t_rows (db_findings d))"

text \<open>\<open>ROUND(x, 2)\<close> of a NUMERIC rounds a half away from zero.\<close>

definition pg_round2 :: "rat \<Rightarrow> rat" where
  "pg_round2 x = (if 0 \<le> x then of_int \<lfloor>x * 100 + 1/2\<rfloor> / 100 else - (of_int \<lfloor>1/2 - x * 100\<rfloor> / 100))"

text \<open>The mean time to remediation of the last 90 days, in days, of one severity.\<close>

definition mttr_days :: "int \<Rightarrow> db \<Rightarrow> string \<Rightarrow> rat option" where
  "mttr_days now d sev =
     (let xs = map (\<lambda>(f, c). of_int (remediated_at d f - fd_created_at f) / of_int day_us :: rat)
            (filter (\<lambda>(f, c). cv_severity c = Some sev) (mttr_rows d (now - 90 * day_us)))
      in if xs = [] then None else Some (pg_round2 (sum_list xs / of_nat (length xs))))"

definition risk_score :: "int \<Rightarrow> db \<Rightarrow> int" where
  "risk_score now d =
     (let share = (\<lambda>n. if open_total d > 0 then of_int n / of_int (open_total d) else 0 :: rat);
          mttr_crit = (case mttr_days now d ''CRITICAL'' of None \<Rightarrow> 0 | Some x \<Rightarrow> x);
          mttr_norm = (if mttr_crit \<noteq> 0 then min 1 (mttr_crit / 30) else 0)
      in py_round (100 * (4/10 * min 1 (share (prio80_count d)) + 3/10 * min 1 (share (kev_open_count d))
            + 2/10 * min 1 (share (breached_count now d)) + 1/10 * min 1 mttr_norm)))"

definition snapshot_of :: "int \<Rightarrow> db \<Rightarrow> snapshot_values" where
  "snapshot_of now d =
     (let fs = t_rows (db_findings d); rs = t_rows (db_risks d); has = (\<lambda>s f. fd_status f = s); is = (\<lambda>s r. ra_status r = s) in
      \<lparr>sv_total_cves = sql_count (\<lambda>_. True) (t_rows (db_cves d)), sv_kev_total = sql_count cv_is_kev (t_rows (db_cves d)),
       sv_critical_open = count_severity d ''CRITICAL'', sv_high_open = count_severity d ''HIGH'',
       sv_medium_open = count_severity d ''MEDIUM'', sv_low_open = count_severity d ''LOW'',
       sv_findings_open = sql_count (has ''open'') fs, sv_findings_in_review = sql_count (has ''in_review'') fs,
       sv_findings_remediated_24h = sql_count (\<lambda>f. has ''remediated'' f \<and> fd_updated_at f \<ge> now - day_us) fs,
       sv_findings_breached = breached_count now d, sv_findings_at_risk = sql_count (at_risk (current_date now)) fs,
       sv_risk_pending = sql_count (is ''pending'') rs, sv_risk_approved = sql_count (is ''approved'') rs,
       sv_risk_expiring_soon = sql_count (expiring_soon now 7) rs,
       sv_mttr_critical_days = mttr_days now d ''CRITICAL'', sv_mttr_high_days = mttr_days now d ''HIGH'',
       sv_mttr_medium_days = mttr_days now d ''MEDIUM'', sv_mttr_low_days = mttr_days now d ''LOW'',
       sv_kev_with_open_finding = kev_open_count d, sv_poc_with_open_finding = poc_open_count d,
       sv_nuclei_with_open_finding = nuclei_open_count d, sv_risk_score = risk_score now d\<rparr>)"

definition capture_daily_snapshot :: "int \<Rightarrow> db \<Rightarrow> snapshot_row table \<Rightarrow> snapshot_row table" where
  "capture_daily_snapshot now d t = upsert_snapshot now (snapshot_of now d) t"

section \<open>One row per day\<close>

definition one_per_day :: "snapshot_row table \<Rightarrow> bool" where
  "one_per_day t \<longleftrightarrow> distinct (map ex_captured_on (t_rows t))"

lemma upsert_one_per_day: "one_per_day t \<Longrightarrow> one_per_day (upsert_snapshot now v t)"
  by (auto simp: one_per_day_def upsert_snapshot_def sql_update_map snd_insert_row list_ex_iff)

lemma fetch_snapshot:
  assumes "one_per_day t"
  shows "map_option (\<lambda>x. (ex_captured_at x, ex_values x)) (fetchrow (\<lambda>x. ex_captured_on x = k) (t_rows (upsert_snapshot now v t))) =
    (if k = current_date now then Some (now, v)
     else map_option (\<lambda>x. (ex_captured_at x, ex_values x)) (fetchrow (\<lambda>x. ex_captured_on x = k) (t_rows t)))"
proof (cases "list_ex (\<lambda>x. ex_captured_on x = current_date now) (t_rows t)")
  case True
  have upd: "map_option (\<lambda>x. (ex_captured_at x, ex_values x)) (fetchrow (\<lambda>x. ex_captured_on x = k)
      (sql_update (\<lambda>x. ex_captured_on x = current_date now) (\<lambda>x. x\<lparr>ex_captured_at := now, ex_values := v\<rparr>) rows)) =
    (if k = current_date now then map_option (\<lambda>_. (now, v)) (fetchrow (\<lambda>x. ex_captured_on x = k) rows)
     else map_option (\<lambda>x. (ex_captured_at x, ex_values x)) (fetchrow (\<lambda>x. ex_captured_on x = k) rows))" for rows
    by (induction rows) (auto simp: fetchrow_def)
  have "fetchrow (\<lambda>x. ex_captured_on x = current_date now) (t_rows t) \<noteq> None"
    using True by (auto simp: fetchrow_None list_ex_iff)
  then show ?thesis using True upd [of "t_rows t"] by (auto simp: upsert_snapshot_def)
next
  case False
  have app: "fetchrow p (xs @ [x]) = (case fetchrow p xs of None \<Rightarrow> (if p x then Some x else None) | Some y \<Rightarrow> Some y)" for p xs and x :: snapshot_row
    by (induction xs) (auto simp: fetchrow_def)
  have "fetchrow (\<lambda>x. ex_captured_on x = current_date now) (t_rows t) = None"
    using False by (auto simp: fetchrow_None list_ex_iff)
  then show ?thesis using False by (auto simp: upsert_snapshot_def app snd_insert_row split: option.splits)
qed

interpretation snapshots: step_system "\<lambda>t (now, v). upsert_snapshot now v t" one_per_day
  by unfold_locales (auto simp: upsert_one_per_day)

section \<open>The score\<close>

lemma sql_count_le: "(\<And>r. p r \<Longrightarrow> q r) \<Longrightarrow> sql_count p rs \<le> sql_count q rs"
  by (rule sql_count_mono)

lemma share_bounds:
  assumes "0 \<le> (n::int)"
  shows "0 \<le> min 1 (if (t::int) > 0 then of_int n / of_int t else (0::rat)) \<and> min 1 (if t > 0 then of_int n / of_int t else (0::rat)) \<le> 1"
  using assms by simp

lemma pg_round2_nonneg: "0 \<le> x \<Longrightarrow> 0 \<le> pg_round2 x"
  by (simp add: pg_round2_def)

lemma mttr_nonneg:
  assumes "list_all (\<lambda>f. fd_created_at f \<le> remediated_at d f) (t_rows (db_findings d))"
  shows "0 \<le> (case mttr_days now d s of None \<Rightarrow> 0 | Some x \<Rightarrow> x)"
proof -
  let ?rows = "filter (\<lambda>(f, c). cv_severity c = Some s) (mttr_rows d (now - 90 * day_us))"
  let ?xs = "map (\<lambda>(f, c). of_int (remediated_at d f - fd_created_at f) / of_int day_us :: rat) ?rows"
  have "0 \<le> x" if x: "x \<in> set ?xs" for x
  proof -
    obtain f c where fc: "(f, c) \<in> set (mttr_rows d (now - 90 * day_us))" "x = of_int (remediated_at d f - fd_created_at f) / of_int day_us"
      using x by auto
    then have "f \<in> set (t_rows (db_findings d))"
      by (auto simp: mttr_rows_def List.map_filter_def join_cve_def)
    then have "fd_created_at f \<le> remediated_at d f" using assms by (auto simp: list_all_iff)
    then show ?thesis by (simp add: fc(2) day_us_def)
  qed
  then have "0 \<le> sum_list ?xs" by (rule sum_list_nonneg)
  then have "0 \<le> sum_list ?xs / of_nat (length ?xs)" by simp
  then show ?thesis by (simp add: mttr_days_def Let_def pg_round2_nonneg del: length_map)
qed

lemma breached_no_due:
  "list_all (\<lambda>f. fd_due_date f = None) fs \<Longrightarrow> sql_count (breached today) fs = 0"
  by (induction fs) (simp_all add: breached_def)

text \<open>The synchronisation creates findings without a due date and leaves the others' alone.\<close>

lemma sync_no_due:
  assumes "list_all (\<lambda>f. fd_due_date f = None) (t_rows (db_findings d))"
  shows "list_all (\<lambda>f. fd_due_date f = None) (t_rows (db_findings (fst (sync_product now pid d))))"
proof -
  obtain d' res where s: "sync_product now pid d = (d', res)" by (cases "sync_product now pid d")
  then have "list_all (\<lambda>f. fd_due_date f = None) (t_rows (db_findings d'))"
  proof (rule sync_product_shape)
    assume "d' = d"
    then show ?thesis using assms by simp
  next
    fix vs
    assume "db_findings d' = foldl (upsert_finding now pid) (db_findings d) vs"
    then obtain g new where g: "t_rows (db_findings d') = map g (t_rows (db_findings d)) @ new"
      "\<forall>f \<in> set (t_rows (db_findings d)). kept f (g f)" "\<forall>f \<in> set new. fresh pid (fv_cve_id ` set vs) f \<and> fd_id f > t_serial (db_findings d)"
      using upserts_cases [of now pid "db_findings d" vs] by metis
    then show ?thesis using assms by (auto simp: list_all_iff kept_def human_def fresh_def)
  qed
  then show ?thesis by (simp add: s)
qed

lemma job_step_no_due:
  "job_step q q' \<Longrightarrow> list_all (\<lambda>f. fd_due_date f = None) (t_rows (db_findings (fst q))) \<Longrightarrow>
   list_all (\<lambda>f. fd_due_date f = None) (t_rows (db_findings (fst q')))"
  by (induction rule: job_step.induct)
    (auto simp: sync_no_due enqueue_sync_def claim_job_def complete_job_def fail_job_def Let_def insert_row_def split: option.splits)

section \<open>Properties\<close>

text \<open>The risk score is a score: it is never above 100, and never below 0 unless some finding was remediated
  before it was created.\<close>

theorem risk_score_bounds:
  assumes "list_all (\<lambda>f. fd_created_at f \<le> remediated_at d f) (t_rows (db_findings d))"
  shows "0 \<le> risk_score now d \<and> risk_score now d \<le> 100"
proof -
  define m where "m = (case mttr_days now d ''CRITICAL'' of None \<Rightarrow> 0 | Some x \<Rightarrow> x)"
  define sh where "sh n = min 1 (if open_total d > 0 then of_int n / of_int (open_total d) else (0::rat))" for n :: int
  define k where "k = min 1 (if m \<noteq> 0 then min 1 (m / 30) else 0)"
  have m: "0 \<le> m" unfolding m_def by (rule mttr_nonneg [OF assms])
  have k: "0 \<le> k" "k \<le> 1" using m by (simp_all add: k_def)
  have sh: "0 \<le> sh n" "sh n \<le> 1" if "0 \<le> n" for n using share_bounds [OF that, of "open_total d"] by (simp_all add: sh_def)
  have p: "0 \<le> prio80_count d" "0 \<le> kev_open_count d" "0 \<le> breached_count now d"
    by (simp_all add: prio80_count_def kev_open_count_def breached_count_def)
  let ?x = "100 * (4/10 * sh (prio80_count d) + 3/10 * sh (kev_open_count d) + 2/10 * sh (breached_count now d) + 1/10 * k)"
  have r: "risk_score now d = py_round ?x" by (simp only: risk_score_def Let_def m_def sh_def k_def)
  have "0 \<le> ?x" using sh(1) [OF p(1)] sh(1) [OF p(2)] sh(1) [OF p(3)] k by simp
  moreover have "?x \<le> of_int 100" using sh(2) [OF p(1)] sh(2) [OF p(2)] sh(2) [OF p(3)] k by simp
  ultimately show ?thesis unfolding r using py_round_nonneg py_round_mono [of ?x "of_int 100"] by (metis py_round_of_int)
qed

theorem risk_score_bounds_witness: "0 \<le> risk_score 5 sample_db \<and> risk_score 5 sample_db \<le> 100"
proof -
  have "list_all (\<lambda>f. fd_created_at f \<le> remediated_at sample_db f) (t_rows (db_findings sample_db))" by code_simp
  then show ?thesis by (rule risk_score_bounds)
qed

text \<open>A history of captures, each at its time and with the database of that time.\<close>

definition captures :: "(int \<times> db) list \<Rightarrow> snapshot_row table \<Rightarrow> snapshot_row table" where
  "captures runs t = foldl (\<lambda>t (now, d). capture_daily_snapshot now d t) t runs"

text \<open>The last capture of a day stands: after any number of captures, whatever the database held, there is one
  row per day, and another capture leaves the rows of all other days alone and replaces the figures of
  its own day by those of its time.\<close>

theorem last_capture_of_a_day_stands:
  assumes "one_per_day t"
  shows "one_per_day (captures (runs @ [(now, d)]) t) \<and>
    map_option (\<lambda>x. (ex_captured_at x, ex_values x)) (fetchrow (\<lambda>x. ex_captured_on x = k) (t_rows (captures (runs @ [(now, d)]) t))) =
    (if k = current_date now then Some (now, snapshot_of now d)
     else map_option (\<lambda>x. (ex_captured_at x, ex_values x)) (fetchrow (\<lambda>x. ex_captured_on x = k) (t_rows (captures runs t))))"
proof -
  have "captures runs t = foldl (\<lambda>t (now, v). upsert_snapshot now v t) t (map (\<lambda>(now, d). (now, snapshot_of now d)) runs)" for t
    unfolding captures_def by (induction runs arbitrary: t) (auto simp: capture_daily_snapshot_def)
  then have one: "one_per_day (captures runs t)" using snapshots.run_inv [OF assms(1)] by simp
  have "captures (runs @ [(now, d)]) t = upsert_snapshot now (snapshot_of now d) (captures runs t)"
    by (simp add: captures_def capture_daily_snapshot_def)
  then show ?thesis using one by (simp add: upsert_one_per_day fetch_snapshot)
qed

theorem last_capture_of_a_day_stands_witness:
  "map_option ex_captured_at (fetchrow (\<lambda>x. ex_captured_on x = 0) (t_rows (captures ([(1, sample_db), (day_us, sample_db)] @ [(7, empty_db 0)]) empty_table))) = Some 7"
proof -
  have "one_per_day empty_table" by (simp add: one_per_day_def empty_table_def)
  moreover have "current_date 7 = 0" by (simp add: current_date_def day_us_def)
  ultimately show ?thesis
    using last_capture_of_a_day_stands [of empty_table "[(1, sample_db), (day_us, sample_db)]" 7 "empty_db 0" 0]
    by (auto simp: map_option_case split: option.splits)
qed

text \<open>No SLA is ever breached by itself: nothing computes a due date, so as long as no one sets one by hand,
  whatever the workers do, the number of breached findings stays zero at any time, in the snapshot and in
  the SLA summary, however old and critical the findings are.\<close>

theorem no_finding_ever_breaches:
  assumes "list_all (\<lambda>f. fd_due_date f = None) (t_rows (db_findings d))" and "job_step\<^sup>*\<^sup>* (d, H) (d', H')"
  shows "sv_findings_breached (snapshot_of now d') = 0 \<and> count_of (sc_totals (sla_summary now d')) ''breached'' = 0"
proof -
  have "list_all (\<lambda>f. fd_due_date f = None) (t_rows (db_findings (fst (d', H'))))"
    using assms(2)
  proof (induction rule: rtranclp_induct)
    case base
    then show ?case using assms(1) by simp
  next
    case (step y z)
    then show ?case using job_step_no_due by blast
  qed
  then have no: "list_all (\<lambda>f. fd_due_date f = None) (t_rows (db_findings d'))" by simp
  let ?rows = "List.map_filter (join_cve d') (t_rows (db_findings d'))"
  have "fd_due_date (fst r) = None" if "r \<in> set ?rows" for r
    using that no by (auto simp: List.map_filter_def join_cve_def list_all_iff)
  then have "filter (\<lambda>r. state_of (current_date now) r = ''breached'') ?rows = []"
    by (auto simp: filter_empty_conv state_of_def compute_sla_state_def)
  then have "sql_count (\<lambda>r. state_of (current_date now) r = ''breached'') ?rows = 0" by (simp add: sql_count_def)
  then have "count_of (sc_totals (sla_summary now d')) ''breached'' = 0"
    by (simp add: sla_summary_def foldl_tally)
  then show ?thesis using breached_no_due [OF no] by (simp add: snapshot_of_def Let_def breached_count_def)
qed

theorem no_finding_ever_breaches_witness:
  "sv_findings_breached (snapshot_of (10 ^ 18) (fst (sync_product 5 3 queue_db))) = 0"
proof -
  have "list_all (\<lambda>f. fd_due_date f = None) (t_rows (db_findings queue_db))" by code_simp
  moreover have "job_step\<^sup>*\<^sup>* (queue_db, {}) (fst (sync_product 5 3 queue_db), {})" using job_step.sync by blast
  ultimately show ?thesis using no_finding_ever_breaches by blast
qed

end
