(* ===== verification/Exploitability.thy ===== *)
theory Exploitability
  imports Enrichment Product_Sync Settings
begin

text \<open>
  \<open>app/ingestion/vulnx_client.py\<close> and \<open>app/ingestion/exploitability_refresh.py\<close>: the batch client with its
  daily budget, the tolerant parser of its answers, and the job that stores the flags and recomputes
  the priority of open findings. The service is an argument that answers a batch, the date is read once
  per batch, and the waiting for the rate governor is left out.
\<close>

section \<open>The daily budget\<close>

record daily_counter =
  dc_limit :: int
  dc_count :: int
  dc_day :: int

definition consume :: "int \<Rightarrow> int \<Rightarrow> daily_counter \<Rightarrow> daily_counter \<times> bool" where
  "consume today n c =
     (let c1 = (if today \<noteq> dc_day c then c\<lparr>dc_day := today, dc_count := 0\<rparr> else c) in
      if dc_count c1 + n > dc_limit c1 then (c1, False) else (c1\<lparr>dc_count := dc_count c1 + n\<rparr>, True))"

section \<open>The parser\<close>

record intel_record =
  ir_has_public_poc :: bool
  ir_has_nuclei_template :: bool
  ir_poc_urls :: "string list"
  ir_template_paths :: "string list"
  ir_references :: "string list"

definition as_objects :: "json list \<Rightarrow> (string \<times> json) list list" where
  "as_objects vs = List.map_filter (\<lambda>v. case v of JObj kvs \<Rightarrow> Some kvs | _ \<Rightarrow> None) vs"

text \<open>\<open>x or y\<close> of JSON values that may be missing.\<close>

definition json_or :: "json option \<Rightarrow> json option \<Rightarrow> json option" where
  "json_or x y = (if opt_ex json_truthy x then x else y)"

definition list_texts :: "json list \<Rightarrow> string list" where
  "list_texts vs = List.map_filter (\<lambda>v. case v of
      JStr s \<Rightarrow> if s = [] then None else Some s
    | JObj kvs \<Rightarrow> (case json_or (obj_get kvs ''url'') (json_or (obj_get kvs ''path'') (obj_get kvs ''href'')) of
          Some (JStr s) \<Rightarrow> if s = [] then None else Some s | _ \<Rightarrow> None)
    | _ \<Rightarrow> None) vs"

fun coerce_str_list :: "json option list \<Rightarrow> string list" where
  "coerce_str_list [] = []"
| "coerce_str_list (c # cs) = (case c of
      Some (JStr s) \<Rightarrow> if s = [] then coerce_str_list cs else [s]
    | Some (JArr vs) \<Rightarrow> if list_texts vs = [] then coerce_str_list cs else list_texts vs
    | _ \<Rightarrow> coerce_str_list cs)"

definition payload_items :: "json \<Rightarrow> (string \<times> json) list list" where
  "payload_items body = (case body of
      JArr vs \<Rightarrow> as_objects vs
    | JObj kvs \<Rightarrow> (case obj_get kvs ''data'' of
          Some (JArr vs) \<Rightarrow> as_objects vs
        | _ \<Rightarrow> (case obj_get kvs ''results'' of
              Some (JArr vs) \<Rightarrow> as_objects vs
            | _ \<Rightarrow> List.map_filter (\<lambda>(k, v). case v of
                  JObj it \<Rightarrow> if py_startswith (py_upper k) ''CVE-''
                    then Some (if obj_get it ''cve_id'' = None then it @ [(''cve_id'', JStr k)] else it) else None
                | _ \<Rightarrow> None) kvs))
    | _ \<Rightarrow> [])"

text \<open>\<open>(item.get("cve_id") or item.get("cve") or item.get("id") or "").strip().upper()\<close>.\<close>

definition item_id :: "(string \<times> json) list \<Rightarrow> string result" where
  "item_id kvs = (case json_or (obj_get kvs ''cve_id'') (json_or (obj_get kvs ''cve'') (json_or (obj_get kvs ''id'') (Some (JStr [])))) of
      Some (JStr s) \<Rightarrow> Inr (py_upper (py_strip s)) | _ \<Rightarrow> Inl AttributeError)"

definition intel_of :: "(string \<times> json) list \<Rightarrow> intel_record" where
  "intel_of kvs =
     (let pocs = coerce_str_list (map (obj_get kvs) [''poc_urls'', ''poc'', ''exploits'']);
          templates = coerce_str_list (map (obj_get kvs) [''nuclei_templates'', ''templates'', ''nuclei''])
      in \<lparr>ir_has_public_poc = (pocs \<noteq> []), ir_has_nuclei_template = (templates \<noteq> []), ir_poc_urls = pocs,
          ir_template_paths = templates, ir_references = coerce_str_list [obj_get kvs ''references'']\<rparr>)"

type_synonym intel = "(string \<times> intel_record) list"

fun parse_items_into :: "intel \<Rightarrow> (string \<times> json) list list \<Rightarrow> intel result" where
  "parse_items_into out [] = Inr out"
| "parse_items_into out (kvs # rest) = bind_r (item_id kvs) (\<lambda>i.
     parse_items_into (if py_startswith i ''CVE-'' then dict_put i (intel_of kvs) out else out) rest)"

definition parse_batch_payload :: "json \<Rightarrow> intel result" where
  "parse_batch_payload body = parse_items_into [] (payload_items body)"

section \<open>The client\<close>

definition read_batch :: "response result \<Rightarrow> intel result" where
  "read_batch answer = bind_r answer (\<lambda>resp.
     if r_status resp \<in> {429, 401, 403} \<or> \<not> (200 \<le> r_status resp \<and> r_status resp < 300) then Inl (HttpError ''HTTPStatusError'')
     else case r_body resp of None \<Rightarrow> Inl (ValueError ''JSONDecodeError'') | Some v \<Rightarrow> parse_batch_payload v)"

fun dedup :: "string list \<Rightarrow> string list \<Rightarrow> string list" where
  "dedup seen [] = []"
| "dedup seen (i # is) = (let up = py_upper (py_strip i) in
     if up \<noteq> [] \<and> up \<notin> set seen then up # dedup (up # seen) is else dedup seen is)"

definition update_intel :: "intel \<Rightarrow> intel \<Rightarrow> intel" where
  "update_intel m new = foldl (\<lambda>m (i, v). dict_put i v m) m new"

text \<open>The loop over the batches. The budget is charged before the request; HTTP and JSON errors lose one batch.\<close>

fun fetch_loop ::
    "(string list \<Rightarrow> response result) \<Rightarrow> (nat \<Rightarrow> int) \<Rightarrow> nat \<Rightarrow> daily_counter \<Rightarrow> intel \<Rightarrow> string list list \<Rightarrow> daily_counter \<times> intel result" where
  "fetch_loop srv today n c m [] = (c, Inr m)"
| "fetch_loop srv today n c m (b # bs) = (case consume (today n) (int (length b)) c of (c', allowed) \<Rightarrow>
     if \<not> allowed then (c', Inr m)
     else case read_batch (srv b) of
       Inr new \<Rightarrow> fetch_loop srv today (n + 1) c' (update_intel m new) bs
     | Inl (HttpError _) \<Rightarrow> fetch_loop srv today (n + 1) c' m bs
     | Inl (ValueError _) \<Rightarrow> fetch_loop srv today (n + 1) c' m bs
     | Inl e \<Rightarrow> (c', Inl e))"

definition fetch_intel ::
    "settings \<Rightarrow> (string list \<Rightarrow> response result) \<Rightarrow> (nat \<Rightarrow> int) \<Rightarrow> string list \<Rightarrow> (daily_counter, intel) action" where
  "fetch_intel st srv today cve_ids c =
     (if cve_ids = [] then (c, Inr [])
      else fetch_loop srv today 0 c [] (batches (nat (max 1 (vulnx_batch_size st))) (dedup [] cve_ids)))"

section \<open>The job\<close>

definition vx_stale :: "int \<Rightarrow> int \<Rightarrow> cve_row \<Rightarrow> bool" where
  "vx_stale days now c \<longleftrightarrow> (case cv_exploitability_updated_at c of None \<Rightarrow> True | Some t \<Rightarrow> t < now - days * day_us)"

definition vx_le :: "cve_row \<Rightarrow> cve_row \<Rightarrow> bool" where
  "vx_le a b \<longleftrightarrow> (cv_is_kev a \<and> \<not> cv_is_kev b) \<or> (cv_is_kev a = cv_is_kev b \<and>
     (cvss_key b < cvss_key a \<or> (cvss_key a = cvss_key b \<and> cv_published_at b \<le> cv_published_at a)))"

definition vx_candidates :: "settings \<Rightarrow> nat \<Rightarrow> int \<Rightarrow> db \<Rightarrow> cve_row list" where
  "vx_candidates st page now d =
     take page (order_by vx_le (filter (vx_stale (max 1 (vulnx_staleness_days st)) now) (t_rows (db_cves d))))"

definition store_intel :: "int \<Rightarrow> int \<Rightarrow> string \<times> intel_record \<Rightarrow> db \<Rightarrow> db" where
  "store_intel fetched now e d = d\<lparr>db_cves := update_rows (\<lambda>c. cv_cve_id c = fst e)
     (\<lambda>c. c\<lparr>cv_has_public_poc := Some (ir_has_public_poc (snd e)), cv_has_nuclei_template := Some (ir_has_nuclei_template (snd e)),
        cv_exploitability_updated_at := Some fetched, cv_updated_at := now\<rparr>) (db_cves d)\<rparr>"

definition store_not_found :: "int \<Rightarrow> int \<Rightarrow> string \<Rightarrow> db \<Rightarrow> db" where
  "store_not_found stamped now i d = d\<lparr>db_cves := update_rows
     (\<lambda>c. cv_cve_id c = i \<and> cv_exploitability_updated_at c \<noteq> Some stamped)
     (\<lambda>c. c\<lparr>cv_exploitability_updated_at := Some stamped, cv_updated_at := now\<rparr>) (db_cves d)\<rparr>"

text \<open>The recomputation; a stored score is cut to a whole number before it is compared.\<close>

definition truncated :: "rat \<Rightarrow> int" where
  "truncated x = (if 0 \<le> x then \<lfloor>x\<rfloor> else - \<lfloor>- x\<rfloor>)"

definition recompute_signals :: "cve_row \<Rightarrow> signals" where
  "recompute_signals c = \<lparr>cvss_score = (case cv_cvss_v3_score c of Some x \<Rightarrow> if x = 0 then cv_cvss_v2_score c else Some x | None \<Rightarrow> cv_cvss_v2_score c),
     severity = cv_severity c, epss_score = cv_epss_score c, is_kev = cv_is_kev c,
     published_at = Some (utc (cv_published_at c)), has_public_poc = (cv_has_public_poc c = Some True),
     has_nuclei_template = (cv_has_nuclei_template c = Some True)\<rparr>"

definition recompute_rows :: "string list \<Rightarrow> db \<Rightarrow> (finding_row \<times> cve_row) list" where
  "recompute_rows ids d = List.map_filter (\<lambda>f. if fd_cve_id f \<in> set ids \<and> fd_status f \<in> {''open'', ''in_review'', ''planned''}
     then map_option (Pair f) (cve_by_id d (fd_cve_id f)) else None) (t_rows (db_findings d))"

definition score_changes :: "int \<Rightarrow> (finding_row \<times> cve_row) list \<Rightarrow> (int \<times> int) list" where
  "score_changes now rows = List.map_filter (\<lambda>(f, c).
     (let new = compute_priority_score (utc now) (recompute_signals c) in
      if Some new \<noteq> map_option truncated (fd_priority_score f) then Some (fd_id f, new) else None)) rows"

definition set_priority :: "int \<Rightarrow> int \<times> int \<Rightarrow> db \<Rightarrow> db" where
  "set_priority now e d = d\<lparr>db_findings := update_rows (\<lambda>f. fd_id f = fst e)
     (\<lambda>f. f\<lparr>fd_priority_score := Some (of_int (snd e)), fd_updated_at := now\<rparr>) (db_findings d)\<rparr>"

definition recompute_finding_priorities :: "int \<Rightarrow> int \<Rightarrow> string list \<Rightarrow> db \<Rightarrow> db \<times> int" where
  "recompute_finding_priorities now db_now ids d =
     (let changes = score_changes now (recompute_rows ids d) in (fold (set_priority db_now) changes d, int (length changes)))"

record vx_clock =
  vx_enter :: rat
  vx_fail :: rat
  vx_db :: int
  vx_py :: int

record vx_result =
  vr_updated :: int
  vr_not_found :: int
  vr_errors :: int
  vr_daily_limit_hit :: bool

text \<open>\<open>_do\<close>: the counters it leaves when it returns. A record's \<open>fetched_at\<close> and the stamp are the same reading.\<close>

definition vx_pass :: "settings \<Rightarrow> nat \<Rightarrow> vx_clock \<Rightarrow> (string list \<Rightarrow> (daily_counter, intel) action) \<Rightarrow> (db \<times> daily_counter, vx_result) action" where
  "vx_pass st page clk fetch s = (case s of (d, c) \<Rightarrow>
     (let ids = map cv_cve_id (vx_candidates st page (vx_db clk) d) in
      if ids = [] then ((d, c), Inr \<lparr>vr_updated = 0, vr_not_found = 0, vr_errors = 0, vr_daily_limit_hit = False\<rparr>)
      else case fetch ids c of
        (c', Inl e) \<Rightarrow> ((d, c'), Inl e)
      | (c', Inr m) \<Rightarrow>
          (let found = List.map_filter (\<lambda>i. map_option (Pair i) (map_of m i)) ids;
               missing = filter (\<lambda>i. map_of m i = None) ids;
               d1 = fold (store_not_found (vx_py clk) (vx_db clk)) missing (fold (store_intel (vx_py clk) (vx_db clk)) found d);
               d2 = (if found = [] then d1 else fst (recompute_finding_priorities (vx_py clk) (vx_db clk) (map fst found) d1))
           in ((d2, c'), Inr \<lparr>vr_updated = int (length found), vr_not_found = int (length missing), vr_errors = 0,
                vr_daily_limit_hit = (dc_count c' - dc_count c < int (length ids))\<rparr>))))"

text \<open>The job catches every exception; after one, the counters are those reached, which are zero before the writes.\<close>

definition run_exploitability_refresh ::
    "settings \<Rightarrow> nat \<Rightarrow> vx_clock \<Rightarrow> (string list \<Rightarrow> (daily_counter, intel) action) \<Rightarrow> breaker \<Rightarrow> db \<times> daily_counter \<Rightarrow>
     breaker \<times> (db \<times> daily_counter) \<times> vx_result result" where
  "run_exploitability_refresh st page clk fetch cb s =
     (case cb_call (vx_enter clk) (vx_fail clk) (vx_pass st page clk fetch) cb s of (cb', s', r) \<Rightarrow>
       (cb', s', (case r of
          Inr v \<Rightarrow> Inr v
        | Inl e \<Rightarrow> if is_exception e then Inr \<lparr>vr_updated = 0, vr_not_found = 0, vr_errors = 1, vr_daily_limit_hit = False\<rparr> else Inl e)))"

section \<open>The budget\<close>

text \<open>Which batches are sent, and what the answer depends on.\<close>

lemma fetch_loop_budget:
  assumes "\<And>n. today n = dc_day c" and "dc_count c \<le> dc_limit c"
  shows "\<exists>k. dc_count (fst (fetch_loop srv today n c m bs)) = dc_count c + int (sum_list (map length (take k bs))) \<and>
     dc_count (fst (fetch_loop srv today n c m bs)) \<le> dc_limit c \<and>
     (\<forall>srv'. (\<forall>b \<in> set (take k bs). srv' b = srv b) \<longrightarrow> fetch_loop srv' today n c m bs = fetch_loop srv today n c m bs)"
  using assms
proof (induction bs arbitrary: n c m)
  case Nil
  then show ?case by simp
next
  case (Cons b bs)
  show ?case
  proof (cases "dc_count c + int (length b) > dc_limit c")
    case True
    then have "fetch_loop srv' today n c m (b # bs) = (c, Inr m)" for srv' using Cons.prems by (simp add: consume_def)
    then show ?thesis using Cons.prems(2) by (intro exI [of _ 0]) simp
  next
    case False
    let ?c = "c\<lparr>dc_count := dc_count c + int (length b)\<rparr>"
    have con: "consume (today n) (int (length b)) c = (?c, True)" using False Cons.prems(1) by (simp add: consume_def)
    have stop: ?thesis if "\<And>srv'. srv' b = srv b \<Longrightarrow> fetch_loop srv' today n c m (b # bs) = (?c, r)" for r
      using that False by (intro exI [of _ 1]) simp
    have go: ?thesis if g: "\<And>srv'. srv' b = srv b \<Longrightarrow> fetch_loop srv' today n c m (b # bs) = fetch_loop srv' today (n + 1) ?c m' bs" for m'
    proof -
      have "\<And>n. today n = dc_day ?c" "dc_count ?c \<le> dc_limit ?c" using Cons.prems(1) False by simp_all
      from Cons.IH [OF this, where n = "n + 1" and m = m'] obtain k where
        k: "dc_count (fst (fetch_loop srv today (n + 1) ?c m' bs)) = dc_count ?c + int (sum_list (map length (take k bs)))"
          "dc_count (fst (fetch_loop srv today (n + 1) ?c m' bs)) \<le> dc_limit ?c"
          "\<And>srv'. (\<forall>b \<in> set (take k bs). srv' b = srv b) \<Longrightarrow> fetch_loop srv' today (n + 1) ?c m' bs = fetch_loop srv today (n + 1) ?c m' bs"
        by blast
      have here: "fetch_loop srv today n c m (b # bs) = fetch_loop srv today (n + 1) ?c m' bs" by (rule g) simp
      have "fetch_loop srv' today n c m (b # bs) = fetch_loop srv today n c m (b # bs)"
        if s: "\<forall>x \<in> set (take (Suc k) (b # bs)). srv' x = srv x" for srv'
      proof -
        have "srv' b = srv b" "\<forall>x \<in> set (take k bs). srv' x = srv x" using s by simp_all
        then show ?thesis using g k(3) here by metis
      qed
      moreover have "dc_count (fst (fetch_loop srv today n c m (b # bs))) = dc_count c + int (sum_list (map length (take (Suc k) (b # bs))))"
        unfolding here k(1) by simp
      moreover have "dc_count (fst (fetch_loop srv today n c m (b # bs))) \<le> dc_limit c" unfolding here using k(2) by simp
      ultimately show ?thesis by blast
    qed
    show ?thesis
    proof (cases "read_batch (srv b)")
      case (Inr new)
      then show ?thesis by (intro go [of "update_intel m new"]) (simp add: con)
    next
      case (Inl e)
      then show ?thesis
        by (cases e; intro stop [of "Inl e"] go [of m]) (simp_all add: con)
    qed
  qed
qed

section \<open>What a pass stores\<close>

definition with_intel :: "int \<Rightarrow> int \<Rightarrow> intel \<Rightarrow> string list \<Rightarrow> cve_row \<Rightarrow> cve_row" where
  "with_intel stamped now m ids c =
     (if cv_cve_id c \<notin> set ids then c
      else case map_of m (cv_cve_id c) of
        Some v \<Rightarrow> c\<lparr>cv_has_public_poc := Some (ir_has_public_poc v), cv_has_nuclei_template := Some (ir_has_nuclei_template v),
          cv_exploitability_updated_at := Some stamped, cv_updated_at := now\<rparr>
      | None \<Rightarrow> if cv_exploitability_updated_at c = Some stamped then c
          else c\<lparr>cv_exploitability_updated_at := Some stamped, cv_updated_at := now\<rparr>)"

lemma fold_store_intel:
  "fold (store_intel st now) es d = d\<lparr>db_cves := (db_cves d)\<lparr>t_rows :=
     fold (\<lambda>(k, v). sql_update (\<lambda>c. cv_cve_id c = k \<and> True)
       (\<lambda>c. c\<lparr>cv_has_public_poc := Some (ir_has_public_poc v), cv_has_nuclei_template := Some (ir_has_nuclei_template v),
          cv_exploitability_updated_at := Some st, cv_updated_at := now\<rparr>)) es (t_rows (db_cves d))\<rparr>\<rparr>"
  by (induction es arbitrary: d) (simp_all add: store_intel_def update_rows_def split_beta)

lemma fold_store_not_found:
  "fold (store_not_found st now) is d = d\<lparr>db_cves := (db_cves d)\<lparr>t_rows :=
     fold (\<lambda>(k, v). sql_update (\<lambda>c. cv_cve_id c = k \<and> cv_exploitability_updated_at c \<noteq> Some st)
       (\<lambda>c. c\<lparr>cv_exploitability_updated_at := Some st, cv_updated_at := now\<rparr>)) (map (\<lambda>i. (i, ())) is) (t_rows (db_cves d))\<rparr>\<rparr>"
  by (induction "is" arbitrary: d) (simp_all add: store_not_found_def update_rows_def)

lemma map_of_units: "map_of (map (\<lambda>i. (i, ())) is) k = (if k \<in> set is then Some () else None)"
  by (induction "is") auto

lemma stored_rows:
  assumes "distinct ids" and found_def: "found = List.map_filter (\<lambda>i. map_option (Pair i) (map_of m i)) ids"
  shows "t_rows (db_cves (fold (store_not_found st now) (filter (\<lambda>i. map_of m i = None) ids) (fold (store_intel st now) found d))) =
     map (with_intel st now m ids) (t_rows (db_cves d))"
proof -
  have keys: "distinct (map fst found)" "map_of found i = (if i \<in> set ids then map_of m i else None)" for i
    using map_filter_keys [where key = "\<lambda>x. x" and xs = ids and m = "map_of m" and k = i] assms(1) by (simp_all add: found_def)
  have d: "distinct (map fst (map (\<lambda>i. (i, ())) (filter (\<lambda>i. map_of m i = None) ids)))"
    using assms(1) by (simp add: comp_def)
  let ?F1 = "\<lambda>rows. fold (\<lambda>(k, v). sql_update (\<lambda>c. cv_cve_id c = k \<and> True)
       (\<lambda>c. c\<lparr>cv_has_public_poc := Some (ir_has_public_poc v), cv_has_nuclei_template := Some (ir_has_nuclei_template v),
          cv_exploitability_updated_at := Some st, cv_updated_at := now\<rparr>)) found rows"
  let ?F2 = "\<lambda>rows. fold (\<lambda>(k, v). sql_update (\<lambda>c. cv_cve_id c = k \<and> cv_exploitability_updated_at c \<noteq> Some st)
       (\<lambda>c. c\<lparr>cv_exploitability_updated_at := Some st, cv_updated_at := now\<rparr>)) (map (\<lambda>i. (i, ())) (filter (\<lambda>i. map_of m i = None) ids)) rows"
  let ?g1 = "\<lambda>c. case map_of found (cv_cve_id c) of None \<Rightarrow> c | Some v \<Rightarrow> if True then
       c\<lparr>cv_has_public_poc := Some (ir_has_public_poc v), cv_has_nuclei_template := Some (ir_has_nuclei_template v),
          cv_exploitability_updated_at := Some st, cv_updated_at := now\<rparr> else c"
  let ?g2 = "\<lambda>c. case map_of (map (\<lambda>i. (i, ())) (filter (\<lambda>i. map_of m i = None) ids)) (cv_cve_id c) of None \<Rightarrow> c | Some v \<Rightarrow>
       if cv_exploitability_updated_at c \<noteq> Some st then c\<lparr>cv_exploitability_updated_at := Some st, cv_updated_at := now\<rparr> else c"
  have F1: "?F1 rows = map ?g1 rows" for rows
    using keys(1) by (intro fold_keyed_updates) simp_all
  have F2: "?F2 rows = map ?g2 rows" for rows
    using d by (intro fold_keyed_updates) simp_all
  have "t_rows (db_cves (fold (store_not_found st now) (filter (\<lambda>i. map_of m i = None) ids) (fold (store_intel st now) found d))) =
      ?F2 (?F1 (t_rows (db_cves d)))"
    by (simp add: fold_store_intel fold_store_not_found)
  also have "\<dots> = map ?g2 (map ?g1 (t_rows (db_cves d)))" by (simp only: F1 F2)
  also have "\<dots> = map (with_intel st now m ids) (t_rows (db_cves d))"
    by (auto simp: keys(2) map_of_units with_intel_def split: option.splits)
  finally show ?thesis .
qed

lemma vx_ids_distinct:
  assumes "ids_distinct (db_cves d)"
  shows "distinct (map cv_cve_id (vx_candidates st page now d))"
proof -
  have "distinct (map cv_cve_id (order_by vx_le (filter (vx_stale (max 1 (vulnx_staleness_days st)) now) (t_rows (db_cves d)))))"
    using assms by (simp add: distinct_order_by ids_distinct_def distinct_map_filter)
  then show ?thesis unfolding vx_candidates_def by (simp only: take_map [symmetric] distinct_take)
qed

lemma stored_findings:
  "db_findings (fold (store_not_found st now) is (fold (store_intel st now) es d)) = db_findings d"
  by (simp add: fold_store_intel fold_store_not_found)

lemma recompute_cves [simp]: "db_cves (fst (recompute_finding_priorities t now ids d)) = db_cves d"
proof -
  have "db_cves (fold (set_priority now) es d) = db_cves d" for es by (induction es arbitrary: d) (simp_all add: set_priority_def)
  then show ?thesis by (simp add: recompute_finding_priorities_def Let_def)
qed

lemma with_intel_id [simp]: "cv_cve_id (with_intel st now m ids c) = cv_cve_id c"
  by (simp add: with_intel_def split: option.split)

lemma fold_set_priority:
  "t_rows (db_findings (fold (set_priority now) es d)) =
     fold (\<lambda>(k, v). sql_update (\<lambda>f. fd_id f = k \<and> True) (\<lambda>f. f\<lparr>fd_priority_score := Some (of_int v), fd_updated_at := now\<rparr>)) es (t_rows (db_findings d))"
  by (induction es arbitrary: d) (simp_all add: set_priority_def split_beta)

text \<open>Recomputing brings the scores of the findings it looks at up to date and touches no other.\<close>

definition up_to_date :: "int \<Rightarrow> db \<Rightarrow> finding_row \<Rightarrow> bool" where
  "up_to_date t d f \<longleftrightarrow> (\<forall>c. cve_by_id d (fd_cve_id f) = Some c \<longrightarrow>
     map_option truncated (fd_priority_score f) = Some (compute_priority_score (utc t) (recompute_signals c)))"

lemma changes_of:
  assumes "distinct (map fd_id fs)"
  shows "distinct (map fst (score_changes t (List.map_filter (\<lambda>f. if q f then map_option (Pair f) (cve_by_id d (fd_cve_id f)) else None) fs))) \<and>
     (\<forall>f \<in> set fs. map_of (score_changes t (List.map_filter (\<lambda>f. if q f then map_option (Pair f) (cve_by_id d (fd_cve_id f)) else None) fs)) (fd_id f) =
       (if q f then (case cve_by_id d (fd_cve_id f) of None \<Rightarrow> None | Some c \<Rightarrow>
          (let new = compute_priority_score (utc t) (recompute_signals c) in
           if Some new \<noteq> map_option truncated (fd_priority_score f) then Some new else None)) else None)) \<and>
     fst ` set (score_changes t (List.map_filter (\<lambda>f. if q f then map_option (Pair f) (cve_by_id d (fd_cve_id f)) else None) fs)) \<subseteq> fd_id ` set fs"
  using assms
proof (induction fs)
  case Nil
  then show ?case by (simp add: score_changes_def List.map_filter_simps)
next
  case (Cons f fs)
  let ?s = "\<lambda>fs. score_changes t (List.map_filter (\<lambda>f. if q f then map_option (Pair f) (cve_by_id d (fd_cve_id f)) else None) fs)"
  define head where "head = (if q f then (case cve_by_id d (fd_cve_id f) of None \<Rightarrow> None | Some c \<Rightarrow>
      (let new = compute_priority_score (utc t) (recompute_signals c) in
       if Some new \<noteq> map_option truncated (fd_priority_score f) then Some new else None)) else None)"
  have step: "?s (f # fs) = (case head of None \<Rightarrow> ?s fs | Some new \<Rightarrow> (fd_id f, new) # ?s fs)"
    by (auto simp: head_def score_changes_def List.map_filter_simps Let_def split: option.splits)
  have ih: "distinct (map fst (?s fs))" "fst ` set (?s fs) \<subseteq> fd_id ` set fs" using Cons by simp_all
  have nf: "fd_id f \<notin> fd_id ` set fs" using Cons.prems by simp
  then have f: "fd_id f \<notin> fst ` set (?s fs)" using ih(2) by blast
  then have none: "map_of (?s fs) (fd_id f) = None" by (simp add: map_of_eq_None_iff)
  have "map_of (?s (f # fs)) (fd_id f) = head" unfolding step using none by (cases head) simp_all
  moreover have "map_of (?s (f # fs)) (fd_id g) = map_of (?s fs) (fd_id g)" if g: "g \<in> set fs" for g
  proof -
    have "fd_id g \<noteq> fd_id f" using nf g by (metis image_eqI)
    then show ?thesis unfolding step by (cases head) simp_all
  qed
  moreover have "distinct (map fst (?s (f # fs)))" unfolding step using ih(1) f by (cases head) simp_all
  moreover have "fst ` set (?s (f # fs)) \<subseteq> fd_id ` set (f # fs)" unfolding step using ih(2) by (cases head) auto
  ultimately show ?case using Cons.IH Cons.prems by (simp add: head_def)
qed

lemma recompute_up_to_date:
  assumes "keyed fd_id (db_findings d)" and "f \<in> set (t_rows (db_findings (fst (recompute_finding_priorities t now ids d))))"
    and "fd_cve_id f \<in> set ids" and "fd_status f \<in> {''open'', ''in_review'', ''planned''}"
  shows "up_to_date t d f"
proof -
  let ?q = "\<lambda>f. fd_cve_id f \<in> set ids \<and> fd_status f \<in> {''open'', ''in_review'', ''planned''}"
  let ?es = "score_changes t (recompute_rows ids d)"
  have dist: "distinct (map fd_id (t_rows (db_findings d)))" using assms(1) by (simp add: keyed_def)
  note ch = changes_of [OF dist, of t ?q d, folded recompute_rows_def]
  have "t_rows (db_findings (fst (recompute_finding_priorities t now ids d))) =
     fold (\<lambda>(k, v). sql_update (\<lambda>f. fd_id f = k \<and> True) (\<lambda>f. f\<lparr>fd_priority_score := Some (of_int v), fd_updated_at := now\<rparr>)) ?es (t_rows (db_findings d))"
    by (simp only: recompute_finding_priorities_def Let_def fst_conv fold_set_priority)
  also have "\<dots> = map (\<lambda>f. case map_of ?es (fd_id f) of None \<Rightarrow> f | Some v \<Rightarrow> if True then f\<lparr>fd_priority_score := Some (of_int v), fd_updated_at := now\<rparr> else f)
      (t_rows (db_findings d))"
    using ch by (intro fold_keyed_updates) simp_all
  finally obtain g where g: "g \<in> set (t_rows (db_findings d))"
    and f: "f = (case map_of ?es (fd_id g) of None \<Rightarrow> g | Some v \<Rightarrow> g\<lparr>fd_priority_score := Some (of_int v), fd_updated_at := now\<rparr>)"
    using assms(2) by (auto split: option.splits)
  have q: "?q g" using assms(3,4) f by (cases "map_of ?es (fd_id g)") auto
  have id: "fd_cve_id f = fd_cve_id g" using f by (cases "map_of ?es (fd_id g)") auto
  have whole: "truncated (of_int n) = n" for n by (simp add: truncated_def)
  have "map_option truncated (fd_priority_score f) = Some (compute_priority_score (utc t) (recompute_signals c))"
    if c: "cve_by_id d (fd_cve_id g) = Some c" for c
  proof -
    let ?new = "compute_priority_score (utc t) (recompute_signals c)"
    have "map_of ?es (fd_id g) = (if Some ?new \<noteq> map_option truncated (fd_priority_score g) then Some ?new else None)"
      using ch g q c by (simp add: Let_def)
    then show ?thesis using f whole
      by (cases "Some ?new = map_option truncated (fd_priority_score g)") (simp, simp)
  qed
  then show ?thesis by (simp add: up_to_date_def id)
qed

lemma fetch_loop_nothing:
  assumes "(\<forall>b. \<exists>e. read_batch (srv b) = Inl (HttpError e)) \<or> (dc_limit c \<le> dc_count c \<and> (\<forall>n. today n = dc_day c) \<and> (\<forall>b \<in> set bs. b \<noteq> []))"
  shows "snd (fetch_loop srv today n c [] bs) = Inr []"
  using assms
proof (induction bs arbitrary: n c)
  case Nil
  then show ?case by simp
next
  case (Cons b bs)
  obtain c' a where con: "consume (today n) (int (length b)) c = (c', a)" by (cases "consume (today n) (int (length b)) c")
  show ?case
  proof (cases "\<forall>b. \<exists>e. read_batch (srv b) = Inl (HttpError e)")
    case True
    then obtain e where e: "read_batch (srv b) = Inl (HttpError e)" by blast
    have "snd (fetch_loop srv today (n + 1) c' [] bs) = Inr []" using True by (intro Cons.IH) blast
    then show ?thesis by (simp add: con e)
  next
    case False
    then have "dc_limit c \<le> dc_count c" "today n = dc_day c" "b \<noteq> []" using Cons.prems by auto
    then have "a = False" using con by (cases b) (auto simp: consume_def)
    then show ?thesis by (simp add: con)
  qed
qed

lemma batches_nonempty: "b \<in> set (batches n xs) \<Longrightarrow> b \<noteq> []"
  by (induction n xs rule: batches.induct) (subst (asm) (2) batches.simps, auto split: if_splits)

lemma pass_without_answer:
  assumes "ids_distinct (db_cves d)" and "ids = map cv_cve_id (vx_candidates st page (vx_db clk) d)" and "ids \<noteq> []"
    and "fetch ids c = (c', Inr [])"
  shows "\<exists>d' hit. vx_pass st page clk fetch (d, c) = ((d', c'), Inr \<lparr>vr_updated = 0, vr_not_found = int (length ids), vr_errors = 0,
       vr_daily_limit_hit = hit\<rparr>) \<and>
     t_rows (db_cves d') = map (with_intel (vx_py clk) (vx_db clk) [] ids) (t_rows (db_cves d))"
proof -
  have e: "List.map_filter (\<lambda>i. map_option (Pair i) (map_of ([] :: intel) i)) ids = []" by (simp add: List.map_filter_def)
  have dist: "distinct ids" unfolding assms(2) by (rule vx_ids_distinct [OF assms(1)])
  let ?d = "fold (store_not_found (vx_py clk) (vx_db clk)) (filter (\<lambda>i. map_of ([] :: intel) i = None) ids) d"
  have "t_rows (db_cves ?d) = map (with_intel (vx_py clk) (vx_db clk) [] ids) (t_rows (db_cves d))"
    using stored_rows [OF dist e [symmetric], of "vx_py clk" "vx_db clk" d] by (simp only: fold_simps)
  moreover have "vx_pass st page clk fetch (d, c) = ((?d, c'), Inr \<lparr>vr_updated = 0, vr_not_found = int (length ids), vr_errors = 0,
       vr_daily_limit_hit = (dc_count c' - dc_count c < int (length ids))\<rparr>)"
    using assms(3,4) e unfolding vx_pass_def Let_def prod.case assms(2) [symmetric] by simp
  ultimately show ?thesis by blast
qed

section \<open>Properties\<close>

text \<open>The daily budget is never exceeded: within one day, the batches sent have together exactly as many ids as
  the counter grew by, the counter stays within its limit, and only the batches sent matter: whatever
  the service would answer to any other, nothing changes.\<close>

theorem daily_budget_respected:
  assumes "\<And>n. today n = dc_day c" and "dc_count c \<le> dc_limit c" and "ids \<noteq> []"
  shows "\<exists>sent. dc_count (fst (fetch_intel st srv today ids c)) = dc_count c + int (sum_list (map length sent)) \<and>
     dc_count (fst (fetch_intel st srv today ids c)) \<le> dc_limit c \<and>
     (\<forall>srv'. (\<forall>b \<in> set sent. srv' b = srv b) \<longrightarrow> fetch_intel st srv' today ids c = fetch_intel st srv today ids c)"
  using fetch_loop_budget [where today = today and c = c and n = 0 and m = "[]" and srv = srv, OF assms(1,2)] assms(3)
  unfolding fetch_intel_def by (simp only: if_False) blast

theorem daily_budget_respected_witness:
  "dc_count (fst (fetch_intel default_settings (\<lambda>_. Inl (HttpError [])) (\<lambda>_. 7) [''CVE-1'', ''CVE-2'']
     \<lparr>dc_limit = 1, dc_count = 0, dc_day = 7\<rparr>)) \<le> 1"
  using daily_budget_respected [of "\<lambda>_. 7" "\<lparr>dc_limit = 1, dc_count = 0, dc_day = 7\<rparr>" "[''CVE-1'', ''CVE-2'']"
      default_settings "\<lambda>_. Inl (HttpError [])"] by auto

text \<open>What a pass leaves behind when the client returned: of the stale CVEs it looked at, those in the answer have
  the flags of the answer and the others only the time stamp, no other row changes, and every
  unresolved finding on a CVE of the answer has the priority that its new signals give it.\<close>

theorem exploitability_pass_correct:
  assumes "ids_distinct (db_cves d)" and "keyed fd_id (db_findings d)"
    and "vx_candidates st page (vx_db clk) d \<noteq> []" and "fetch (map cv_cve_id (vx_candidates st page (vx_db clk) d)) c = (c', Inr m)"
    and "vx_pass st page clk fetch (d, c) = ((d', c''), Inr r)"
  shows "t_rows (db_cves d') = map (with_intel (vx_py clk) (vx_db clk) m (map cv_cve_id (vx_candidates st page (vx_db clk) d))) (t_rows (db_cves d)) \<and>
     vr_updated r + vr_not_found r = int (length (vx_candidates st page (vx_db clk) d)) \<and>
     list_all (\<lambda>f. map_of m (fd_cve_id f) \<noteq> None \<and> fd_cve_id f \<in> cv_cve_id ` set (vx_candidates st page (vx_db clk) d) \<and>
        fd_status f \<in> {''open'', ''in_review'', ''planned''} \<longrightarrow> up_to_date (vx_py clk) d' f) (t_rows (db_findings d'))"
proof -
  let ?ids = "map cv_cve_id (vx_candidates st page (vx_db clk) d)"
  define found where "found = List.map_filter (\<lambda>i. map_option (Pair i) (map_of m i)) ?ids"
  define d1 where "d1 = fold (store_not_found (vx_py clk) (vx_db clk)) (filter (\<lambda>i. map_of m i = None) ?ids)
     (fold (store_intel (vx_py clk) (vx_db clk)) found d)"
  have dist: "distinct ?ids" by (rule vx_ids_distinct [OF assms(1)])
  have rows: "t_rows (db_cves d1) = map (with_intel (vx_py clk) (vx_db clk) m ?ids) (t_rows (db_cves d))"
    unfolding d1_def by (rule stored_rows [OF dist found_def])
  have d': "d' = (if found = [] then d1 else fst (recompute_finding_priorities (vx_py clk) (vx_db clk) (map fst found) d1))"
    and r: "vr_updated r = int (length found)" "vr_not_found r = int (length (filter (\<lambda>i. map_of m i = None) ?ids))"
    using assms(3-5) by (auto simp: vx_pass_def Let_def found_def d1_def)
  have fin: "db_findings d1 = db_findings d" unfolding d1_def by (rule stored_findings)
  have cves: "db_cves d' = db_cves d1" by (simp add: d')
  have "length found + length (filter (\<lambda>i. map_of m i = None) is) = length is" if "found = List.map_filter (\<lambda>i. map_option (Pair i) (map_of m i)) is" for "is" found
    using that by (induction "is" arbitrary: found) (auto simp: List.map_filter_simps split: option.splits)
  from this [OF found_def] have n: "vr_updated r + vr_not_found r = int (length ?ids)" unfolding r by (simp only: of_nat_add [symmetric])
  have "up_to_date (vx_py clk) d' f"
    if f: "f \<in> set (t_rows (db_findings d'))" "map_of m (fd_cve_id f) \<noteq> None" "fd_cve_id f \<in> set ?ids"
      "fd_status f \<in> {''open'', ''in_review'', ''planned''}" for f
  proof -
    have "(fd_cve_id f, the (map_of m (fd_cve_id f))) \<in> set found"
      using f(2,3) unfolding found_def List.map_filter_def by force
    then have mem: "fd_cve_id f \<in> set (map fst found)" "found \<noteq> []" by force+
    have "keyed fd_id (db_findings d1)" using assms(2) fin by simp
    then have "up_to_date (vx_py clk) d1 f"
      by (rule recompute_up_to_date [of d1 f "vx_py clk" "vx_db clk" "map fst found"]) (use f mem d' in simp_all)
    then show ?thesis by (simp add: up_to_date_def cve_by_id_def cves)
  qed
  then show ?thesis using rows cves n by (simp add: list_all_iff)
qed

text \<open>Not asked counts as checked: when the service fails on every batch, or the budget of the day is already used
  up, a run reports no error, the breaker counts a success, and every CVE it wanted to ask about is
  stamped as checked, so that it is not looked at again until the stamp is stale.\<close>

theorem unanswered_cves_count_as_checked:
  assumes "ids_distinct (db_cves d)" and "vx_candidates st page (vx_db clk) d \<noteq> []" and "cstate cb = CLOSED"
    and "(\<forall>b. \<exists>e. read_batch (srv b) = Inl (HttpError e)) \<or> (dc_limit c \<le> dc_count c \<and> (\<forall>n. today n = dc_day c))"
    and "later \<le> vx_py clk + max 1 (vulnx_staleness_days st) * day_us"
  shows "\<exists>d' c' hit. run_exploitability_refresh st page clk (fetch_intel st srv today) cb (d, c) =
       (on_success cb, (d', c'), Inr \<lparr>vr_updated = 0, vr_not_found = int (length (vx_candidates st page (vx_db clk) d)),
          vr_errors = 0, vr_daily_limit_hit = hit\<rparr>) \<and>
     cv_cve_id ` set (vx_candidates st page later d') \<inter> cv_cve_id ` set (vx_candidates st page (vx_db clk) d) = {}"
proof -
  let ?ids = "map cv_cve_id (vx_candidates st page (vx_db clk) d)"
  let ?fetch = "fetch_intel st srv today"
  have ne: "?ids \<noteq> []" using assms(2) by simp
  have "snd (?fetch ?ids c) = Inr []"
    unfolding fetch_intel_def using ne fetch_loop_nothing [of srv c today "batches (nat (max 1 (vulnx_batch_size st))) (dedup [] ?ids)" 0]
      assms(4) batches_nonempty by (simp only: if_False) blast
  then obtain c' where "?fetch ?ids c = (c', Inr [])" by (metis prod.collapse)
  from pass_without_answer [OF assms(1) refl ne, of ?fetch, OF this] obtain d' hit where
    pass: "vx_pass st page clk ?fetch (d, c) = ((d', c'), Inr \<lparr>vr_updated = 0, vr_not_found = int (length ?ids), vr_errors = 0,
       vr_daily_limit_hit = hit\<rparr>)"
    and rows: "t_rows (db_cves d') = map (with_intel (vx_py clk) (vx_db clk) [] ?ids) (t_rows (db_cves d))" by blast
  have "cb_call (vx_enter clk) (vx_fail clk) (vx_pass st page clk ?fetch) cb (d, c) =
      (on_success cb, (d', c'), Inr \<lparr>vr_updated = 0, vr_not_found = int (length ?ids), vr_errors = 0, vr_daily_limit_hit = hit\<rparr>)"
    using assms(3) pass by (simp add: cb_call_def admit_def)
  then have run: "run_exploitability_refresh st page clk ?fetch cb (d, c) =
      (on_success cb, (d', c'), Inr \<lparr>vr_updated = 0, vr_not_found = int (length ?ids), vr_errors = 0, vr_daily_limit_hit = hit\<rparr>)"
    by (simp add: run_exploitability_refresh_def)
  have "cv_cve_id x \<notin> set ?ids" if x: "x \<in> set (vx_candidates st page later d')" for x
  proof
    assume i: "cv_cve_id x \<in> set ?ids"
    have "x \<in> set (t_rows (db_cves d'))" and s: "vx_stale (max 1 (vulnx_staleness_days st)) later x"
      using in_set_takeD [OF x [unfolded vx_candidates_def]] by simp_all
    then obtain y where "x = with_intel (vx_py clk) (vx_db clk) [] ?ids y" by (auto simp: rows)
    then have "cv_exploitability_updated_at x = Some (vx_py clk)" using i by (auto simp: with_intel_def split: if_splits)
    then show False using s assms(5) by (simp add: vx_stale_def)
  qed
  then have "cv_cve_id ` set (vx_candidates st page later d') \<inter> cv_cve_id ` set (vx_candidates st page (vx_db clk) d) = {}"
    by (force simp only: set_map)
  with run show ?thesis by (intro exI) (simp only: length_map)
qed

text \<open>The synchronisation takes the exploitability points away again: whatever flags a CVE has, the score that a
  synchronisation stores is at most the recomputed one, and for a CVE with a CVSS 3 score and an exploit
  template it is eight points lower unless the cap of 100 is reached.\<close>

theorem sync_forgets_exploitability:
  assumes "cv_cvss_v3_score c = Some x" and "x \<noteq> 0" and "0 \<le> float_or_zero (cv_epss_score c)"
  shows "compute_priority_score now (row_signals c) \<le> compute_priority_score now (recompute_signals c) \<and>
     (cv_has_nuclei_template c = Some True \<longrightarrow>
       compute_priority_score now (recompute_signals c) = min 100 (compute_priority_score now (row_signals c) + 8))"
proof -
  let ?s = "factor_sum (compute_priority_factors now (row_signals c))"
  let ?r = "factor_sum (compute_priority_factors now (recompute_signals c))"
  have "0 \<le> py_round (float_or_zero (cv_epss_score c) * 40)" using assms(3) by (intro py_round_nonneg) simp
  moreover have "0 \<le> cvss_points t y" "0 \<le> recency_points n" for t y n by (simp_all add: cvss_points_def recency_points_def)
  ultimately have "0 \<le> ?s" unfolding factor_sum_def factors_points by (simp add: row_signals_def)
  moreover have "?r = ?s + (if cv_has_nuclei_template c = Some True then 8 else if cv_has_public_poc c = Some True then 5 else 0)"
    using assms(1,2) unfolding factor_sum_def factors_points by (simp add: row_signals_def recompute_signals_def)
  ultimately show ?thesis unfolding score_factors by auto
qed

definition exploited_row :: cve_row where
  "exploited_row = (sample_row 3 False)\<lparr>cv_cvss_v3_score := Some 5, cv_has_nuclei_template := Some True\<rparr>"

theorem sync_forgets_exploitability_witness:
  "compute_priority_score (utc 0) (recompute_signals exploited_row) = min 100 (compute_priority_score (utc 0) (row_signals exploited_row) + 8)"
  using sync_forgets_exploitability [of exploited_row 5 "utc 0"]
  by (simp add: exploited_row_def sample_row_def new_cve_def float_or_zero_def)

definition closed_breaker :: breaker where
  "closed_breaker = new_breaker ''vulnx'' 5 180"

definition one_clock :: vx_clock where
  "one_clock = \<lparr>vx_enter = 0, vx_fail = 0, vx_db = 0, vx_py = 0\<rparr>"

lemma two_candidates: "length (vx_candidates default_settings 5000 (vx_db one_clock) (crowded_db 1)) = 2"
  by code_simp

lemma some_candidates: "vx_candidates default_settings 5000 (vx_db one_clock) (crowded_db 1) \<noteq> []"
  using two_candidates by auto

theorem unanswered_cves_count_as_checked_witness:
  "\<exists>s hit. run_exploitability_refresh default_settings 5000 one_clock (fetch_intel default_settings (\<lambda>_. Inl (HttpError [])) (\<lambda>_. 0))
     closed_breaker (crowded_db 1, \<lparr>dc_limit = 9, dc_count = 0, dc_day = 0\<rparr>) =
     (on_success closed_breaker, s, Inr \<lparr>vr_updated = 0, vr_not_found = 2, vr_errors = 0, vr_daily_limit_hit = hit\<rparr>)"
proof -
  have "cstate closed_breaker = CLOSED" by (simp add: closed_breaker_def new_breaker_def)
  moreover have "\<forall>b. \<exists>e. read_batch ((\<lambda>_. Inl (HttpError [])) b) = Inl (HttpError e)" by (simp add: read_batch_def)
  moreover have "day_us \<le> vx_py one_clock + max 1 (vulnx_staleness_days default_settings) * day_us"
    by (simp add: one_clock_def default_settings_def day_us_def)
  ultimately show ?thesis
    using unanswered_cves_count_as_checked [OF crowded_distinct some_candidates, of closed_breaker "\<lambda>_. Inl (HttpError [])"
        "\<lparr>dc_limit = 9, dc_count = 0, dc_day = 0\<rparr>" "\<lambda>_. 0" day_us, unfolded two_candidates] by force
qed

theorem exploitability_pass_correct_witness:
  "\<exists>d' c' r. vx_pass default_settings 5000 one_clock
     (\<lambda>ids c. (c, Inr [(''0'', intel_of [(''poc'', JStr ''x'')])])) (crowded_db 1, \<lparr>dc_limit = 9, dc_count = 0, dc_day = 0\<rparr>) = ((d', c'), Inr r) \<and>
     vr_updated r + vr_not_found r = 2"
proof -
  let ?c = "\<lparr>dc_limit = 9, dc_count = 0, dc_day = 0\<rparr> :: daily_counter"
  let ?f = "\<lambda>ids c. (c, Inr [(''0'', intel_of [(''poc'', JStr ''x'')])]) :: daily_counter \<times> intel result"
  have "keyed fd_id (db_findings (crowded_db 1))" by (simp add: crowded_db_def empty_db_def)
  note correct = exploitability_pass_correct [OF crowded_distinct this some_candidates, of ?f ?c]
  obtain d' c' r where "vx_pass default_settings 5000 one_clock ?f (crowded_db 1, ?c) = ((d', c'), Inr r)"
    using some_candidates by (auto simp: vx_pass_def Let_def)
  with correct [OF refl this] show ?thesis unfolding two_candidates by auto
qed

end
