(* ===== verification/Opencve.thy ===== *)
theory Opencve
  imports Ingest Py_Number Settings
begin

text \<open>
  \<open>app/query/opencve_client.py\<close>: the poll of the OpenCVE service for the active subscriptions. The service
  is an argument that answers a page of a vendor and product; the waiting for the rate governor is left
  out. The table of subscriptions is an argument of its own.
\<close>

record subscription_row =
  sub_id :: int
  sub_vendor :: string
  sub_product :: string
  sub_active :: bool

definition OPENCVE_PAGE_SIZE :: nat where "OPENCVE_PAGE_SIZE = 20"
definition OPENCVE_MAX_PAGES :: nat where "OPENCVE_MAX_PAGES = 50"

section \<open>Parsing\<close>

definition or_json :: "json option \<Rightarrow> json option \<Rightarrow> json option" where
  "or_json x y = (if opt_ex json_truthy x then x else y)"

text \<open>\<open>_parse_dt\<close>: nothing and bad text become the current time.\<close>

definition opencve_dt :: "int \<Rightarrow> json option \<Rightarrow> int result" where
  "opencve_dt now v =
     (if \<not> opt_ex json_truthy v then Inr now
      else case the v of
        JStr s \<Rightarrow> Inr (case datetime_fromisoformat (py_replace_char CHR ''Z'' ''+00:00'' s) of
            None \<Rightarrow> now | Some dt \<Rightarrow> instant (assume_utc dt))
      | _ \<Rightarrow> Inl AttributeError)"

definition opt_float :: "json option \<Rightarrow> rat option result" where
  "opt_float v = (case present v of None \<Rightarrow> Inr None | Some w \<Rightarrow> bind_r (to_float w) (\<lambda>x. Inr (Some x)))"

text \<open>The scores and the text that goes into the severity column; a number that cannot be read drops both scores.\<close>

definition opencve_scores :: "json \<Rightarrow> rat option \<times> rat option \<times> json option" where
  "opencve_scores cvss =
     (let (v3, v2, sev) = (case cvss of
          JObj kvs \<Rightarrow> (or_json (obj_get kvs ''v3'') (obj_get kvs ''v31''), obj_get kvs ''v2'', Some (get_or kvs ''v3_vector'' (JStr [])))
        | JInt n \<Rightarrow> (None, Some (JInt n), None) | JFloat x \<Rightarrow> (None, Some (JFloat x), None) | JBool b \<Rightarrow> (None, Some (JBool b), None)
        | _ \<Rightarrow> (None, None, None))
      in case (opt_float v3, opt_float v2) of
        (Inr a, Inr b) \<Rightarrow> (a, b, sev) | _ \<Rightarrow> (None, None, sev))"

text \<open>One item: \<open>None\<close> is skipped. A severity that is no text is refused by the driver.\<close>

definition DataError :: py_exn where "DataError = OtherError ''DataError''"

definition parse_cve :: "int \<Rightarrow> json \<Rightarrow> cve_values option result" where
  "parse_cve now v = bind_r (as_dict v) (\<lambda>kvs.
     let cve_id = or_json (obj_get kvs ''cve_id'') (obj_get kvs ''id'') in
     if \<not> opt_ex json_truthy cve_id then Inr None
     else case the cve_id of
       JStr i \<Rightarrow>
         if \<not> py_startswith i ''CVE-'' then Inr None
         else (case opencve_scores (get_or kvs ''cvss'' (JObj [])) of (v3, v2, sev) \<Rightarrow>
           bind_r (opencve_dt now (or_json (obj_get kvs ''created_at'') (obj_get kvs ''published''))) (\<lambda>published.
           bind_r (opencve_dt now (or_json (obj_get kvs ''updated_at'') (or_json (obj_get kvs ''modified'') (obj_get kvs ''created_at'')))) (\<lambda>modified.
           bind_r (if \<not> opt_ex json_truthy sev then Inr None else case the sev of JStr s \<Rightarrow> Inr (Some s) | _ \<Rightarrow> Inl DataError) (\<lambda>severity.
             Inr (Some \<lparr>cvv_cve_id = i, cvv_source = ''nvd_api'', cvv_raw_payload = JObj kvs, cvv_cvss_v3_score = v3,
               cvv_cvss_v3_vector = None, cvv_cvss_v2_score = v2, cvv_severity = severity,
               cvv_published_at = published, cvv_last_modified_at = modified\<rparr>)))))
     | _ \<Rightarrow> Inl AttributeError)"

definition parse_cves :: "int \<Rightarrow> json list \<Rightarrow> cve_values list result" where
  "parse_cves now vs = bind_r (map_r (parse_cve now) vs) (\<lambda>os. Inr (List.map_filter id os))"

section \<open>The poll\<close>

text \<open>\<open>ON CONFLICT (cve_id) DO NOTHING\<close>, all rows or none.\<close>

definition insert_cve :: "int \<Rightarrow> cve_row table \<Rightarrow> cve_values \<Rightarrow> cve_row table" where
  "insert_cve now t v =
     (if list_ex (\<lambda>c. cv_cve_id c = cvv_cve_id v) (t_rows t) then t else fst (insert_row (new_cve now v) t))"

definition store_cves :: "int \<Rightarrow> cve_values list \<Rightarrow> db \<Rightarrow> db result" where
  "store_cves now vs d =
     (if list_all values_check vs then Inr (d\<lparr>db_cves := foldl (insert_cve now) (db_cves d) vs\<rparr>) else Inl CheckViolation)"

text \<open>
  The items of an answer. The expression is \<open>body.get("results") or body if isinstance(body, list) else []\<close>, in
  which the conditional binds weakest: what is no list has no items, and a list has no \<open>get\<close>.
\<close>

definition results_of :: "json \<Rightarrow> json list result" where
  "results_of body = (case body of JArr _ \<Rightarrow> Inl AttributeError | _ \<Rightarrow> Inr [])"

definition last_answer :: "json \<Rightarrow> bool" where
  "last_answer body = (case body of JObj kvs \<Rightarrow> \<not> opt_ex json_truthy (obj_get kvs ''next'') | _ \<Rightarrow> False)"

text \<open>The pages of one subscription, at most \<open>n\<close> of them; the service is asked for a page of a vendor and product.\<close>

primrec poll_pages ::
    "nat \<Rightarrow> int \<Rightarrow> (nat \<Rightarrow> response result) \<Rightarrow> nat \<Rightarrow> int \<Rightarrow> db \<Rightarrow> db \<times> int result" where
  "poll_pages 0 now srv page inserted d = (d, Inr inserted)"
| "poll_pages (Suc n) now srv page inserted d = (case srv page of
      Inl (HttpError e) \<Rightarrow> (d, Inr inserted)
    | Inl e \<Rightarrow> (d, Inl e)
    | Inr resp \<Rightarrow>
        if r_status resp \<in> {401, 403, 404, 429} then (d, Inr inserted)
        else if \<not> (200 \<le> r_status resp \<and> r_status resp < 300) then (d, Inl (HttpError ''HTTPStatusError''))
        else (case r_body resp of
          None \<Rightarrow> (d, Inl (ValueError ''JSONDecodeError''))
        | Some body \<Rightarrow> (case results_of body of
            Inl e \<Rightarrow> (d, Inl e)
          | Inr items \<Rightarrow>
              if items = [] then (d, Inr inserted)
              else (case bind_r (parse_cves now items) (\<lambda>vs. if vs = [] then Inr (d, 0) else
                        bind_r (store_cves now vs d) (\<lambda>d'. Inr (d', int (length vs)))) of
                  Inl e \<Rightarrow> (d, Inl e)
                | Inr (d', k) \<Rightarrow>
                    if last_answer body \<or> length items < OPENCVE_PAGE_SIZE then (d', Inr (inserted + k))
                    else poll_pages n now srv (page + 1) (inserted + k) d'))))"

definition poll_one :: "int \<Rightarrow> (string \<Rightarrow> string \<Rightarrow> nat \<Rightarrow> response result) \<Rightarrow> subscription_row \<Rightarrow> db \<Rightarrow> db \<times> int result" where
  "poll_one now srv s d = poll_pages OPENCVE_MAX_PAGES now (srv (sub_vendor s) (sub_product s)) 1 0 d"

fun poll_all :: "int \<Rightarrow> (string \<Rightarrow> string \<Rightarrow> nat \<Rightarrow> response result) \<Rightarrow> subscription_row list \<Rightarrow> db \<Rightarrow> db \<times> int result" where
  "poll_all now srv [] d = (d, Inr 0)"
| "poll_all now srv (s # ss) d = (case poll_one now srv s d of
      (d', Inl e) \<Rightarrow> (d', Inl e)
    | (d', Inr k) \<Rightarrow> (case poll_all now srv ss d' of (d'', r) \<Rightarrow> (d'', bind_r r (\<lambda>n. Inr (k + n)))))"

definition poll_subscriptions ::
    "settings \<Rightarrow> int \<Rightarrow> (string \<Rightarrow> string \<Rightarrow> nat \<Rightarrow> response result) \<Rightarrow> subscription_row table \<Rightarrow> db \<Rightarrow> db \<times> int result" where
  "poll_subscriptions st now srv subs d =
     (if opencve_api_key st = [] then (d, Inr 0) else poll_all now srv (filter sub_active (t_rows subs)) d)"

definition ensure_subscription :: "string \<Rightarrow> string \<Rightarrow> subscription_row table \<Rightarrow> subscription_row table" where
  "ensure_subscription v p t =
     (if list_ex (\<lambda>s. sub_vendor s = v \<and> sub_product s = p) (t_rows t) then t
      else fst (insert_row (\<lambda>n. \<lparr>sub_id = n, sub_vendor = v, sub_product = p, sub_active = True\<rparr>) t))"

section \<open>Properties\<close>

lemma poll_pages_nothing: "fst (poll_pages n now srv page k d) = d \<and> snd (poll_pages n now srv page k d) \<in> {Inr k} \<union> range Inl"
proof (cases n)
  case 0
  then show ?thesis by simp
next
  case (Suc m)
  have nil: "results_of body = Inr xs \<Longrightarrow> xs = []" for body xs by (cases body) (simp_all add: results_of_def)
  show ?thesis unfolding Suc
    by (auto split: sum.splits py_exn.splits option.splits dest: nil)
qed

text \<open>The poll never stores a CVE: whatever the service answers and whatever is subscribed, the database stays as
  it is, and the poll reports no new CVE or raises; an answer that is a list always makes it raise.\<close>

theorem opencve_poll_never_stores:
  "fst (poll_subscriptions st now srv subs d) = d \<and> snd (poll_subscriptions st now srv subs d) \<in> {Inr 0} \<union> range Inl \<and>
   poll_one now (\<lambda>_ _ _. Inr (resp\<lparr>r_status := 200, r_body := Some (JArr vs)\<rparr>)) s d = (d, Inl AttributeError)"
proof -
  have one: "fst (poll_one now srv s d) = d \<and> snd (poll_one now srv s d) \<in> {Inr 0} \<union> range Inl" for s
    unfolding poll_one_def by (rule poll_pages_nothing)
  have "fst (poll_all now srv ss d) = d \<and> snd (poll_all now srv ss d) \<in> {Inr 0} \<union> range Inl" for ss
  proof (induction ss)
    case Nil
    then show ?case by simp
  next
    case (Cons s ss)
    then show ?case using one [of s] by (auto split: prod.splits sum.splits)
  qed
  moreover have "poll_one now (\<lambda>_ _ _. Inr (resp\<lparr>r_status := 200, r_body := Some (JArr vs)\<rparr>)) s d = (d, Inl AttributeError)"
    by (simp add: poll_one_def OPENCVE_MAX_PAGES_def numeral_eq_Suc results_of_def)
  ultimately show ?thesis by (auto simp: poll_subscriptions_def)
qed

end
