(* ===== verification/Metrics.thy ===== *)
theory Metrics
  imports Py_Text "HOL-Library.List_Lexorder" "HOL-Library.Char_ord" "HOL-Library.Product_Lexorder"
begin

text \<open>
  \<open>app/core/metrics.py\<close>: the in-process counters, the sliding windows of latencies and their percentiles,
  and the registry that creates a provider's counters on first use. Latencies are exact rational numbers.
\<close>

section \<open>Windows\<close>

text \<open>\<open>deque(maxlen=m).append\<close>.\<close>

definition push :: "nat \<Rightarrow> 'a \<Rightarrow> 'a list \<Rightarrow> 'a list" where
  "push m x q = (let q' = q @ [x] in drop (length q' - m) q')"

definition round_ms :: "rat \<Rightarrow> rat" where
  "round_ms x = of_int (py_round (x * 1000 * 10)) / 10"

definition percentile_index :: "nat \<Rightarrow> rat \<Rightarrow> nat" where
  "percentile_index n p = nat (max 0 (\<lfloor>of_nat n * p\<rfloor> - 1))"

definition percentile :: "rat list \<Rightarrow> rat \<Rightarrow> rat option" where
  "percentile q p = (if length q < 5 then None else Some (round_ms (sort q ! percentile_index (length q) p)))"

section \<open>Counters\<close>

record provider_metrics =
  pm_provider :: string
  pm_requests_total :: int
  pm_rate_limited_total :: int
  pm_errors_total :: int
  pm_circuit_opens_total :: int
  pm_latencies :: "rat list"

definition new_provider :: "string \<Rightarrow> provider_metrics" where
  "new_provider n = \<lparr>pm_provider = n, pm_requests_total = 0, pm_rate_limited_total = 0, pm_errors_total = 0,
     pm_circuit_opens_total = 0, pm_latencies = []\<rparr>"

definition record_request :: "rat \<Rightarrow> provider_metrics \<Rightarrow> provider_metrics" where
  "record_request l m = m\<lparr>pm_requests_total := pm_requests_total m + 1, pm_latencies := push 1000 l (pm_latencies m)\<rparr>"

definition record_rate_limited :: "provider_metrics \<Rightarrow> provider_metrics" where
  "record_rate_limited m = m\<lparr>pm_rate_limited_total := pm_rate_limited_total m + 1\<rparr>"

definition record_error_count :: "provider_metrics \<Rightarrow> provider_metrics" where
  "record_error_count m = m\<lparr>pm_errors_total := pm_errors_total m + 1\<rparr>"

definition record_circuit_open :: "provider_metrics \<Rightarrow> provider_metrics" where
  "record_circuit_open m = m\<lparr>pm_circuit_opens_total := pm_circuit_opens_total m + 1\<rparr>"

record http_metrics =
  hm_requests_total :: int
  hm_errors_5xx_total :: int
  hm_latencies :: "rat list"

definition record_http :: "rat \<Rightarrow> int \<Rightarrow> http_metrics \<Rightarrow> http_metrics" where
  "record_http l status m = m\<lparr>hm_requests_total := hm_requests_total m + 1, hm_latencies := push 2000 l (hm_latencies m),
     hm_errors_5xx_total := (if status \<ge> 500 then hm_errors_5xx_total m + 1 else hm_errors_5xx_total m)\<rparr>"

record provider_snapshot =
  ps_metrics :: provider_metrics
  ps_p50 :: "rat option"
  ps_p95 :: "rat option"
  ps_p99 :: "rat option"
  ps_sample_count :: int

definition provider_snapshot_of :: "provider_metrics \<Rightarrow> provider_snapshot" where
  "provider_snapshot_of m = \<lparr>ps_metrics = m, ps_p50 = percentile (pm_latencies m) (50/100), ps_p95 = percentile (pm_latencies m) (95/100),
     ps_p99 = percentile (pm_latencies m) (99/100), ps_sample_count = int (length (pm_latencies m))\<rparr>"

section \<open>The registry\<close>

record metrics_registry =
  mr_http :: http_metrics
  mr_providers :: "(string \<times> provider_metrics) list"
  mr_egress_blocks :: "((string \<times> string) \<times> int) list"

definition new_registry :: metrics_registry where
  "new_registry = \<lparr>mr_http = \<lparr>hm_requests_total = 0, hm_errors_5xx_total = 0, hm_latencies = []\<rparr>, mr_providers = [], mr_egress_blocks = []\<rparr>"

text \<open>\<open>registry.provider(name)\<close> followed by a change of the object it returns.\<close>

fun assoc_upsert :: "'v \<Rightarrow> ('v \<Rightarrow> 'v) \<Rightarrow> 'k \<Rightarrow> ('k \<times> 'v) list \<Rightarrow> ('k \<times> 'v) list" where
  "assoc_upsert d f k [] = [(k, f d)]"
| "assoc_upsert d f k ((k', v) # m) = (if k' = k then (k, f v) # m else (k', v) # assoc_upsert d f k m)"

definition with_provider :: "(provider_metrics \<Rightarrow> provider_metrics) \<Rightarrow> string \<Rightarrow> metrics_registry \<Rightarrow> metrics_registry" where
  "with_provider f n r = r\<lparr>mr_providers := assoc_upsert (new_provider n) f n (mr_providers r)\<rparr>"

definition record_egress_block :: "string \<Rightarrow> string \<Rightarrow> metrics_registry \<Rightarrow> metrics_registry" where
  "record_egress_block p reason r = r\<lparr>mr_egress_blocks := assoc_upsert 0 (\<lambda>n. n + 1) (p, reason) (mr_egress_blocks r)\<rparr>"

definition egress_blocks :: "metrics_registry \<Rightarrow> ((string \<times> string) \<times> int) list" where
  "egress_blocks r = sort (mr_egress_blocks r)"

section \<open>Lemmas\<close>

lemma push_recent: "0 < m \<Longrightarrow> foldl (\<lambda>q x. push m x q) q xs = drop (length (q @ xs) - m) (q @ xs)" if "length q \<le> m"
  using that
proof (induction xs arbitrary: q)
  case Nil
  then show ?case by simp
next
  case (Cons x xs)
  have len: "length (push m x q) \<le> m" by (simp add: push_def Let_def)
  have "foldl (\<lambda>q x. push m x q) q (x # xs) = drop (length (push m x q @ xs) - m) (push m x q @ xs)"
    using Cons.IH [OF Cons.prems(1) len] by simp
  also have "\<dots> = drop (length (q @ x # xs) - m) (q @ x # xs)"
  proof (cases "length q < m")
    case True
    then show ?thesis by (simp add: push_def)
  next
    case False
    then have q: "length q = m" using Cons.prems(2) by simp
    then obtain y ys where y: "q = y # ys" using Cons.prems(1) by (cases q) auto
    have m: "m = Suc (length ys)" using q by (simp add: y)
    have "push m x q = ys @ [x]" by (simp add: push_def y m)
    then show ?thesis by (simp add: y m)
  qed
  finally show ?case .
qed

lemma map_of_upsert: "map_of (assoc_upsert d f k m) j = (if j = k then Some (f (case map_of m k of None \<Rightarrow> d | Some v \<Rightarrow> v)) else map_of m j)"
  by (induction m) auto

lemma round_ms_mono: "x \<le> y \<Longrightarrow> round_ms x \<le> round_ms y"
  unfolding round_ms_def by (intro divide_right_mono) (simp_all add: py_round_mono)

lemma percentile_index_mono: "p \<le> q \<Longrightarrow> percentile_index n p \<le> percentile_index n q"
proof -
  assume "p \<le> q"
  then have "of_nat n * p \<le> of_nat n * q" by (intro mult_left_mono) simp_all
  then have "\<lfloor>of_nat n * p\<rfloor> \<le> \<lfloor>of_nat n * q\<rfloor>" by (rule floor_mono)
  then show ?thesis unfolding percentile_index_def by (intro nat_mono) simp
qed

lemma percentile_index_less: "p \<le> 1 \<Longrightarrow> 5 \<le> n \<Longrightarrow> percentile_index n p < n"
proof -
  assume "p \<le> 1" "5 \<le> n"
  then have "of_nat n * p \<le> of_int (int n)" using mult_left_mono [of p 1 "of_nat n :: rat"] by simp
  then have "\<lfloor>of_nat n * p\<rfloor> \<le> int n" by (simp add: floor_le_iff)
  then show ?thesis using \<open>5 \<le> n\<close> unfolding percentile_index_def by (simp add: nat_less_iff)
qed

lemma percentile_mono:
  assumes "p \<le> q" and "q \<le> 1" and "percentile w p = Some x" and "percentile w q = Some y"
  shows "x \<le> y"
proof -
  have n: "5 \<le> length w" using assms(3) by (simp add: percentile_def split: if_splits)
  have "sort w ! percentile_index (length w) p \<le> sort w ! percentile_index (length w) q"
    using percentile_index_mono [OF assms(1)] percentile_index_less [OF assms(2) n]
    by (intro sorted_nth_mono) simp_all
  then show ?thesis using assms(3,4) n by (auto simp: percentile_def round_ms_mono)
qed

section \<open>Properties\<close>

text \<open>What a provider's snapshot shows after any sequence of requests: the total counts them all, the window holds
  the last thousand in order, nothing is shown for fewer than five samples, and otherwise the three
  percentiles are rounded latencies of the window and increase.\<close>

theorem provider_snapshot_correct:
  "let m = foldl (\<lambda>m l. record_request l m) (new_provider n) ls; s = provider_snapshot_of m in
     pm_requests_total (ps_metrics s) = int (length ls) \<and>
     pm_latencies (ps_metrics s) = drop (length ls - 1000) ls \<and> ps_sample_count s = int (min 1000 (length ls)) \<and>
     (if length ls < 5 then ps_p50 s = None \<and> ps_p95 s = None \<and> ps_p99 s = None
      else \<exists>x y z. ps_p50 s = Some (round_ms x) \<and> ps_p95 s = Some (round_ms y) \<and> ps_p99 s = Some (round_ms z) \<and>
        {x, y, z} \<subseteq> set (drop (length ls - 1000) ls) \<and> round_ms x \<le> round_ms y \<and> round_ms y \<le> round_ms z)"
proof -
  have tot: "pm_requests_total (foldl (\<lambda>m l. record_request l m) m ls) = pm_requests_total m + int (length ls)" for m
    by (induction ls arbitrary: m) (simp_all add: record_request_def)
  then have tot0: "pm_requests_total (foldl (\<lambda>m l. record_request l m) (new_provider n) ls) = int (length ls)"
    by (simp add: new_provider_def)
  have win: "pm_latencies (foldl (\<lambda>m l. record_request l m) m ls) = foldl (\<lambda>q x. push 1000 x q) (pm_latencies m) ls" for m
    by (induction ls arbitrary: m) (simp_all add: record_request_def)
  let ?w = "drop (length ls - 1000) ls"
  have w: "pm_latencies (foldl (\<lambda>m l. record_request l m) (new_provider n) ls) = ?w"
    using push_recent [of "[]" 1000 ls] by (simp add: win new_provider_def)
  have len: "length ?w = min 1000 (length ls)" by simp
  have short: "length ?w < 5 \<longleftrightarrow> length ls < 5" unfolding len by auto
  show ?thesis
  proof (cases "length ls < 5")
    case True
    then show ?thesis using short by (simp add: Let_def provider_snapshot_of_def tot0 w percentile_def)
  next
    case False
    then have n: "5 \<le> length ?w" using short by linarith
    let ?x = "\<lambda>p. sort ?w ! percentile_index (length ?w) p"
    have p: "percentile ?w p = Some (round_ms (?x p))" for p using n by (simp add: percentile_def)
    have mem: "?x p \<in> set ?w" if "p \<le> 1" for p
    proof -
      have "?x p \<in> set (sort ?w)" using percentile_index_less [OF that n] by (intro nth_mem) simp
      then show ?thesis by simp
    qed
    have "round_ms (?x (50/100)) \<le> round_ms (?x (95/100))" by (rule percentile_mono [OF _ _ p p]) simp_all
    moreover have "round_ms (?x (95/100)) \<le> round_ms (?x (99/100))" by (rule percentile_mono [OF _ _ p p]) simp_all
    moreover have "{?x (50/100), ?x (95/100), ?x (99/100)} \<subseteq> set ?w" using mem by simp
    ultimately show ?thesis unfolding Let_def provider_snapshot_of_def provider_snapshot.simps w p
      using False len tot0 by (simp only: if_False) blast
  qed
qed

end
