(* ===== verification/Cves.thy ===== *)
theory Cves
  imports Exploitability
begin

text \<open>
  \<open>app/api/routers/cves.py\<close>: the list of CVEs with its filters, orders and pages, the CSV export and the
  detail page. The priority that SQL computes for a row is an expression of its own, beside
  \<open>models/priority.py\<close>. The order of texts is the database's collation, an argument; so is the text of a JSON
  value that is no string.
\<close>

section \<open>SQL\<close>

text \<open>A comparison with NULL is not true; \<open>ROUND\<close> of a NUMERIC rounds ties away from zero.\<close>

definition sql_ge :: "rat option \<Rightarrow> rat \<Rightarrow> bool" where
  "sql_ge x b \<longleftrightarrow> opt_ex (\<lambda>v. b \<le> v) x"

definition sql_round :: "rat \<Rightarrow> int" where
  "sql_round x = (if 0 \<le> x then \<lfloor>x + 1/2\<rfloor> else - \<lfloor>1/2 - x\<rfloor>)"

definition member_sql :: "json \<Rightarrow> string \<Rightarrow> json option" where
  "member_sql v k = (case v of JObj kvs \<Rightarrow> obj_get kvs k | _ \<Rightarrow> None)"

definition element_sql :: "json \<Rightarrow> nat \<Rightarrow> json option" where
  "element_sql v i = (case v of JArr vs \<Rightarrow> if i < length vs then Some (vs ! i) else None | _ \<Rightarrow> None)"

definition text_sql :: "(json \<Rightarrow> string) \<Rightarrow> json \<Rightarrow> string option" where
  "text_sql jtext v = (case v of JNull \<Rightarrow> None | JStr s \<Rightarrow> Some s | _ \<Rightarrow> Some (jtext v))"

text \<open>\<open>raw_payload->'descriptions'->0->>'value'\<close>.\<close>

definition description_of :: "(json \<Rightarrow> string) \<Rightarrow> json \<Rightarrow> string option" where
  "description_of jtext raw = Option.bind (member_sql raw ''descriptions'') (\<lambda>ds.
     Option.bind (element_sql ds 0) (\<lambda>d. Option.bind (member_sql d ''value'') (text_sql jtext)))"

section \<open>The priority of a row\<close>

definition sql_priority :: "int \<Rightarrow> cve_row \<Rightarrow> int" where
  "sql_priority now c = min 100 (max 0
     (sql_round ((case cv_epss_score c of None \<Rightarrow> 0 | Some e \<Rightarrow> e) * 40)
      + (if cv_severity c = Some ''CRITICAL'' \<or> sql_ge (cv_cvss_v3_score c) 9 then 25
         else if cv_severity c = Some ''HIGH'' \<or> sql_ge (cv_cvss_v3_score c) 7 then 18
         else if cv_severity c = Some ''MEDIUM'' \<or> sql_ge (cv_cvss_v3_score c) 4 then 10
         else if cv_severity c = Some ''LOW'' \<or> opt_ex (\<lambda>x. 0 < x) (cv_cvss_v3_score c) \<or> opt_ex (\<lambda>x. 0 < x) (cv_cvss_v2_score c) then 4
         else 0)
      + (if cv_is_kev c then 25 else 0)
      + (if now - 30 * day_us \<le> cv_published_at c then 10
         else if now - 90 * day_us \<le> cv_published_at c then 6
         else if now - 365 * day_us \<le> cv_published_at c then 3 else 0)
      + (if cv_has_nuclei_template c = Some True then 8 else if cv_has_public_poc c = Some True then 5 else 0)))"

section \<open>The list\<close>

record cve_query =
  cq_product_id :: "int option"
  cq_severity :: "string option"
  cq_kev :: "string option"
  cq_min_epss :: "rat option"
  cq_max_epss :: "rat option"
  cq_min_priority :: "int option"
  cq_keyword :: "string option"
  cq_year :: "int option"
  cq_has_poc :: "string option"
  cq_has_nuclei :: "string option"
  cq_since_days :: "int option"
  cq_since_field :: "string option"
  cq_sort :: string
  cq_order :: string
  cq_page :: int
  cq_limit :: int

definition no_query :: cve_query where
  "no_query = \<lparr>cq_product_id = None, cq_severity = None, cq_kev = None, cq_min_epss = None, cq_max_epss = None,
     cq_min_priority = None, cq_keyword = None, cq_year = None, cq_has_poc = None, cq_has_nuclei = None,
     cq_since_days = None, cq_since_field = None, cq_sort = ''priority_score'', cq_order = ''desc'', cq_page = 1, cq_limit = 50\<rparr>"

definition VALID_SORTS :: "string list" where
  "VALID_SORTS = [''priority_score'', ''cvss_v3_score'', ''epss_score'', ''published_at'', ''cve_id'']"

text \<open>A row of the answer: the CVE, its finding for the product asked about, and the priority shown.\<close>

type_synonym list_row = "cve_row \<times> finding_row option"

definition joined_rows :: "int option \<Rightarrow> db \<Rightarrow> list_row list" where
  "joined_rows product d = (case product of
      None \<Rightarrow> map (\<lambda>c. (c, None)) (t_rows (db_cves d))
    | Some pid \<Rightarrow> concat (map (\<lambda>c. map (\<lambda>f. (c, Some f))
        (filter (\<lambda>f. fd_cve_id f = cv_cve_id c \<and> fd_product_id f = pid) (t_rows (db_findings d)))) (t_rows (db_cves d))))"

definition row_priority :: "int \<Rightarrow> list_row \<Rightarrow> rat" where
  "row_priority now r = (case snd r of
      Some f \<Rightarrow> (case fd_priority_score f of Some x \<Rightarrow> x | None \<Rightarrow> of_int (sql_priority now (fst r)))
    | None \<Rightarrow> of_int (sql_priority now (fst r)))"

definition severity_list :: "string \<Rightarrow> string list" where
  "severity_list s = map (\<lambda>p. py_upper (py_strip p)) (py_split CHR '','' s)"

text \<open>A flag filter: \<open>true\<close>, \<open>false\<close>, or nothing.\<close>

definition flag_filter :: "string option \<Rightarrow> bool \<Rightarrow> bool" where
  "flag_filter q b \<longleftrightarrow> (let t = py_lower (str_or_empty q) in (t = ''true'' \<longrightarrow> b) \<and> (t = ''false'' \<longrightarrow> \<not> b))"

definition keyword_filter :: "(json \<Rightarrow> string) \<Rightarrow> string option \<Rightarrow> cve_row \<Rightarrow> bool" where
  "keyword_filter jtext kw c \<longleftrightarrow> (let k = str_or_empty kw; pat = ''%'' @ k @ ''%'' in
     k = [] \<or> ilike (cv_cve_id c) pat \<or> opt_ex (\<lambda>t. ilike t pat) (description_of jtext (cv_raw_payload c)))"

definition year_filter :: "int option \<Rightarrow> cve_row \<Rightarrow> bool" where
  "year_filter y c \<longleftrightarrow> (case y of None \<Rightarrow> True | Some n \<Rightarrow> fst (civil_from_days (cv_published_at c div day_us)) = n)"

definition severity_filter :: "string option \<Rightarrow> cve_row \<Rightarrow> bool" where
  "severity_filter s c \<longleftrightarrow> (let t = str_or_empty s in
     t = [] \<or> opt_ex (\<lambda>v. v \<in> set (severity_list t)) (cv_severity c))"

definition since_filter :: "int \<Rightarrow> int option \<Rightarrow> string option \<Rightarrow> cve_row \<Rightarrow> bool" where
  "since_filter now days fld c \<longleftrightarrow> (case days of
      None \<Rightarrow> True
    | Some n \<Rightarrow> n \<le> 0 \<or>
        opt_ex (\<lambda>t. now - min n 3650 * day_us \<le> t)
          (if fld = Some ''exploitability_updated_at'' then cv_exploitability_updated_at c else Some (cv_published_at c)))"

definition cve_matches :: "(json \<Rightarrow> string) \<Rightarrow> int \<Rightarrow> cve_query \<Rightarrow> list_row \<Rightarrow> bool" where
  "cve_matches jtext now q r \<longleftrightarrow> (let c = fst r in
     severity_filter (cq_severity q) c \<and> flag_filter (cq_kev q) (cv_is_kev c) \<and>
     (case cq_min_epss q of None \<Rightarrow> True | Some x \<Rightarrow> opt_ex (\<lambda>e. x \<le> e) (cv_epss_score c)) \<and>
     (case cq_max_epss q of None \<Rightarrow> True | Some x \<Rightarrow> opt_ex (\<lambda>e. e \<le> x) (cv_epss_score c)) \<and>
     (case cq_min_priority q of None \<Rightarrow> True | Some n \<Rightarrow> of_int n \<le> row_priority now r) \<and>
     year_filter (cq_year q) c \<and>
     flag_filter (cq_has_poc q) (cv_has_public_poc c = Some True) \<and>
     flag_filter (cq_has_nuclei q) (cv_has_nuclei_template c = Some True) \<and>
     since_filter now (cq_since_days q) (cq_since_field q) c \<and>
     keyword_filter jtext (cq_keyword q) c)"

text \<open>\<open>ORDER BY x ASC|DESC NULLS LAST\<close>.\<close>

definition nulls_last :: "('a \<Rightarrow> 'a \<Rightarrow> bool) \<Rightarrow> 'a option \<Rightarrow> 'a option \<Rightarrow> bool" where
  "nulls_last le x y = (case y of None \<Rightarrow> True | Some b \<Rightarrow> (case x of None \<Rightarrow> False | Some a \<Rightarrow> le a b))"

definition directed :: "bool \<Rightarrow> ('a \<Rightarrow> 'a \<Rightarrow> bool) \<Rightarrow> 'a \<Rightarrow> 'a \<Rightarrow> bool" where
  "directed asc le a b = (if asc then le a b else le b a)"

definition row_le :: "(string \<Rightarrow> string \<Rightarrow> bool) \<Rightarrow> int \<Rightarrow> cve_query \<Rightarrow> list_row \<Rightarrow> list_row \<Rightarrow> bool" where
  "row_le collate now q a b =
     (let col = (if cq_sort q \<in> set VALID_SORTS then cq_sort q else ''priority_score''); asc = (py_lower (cq_order q) = ''asc'') in
      if col = ''cvss_v3_score'' then nulls_last (directed asc (\<le>)) (cv_cvss_v3_score (fst a)) (cv_cvss_v3_score (fst b))
      else if col = ''epss_score'' then nulls_last (directed asc (\<le>)) (cv_epss_score (fst a)) (cv_epss_score (fst b))
      else if col = ''published_at'' then directed asc (\<le>) (cv_published_at (fst a)) (cv_published_at (fst b))
      else if col = ''cve_id'' then directed asc collate (cv_cve_id (fst a)) (cv_cve_id (fst b))
      else directed asc (\<le>) (row_priority now a) (row_priority now b))"

record cve_page =
  cp_data :: "(list_row \<times> rat) list"
  cp_total :: int
  cp_page :: int
  cp_limit :: int
  cp_pages :: int

definition page_limit :: "cve_query \<Rightarrow> int" where
  "page_limit q = min 200 (max 1 (cq_limit q))"

definition list_cves :: "(json \<Rightarrow> string) \<Rightarrow> (string \<Rightarrow> string \<Rightarrow> bool) \<Rightarrow> int \<Rightarrow> cve_query \<Rightarrow> db \<Rightarrow> cve_page" where
  "list_cves jtext collate now q d =
     (let page = max 1 (cq_page q); limit = page_limit q; offset = (page - 1) * limit;
          rows = filter (cve_matches jtext now q) (joined_rows (cq_product_id q) d);
          total = int (length (remdups (map (\<lambda>r. cv_cve_id (fst r)) rows)))
      in \<lparr>cp_data = map (\<lambda>r. (r, row_priority now r)) (take (nat limit) (drop (nat offset) (order_by (row_le collate now q) rows))),
          cp_total = total, cp_page = page, cp_limit = limit, cp_pages = (total + limit - 1) div limit\<rparr>)"

section \<open>The detail page\<close>

text \<open>\<open>^CVE-\d{4}-\d+$\<close>: the dollar also matches before a last newline.\<close>

definition is_cve_id :: "string \<Rightarrow> bool" where
  "is_cve_id s \<longleftrightarrow> (let t = py_upper s; r = drop 9 t; n = (if r \<noteq> [] \<and> last r = CHR 0x0A then butlast r else r) in
     take 4 t = ''CVE-'' \<and> length t \<ge> 10 \<and> list_all is_digit (take 4 (drop 4 t)) \<and> t ! 8 = CHR ''-'' \<and> py_isdigit n)"

definition affected_products :: "string \<Rightarrow> db \<Rightarrow> (product_row \<times> finding_row) list" where
  "affected_products i d = concat (map (\<lambda>f. map (\<lambda>p. (p, f)) (filter (\<lambda>p. pr_id p = fd_product_id f) (t_rows (db_products d))))
     (filter (\<lambda>f. fd_cve_id f = i) (t_rows (db_findings d))))"

definition cve_detail :: "(json \<Rightarrow> string) \<Rightarrow> string \<Rightarrow> db \<Rightarrow> (cve_row \<times> string option \<times> (product_row \<times> finding_row) list) result" where
  "cve_detail jtext cve_id d =
     (let i = py_upper cve_id in
      if \<not> is_cve_id i then Inl (HttpException 400 ''Invalid CVE ID format'')
      else case fetchrow (\<lambda>c. cv_cve_id c = i) (t_rows (db_cves d)) of
        None \<Rightarrow> Inl (HttpException 404 (i @ '' not found''))
      | Some c \<Rightarrow> Inr (c, description_of jtext (cv_raw_payload c), affected_products i d))"

section \<open>The export\<close>

text \<open>\<open>f"{x:.nf}"\<close> of a number, and the text of a NUMERIC with one decimal.\<close>

definition py_fixed :: "nat \<Rightarrow> rat \<Rightarrow> string" where
  "py_fixed n x = (let k = py_round (\<bar>x\<bar> * 10 ^ n) in
     (if x < 0 then ''-'' else []) @ py_str_int (k div 10 ^ n) @ ''.'' @ pad_left n (py_str_int (k mod 10 ^ n)))"

definition guard_formula :: "string \<Rightarrow> string" where
  "guard_formula s = (if s \<noteq> [] \<and> hd s \<in> set ''=+-@'' \<union> {CHR 0x09, CHR 0x0D} then CHR 0x27 # s else s)"

definition escape_csv :: "string option \<Rightarrow> string" where
  "escape_csv v = (case v of None \<Rightarrow> [] | Some s0 \<Rightarrow>
     (let s = guard_formula s0; e = py_replace_char CHR 0x22 [CHR 0x22, CHR 0x22] s in
      if CHR '','' \<in> set e \<or> CHR 0x22 \<in> set e \<or> CHR 0x0A \<in> set e then CHR 0x22 # e @ [CHR 0x22] else e))"

definition export_matches :: "(json \<Rightarrow> string) \<Rightarrow> cve_query \<Rightarrow> list_row \<Rightarrow> bool" where
  "export_matches jtext q r \<longleftrightarrow> (let c = fst r in
     severity_filter (cq_severity q) c \<and> (cq_kev q = Some ''true'' \<longrightarrow> cv_is_kev c) \<and>
     (case cq_min_epss q of None \<Rightarrow> True | Some x \<Rightarrow> opt_ex (\<lambda>e. x \<le> e) (cv_epss_score c)) \<and>
     (case (cq_min_priority q, snd r) of (Some n, Some f) \<Rightarrow> opt_ex (\<lambda>x. of_int n \<le> x) (fd_priority_score f) | _ \<Rightarrow> True) \<and>
     year_filter (cq_year q) c \<and> keyword_filter jtext (cq_keyword q) c)"

text \<open>A product id of 0 counts as none; the rows are distinct, in the order of their ids, at most 10,000.\<close>

definition export_rows :: "(json \<Rightarrow> string) \<Rightarrow> (string \<Rightarrow> string \<Rightarrow> bool) \<Rightarrow> cve_query \<Rightarrow> db \<Rightarrow> cve_row list" where
  "export_rows jtext collate q d =
     (let product = (if cq_product_id q = Some 0 then None else cq_product_id q) in
      take 10000 (order_by (\<lambda>a b. collate (cv_cve_id a) (cv_cve_id b))
        (remdups (map fst (filter (export_matches jtext q) (joined_rows product d))))))"

definition CSV_HEADER :: "string list" where
  "CSV_HEADER = [''CVE ID'', ''Severity'', ''CVSS v3'', ''CVSS v2'', ''EPSS %'', ''EPSS Pct'', ''KEV'', ''KEV Date'',
     ''Published'', ''Last Modified'', ''Description'']"

definition percent :: "nat \<Rightarrow> rat option \<Rightarrow> string" where
  "percent n x = (case x of None \<Rightarrow> [] | Some v \<Rightarrow> py_fixed n (v * 100) @ ''%'')"

definition iso_day :: "int \<Rightarrow> string" where
  "iso_day t = date_isoformat (t div day_us)"

definition csv_fields :: "(json \<Rightarrow> string) \<Rightarrow> cve_row \<Rightarrow> string list" where
  "csv_fields jtext c =
     [escape_csv (Some (cv_cve_id c)), escape_csv (cv_severity c), escape_csv (map_option (py_fixed 1) (cv_cvss_v3_score c)),
      escape_csv (map_option (py_fixed 1) (cv_cvss_v2_score c)), percent 4 (cv_epss_score c), percent 2 (cv_epss_percentile c),
      if cv_is_kev c then ''YES'' else ''NO'', escape_csv (map_option date_isoformat (cv_kev_added_date c)),
      escape_csv (Some (iso_day (cv_published_at c))), escape_csv (Some (iso_day (cv_last_modified_at c))),
      escape_csv (description_of jtext (cv_raw_payload c))]"

text \<open>The body without its byte order mark.\<close>

definition export_csv :: "(json \<Rightarrow> string) \<Rightarrow> (string \<Rightarrow> string \<Rightarrow> bool) \<Rightarrow> cve_query \<Rightarrow> db \<Rightarrow> string" where
  "export_csv jtext collate q d =
     py_join [CHR 0x0A] (map (py_join '','') (CSV_HEADER # map (csv_fields jtext) (export_rows jtext collate q d)))"

section \<open>The two priorities\<close>

text \<open>
  When the CVSS band is decided by the same score (the version 3 score, or a version 2 score below 4), the
  scaled EPSS score is no tie between two integers, and the age is not inside the last day of a recency
  band: in these cases SQL and Python agree.
\<close>

definition same_band :: "cve_row \<Rightarrow> bool" where
  "same_band c \<longleftrightarrow> opt_ex (\<lambda>x. 0 < x) (cv_cvss_v3_score c) \<or>
     (\<not> opt_ex (\<lambda>x. x \<noteq> 0) (cv_cvss_v3_score c) \<and> \<not> sql_ge (cv_cvss_v2_score c) 4)"

definition no_tie :: "rat option \<Rightarrow> bool" where
  "no_tie e \<longleftrightarrow> (case e of None \<Rightarrow> True | Some x \<Rightarrow> 0 \<le> x \<and> frac (x * 40) \<noteq> 1/2)"

definition clear_age :: "int \<Rightarrow> bool" where
  "clear_age age \<longleftrightarrow> list_all (\<lambda>n. age \<le> n * day_us \<or> (n + 1) * day_us \<le> age) [30, 90, 365]"

lemma sql_round_py: "0 \<le> x \<Longrightarrow> frac x \<noteq> 1/2 \<Longrightarrow> sql_round x = py_round x"
proof -
  assume x: "0 \<le> x" "frac x \<noteq> 1/2"
  let ?f = "\<lfloor>x\<rfloor>"
  have f: "of_int ?f \<le> x" "x < of_int ?f + 1" by linarith+
  show ?thesis
  proof (cases "x - of_int ?f < 1/2")
    case True
    then have "\<lfloor>x + 1/2\<rfloor> = ?f" using f True by (intro floor_unique) linarith+
    then show ?thesis using x True by (simp add: sql_round_def py_round_def Let_def)
  next
    case False
    then have gt: "x - of_int ?f > 1/2" using x(2) by (simp add: frac_def)
    then have "\<lfloor>x + 1/2\<rfloor> = ?f + 1" using f gt by (intro floor_unique; simp only: of_int_add of_int_1; linarith)
    then show ?thesis using x gt by (simp add: sql_round_def py_round_def Let_def)
  qed
qed

lemma recent_iff:
  assumes "age \<le> n * day_us \<or> (n + 1) * day_us \<le> age"
  shows "age div day_us \<le> n \<longleftrightarrow> age \<le> n * day_us"
proof -
  have d: "0 < day_us" by (simp add: day_us_def)
  have e: "age = age div day_us * day_us + age mod day_us" "0 \<le> age mod day_us" "age mod day_us < day_us"
    using d by simp_all
  have up: "age div day_us * day_us \<le> n * day_us" if "age div day_us \<le> n" using that d by simp
  have down: "(n + 1) * day_us \<le> age div day_us * day_us" if "\<not> age div day_us \<le> n" using that d by simp
  have n1: "(n + 1) * day_us = n * day_us + day_us" by (simp add: algebra_simps)
  show ?thesis
  proof (cases "age div day_us \<le> n")
    case True
    then have "age < (n + 1) * day_us" using e up unfolding n1 by linarith
    then show ?thesis using True assms by linarith
  next
    case False
    then have "(n + 1) * day_us \<le> age" using e down by linarith
    then show ?thesis using False d unfolding n1 by linarith
  qed
qed

lemma upper_severity_same:
  "cve_check c \<Longrightarrow> py_upper (str_or_empty (cv_severity c)) = str_or_empty (cv_severity c)"
  by (auto simp: cve_check_def str_or_empty_def split: option.splits) code_simp+

text \<open>C25: The priority that the list, the triage panels and their filters compute in SQL is the score of the Python
  engine for the same row, whenever the CVSS band is decided by the version 3 score (or by a version 2 score
  below 4), the scaled EPSS score is not half way between two integers, and the age of the CVE is not inside
  the last day of a recency band.\<close>

theorem sql_priority_agrees:
  assumes "cve_check c" and "same_band c" and "no_tie (cv_epss_score c)" and "clear_age (now - cv_published_at c)"
  shows "sql_priority now c = compute_priority_score (utc now) (recompute_signals c)"
proof -
  let ?sg = "recompute_signals c"
  let ?age = "now - cv_published_at c"
  have age: "days_between (utc now) (assume_utc (utc (cv_published_at c))) = ?age div day_us"
    by (simp add: days_between_def instant_utc)
  have ages: "?age div day_us \<le> 30 \<longleftrightarrow> now - 30 * day_us \<le> cv_published_at c"
    "?age div day_us \<le> 90 \<longleftrightarrow> now - 90 * day_us \<le> cv_published_at c"
    "?age div day_us \<le> 365 \<longleftrightarrow> now - 365 * day_us \<le> cv_published_at c"
    using recent_iff [of ?age 30] recent_iff [of ?age 90] recent_iff [of ?age 365] assms(4)
    by (auto simp: clear_age_def)
  have epss: "sql_round ((case cv_epss_score c of None \<Rightarrow> 0 | Some e \<Rightarrow> e) * 40) =
      py_round (float_or_zero (cv_epss_score c) * of_int EPSS_WEIGHT_MAX)"
  proof (cases "cv_epss_score c")
    case None
    then show ?thesis using sql_round_py [of 0] by (simp add: float_or_zero_def)
  next
    case (Some x)
    then show ?thesis using assms(3) by (simp add: no_tie_def float_or_zero_def EPSS_WEIGHT_MAX_def sql_round_py)
  qed
  let ?sev = "py_upper (str_or_empty (severity ?sg))" and ?cvss = "float_or_zero (cvss_score ?sg)"
  have "?sev = str_or_empty (cv_severity c)" using upper_severity_same [OF assms(1)] by (simp add: recompute_signals_def)
  then have sev: "?sev = x # s \<longleftrightarrow> cv_severity c = Some (x # s)" for x s
    by (cases "cv_severity c") (simp_all add: str_or_empty_def)
  have band: "k \<le> ?cvss \<longleftrightarrow> sql_ge (cv_cvss_v3_score c) k" if "4 \<le> k" for k
    using assms(2) that
    by (cases "cv_cvss_v3_score c"; cases "cv_cvss_v2_score c")
      (auto simp: recompute_signals_def same_band_def sql_ge_def float_or_zero_def split: if_splits)
  have low: "0 < ?cvss \<longleftrightarrow> opt_ex (\<lambda>x. 0 < x) (cv_cvss_v3_score c) \<or> opt_ex (\<lambda>x. 0 < x) (cv_cvss_v2_score c)"
    using assms(2)
    by (cases "cv_cvss_v3_score c"; cases "cv_cvss_v2_score c")
      (auto simp: recompute_signals_def same_band_def sql_ge_def float_or_zero_def split: if_splits)
  have points: "cvss_points ?sev ?cvss =
      (if cv_severity c = Some ''CRITICAL'' \<or> sql_ge (cv_cvss_v3_score c) 9 then 25
       else if cv_severity c = Some ''HIGH'' \<or> sql_ge (cv_cvss_v3_score c) 7 then 18
       else if cv_severity c = Some ''MEDIUM'' \<or> sql_ge (cv_cvss_v3_score c) 4 then 10
       else if cv_severity c = Some ''LOW'' \<or> opt_ex (\<lambda>x. 0 < x) (cv_cvss_v3_score c) \<or> opt_ex (\<lambda>x. 0 < x) (cv_cvss_v2_score c) then 4
       else 0)"
    unfolding cvss_points_def sev low using band [of 9] band [of 7] band [of 4] by (simp only: order.refl numeral_le_iff) simp
  have "factor_sum (compute_priority_factors (utc now) ?sg) =
      py_round (float_or_zero (cv_epss_score c) * of_int EPSS_WEIGHT_MAX) + cvss_points ?sev ?cvss + (if cv_is_kev c then 25 else 0) +
      recency_points (?age div day_us) +
      (if cv_has_nuclei_template c = Some True then 8 else if cv_has_public_poc c = Some True then 5 else 0)"
    unfolding factors_points factor_sum_def factors.simps age [symmetric]
    by (simp add: recompute_signals_def EPSS_WEIGHT_MAX_def)
  then show ?thesis
    unfolding score_factors sql_priority_def epss by (simp only: points recency_points_def ages)
qed

section \<open>Pages\<close>

text \<open>The pages of a list, put together again.\<close>

lemma concat_pages: "concat (map (\<lambda>p. take L (drop (p * L) xs)) [0..<n]) = take (n * L) xs"
proof (induction n)
  case 0
  then show ?case by simp
next
  case (Suc n)
  have "take (n * L) xs @ take L (drop (n * L) xs) = take (n * L + L) xs" by (simp add: take_add)
  then show ?case using Suc by (simp add: add.commute)
qed

text \<open>Ceiling division, as the routers count their pages, and the offsets of these pages.\<close>

lemma pages_cover:
  assumes "0 < limit"
  shows "length xs \<le> nat ((int (length xs) + limit - 1) div limit) * nat limit"
proof -
  let ?t = "int (length xs)"
  have "?t + limit - 1 = limit * ((?t + limit - 1) div limit) + (?t + limit - 1) mod limit" by simp
  moreover have "(?t + limit - 1) mod limit < limit" using assms by simp
  ultimately have "?t \<le> limit * ((?t + limit - 1) div limit)" by linarith
  moreover have "0 \<le> (?t + limit - 1) div limit" using assms by (simp add: pos_imp_zdiv_nonneg_iff)
  ultimately have "?t \<le> int (nat ((?t + limit - 1) div limit) * nat limit)"
    using assms by (simp add: mult.commute)
  then show ?thesis by linarith
qed

lemma pages_complete:
  assumes "0 < limit"
  shows "concat (map (\<lambda>p. take (nat limit) (drop (nat (int p * limit)) xs)) [0..<nat ((int (length xs) + limit - 1) div limit)]) = xs"
proof -
  have "nat (int p * limit) = p * nat limit" for p using assms by (simp add: nat_mult_distrib)
  then show ?thesis using pages_cover [OF assms, of xs] by (simp only: concat_pages) simp
qed

lemma joined_ids_distinct:
  assumes "distinct (map cv_cve_id (t_rows (db_cves d)))"
    and "distinct (map (\<lambda>f. (fd_product_id f, fd_cve_id f)) (t_rows (db_findings d)))"
  shows "distinct (map (\<lambda>r. cv_cve_id (fst r)) (joined_rows product d))"
proof (cases product)
  case None
  then show ?thesis using assms(1) by (simp add: joined_rows_def comp_def)
next
  case (Some pid)
  let ?fs = "\<lambda>c. filter (\<lambda>f. fd_cve_id f = cv_cve_id c \<and> fd_product_id f = pid) (t_rows (db_findings d))"
  have one: "length (?fs c) \<le> 1" for c
  proof -
    have "distinct (map (\<lambda>f. (fd_product_id f, fd_cve_id f)) (?fs c))" using assms(2) by (rule distinct_map_filter)
    moreover have "map (\<lambda>f. (fd_product_id f, fd_cve_id f)) (?fs c) = map (\<lambda>_. (pid, cv_cve_id c)) (?fs c)" by simp
    ultimately have "distinct (replicate (length (?fs c)) (pid, cv_cve_id c))" by (simp add: map_replicate_const)
    then show ?thesis by (cases "length (?fs c)" rule: nat.exhaust; cases "length (?fs c) - 1") simp_all
  qed
  have "distinct (map (\<lambda>r. cv_cve_id (fst r)) (concat (map (\<lambda>c. map (\<lambda>f. (c, Some f)) (?fs c)) cs)))"
    if "distinct (map cv_cve_id cs)" for cs
    using that
  proof (induction cs)
    case Nil
    then show ?case by simp
  next
    case (Cons c cs)
    have "distinct (map (\<lambda>r. cv_cve_id (fst r)) (map (\<lambda>f. (c, Some f)) (?fs c)))"
      using one [of c] by (cases "?fs c") (auto simp: length_Suc_conv le_Suc_eq)
    then show ?case using Cons by (auto simp: image_iff)
  qed
  then show ?thesis using assms(1) Some by (simp add: joined_rows_def)
qed


section \<open>Reading the export back\<close>

text \<open>A reader of comma separated values: a cell that opens with a quote ends at the quote that is not doubled.\<close>

fun quoted_part :: "string \<Rightarrow> string \<times> string" where
  "quoted_part [] = ([], [])"
| "quoted_part [c] = (if c = CHR 0x22 then ([], []) else ([c], []))"
| "quoted_part (c # x # s) =
     (if c \<noteq> CHR 0x22 then (case quoted_part (x # s) of (a, r) \<Rightarrow> (c # a, r))
      else if x = CHR 0x22 then (case quoted_part s of (a, r) \<Rightarrow> (CHR 0x22 # a, r))
      else ([], x # s))"

definition separator :: "char \<Rightarrow> bool" where
  "separator c \<longleftrightarrow> c = CHR '','' \<or> c = CHR 0x0A"

definition read_cell :: "string \<Rightarrow> string \<times> string" where
  "read_cell s = (if s \<noteq> [] \<and> hd s = CHR 0x22 then quoted_part (tl s)
     else (takeWhile (\<lambda>c. \<not> separator c) s, dropWhile (\<lambda>c. \<not> separator c) s))"

lemma quoted_part_shorter: "length (snd (quoted_part s)) \<le> length s"
  by (induction s rule: quoted_part.induct) (auto split: prod.splits)

lemma read_cell_shorter: "length (snd (read_cell s)) \<le> length s"
  using quoted_part_shorter [of "tl s"] by (auto simp: read_cell_def length_dropWhile_le)

text \<open>A row is its cells and what follows its newline, if there is one.\<close>

function read_row :: "string \<Rightarrow> string list \<times> string option" where
  "read_row s = (case read_cell s of (a, r) \<Rightarrow>
     (case r of [] \<Rightarrow> ([a], None)
      | c # r' \<Rightarrow> if c = CHR '','' then (case read_row r' of (as, x) \<Rightarrow> (a # as, x)) else ([a], Some r')))"
  by pat_completeness auto
termination
proof (relation "measure length", simp)
  fix s a r c r' assume "(a, r) = read_cell s" and "r = c # r'"
  then have "length (c # r') \<le> length s" using read_cell_shorter [of s] by (metis snd_conv)
  then show "(r', s) \<in> measure length" by simp
qed

declare read_row.simps [simp del]

lemma read_row_shorter: "read_row s = (row, Some r) \<Longrightarrow> length r < length s"
proof (induction s arbitrary: row r rule: read_row.induct)
  case (1 s)
  obtain a t where c: "read_cell s = (a, t)" by (cases "read_cell s")
  then have le: "length t \<le> length s" using read_cell_shorter [of s] by simp
  show ?case
  proof (cases t)
    case Nil
    then show ?thesis using 1(2) c by (subst (asm) read_row.simps) simp
  next
    case (Cons x t')
    show ?thesis
    proof (cases "x = CHR '',''")
      case True
      obtain as y where r: "read_row t' = (as, y)" by (cases "read_row t'")
      then have "y = Some r" using 1(2) c Cons True by (subst (asm) read_row.simps) simp
      then have "length r < length t'" using 1(1) [OF c [symmetric] Cons True] r by blast
      then show ?thesis using le Cons by simp
    next
      case False
      then have "t' = r" using 1(2) c Cons by (subst (asm) read_row.simps) simp
      then show ?thesis using Cons le by simp
    qed
  qed
qed

function read_csv :: "string \<Rightarrow> string list list" where
  "read_csv s = (case read_row s of (row, None) \<Rightarrow> [row] | (row, Some r) \<Rightarrow> row # read_csv r)"
  by pat_completeness auto
termination
proof (relation "measure length", simp)
  fix s row y r assume "(row, y) = read_row s" and "y = Some r"
  then show "(r, s) \<in> measure length" using read_row_shorter [of s row r] by simp
qed

declare read_csv.simps [simp del]

text \<open>\<open>encodes p v\<close>: the text \<open>p\<close>, followed by a separator or the end, is read as the cell \<open>v\<close>.\<close>

definition at_end :: "string \<Rightarrow> bool" where
  "at_end r \<longleftrightarrow> (case r of [] \<Rightarrow> True | c # _ \<Rightarrow> separator c)"

definition encodes :: "string \<Rightarrow> string \<Rightarrow> bool" where
  "encodes p v \<longleftrightarrow> (\<forall>r. at_end r \<longrightarrow> read_cell (p @ r) = (v, r))"

lemma quoted_part_escaped:
  "(case r of [] \<Rightarrow> True | c # _ \<Rightarrow> c \<noteq> CHR 0x22) \<Longrightarrow>
   quoted_part (py_replace_char CHR 0x22 [CHR 0x22, CHR 0x22] s @ CHR 0x22 # r) = (s, r)"
proof (induction s)
  case Nil
  then show ?case by (cases r) (simp_all add: py_replace_char_def)
next
  case (Cons c s)
  let ?t = "py_replace_char CHR 0x22 [CHR 0x22, CHR 0x22] s @ CHR 0x22 # r"
  obtain x t where t: "?t = x # t" by (cases ?t) simp_all
  have ih: "quoted_part (x # t) = (s, r)" using Cons unfolding t by simp
  show ?case
  proof (cases "c = CHR 0x22")
    case True
    then have "py_replace_char CHR 0x22 [CHR 0x22, CHR 0x22] (c # s) @ CHR 0x22 # r = CHR 0x22 # CHR 0x22 # x # t"
      using t by (simp add: py_replace_char_def)
    then show ?thesis using ih True by simp
  next
    case False
    then have "py_replace_char CHR 0x22 [CHR 0x22, CHR 0x22] (c # s) @ CHR 0x22 # r = c # x # t"
      using t by (simp add: py_replace_char_def)
    then show ?thesis using ih False by simp
  qed
qed

lemma replace_absent: "c \<notin> set s \<Longrightarrow> py_replace_char c r s = s"
  by (induction s) (auto simp: py_replace_char_def)

lemma set_replace: "c \<in> set s \<Longrightarrow> c \<in> set (py_replace_char c [c, c] s)"
  by (induction s) (auto simp: py_replace_char_def)

lemma plain_encodes:
  assumes "list_all (\<lambda>c. \<not> separator c \<and> c \<noteq> CHR 0x22) p"
  shows "encodes p p"
  unfolding encodes_def
proof (intro allI impI)
  fix r assume r: "at_end r"
  have "takeWhile (\<lambda>c. \<not> separator c) r = []" "dropWhile (\<lambda>c. \<not> separator c) r = r"
    using r by (cases r; simp add: at_end_def)+
  then have "takeWhile (\<lambda>c. \<not> separator c) (p @ r) = p" "dropWhile (\<lambda>c. \<not> separator c) (p @ r) = r"
    using assms by (simp_all add: list_all_iff takeWhile_append2 dropWhile_append2)
  moreover have "(p @ r \<noteq> [] \<and> hd (p @ r) = CHR 0x22) = False"
    using assms r by (cases p; cases r) (auto simp: at_end_def separator_def)
  ultimately show "read_cell (p @ r) = (p, r)" unfolding read_cell_def by (simp only: if_False)
qed

definition guarded :: "string option \<Rightarrow> string" where
  "guarded v = (case v of None \<Rightarrow> [] | Some s \<Rightarrow> guard_formula s)"

lemma escape_encodes: "encodes (escape_csv v) (guarded v)"
proof (cases v)
  case None
  then show ?thesis using plain_encodes [of "[]"] by (simp add: escape_csv_def guarded_def)
next
  case (Some s0)
  let ?s = "guard_formula s0"
  let ?e = "py_replace_char CHR 0x22 [CHR 0x22, CHR 0x22] ?s"
  show ?thesis
  proof (cases "CHR '','' \<in> set ?e \<or> CHR 0x22 \<in> set ?e \<or> CHR 0x0A \<in> set ?e")
    case True
    have "read_cell (CHR 0x22 # ?e @ CHR 0x22 # r) = (?s, r)" if "at_end r" for r
      using quoted_part_escaped [of r ?s] that
      by (cases r) (auto simp: read_cell_def at_end_def separator_def)
    then show ?thesis using True Some by (simp add: encodes_def escape_csv_def guarded_def Let_def)
  next
    case False
    then have "CHR 0x22 \<notin> set ?s" using set_replace by blast
    then have e: "?e = ?s" by (rule replace_absent)
    then have "list_all (\<lambda>c. \<not> separator c \<and> c \<noteq> CHR 0x22) ?s"
      using False by (auto simp: list_all_iff separator_def)
    from plain_encodes [OF this] show ?thesis using False e Some
      by (simp add: escape_csv_def guarded_def Let_def)
  qed
qed

lemma read_row_joined:
  assumes "list_all2 encodes ps vs" and "ps \<noteq> []" and "r = [] \<or> (\<exists>r'. r = CHR 0x0A # r')"
  shows "read_row (py_join '','' ps @ r) = (vs, case r of [] \<Rightarrow> None | _ # r' \<Rightarrow> Some r')"
  using assms(1,2)
proof (induction ps arbitrary: vs rule: induct_list012)
  case 1
  then show ?case by simp
next
  case (2 p)
  then obtain v where v: "vs = [v]" "encodes p v" by (auto simp: list_all2_Cons1)
  have "at_end r" using assms(3) by (auto simp: at_end_def separator_def)
  then have "read_cell (p @ r) = (v, r)" using v(2) by (simp add: encodes_def)
  then show ?case using assms(3) v(1) by (subst read_row.simps) auto
next
  case (3 p p' ps)
  then obtain v vs' where v: "vs = v # vs'" "encodes p v" "list_all2 encodes (p' # ps) vs'" by (auto simp: list_all2_Cons1)
  let ?t = "py_join '','' (p' # ps) @ r"
  have "at_end (CHR '','' # ?t)" by (simp add: at_end_def separator_def)
  then have "read_cell (p @ CHR '','' # ?t) = (v, CHR '','' # ?t)" using v(2) by (simp add: encodes_def)
  moreover have "read_row ?t = (vs', case r of [] \<Rightarrow> None | _ # r' \<Rightarrow> Some r')" using 3(2) v(3) by simp
  ultimately have "read_row (p @ CHR '','' # ?t) = (v # vs', case r of [] \<Rightarrow> None | _ # r' \<Rightarrow> Some r')"
    by (subst read_row.simps) simp
  then show ?case using v(1) by simp
qed

lemma read_csv_joined:
  assumes "list_all2 (list_all2 encodes) pss vss" and "pss \<noteq> []" and "list_all (\<lambda>ps. ps \<noteq> []) pss"
  shows "read_csv (py_join [CHR 0x0A] (map (py_join '','') pss)) = vss"
  using assms
proof (induction pss arbitrary: vss rule: induct_list012)
  case 1
  then show ?case by simp
next
  case (2 ps)
  then obtain vs where v: "vss = [vs]" "list_all2 encodes ps vs" by (auto simp: list_all2_Cons1)
  have "read_row (py_join '','' ps) = (vs, None)" using read_row_joined [OF v(2), of "[]"] 2(3) by simp
  then have "read_csv (py_join '','' ps) = [vs]" by (subst read_csv.simps) simp
  then show ?case using v(1) by simp
next
  case (3 ps qs pss)
  then obtain vs vss' where v: "vss = vs # vss'" "list_all2 encodes ps vs" "list_all2 (list_all2 encodes) (qs # pss) vss'"
    by (auto simp: list_all2_Cons1)
  let ?t = "py_join [CHR 0x0A] (map (py_join '','') (qs # pss))"
  have "read_row (py_join '','' ps @ CHR 0x0A # ?t) = (vs, Some ?t)"
    using read_row_joined [OF v(2), of "CHR 0x0A # ?t"] 3(5) by simp
  moreover have "read_csv ?t = vss'" using 3(2) v(3) 3(5) by simp
  ultimately have "read_csv (py_join '','' ps @ CHR 0x0A # ?t) = vs # vss'" by (subst read_csv.simps) simp
  then show ?case using v(1) by simp
qed

lemma list_all2_same: "list_all (\<lambda>p. encodes p p) ps \<Longrightarrow> list_all2 encodes ps ps"
  by (induction ps) simp_all

text \<open>The cells that the export means, and those a spreadsheet does not take for a formula.\<close>

definition csv_values :: "(json \<Rightarrow> string) \<Rightarrow> cve_row \<Rightarrow> string list" where
  "csv_values jtext c =
     [guarded (Some (cv_cve_id c)), guarded (cv_severity c), guarded (map_option (py_fixed 1) (cv_cvss_v3_score c)),
      guarded (map_option (py_fixed 1) (cv_cvss_v2_score c)), percent 4 (cv_epss_score c), percent 2 (cv_epss_percentile c),
      if cv_is_kev c then ''YES'' else ''NO'', guarded (map_option date_isoformat (cv_kev_added_date c)),
      guarded (Some (iso_day (cv_published_at c))), guarded (Some (iso_day (cv_last_modified_at c))),
      guarded (description_of jtext (cv_raw_payload c))]"

definition safe_cell :: "string \<Rightarrow> bool" where
  "safe_cell s \<longleftrightarrow> s = [] \<or> hd s \<notin> set ''=+-@'' \<union> {CHR 0x09, CHR 0x0D}"

definition scores_nonneg :: "cve_row \<Rightarrow> bool" where
  "scores_nonneg c \<longleftrightarrow> \<not> opt_ex (\<lambda>x. x < 0) (cv_epss_score c) \<and> \<not> opt_ex (\<lambda>x. x < 0) (cv_epss_percentile c)"

lemma safe_guarded: "safe_cell (guarded v)"
  by (auto simp: safe_cell_def guarded_def guard_formula_def split: option.split)

lemma digit_plain: "is_digit c \<Longrightarrow> \<not> separator c \<and> c \<noteq> CHR 0x22"
  by (auto simp: is_digit_def separator_def)

lemma digit_safe: "is_digit c \<Longrightarrow> safe_cell (c # s)"
  by (auto simp: is_digit_def safe_cell_def)

lemma str_int_digits: "0 \<le> n \<Longrightarrow> list_all is_digit (py_str_int n) \<and> py_str_int n \<noteq> []"
  using str_nat_digits [of "nat n"] by (simp add: py_str_int_def)

lemma pad_digits: "list_all is_digit s \<Longrightarrow> list_all is_digit (pad_left n s)"
  by (auto simp: pad_left_def list_all_iff is_digit_def)

lemma percent_cell:
  assumes "\<not> opt_ex (\<lambda>x. x < 0) v"
  shows "encodes (percent n v) (percent n v) \<and> safe_cell (percent n v)"
proof (cases v)
  case None
  then show ?thesis using plain_encodes [of "[]"] by (simp add: percent_def safe_cell_def)
next
  case (Some x)
  let ?k = "py_round (\<bar>x * 100\<bar> * 10 ^ n)"
  have k: "0 \<le> ?k" by (rule py_round_nonneg) simp
  let ?a = "py_str_int (?k div 10 ^ n)" and ?b = "pad_left n (py_str_int (?k mod 10 ^ n))"
  have a: "list_all is_digit ?a \<and> ?a \<noteq> []" by (rule str_int_digits) (use k in \<open>simp add: pos_imp_zdiv_nonneg_iff\<close>)
  have "list_all is_digit (py_str_int (?k mod 10 ^ n))" using str_int_digits [of "?k mod 10 ^ n"] by simp
  then have b: "list_all is_digit ?b" by (rule pad_digits)
  have shown: "percent n v = ?a @ ''.'' @ ?b @ ''%''"
    using Some assms by (simp add: percent_def py_fixed_def Let_def mult_less_0_iff)
  have "list_all (\<lambda>c. \<not> separator c \<and> c \<noteq> CHR 0x22) (percent n v)"
    unfolding shown using a b digit_plain by (auto simp: list_all_iff separator_def)
  moreover have "safe_cell (percent n v)"
    unfolding shown using a digit_safe by (cases ?a) auto
  ultimately show ?thesis using plain_encodes by blast
qed

lemma fields_encode: "scores_nonneg c \<Longrightarrow> list_all2 encodes (csv_fields jtext c) (csv_values jtext c)"
  using percent_cell [of "cv_epss_score c" 4] percent_cell [of "cv_epss_percentile c" 2]
    plain_encodes [of "''YES''"] plain_encodes [of "''NO''"]
  by (auto simp: csv_fields_def csv_values_def scores_nonneg_def escape_encodes separator_def)

lemma values_safe: "scores_nonneg c \<Longrightarrow> list_all safe_cell (csv_values jtext c)"
  using percent_cell [of "cv_epss_score c" 4] percent_cell [of "cv_epss_percentile c" 2]
  by (auto simp: csv_values_def scores_nonneg_def safe_guarded) (simp_all add: safe_cell_def)

lemma header_encodes: "list_all2 encodes CSV_HEADER CSV_HEADER" "list_all safe_cell CSV_HEADER"
proof -
  have "list_all (\<lambda>p. list_all (\<lambda>c. \<not> separator c \<and> c \<noteq> CHR 0x22) p) CSV_HEADER" by code_simp
  then have "list_all (\<lambda>p. encodes p p) CSV_HEADER" using plain_encodes by (auto simp: list_all_iff)
  then show "list_all2 encodes CSV_HEADER CSV_HEADER" by (rule list_all2_same)
qed code_simp

lemma export_rows_mem: "c \<in> set (export_rows jtext collate q d) \<Longrightarrow> c \<in> set (t_rows (db_cves d))"
  by (auto simp: export_rows_def Let_def joined_rows_def dest!: in_set_takeD split: option.splits if_splits)


section \<open>Witnesses\<close>

definition aged_row :: "rat option \<Rightarrow> string option \<Rightarrow> rat option \<Rightarrow> rat option \<Rightarrow> cve_row" where
  "aged_row epss sev v3 v2 = (new_cve 0 (sample_values ''CVE-2021-44228'' 0) 1)\<lparr>cv_epss_score := epss, cv_severity := sev,
     cv_cvss_v3_score := v3, cv_cvss_v2_score := v2\<rparr>"

text \<open>The three ways in which the priority of a list differs from the one stored for a finding: a version 2 score
  that decides the band, a tie in the scaled EPSS score, and the hours of the last day of a band.\<close>

lemma sql_priority_diverges:
  "sql_priority 0 (aged_row None (Some ''HIGH'') None (Some 9)) = 28 \<and>
   compute_priority_score (utc 0) (recompute_signals (aged_row None (Some ''HIGH'') None (Some 9))) = 35 \<and>
   sql_priority 0 (aged_row (Some (1 / 80)) None None None) = 11 \<and>
   compute_priority_score (utc 0) (recompute_signals (aged_row (Some (1 / 80)) None None None)) = 10 \<and>
   sql_priority (30 * day_us + 1) (aged_row None None None None) = 6 \<and>
   compute_priority_score (utc (30 * day_us + 1)) (recompute_signals (aged_row None None None None)) = 10"
  by (intro conjI; code_simp)

theorem sql_priority_agrees_witness:
  "sql_priority 0 (aged_row (Some (9 / 10)) (Some ''CRITICAL'') (Some 10) (Some 9)) = 71 \<and>
   compute_priority_score (utc 0) (recompute_signals (aged_row (Some (9 / 10)) (Some ''CRITICAL'') (Some 10) (Some 9))) = 71"
proof -
  let ?c = "aged_row (Some (9 / 10)) (Some ''CRITICAL'') (Some 10) (Some 9)"
  have "cve_check ?c" "same_band ?c" "no_tie (cv_epss_score ?c)" "clear_age (0 - cv_published_at ?c)" by code_simp+
  from sql_priority_agrees [OF this] have "sql_priority 0 ?c = compute_priority_score (utc 0) (recompute_signals ?c)" .
  moreover have "sql_priority 0 ?c = 71" by code_simp
  ultimately show ?thesis by simp
qed

definition small_db :: db where
  "small_db = (empty_db 0)\<lparr>db_cves := \<lparr>t_rows = [aged_row (Some (9 / 10)) (Some ''CRITICAL'') (Some 10) (Some 9)], t_serial = 1\<rparr>\<rparr>"



end
