(* ===== verification/Circl.thy ===== *)
theory Circl
  imports Opencve Cves Product_Sync
begin

text \<open>
  CIRCL Vulnerability-Lookup, twice: \<open>app/query/circl_client.py\<close>, the fallback of the query engine, and
  \<open>app/api/routers/circl_router.py\<close>, the live search. Both keep their answers in Redis, under the same kind
  of key. The service, \<open>json.loads\<close> and \<open>json.dumps\<close> are arguments; waiting for the rate governor is left out.
\<close>

section \<open>Shared rules\<close>

definition severity_from_cvss :: "rat option \<Rightarrow> string option" where
  "severity_from_cvss score = (case score of None \<Rightarrow> None
     | Some x \<Rightarrow> Some (if x \<ge> 9 then ''CRITICAL'' else if x \<ge> 7 then ''HIGH'' else if x \<ge> 4 then ''MEDIUM'' else ''LOW''))"

text \<open>\<open>float(cvss) if cvss is not None else None\<close>, with \<open>None\<close> also for what is no number.\<close>

definition float_or_none :: "json option \<Rightarrow> rat option" where
  "float_or_none v = (case v of None \<Rightarrow> None | Some JNull \<Rightarrow> None
     | Some w \<Rightarrow> (case to_float w of Inl _ \<Rightarrow> None | Inr x \<Rightarrow> Some x))"

definition circl_key :: "string \<Rightarrow> string \<Rightarrow> string" where
  "circl_key vendor product = ''circl:'' @ vendor @ '':'' @ product"

definition CIRCL_PAGE_SIZE :: nat where "CIRCL_PAGE_SIZE = 10"
definition CIRCL_MAX_PAGES :: nat where "CIRCL_MAX_PAGES = 10"
definition CIRCL_TTL :: int where "CIRCL_TTL = 3600"

type_synonym circl_service = "string \<Rightarrow> string \<Rightarrow> nat \<Rightarrow> response result"

section \<open>The client\<close>

text \<open>\<open>_paginate\<close>: a failing connection, 404 and 429 end it quietly, other errors raise.\<close>

primrec paginate :: "nat \<Rightarrow> (nat \<Rightarrow> response result) \<Rightarrow> nat \<Rightarrow> json list result" where
  "paginate 0 srv page = Inr []"
| "paginate (Suc n) srv page = (case srv page of
      Inl (HttpError _) \<Rightarrow> Inr []
    | Inl e \<Rightarrow> Inl e
    | Inr resp \<Rightarrow>
        if r_status resp \<in> {404, 429} then Inr []
        else if \<not> (200 \<le> r_status resp \<and> r_status resp < 300) then Inl (HttpError ''HTTPStatusError'')
        else (case r_body resp of
            None \<Rightarrow> Inl (ValueError ''JSONDecodeError'')
          | Some (JArr b) \<Rightarrow>
              if b = [] then Inr []
              else if length b < CIRCL_PAGE_SIZE then Inr b
              else bind_r (paginate n srv (page + 1)) (\<lambda>rest. Inr (b @ rest))
          | Some _ \<Rightarrow> Inr []))"

definition parse_circl :: "int \<Rightarrow> json \<Rightarrow> cve_values option result" where
  "parse_circl now v = bind_r (as_dict v) (\<lambda>kvs.
     if \<not> opt_ex json_truthy (obj_get kvs ''id'') then Inr None
     else (case the (obj_get kvs ''id'') of
         JStr i \<Rightarrow>
           if \<not> py_startswith i ''CVE-'' then Inr None
           else let score = float_or_none (or_json (obj_get kvs ''cvss'') (obj_get kvs ''cvss3'')) in
             bind_r (opencve_dt now (obj_get kvs ''Published'')) (\<lambda>published.
             bind_r (opencve_dt now (or_json (obj_get kvs ''Modified'') (obj_get kvs ''Published''))) (\<lambda>modified.
               Inr (Some \<lparr>cvv_cve_id = i, cvv_source = ''circl'', cvv_raw_payload = v, cvv_cvss_v3_score = None,
                 cvv_cvss_v3_vector = None, cvv_cvss_v2_score = score, cvv_severity = severity_from_cvss score,
                 cvv_published_at = published, cvv_last_modified_at = modified\<rparr>)))
       | _ \<Rightarrow> Inl AttributeError))"

text \<open>A finding for a CVE that only the fallback knows; an existing finding stays as it is.\<close>

definition stub_finding :: "int \<Rightarrow> int \<Rightarrow> string \<Rightarrow> int \<Rightarrow> finding_row" where
  "stub_finding now pid cve n = \<lparr>fd_id = n, fd_product_id = pid, fd_cve_id = cve, fd_status = ''open'',
     fd_match_confidence = Some ''uncertain'', fd_match_reason = Some ''circl_fallback'', fd_priority_score = None,
     fd_assigned_to = None, fd_due_date = None, fd_notes = None, fd_created_at = now, fd_updated_at = now\<rparr>"

definition insert_stub :: "int \<Rightarrow> int \<Rightarrow> db \<Rightarrow> string \<Rightarrow> db result" where
  "insert_stub now pid d cve =
     (if list_ex (\<lambda>f. fd_product_id f = pid \<and> fd_cve_id f = cve) (t_rows (db_findings d)) then Inr d
      else if product_by_id d pid = None \<or> cve_by_id d cve = None then Inl ForeignKeyViolation
      else Inr (d\<lparr>db_findings := fst (insert_row (stub_finding now pid cve) (db_findings d))\<rparr>))"

text \<open>\<open>executemany\<close>: all rows or none.\<close>

fun insert_stubs :: "int \<Rightarrow> int \<Rightarrow> string list \<Rightarrow> db \<Rightarrow> db result" where
  "insert_stubs now pid [] d = Inr d"
| "insert_stubs now pid (i # is) d = bind_r (insert_stub now pid d i) (insert_stubs now pid is)"

definition circl_store :: "int \<Rightarrow> int \<Rightarrow> json list \<Rightarrow> db \<Rightarrow> (db \<times> int) result" where
  "circl_store now pid items d = bind_r (map_r (parse_circl now) items) (\<lambda>os.
     let vs = List.map_filter id os in
     if vs = [] then Inr (d, 0)
     else bind_r (store_cves now vs d) (\<lambda>d1. bind_r (insert_stubs now pid (map cvv_cve_id vs) d1) (\<lambda>d2.
       Inr (d2, int (length vs)))))"

text \<open>What the driver makes of the values it is given as ids: a text parameter takes texts only.\<close>

definition text_param :: "json \<Rightarrow> string result" where
  "text_param v = (case v of JStr s \<Rightarrow> Inr s | JNull \<Rightarrow> Inl NotNullViolation | _ \<Rightarrow> Inl DataError)"

definition link_cached :: "int \<Rightarrow> int \<Rightarrow> json \<Rightarrow> db \<Rightarrow> db result" where
  "link_cached now pid v d =
     (if \<not> json_truthy v then Inr d
      else bind_r (iterate v) (\<lambda>vs. bind_r (map_r text_param vs) (\<lambda>ids. insert_stubs now pid ids d)))"

definition item_ids :: "json list \<Rightarrow> json list result" where
  "item_ids items = bind_r (map_r as_dict items) (\<lambda>ks.
     Inr (List.map_filter (\<lambda>kvs. case obj_get kvs ''id'' of Some v \<Rightarrow> if json_truthy v then Some v else None | None \<Rightarrow> None) ks))"

text \<open>
  \<open>fetch_and_store\<close>, on the cache and the database. The clock holds the times of Redis and of the database and
  whether Redis answers to the read and, after the transaction, to the write.
\<close>

record circl_clock =
  cl_redis :: rat
  cl_db :: int
  cl_get_ok :: bool
  cl_set_ok :: bool

definition fetch_pages ::
    "(json \<Rightarrow> string) \<Rightarrow> (nat \<Rightarrow> response result) \<Rightarrow> circl_clock \<Rightarrow> int \<Rightarrow> string \<Rightarrow> (redis \<times> db, int) action" where
  "fetch_pages dumps pages clk pid key s = (case s of (r, d) \<Rightarrow> (case paginate CIRCL_MAX_PAGES pages 1 of
      Inl e \<Rightarrow> (s, Inl e)
    | Inr [] \<Rightarrow> (s, Inr 0)
    | Inr items \<Rightarrow> (case circl_store (cl_db clk) pid items d of
        Inl e \<Rightarrow> (s, Inl e)
      | Inr (d', k) \<Rightarrow>
          if \<not> cl_set_ok clk then ((r, d'), Inl (OtherError ''ConnectionError''))
          else (case bind_r (item_ids items) (\<lambda>ids. r_setex (cl_redis clk) key CIRCL_TTL (dumps (JArr ids)) r) of
            Inl e \<Rightarrow> ((r, d'), Inl e)
          | Inr r' \<Rightarrow> ((r', d'), Inr k)))))"

definition fetch_and_store ::
    "(string \<Rightarrow> json option) \<Rightarrow> (json \<Rightarrow> string) \<Rightarrow> circl_service \<Rightarrow> circl_clock \<Rightarrow> int \<Rightarrow> string \<Rightarrow> (redis \<times> db, int) action" where
  "fetch_and_store loads dumps srv clk pid ncpe s = (case s of (r, d) \<Rightarrow>
     (case parse_cpe_vendor_product ncpe of
        None \<Rightarrow> (s, Inr 0)
      | Some vp \<Rightarrow> (case py_split CHR '':'' vp of
          [vendor, product] \<Rightarrow>
            if \<not> cl_get_ok clk then (s, Inl (OtherError ''ConnectionError''))
            else (let key = circl_key vendor product; cached = str_or_empty (r_get (cl_redis clk) r key) in
              if cached \<noteq> [] then (case loads cached of
                  None \<Rightarrow> (s, Inl (ValueError ''JSONDecodeError''))
                | Some v \<Rightarrow> (case link_cached (cl_db clk) pid v d of Inl e \<Rightarrow> (s, Inl e) | Inr d' \<Rightarrow> ((r, d'), Inr 0)))
              else fetch_pages dumps (srv vendor product) clk pid key s)
        | _ \<Rightarrow> (s, Inl (ValueError ''too many values to unpack'')))))"

section \<open>The live search\<close>

definition circl_view_dt :: "json option \<Rightarrow> py_datetime option result" where
  "circl_view_dt v =
     (if \<not> opt_ex json_truthy v then Inr None
      else case the v of
        JStr s \<Rightarrow> Inr (map_option assume_utc (datetime_fromisoformat (py_replace_char CHR ''Z'' ''+00:00'' s)))
      | _ \<Rightarrow> Inl AttributeError)"

text \<open>\<open>datetime.isoformat()\<close> and \<open>str\<close> of the offset.\<close>

definition two :: "int \<Rightarrow> string" where
  "two n = pad_left 2 (py_str_int n)"

definition clock_iso :: "int \<Rightarrow> string" where
  "clock_iso us = (let secs = us div 1000000; frac = us mod 1000000 in
     two (secs div 3600) @ '':'' @ two (secs div 60 mod 60) @ '':'' @ two (secs mod 60) @
     (if frac = 0 then [] else ''.'' @ pad_left 6 (py_str_int frac)))"

definition offset_iso :: "int \<Rightarrow> string" where
  "offset_iso off = (let us = \<bar>off\<bar> in (if off < 0 then ''-'' else ''+'') @
     two (us div 3600000000) @ '':'' @ two (us div 60000000 mod 60) @
     (if us mod 60000000 = 0 then [] else '':'' @ two (us div 1000000 mod 60) @
        (if us mod 1000000 = 0 then [] else ''.'' @ pad_left 6 (py_str_int (us mod 1000000)))))"

definition datetime_isoformat :: "py_datetime \<Rightarrow> string" where
  "datetime_isoformat t = date_isoformat (wall t div day_us) @ ''T'' @ clock_iso (wall t mod day_us) @
     (case tzoffset t of None \<Rightarrow> [] | Some off \<Rightarrow> offset_iso off)"

record circl_view =
  cw_cve_id :: json
  cw_description :: json
  cw_severity :: "string option"
  cw_cvss_v2_score :: "rat option"
  cw_priority_score :: int
  cw_published_at :: "string option"

definition normalise_item :: "py_datetime \<Rightarrow> json \<Rightarrow> circl_view result" where
  "normalise_item now v = bind_r (as_dict v) (\<lambda>kvs.
     let score = float_or_none (or_json (obj_get kvs ''cvss'') (obj_get kvs ''cvss3'')); sev = severity_from_cvss score in
     bind_r (circl_view_dt (obj_get kvs ''Published'')) (\<lambda>pub.
       Inr \<lparr>cw_cve_id = get_or kvs ''id'' (JStr []), cw_description = get_or kvs ''summary'' (JStr []), cw_severity = sev,
         cw_cvss_v2_score = score,
         cw_priority_score = compute_priority_score now \<lparr>cvss_score = score, severity = sev, epss_score = None, is_kev = False,
           published_at = pub, has_public_poc = False, has_nuclei_template = False\<rparr>,
         cw_published_at = map_option datetime_isoformat pub\<rparr>))"

text \<open>\<open>_fetch_all_pages\<close>: every answer that is no success ends the loop, what fails to answer raises.\<close>

primrec fetch_all_pages :: "nat \<Rightarrow> (nat \<Rightarrow> response result) \<Rightarrow> nat \<Rightarrow> json list result" where
  "fetch_all_pages 0 srv page = Inr []"
| "fetch_all_pages (Suc n) srv page = (case srv page of
      Inl e \<Rightarrow> Inl e
    | Inr resp \<Rightarrow>
        if \<not> (200 \<le> r_status resp \<and> r_status resp < 300) then Inr []
        else (case r_body resp of
            None \<Rightarrow> Inl (ValueError ''JSONDecodeError'')
          | Some (JArr b) \<Rightarrow>
              if b = [] then Inr []
              else if length b < 10 then Inr b
              else bind_r (fetch_all_pages n srv (page + 1)) (\<lambda>rest. Inr (b @ rest))
          | Some _ \<Rightarrow> Inr []))"

record circl_query =
  ci_vendor :: string
  ci_product :: string
  ci_severity :: "string option"
  ci_year :: "int option"
  ci_page :: int
  ci_limit :: int

record circl_page =
  cg_data :: "circl_view list"
  cg_total :: int
  cg_page :: int
  cg_pages :: int
  cg_cached :: bool

text \<open>\<open>[_normalise_item(i) for i in all_items if i.get("id")]\<close>.\<close>

definition with_id :: "json \<Rightarrow> bool result" where
  "with_id v = bind_r (as_dict v) (\<lambda>kvs. Inr (opt_ex json_truthy (obj_get kvs ''id'')))"

definition normalised :: "py_datetime \<Rightarrow> json \<Rightarrow> circl_view list result" where
  "normalised now v = bind_r (iterate v) (\<lambda>vs. bind_r (map_r (\<lambda>i. bind_r (with_id i) (\<lambda>ok.
     if ok then bind_r (normalise_item now i) (\<lambda>w. Inr (Some w)) else Inr None)) vs) (\<lambda>os. Inr (List.map_filter id os)))"

definition view_matches :: "circl_query \<Rightarrow> circl_view \<Rightarrow> bool" where
  "view_matches q w \<longleftrightarrow>
     (case ci_severity q of None \<Rightarrow> True | Some s \<Rightarrow> s = [] \<or> py_upper (str_or_empty (cw_severity w)) = py_upper s) \<and>
     (case ci_year q of None \<Rightarrow> True | Some y \<Rightarrow> y = 0 \<or> opt_ex (py_in (py_str_int y)) (cw_published_at w))"

definition circl_page_of :: "circl_query \<Rightarrow> bool \<Rightarrow> circl_view list \<Rightarrow> circl_page" where
  "circl_page_of q hit ws =
     (let lim' = min 100 (max 1 (ci_limit q)); page = max 1 (ci_page q);
          hits = filter (view_matches q) ws; n = int (length hits); start = (page - 1) * lim'
      in \<lparr>cg_data = take (nat lim') (drop (nat start) hits), cg_total = n, cg_page = page,
          cg_pages = max 1 ((n + lim' - 1) div lim'), cg_cached = hit\<rparr>)"

definition circl_search ::
    "(string \<Rightarrow> json option) \<Rightarrow> (json \<Rightarrow> string) \<Rightarrow> circl_service \<Rightarrow> rat \<Rightarrow> py_datetime \<Rightarrow> circl_query \<Rightarrow> (redis, circl_page) action" where
  "circl_search loads dumps srv t now q r =
     (if ci_vendor q = [] \<or> ci_product q = [] then (r, Inl (HttpException 422 ''request validation''))
      else let v = py_lower (ci_vendor q); p = py_lower (ci_product q); key = circl_key v p;
               cached = str_or_empty (r_get t r key) in
        if cached \<noteq> [] then (r, (case loads cached of
            None \<Rightarrow> Inl (ValueError ''JSONDecodeError'')
          | Some w \<Rightarrow> bind_r (normalised now w) (\<lambda>ws. Inr (circl_page_of q True ws))))
        else (case fetch_all_pages 20 (srv v p) 1 of
            Inl Cancelled \<Rightarrow> (r, Inl Cancelled)
          | res \<Rightarrow> (let items = (case res of Inr is \<Rightarrow> is | Inl _ \<Rightarrow> []) in
              (case r_setex t key CIRCL_TTL (dumps (JArr items)) r of
                 Inl e \<Rightarrow> (r, Inl e)
               | Inr r' \<Rightarrow> (r', bind_r (normalised now (JArr items)) (\<lambda>ws. Inr (circl_page_of q False ws)))))))"

text \<open>
  \<open>sorted(set(data))\<close> of JSON values: containers have no hash, texts are ordered by code point, numbers by their
  value, and nothing else can be compared; equal elements count once, the first is kept.
\<close>

fun text_le :: "string \<Rightarrow> string \<Rightarrow> bool" where
  "text_le [] t = True"
| "text_le (c # s) [] = False"
| "text_le (c # s) (e # t) = (of_char c < (of_char e :: nat) \<or> c = e \<and> text_le s t)"

definition text_or_type_error :: "json \<Rightarrow> string result" where
  "text_or_type_error v = (case v of JStr s \<Rightarrow> Inr s | _ \<Rightarrow> Inl (TypeError ''not supported between instances''))"

fun number_of :: "json \<Rightarrow> rat option" where
  "number_of (JInt n) = Some (of_int n)"
| "number_of (JFloat x) = Some x"
| "number_of (JBool b) = Some (if b then 1 else 0)"
| "number_of _ = None"

fun first_of_each :: "('a \<Rightarrow> 'b) \<Rightarrow> 'a list \<Rightarrow> 'a list" where
  "first_of_each f [] = []"
| "first_of_each f (x # xs) = x # first_of_each f (filter (\<lambda>y. f y \<noteq> f x) xs)"

definition hashable :: "json \<Rightarrow> bool" where
  "hashable v = (case v of JArr _ \<Rightarrow> False | JObj _ \<Rightarrow> False | _ \<Rightarrow> True)"

definition sorted_set :: "json list \<Rightarrow> json list result" where
  "sorted_set vs =
     (if \<not> list_all hashable vs then Inl (TypeError ''unhashable type'')
      else if list_all (\<lambda>v. number_of v \<noteq> None) vs
        then Inr (order_by (\<lambda>a b. the (number_of a) \<le> the (number_of b)) (first_of_each number_of vs))
      else if list_all (\<lambda>v. v = JNull) vs then Inr [JNull]
      else bind_r (map_r text_or_type_error vs) (\<lambda>ss. Inr (map JStr (order_by text_le (remdups ss)))))"

text \<open>\<open>circl_products\<close>: every failure counts as no names; a name that is no text fails the response, after it is cached.\<close>

definition product_names :: "response result \<Rightarrow> json list result" where
  "product_names answer = (case answer of
      Inl e \<Rightarrow> if is_exception e then Inr [] else Inl e
    | Inr resp \<Rightarrow>
        if \<not> (200 \<le> r_status resp \<and> r_status resp < 300) then Inr []
        else (case r_body resp of
            Some (JArr vs) \<Rightarrow> (case sorted_set vs of Inl _ \<Rightarrow> Inr [] | Inr ns \<Rightarrow> Inr ns)
          | _ \<Rightarrow> Inr []))"

definition names_response :: "json \<Rightarrow> string list result" where
  "names_response v = (case v of
      JArr vs \<Rightarrow> (case map_r text_or_type_error vs of Inl _ \<Rightarrow> Inl (OtherError ''ResponseValidationError'') | Inr ss \<Rightarrow> Inr ss)
    | _ \<Rightarrow> Inl (OtherError ''ResponseValidationError''))"

definition circl_products ::
    "(string \<Rightarrow> json option) \<Rightarrow> (json \<Rightarrow> string) \<Rightarrow> (string \<Rightarrow> response result) \<Rightarrow> rat \<Rightarrow> string \<Rightarrow> (redis, string list) action" where
  "circl_products loads dumps srv t vendor r =
     (if length vendor < 2 then (r, Inl (HttpException 422 ''request validation''))
      else let key = circl_key ''products'' (py_lower vendor); cached = str_or_empty (r_get t r key) in
        if cached \<noteq> [] then (r, (case loads cached of None \<Rightarrow> Inl (ValueError ''JSONDecodeError'') | Some v \<Rightarrow> names_response v))
        else (case product_names (srv (py_lower vendor)) of
          Inl e \<Rightarrow> (r, Inl e)
        | Inr ns \<Rightarrow> (case r_setex t key CIRCL_TTL (dumps (JArr ns)) r of
            Inl e \<Rightarrow> (r, Inl e) | Inr r' \<Rightarrow> (r', names_response (JArr ns)))))"

section \<open>Properties\<close>

lemma paginate_one_page:
  "srv 1 = Inr \<lparr>r_status = 200, r_retry_after = ra, r_body = Some (JArr items)\<rparr> \<Longrightarrow> length items < 10 \<Longrightarrow>
   paginate CIRCL_MAX_PAGES srv 1 = Inr items"
  by (simp add: CIRCL_MAX_PAGES_def CIRCL_PAGE_SIZE_def numeral_eq_Suc)

lemma all_pages_one_page:
  "srv 1 = Inr \<lparr>r_status = 200, r_retry_after = ra, r_body = Some (JArr items)\<rparr> \<Longrightarrow> length items < 10 \<Longrightarrow>
   fetch_all_pages 20 srv 1 = Inr items"
  by (simp add: numeral_eq_Suc)

lemma r_setex_ttl: "r_setex now k CIRCL_TTL v r = Inr (AList.update k (v, Some (now + 3600)) r)"
  by (simp add: r_setex_def CIRCL_TTL_def)

lemma map_filter_mem: "y \<in> set (List.map_filter f xs) \<longleftrightarrow> (\<exists>x \<in> set xs. f x = Some y)"
  by (induction xs) (auto simp: List.map_filter_simps split: option.splits)

lemma as_dict_Inr: "as_dict v = Inr kvs \<longleftrightarrow> v = JObj kvs"
  by (cases v) (simp_all add: as_dict_def)

lemma map_r_defined: "map_r f xs = Inr ys \<Longrightarrow> x \<in> set xs \<Longrightarrow> \<exists>y. f x = Inr y"
  by (induction xs arbitrary: ys) (auto simp: bind_r_Inr)

lemma stored_ids_texts:
  assumes "map_r (parse_circl now) items = Inr os" and "item_ids items = Inr ids" and "i \<in> set ids"
  shows "\<exists>s. i = JStr s"
proof -
  obtain ks where ks: "map_r as_dict items = Inr ks"
    and i: "i \<in> set (List.map_filter (\<lambda>kvs. case obj_get kvs ''id'' of Some v \<Rightarrow> if json_truthy v then Some v else None | None \<Rightarrow> None) ks)"
    using assms(2,3) by (auto simp: item_ids_def bind_r_Inr)
  then obtain kvs where kvs: "kvs \<in> set ks" "obj_get kvs ''id'' = Some i" "json_truthy i"
    unfolding map_filter_mem by (auto split: option.splits if_splits)
  then obtain v where v: "v \<in> set items" "v = JObj kvs" using map_r_mem [OF ks] as_dict_Inr by blast
  obtain y where "parse_circl now v = Inr y"
    using map_r_defined [OF assms(1) v(1)] by blast
  then show ?thesis using v kvs by (cases i) (simp_all add: parse_circl_def as_dict_def)
qed

text \<open>The two users of the cache key of a vendor and product break each other. After a live search that found
  something, the fallback of a product with that CPE raises until the entry expires and stores nothing; after a
  fallback that found something, the live search raises until the entry expires.\<close>

theorem circl_cache_formats_collide:
  assumes "vendor = py_lower (ci_vendor q)" and "product = py_lower (ci_product q)" and "vendor \<noteq> []" and "product \<noteq> []"
    and "CHR '':'' \<notin> set vendor" and "CHR '':'' \<notin> set product"
    and "parse_cpe_vendor_product ncpe = Some (vendor @ '':'' @ product)"
    and page: "srv vendor product 1 = Inr \<lparr>r_status = 200, r_retry_after = None, r_body = Some (JArr items)\<rparr>"
    and items: "items = JObj kvs # rest" and "length items < 10"
    and store: "circl_store (cl_db clk) pid items d = Inr (d', k)" and ids: "item_ids items = Inr (i # js)"
    and "loads (dumps (JArr items)) = Some (JArr items)" and "loads (dumps (JArr (i # js))) = Some (JArr (i # js))"
    and "dumps (JArr items) \<noteq> []" and "dumps (JArr (i # js)) \<noteq> []"
    and "cl_get_ok clk" and "cl_set_ok clk"
    and "r_get before r (circl_key vendor product) = None" and "r_get (cl_redis clk) r (circl_key vendor product) = None"
    and "cl_redis clk < before + 3600" and "after < cl_redis clk + 3600"
  shows "(let r' = fst (circl_search loads dumps srv before now q r) in
      fetch_and_store loads dumps srv' clk pid ncpe (r', d) = ((r', d), Inl DataError)) \<and>
    (\<exists>r'. fetch_and_store loads dumps srv clk pid ncpe (r, d) = ((r', d'), Inr k) \<and>
      circl_search loads dumps srv' after now q r' = (r', Inl AttributeError))"
proof -
  have split: "py_split CHR '':'' (vendor @ '':'' @ product) = [vendor, product]"
    using assms(5,6) by (simp add: py_split_append py_split_single)
  have nonempty: "ci_vendor q \<noteq> []" "ci_product q \<noteq> []" using assms(1-4) by auto
  have after_search: "fst (circl_search loads dumps srv before now q r) =
      AList.update (circl_key vendor product) (dumps (JArr items), Some (before + 3600)) r"
    using nonempty assms(19) all_pages_one_page [of "srv vendor product", OF page assms(10)] unfolding assms(1,2)
    by (simp add: circl_search_def Let_def r_setex_ttl str_or_empty_def)
  have "fetch_and_store loads dumps srv' clk pid ncpe (AList.update (circl_key vendor product) (dumps (JArr items), Some (before + 3600)) r, d)
      = ((AList.update (circl_key vendor product) (dumps (JArr items), Some (before + 3600)) r, d), Inl DataError)"
    using assms(7,13,15,17,21) split
    by (simp add: fetch_and_store_def Let_def str_or_empty_def link_cached_def items iterate_def text_param_def)
  then have A: "let r' = fst (circl_search loads dumps srv before now q r) in
      fetch_and_store loads dumps srv' clk pid ncpe (r', d) = ((r', d), Inl DataError)"
    by (simp only: after_search Let_def)
  obtain os where os: "map_r (parse_circl (cl_db clk)) items = Inr os"
    using store by (auto simp: circl_store_def bind_r_Inr)
  obtain s where s: "i = JStr s" using stored_ids_texts [OF os ids, of i] by auto
  let ?r = "AList.update (circl_key vendor product) (dumps (JArr (i # js)), Some (cl_redis clk + 3600)) r"
  have "fetch_and_store loads dumps srv clk pid ncpe (r, d) = ((?r, d'), Inr k)"
    using assms(7,17,18,20) split paginate_one_page [of "srv vendor product", OF page assms(10)] store ids
    by (simp add: fetch_and_store_def fetch_pages_def Let_def str_or_empty_def r_setex_ttl items)
  moreover have "circl_search loads dumps srv' after now q ?r = (?r, Inl AttributeError)"
    using nonempty assms(14,16,22) unfolding assms(1,2) s
    by (simp add: circl_search_def Let_def str_or_empty_def normalised_def iterate_def with_id_def as_dict_def)
  ultimately show ?thesis using A by blast
qed

text \<open>What was there stays, what is new satisfies the predicate.\<close>

definition extended :: "('r \<Rightarrow> bool) \<Rightarrow> 'r list \<Rightarrow> 'r list \<Rightarrow> bool" where
  "extended p xs ys \<longleftrightarrow> take (length xs) ys = xs \<and> list_all p (drop (length xs) ys)"

lemma extended_iff: "extended p xs ys \<longleftrightarrow> (\<exists>new. ys = xs @ new \<and> list_all p new)"
  by (auto simp: extended_def) (metis append_take_drop_id)

lemma extended_refl [simp]: "extended p xs xs"
  by (simp add: extended_def)

lemma extended_trans: "extended p xs ys \<Longrightarrow> extended p ys zs \<Longrightarrow> extended p xs zs"
  unfolding extended_iff by (metis append.assoc list_all_append)

definition stub_row :: "int \<Rightarrow> finding_row \<Rightarrow> bool" where
  "stub_row pid f \<longleftrightarrow> fd_product_id f = pid \<and> fd_status f = ''open'' \<and> fd_match_confidence f = Some ''uncertain'' \<and>
     fd_match_reason f = Some ''circl_fallback'' \<and> fd_assigned_to f = None \<and> fd_due_date f = None"

definition circl_row :: "cve_row \<Rightarrow> bool" where
  "circl_row c \<longleftrightarrow> cv_source c = ''circl'' \<and> py_startswith (cv_cve_id c) ''CVE-'' \<and> cv_cvss_v3_score c = None \<and> \<not> cv_is_kev c"

definition only_adds :: "int \<Rightarrow> db \<Rightarrow> db \<Rightarrow> bool" where
  "only_adds pid d d' \<longleftrightarrow> extended (stub_row pid) (t_rows (db_findings d)) (t_rows (db_findings d')) \<and>
     extended circl_row (t_rows (db_cves d)) (t_rows (db_cves d')) \<and>
     d\<lparr>db_cves := db_cves d', db_findings := db_findings d'\<rparr> = d'"

lemma only_adds_refl [simp]: "only_adds pid d d"
  by (simp add: only_adds_def)

lemma only_adds_trans: "only_adds pid a b \<Longrightarrow> only_adds pid b c \<Longrightarrow> only_adds pid a c"
  by (cases a; cases b; cases c) (auto simp: only_adds_def intro: extended_trans)

lemma insert_stub_adds: "insert_stub now pid d i = Inr d' \<Longrightarrow> only_adds pid d d'"
  by (auto simp: insert_stub_def insert_row_def Let_def only_adds_def extended_def stub_row_def stub_finding_def split: if_splits)

lemma insert_stubs_adds: "insert_stubs now pid is d = Inr d' \<Longrightarrow> only_adds pid d d'"
  by (induction "is" arbitrary: d) (auto simp: bind_r_Inr intro: only_adds_trans insert_stub_adds)

lemma parse_circl_values:
  "parse_circl now v = Inr (Some w) \<Longrightarrow> cvv_source w = ''circl'' \<and> py_startswith (cvv_cve_id w) ''CVE-'' \<and> cvv_cvss_v3_score w = None"
  by (auto simp: parse_circl_def bind_r_Inr Let_def split: if_splits json.splits)

lemma insert_cves_added:
  "list_all (\<lambda>w. cvv_source w = ''circl'' \<and> py_startswith (cvv_cve_id w) ''CVE-'' \<and> cvv_cvss_v3_score w = None) vs \<Longrightarrow>
   extended circl_row (t_rows t) (t_rows (foldl (insert_cve now) t vs))"
proof (induction vs arbitrary: t)
  case Nil
  then show ?case by simp
next
  case (Cons w vs)
  then have "extended circl_row (t_rows t) (t_rows (insert_cve now t w))"
    by (simp add: insert_cve_def insert_row_def Let_def extended_def circl_row_def new_cve_def)
  then show ?case using Cons by (auto intro: extended_trans)
qed

lemma circl_store_adds: "circl_store now pid items d = Inr (d', k) \<Longrightarrow> only_adds pid d d'"
proof -
  assume s: "circl_store now pid items d = Inr (d', k)"
  then obtain os where os: "map_r (parse_circl now) items = Inr os" by (auto simp: circl_store_def bind_r_Inr)
  define vs where "vs = List.map_filter id os"
  have "list_all (\<lambda>w. cvv_source w = ''circl'' \<and> py_startswith (cvv_cve_id w) ''CVE-'' \<and> cvv_cvss_v3_score w = None) vs"
    using map_r_mem [OF os] parse_circl_values by (fastforce simp: vs_def list_all_iff map_filter_mem)
  then have "only_adds pid d (d\<lparr>db_cves := foldl (insert_cve now) (db_cves d) vs\<rparr>)"
    using insert_cves_added [of vs "db_cves d" now] by (simp add: only_adds_def)
  then show ?thesis using s
    by (auto simp: circl_store_def os bind_r_Inr Let_def store_cves_def vs_def [symmetric] split: if_splits
        intro: only_adds_trans insert_stubs_adds)
qed

text \<open>The fallback only ever adds: every CVE and every finding stays as it is, a new finding belongs to the product and
  is open and uncertain, a new CVE is a CIRCL record, and no other table changes, whatever CIRCL answers, whatever the
  cache holds, and whether or not the call raises.\<close>

theorem circl_fallback_only_adds:
  "only_adds pid d (snd (fst (fetch_and_store loads dumps srv clk pid ncpe (r, d))))"
proof -
  have pages: "only_adds pid d (snd (fst (fetch_pages dumps srv' clk pid key (r, d))))" for srv' key
    using circl_store_adds by (auto simp: fetch_pages_def split: sum.splits list.splits)
  have link: "link_cached now pid v d = Inr d' \<Longrightarrow> only_adds pid d d'" for now v d'
    using insert_stubs_adds by (auto simp: link_cached_def bind_r_Inr split: if_splits)
  show ?thesis using pages link
    by (auto simp: fetch_and_store_def Let_def split: option.splits list.splits sum.splits)
qed

text \<open>A failing search is cached as an empty one: for the next hour the service is not asked again.\<close>

lemma circl_failure_cached:
  assumes "fetch_all_pages 20 (srv (py_lower (ci_vendor q)) (py_lower (ci_product q))) 1 = Inl e" and "is_exception e"
    and "ci_vendor q \<noteq> []" and "ci_product q \<noteq> []" and "str_or_empty (r_get t r (circl_key (py_lower (ci_vendor q)) (py_lower (ci_product q)))) = []"
    and "loads (dumps (JArr [])) = Some (JArr [])" and "dumps (JArr []) \<noteq> []" and "t' < t + 3600"
  shows "\<exists>r'. circl_search loads dumps srv t now q r = (r', Inr (circl_page_of q False [])) \<and>
    circl_search loads dumps srv' t' now q r' = (r', Inr (circl_page_of q True []))"
  using assms by (cases e) (simp_all add: circl_search_def Let_def r_setex_ttl normalised_def iterate_def str_or_empty_def is_exception_def
      map_filter_simps)

section \<open>Witnesses\<close>

definition demo_items :: "json list" where
  "demo_items = [JObj [(''id'', JStr ''CVE-2024-1'')]]"

definition demo_db :: db where
  "demo_db = (empty_db 0)\<lparr>db_products := \<lparr>t_rows = [nginx], t_serial = 3\<rparr>\<rparr>"

definition demo_service :: circl_service where
  "demo_service vendor product n = Inr \<lparr>r_status = 200, r_retry_after = None, r_body = Some (JArr demo_items)\<rparr>"

definition demo_dumps :: "json \<Rightarrow> string" where
  "demo_dumps v = (case v of JArr (JObj _ # _) \<Rightarrow> ''o'' | _ \<Rightarrow> ''i'')"

definition demo_loads :: "string \<Rightarrow> json option" where
  "demo_loads s = Some (if s = ''o'' then JArr demo_items else JArr [JStr ''CVE-2024-1''])"

definition demo_query :: circl_query where
  "demo_query = \<lparr>ci_vendor = ''F5'', ci_product = ''nginx'', ci_severity = None, ci_year = None, ci_page = 1, ci_limit = 20\<rparr>"

theorem circl_cache_formats_collide_witness:
  "let r = fst (circl_search demo_loads demo_dumps demo_service 0 (utc 0) demo_query []) in
     fetch_and_store demo_loads demo_dumps demo_service \<lparr>cl_redis = 5, cl_db = 0, cl_get_ok = True, cl_set_ok = True\<rparr> 3
       (the (pr_normalized_cpe nginx)) (r, demo_db) = ((r, demo_db), Inl DataError)"
proof -
  let ?clk = "\<lparr>cl_redis = 5, cl_db = 0, cl_get_ok = True, cl_set_ok = True\<rparr>"
  obtain d' k where s: "circl_store (cl_db ?clk) 3 demo_items demo_db = Inr (d', k)"
  proof -
    have "case circl_store (cl_db ?clk) 3 demo_items demo_db of Inr _ \<Rightarrow> True | Inl _ \<Rightarrow> False" by code_simp
    then show thesis using that by (auto split: sum.splits)
  qed
  have h: "''f5'' = py_lower (ci_vendor demo_query)" "''nginx'' = py_lower (ci_product demo_query)"
    "''f5'' \<noteq> []" "''nginx'' \<noteq> []" "CHR '':'' \<notin> set ''f5''" "CHR '':'' \<notin> set ''nginx''"
    "parse_cpe_vendor_product (the (pr_normalized_cpe nginx)) = Some (''f5'' @ '':'' @ ''nginx'')"
    "length demo_items < 10" "item_ids demo_items = Inr (JStr ''CVE-2024-1'' # [])"
    "demo_loads (demo_dumps (JArr demo_items)) = Some (JArr demo_items)"
    "demo_loads (demo_dumps (JArr (JStr ''CVE-2024-1'' # []))) = Some (JArr (JStr ''CVE-2024-1'' # []))"
    "demo_dumps (JArr demo_items) \<noteq> []" "demo_dumps (JArr (JStr ''CVE-2024-1'' # [])) \<noteq> []"
    "r_get 0 [] (circl_key ''f5'' ''nginx'') = None" by code_simp+
  have g: "demo_service ''f5'' ''nginx'' 1 = Inr \<lparr>r_status = 200, r_retry_after = None, r_body = Some (JArr demo_items)\<rparr>"
    by (simp add: demo_service_def)
  have e: "r_get t [] key = None" for t key by (simp add: r_get_def)
  have i: "demo_items = JObj [(''id'', JStr ''CVE-2024-1'')] # []" by (simp add: demo_items_def)
  have c: "cl_get_ok ?clk" "cl_set_ok ?clk" "cl_redis ?clk < 0 + 3600" "0 < cl_redis ?clk + 3600" by simp_all
  show ?thesis
    by (rule circl_cache_formats_collide [where vendor = "''f5''" and product = "''nginx''" and i = "JStr ''CVE-2024-1''"
          and js = "[]" and srv = demo_service and after = 0 and d' = d' and k = k, OF h(1-7) g i h(8) s h(9-13) c(1,2) h(14) e c(3,4), THEN conjunct1])
qed

end
