(* ===== verification/Dashboard.thy ===== *)
theory Dashboard
  imports Circl Daily_Snapshot
begin

text \<open>
  \<open>app/api/routers/dashboard.py\<close>: the figures of the dashboards and their caches. A query that selects columns of a row
  is modelled by the row, one that aggregates by a record of its output columns. Every query of a request sees one state of
  the database at one time; session times are in UTC. How a payload is written to the cache (\<open>json.dumps\<close> with
  \<open>default=str\<close>) and read back is an argument: a cached answer is the JSON that was read.
\<close>

section \<open>SQL that the reports share\<close>

definition trim_sql :: "string \<Rightarrow> string" where
  "trim_sql s = rev (dropWhile (\<lambda>c. c = CHR '' '') (rev (dropWhile (\<lambda>c. c = CHR '' '') s)))"

text \<open>\<open>COALESCE(NULLIF(TRIM(x), ''), default)\<close>.\<close>

definition label_or :: "string \<Rightarrow> string option \<Rightarrow> string" where
  "label_or none x = (let s = trim_sql (str_or_empty x) in if s = [] then none else s)"

text \<open>\<open>GROUP BY\<close>: the groups, with the rows of each.\<close>

definition group_rows :: "('r \<Rightarrow> 'k) \<Rightarrow> 'r list \<Rightarrow> ('k \<times> 'r list) list" where
  "group_rows key rows = map (\<lambda>k. (k, filter (\<lambda>r. key r = k) rows)) (remdups (map key rows))"

text \<open>\<open>ORDER BY a DESC, b DESC\<close> on integers.\<close>

definition desc2 :: "('r \<Rightarrow> int) \<Rightarrow> ('r \<Rightarrow> int) \<Rightarrow> 'r \<Rightarrow> 'r \<Rightarrow> bool" where
  "desc2 f g a b \<longleftrightarrow> f b < f a \<or> f a = f b \<and> g b \<le> g a"

definition sql_avg :: "rat list \<Rightarrow> rat option" where
  "sql_avg xs = (if xs = [] then None else Some (sum_list xs / of_nat (length xs)))"

text \<open>\<open>ROUND(x, 1)\<close> of a NUMERIC rounds a half away from zero.\<close>

definition pg_round1 :: "rat \<Rightarrow> rat" where
  "pg_round1 x = (if 0 \<le> x then of_int \<lfloor>x * 10 + 1/2\<rfloor> / 10 else - (of_int \<lfloor>1/2 - x * 10\<rfloor> / 10))"

section \<open>The cache\<close>

datatype 'p answer = Fresh 'p | Cached json

text \<open>\<open>redis.get\<close>, then the payload and \<open>redis.setex\<close>; a Redis that does not answer fails the request.\<close>

definition cached_answer ::
    "(string \<Rightarrow> json option) \<Rightarrow> ('p \<Rightarrow> string) \<Rightarrow> bool \<Rightarrow> rat \<Rightarrow> string \<Rightarrow> int \<Rightarrow> 'p \<Rightarrow> (redis, 'p answer) action" where
  "cached_answer loads dumps up t key ttl p r =
     (if \<not> up then (r, Inl (OtherError ''ConnectionError''))
      else let cached = str_or_empty (r_get t r key) in
        if cached \<noteq> [] then (r, case loads cached of None \<Rightarrow> Inl (ValueError ''JSONDecodeError'') | Some v \<Rightarrow> Inr (Cached v))
        else (case r_setex t key ttl (dumps p) r of Inl e \<Rightarrow> (r, Inl e) | Inr r' \<Rightarrow> (r', Inr (Fresh p))))"

section \<open>The landing page\<close>

definition STATS_TTL :: int where "STATS_TTL = 300"
definition TIMELINE_TTL :: int where "TIMELINE_TTL = 300"

record priority_distribution =
  pd_critical :: int
  pd_high :: int
  pd_medium :: int
  pd_monitor :: int

record landing =
  st_total_cves :: int
  st_kev_count :: int
  st_product_count :: int
  st_severity :: "(string option \<times> int) list"
  st_top_products :: "product_row list"
  st_recent_cves :: "(cve_row \<times> string option) list"
  st_epss :: "int option \<times> int option \<times> int option"
  st_priority :: priority_distribution

definition severity_rank :: "string option \<Rightarrow> int" where
  "severity_rank s = (if s = Some ''CRITICAL'' then 1 else if s = Some ''HIGH'' then 2
     else if s = Some ''MEDIUM'' then 3 else if s = Some ''LOW'' then 4 else 5)"

definition severity_counts :: "cve_row list \<Rightarrow> (string option \<times> int) list" where
  "severity_counts cs = order_by (\<lambda>a b. severity_rank (fst a) \<le> severity_rank (fst b))
     (map (\<lambda>(s, rs). (s, int (length rs))) (group_rows cv_severity cs))"

text \<open>\<open>SUM\<close> over no rows is NULL.\<close>

definition epss_distribution :: "cve_row list \<Rightarrow> int option \<times> int option \<times> int option" where
  "epss_distribution cs = (let xs = List.map_filter cv_epss_score cs; n = (\<lambda>p. if xs = [] then None else Some (sql_count p xs)) in
     (n (\<lambda>x. x \<ge> 1/2), n (\<lambda>x. x \<ge> 1/10 \<and> x < 1/2), n (\<lambda>x. x < 1/10)))"

definition priority_counts :: "finding_row list \<Rightarrow> priority_distribution" where
  "priority_counts fs = (let open_rows = filter (\<lambda>f. fd_status f = ''open'') fs; n = (\<lambda>p. sql_count (\<lambda>f. p (fd_priority_score f)) open_rows) in
     \<lparr>pd_critical = n (opt_ex (\<lambda>x. x \<ge> 80)), pd_high = n (opt_ex (\<lambda>x. x \<ge> 60 \<and> x < 80)),
      pd_medium = n (opt_ex (\<lambda>x. x \<ge> 40 \<and> x < 60)), pd_monitor = n (\<lambda>s. opt_ex (\<lambda>x. x < 40) s \<or> s = None)\<rparr>)"

definition landing_of :: "(json \<Rightarrow> string) \<Rightarrow> db \<Rightarrow> landing" where
  "landing_of jtext d = (let cs = t_rows (db_cves d); ps = t_rows (db_products d) in
     \<lparr>st_total_cves = int (length cs), st_kev_count = sql_count cv_is_kev cs, st_product_count = int (length ps),
      st_severity = severity_counts cs,
      st_top_products = take 10 (order_by (desc2 pr_critical_count pr_cve_count) ps),
      st_recent_cves = map (\<lambda>c. (c, description_of jtext (cv_raw_payload c))) (take 10 (order_by (\<lambda>a b. cv_published_at b \<le> cv_published_at a) cs)),
      st_epss = epss_distribution cs, st_priority = priority_counts (t_rows (db_findings d))\<rparr>)"

definition dashboard_stats where
  "dashboard_stats loads dumps up t jtext d = cached_answer loads dumps up t ''dashboard:stats'' STATS_TTL (landing_of jtext d)"

record month_row =
  mo_month :: string
  mo_total :: int
  mo_critical :: int
  mo_high :: int
  mo_kev :: int

definition month_of :: "int \<Rightarrow> string" where
  "month_of t = (case civil_from_days (t div day_us) of (y, m, _) \<Rightarrow> pad_left 4 (py_str_int y) @ ''-'' @ pad_left 2 (py_str_int m))"

text \<open>\<open>t - INTERVAL '12 months'\<close>: the same day of the month a year before, the last one where there is none.\<close>

definition year_before :: "int \<Rightarrow> int" where
  "year_before t = (case civil_from_days (t div day_us) of (y, m, dd) \<Rightarrow>
     days_from_civil (y - 1) m (min dd (days_in_month (y - 1) m)) * day_us + t mod day_us)"

definition timeline_of :: "int \<Rightarrow> db \<Rightarrow> month_row list" where
  "timeline_of now d = order_by (\<lambda>a b. text_le (mo_month a) (mo_month b))
     (map (\<lambda>(k, rs). \<lparr>mo_month = k, mo_total = int (length rs), mo_critical = sql_count (\<lambda>c. cv_severity c = Some ''CRITICAL'') rs,
          mo_high = sql_count (\<lambda>c. cv_severity c = Some ''HIGH'') rs, mo_kev = sql_count cv_is_kev rs\<rparr>)
       (group_rows (\<lambda>c. month_of (cv_published_at c)) (filter (\<lambda>c. year_before now \<le> cv_published_at c) (t_rows (db_cves d)))))"

definition dashboard_timeline where
  "dashboard_timeline loads dumps up t now d = cached_answer loads dumps up t ''dashboard:timeline'' TIMELINE_TTL (timeline_of now d)"

section \<open>Triage\<close>

definition TRIAGE_TTL :: int where "TRIAGE_TTL = 60"

record triage_query =
  tq_limit_per_panel :: int
  tq_delta_days :: int
  tq_aging_kev_days :: int
  tq_epss_threshold :: rat
  tq_keyword :: "string option"

definition clamped :: "triage_query \<Rightarrow> triage_query" where
  "clamped q = q\<lparr>tq_limit_per_panel := max 1 (min 50 (tq_limit_per_panel q)), tq_delta_days := max 1 (min 365 (tq_delta_days q)),
     tq_aging_kev_days := max 1 (min 365 (tq_aging_kev_days q)), tq_epss_threshold := max 0 (min 1 (tq_epss_threshold q))\<rparr>"

definition triage_key :: "triage_query \<Rightarrow> string" where
  "triage_key q = ''dashboard:triage:l'' @ py_str_int (tq_limit_per_panel q) @ '':dd'' @ py_str_int (tq_delta_days q) @
     '':ak'' @ py_str_int (tq_aging_kev_days q) @ '':epss'' @ py_fixed 2 (tq_epss_threshold q) @
     '':k'' @ take 40 (py_lower (py_strip (str_or_empty (tq_keyword q))))"

definition triage_keyword :: "triage_query \<Rightarrow> cve_row \<Rightarrow> bool" where
  "triage_keyword q c \<longleftrightarrow> (let k = str_or_empty (tq_keyword q) in k = [] \<or> ilike (cv_cve_id c) (''%'' @ py_upper (py_strip k) @ ''%''))"

definition epss_cvss_le :: "cve_row \<Rightarrow> cve_row \<Rightarrow> bool" where
  "epss_cvss_le a b \<longleftrightarrow> (if cv_epss_score a = cv_epss_score b then nulls_last (\<ge>) (cv_cvss_v3_score a) (cv_cvss_v3_score b)
     else nulls_last (\<ge>) (cv_epss_score a) (cv_epss_score b))"

definition urgent_le :: "int \<Rightarrow> cve_row \<Rightarrow> cve_row \<Rightarrow> bool" where
  "urgent_le now a b \<longleftrightarrow> (if sql_priority now a = sql_priority now b then nulls_last (\<ge>) (cv_cvss_v3_score a) (cv_cvss_v3_score b)
     else sql_priority now b \<le> sql_priority now a)"

definition recent_le :: "int \<Rightarrow> cve_row \<Rightarrow> cve_row \<Rightarrow> bool" where
  "recent_le now a b \<longleftrightarrow> (if cv_exploitability_updated_at a = cv_exploitability_updated_at b then sql_priority now b \<le> sql_priority now a
     else nulls_last (\<ge>) (cv_exploitability_updated_at a) (cv_exploitability_updated_at b))"

definition new_exploitable :: "int \<Rightarrow> int \<Rightarrow> cve_row \<Rightarrow> bool" where
  "new_exploitable now days c \<longleftrightarrow> opt_ex (\<lambda>t. now - days * day_us \<le> t) (cv_exploitability_updated_at c) \<and>
     (cv_has_public_poc c = Some True \<or> cv_has_nuclei_template c = Some True)"

definition aging_kev :: "int \<Rightarrow> int \<Rightarrow> cve_row \<Rightarrow> bool" where
  "aging_kev now days c \<longleftrightarrow> cv_is_kev c \<and> (case cv_kev_added_date c of None \<Rightarrow> True | Some x \<Rightarrow> x < current_date now - days)"

definition epss_hot :: "rat \<Rightarrow> cve_row \<Rightarrow> bool" where
  "epss_hot x c \<longleftrightarrow> sql_ge (cv_epss_score c) x \<and> \<not> cv_is_kev c"

text \<open>A panel: a CVE with its priority and, for the aging ones, the days since it was added.\<close>

record triage =
  tr_params :: triage_query
  tr_top_urgent :: "(cve_row \<times> int) list"
  tr_new_exploitability :: "(cve_row \<times> int) list"
  tr_aging_kev :: "(cve_row \<times> int \<times> int option) list"
  tr_epss_hotlist :: "(cve_row \<times> int) list"

definition panel :: "(cve_row \<Rightarrow> bool) \<Rightarrow> (cve_row \<Rightarrow> cve_row \<Rightarrow> bool) \<Rightarrow> triage_query \<Rightarrow> db \<Rightarrow> cve_row list" where
  "panel p le q d = take (nat (tq_limit_per_panel q)) (order_by le (filter (\<lambda>c. p c \<and> triage_keyword q c) (t_rows (db_cves d))))"

definition triage_of :: "int \<Rightarrow> triage_query \<Rightarrow> db \<Rightarrow> triage" where
  "triage_of now q d = (let prio = (\<lambda>c. (c, sql_priority now c)) in
     \<lparr>tr_params = q, tr_top_urgent = map prio (panel (\<lambda>_. True) (urgent_le now) q d),
      tr_new_exploitability = map prio (panel (new_exploitable now (tq_delta_days q)) (recent_le now) q d),
      tr_aging_kev = map (\<lambda>c. (c, sql_priority now c, map_option (\<lambda>x. current_date now - x) (cv_kev_added_date c)))
        (panel (aging_kev now (tq_aging_kev_days q)) epss_cvss_le q d),
      tr_epss_hotlist = map prio (panel (epss_hot (tq_epss_threshold q)) (\<lambda>a b. nulls_last (\<ge>) (cv_epss_score a) (cv_epss_score b)) q d)\<rparr>)"

definition dashboard_triage where
  "dashboard_triage loads dumps up t now q d = cached_answer loads dumps up t (triage_key (clamped q)) TRIAGE_TTL (triage_of now (clamped q) d)"

section \<open>Remediation\<close>

definition REMEDIATION_TTL :: int where "REMEDIATION_TTL = 30"

record owner_row =
  ow_owner :: string
  ow_total :: int
  ow_open :: int
  ow_in_review :: int
  ow_planned :: int
  ow_accepted_risk :: int
  ow_remediated :: int
  ow_closed :: int
  ow_breached :: int
  ow_avg_days :: "rat option"

definition owner_of :: "finding_row \<Rightarrow> string" where
  "owner_of f = label_or ''unassigned'' (fd_assigned_to f)"

definition with_status :: "string \<Rightarrow> finding_row \<Rightarrow> bool" where
  "with_status s f \<longleftrightarrow> fd_status f = s"

definition days_to_remediate :: "db \<Rightarrow> finding_row \<Rightarrow> rat" where
  "days_to_remediate d f = of_int (remediated_at d f - fd_created_at f) / of_int day_us"

definition owner_figures :: "int \<Rightarrow> db \<Rightarrow> string \<times> finding_row list \<Rightarrow> owner_row" where
  "owner_figures now d g = (case g of (o', fs) \<Rightarrow>
     \<lparr>ow_owner = o', ow_total = int (length fs), ow_open = sql_count (with_status ''open'') fs,
      ow_in_review = sql_count (with_status ''in_review'') fs, ow_planned = sql_count (with_status ''planned'') fs,
      ow_accepted_risk = sql_count (with_status ''accepted_risk'') fs, ow_remediated = sql_count (with_status ''remediated'') fs,
      ow_closed = sql_count (with_status ''closed'') fs, ow_breached = sql_count (breached (current_date now)) fs,
      ow_avg_days = map_option pg_round1 (sql_avg (map (days_to_remediate d) (filter (with_status ''remediated'') fs)))\<rparr>)"

definition owner_le :: "(string \<Rightarrow> string \<Rightarrow> bool) \<Rightarrow> owner_row \<Rightarrow> owner_row \<Rightarrow> bool" where
  "owner_le collate a b \<longleftrightarrow> (if ow_breached a = ow_breached b \<and> ow_open a = ow_open b then collate (ow_owner a) (ow_owner b)
     else desc2 ow_breached ow_open a b)"

definition owner_workload :: "(string \<Rightarrow> string \<Rightarrow> bool) \<Rightarrow> int \<Rightarrow> db \<Rightarrow> owner_row list" where
  "owner_workload collate now d = order_by (owner_le collate) (map (owner_figures now d) (group_rows owner_of (t_rows (db_findings d))))"

record pipeline =
  pl_open :: int
  pl_in_review :: int
  pl_planned :: int
  pl_accepted_risk :: int
  pl_remediated :: int
  pl_closed :: int
  pl_false_positive :: int
  pl_total :: int

definition pipeline_of :: "finding_row list \<Rightarrow> pipeline" where
  "pipeline_of fs = (let n = (\<lambda>s. sql_count (with_status s) fs) in
     \<lparr>pl_open = n ''open'', pl_in_review = n ''in_review'', pl_planned = n ''planned'', pl_accepted_risk = n ''accepted_risk'',
      pl_remediated = n ''remediated'', pl_closed = n ''closed'', pl_false_positive = n ''false_positive'', pl_total = int (length fs)\<rparr>)"

record risk_summary =
  rs_pending :: int
  rs_approved :: int
  rs_rejected :: int
  rs_expired :: int
  rs_expiring_soon :: int

definition risk_summary_of :: "int \<Rightarrow> risk_row list \<Rightarrow> risk_summary" where
  "risk_summary_of today rs = (let n = (\<lambda>s. sql_count (\<lambda>r. ra_status r = s) rs) in
     \<lparr>rs_pending = n ''pending'', rs_approved = n ''approved'', rs_rejected = n ''rejected'', rs_expired = n ''expired'',
      rs_expiring_soon = sql_count (\<lambda>r. ra_status r = ''approved'' \<and> ra_expires_at r \<le> today + 7) rs\<rparr>)"

record remediation =
  re_pipeline :: pipeline
  re_findings :: "(finding_row \<times> cve_row \<times> product_row) list"
  re_risk_summary :: risk_summary
  re_audit_recent :: "audit_row list"

definition remediation_of :: "int \<Rightarrow> int \<Rightarrow> db \<Rightarrow> remediation" where
  "remediation_of now audit_limit d =
     \<lparr>re_pipeline = pipeline_of (t_rows (db_findings d)),
      re_findings = take 200 (order_by (\<lambda>a b. nulls_last (\<le>) (fd_due_date (fst a)) (fd_due_date (fst b)))
        (List.map_filter (join_row d) (t_rows (db_findings d)))),
      re_risk_summary = risk_summary_of (current_date now) (t_rows (db_risks d)),
      re_audit_recent = take (nat audit_limit) (order_by (\<lambda>a b. al_ts b \<le> al_ts a) (t_rows (db_audit d)))\<rparr>"

definition dashboard_remediation where
  "dashboard_remediation loads dumps up t now audit_limit d = (let n = max 1 (min 200 audit_limit) in
     cached_answer loads dumps up t (''dashboard:remediation:al'' @ py_str_int n) REMEDIATION_TTL (remediation_of now n d))"

section \<open>Counting\<close>

lemma sum_order_by [simp]: "sum_list (map f (order_by le xs)) = (sum_list (map f xs) :: int)"
proof -
  have "sum_list (map f (insert_by le x ys)) = f x + sum_list (map f ys)" for x ys by (induction ys) auto
  then show ?thesis by (induction xs) (simp_all add: order_by_def)
qed

lemma sum_pick:
  "distinct ks \<Longrightarrow> k \<in> set ks \<Longrightarrow> sum_list (map (\<lambda>j. f j + (if j = k then x else 0)) ks) = sum_list (map f ks) + (x :: int)"
proof (induction ks)
  case Nil
  then show ?case by simp
next
  case (Cons j ks)
  have "j \<notin> set ks \<Longrightarrow> sum_list (map (\<lambda>i. f i + (if i = j then x else 0)) ks) = sum_list (map f ks)" for j
    by (induction ks) auto
  then show ?case using Cons by (auto simp: algebra_simps)
qed

lemma sum_over_keys:
  "distinct ks \<Longrightarrow> set (map key rows) \<subseteq> set ks \<Longrightarrow>
   sum_list (map (\<lambda>k. sql_count p (filter (\<lambda>r. key r = k) rows)) ks) = sql_count p rows"
proof (induction rows)
  case Nil
  then show ?case by (induction ks) simp_all
next
  case (Cons r rows)
  have "sql_count p (filter (\<lambda>x. key x = k) (r # rows)) =
      sql_count p (filter (\<lambda>x. key x = k) rows) + (if k = key r then (if p r then 1 else 0) else 0)" for k by simp
  then show ?case using Cons by (simp add: sum_pick del: filter.simps)
qed

lemma group_counts: "sum_list (map (\<lambda>(k, rs). sql_count p rs) (group_rows key rows)) = sql_count p rows"
  using sum_over_keys [of "remdups (map key rows)" key rows p] by (simp add: group_rows_def o_def)

lemma sql_count_all: "sql_count (\<lambda>_. True) rs = int (length rs)"
  by (simp add: sql_count_def)

lemma group_lengths: "sum_list (map (\<lambda>(k, rs). int (length rs)) (group_rows key rows)) = int (length rows)"
  using group_counts [of "\<lambda>_. True"] by (simp add: sql_count_all)

section \<open>Cached answers\<close>

text \<open>The answers to a sequence of requests, each at its time and in its state of the world.\<close>

fun serve_all :: "(rat \<Rightarrow> 'w \<Rightarrow> (redis, 'p answer) action) \<Rightarrow> (rat \<times> 'w) list \<Rightarrow> redis \<Rightarrow> redis \<times> 'p answer result list" where
  "serve_all serve [] r = (r, [])"
| "serve_all serve ((t, w) # reqs) r = (case serve t w r of (r', a) \<Rightarrow>
     (case serve_all serve reqs r' of (r'', as) \<Rightarrow> (r'', a # as)))"

text \<open>
  The contract of a cached route: what is in the cache is the answer; otherwise the answer is computed and kept for a time.
\<close>

locale cached_route =
  fixes serve :: "rat \<Rightarrow> 'w \<Rightarrow> (redis, 'p answer) action"
    and key :: string and ttl :: int and loads :: "string \<Rightarrow> json option" and dumps :: "'p \<Rightarrow> string" and compute :: "'w \<Rightarrow> 'p"
  assumes hit: "r_get t r key = Some s \<Longrightarrow> s \<noteq> [] \<Longrightarrow> serve t w r = (r, Inr (Cached v)) \<Longrightarrow> loads s = Some v"
    and keeps: "r_get t r key = Some s \<Longrightarrow> s \<noteq> [] \<Longrightarrow> fst (serve t w r) = r \<and> snd (serve t w r) \<in> range Inl \<union> range (Inr \<circ> Cached)"
    and miss: "str_or_empty (r_get t r key) = [] \<Longrightarrow>
      serve t w r = (AList.update key (dumps (compute w), Some (t + of_int ttl)) r, Inr (Fresh (compute w)))"
begin

definition recent :: "(rat \<times> 'w) list \<Rightarrow> rat \<Rightarrow> 'w \<Rightarrow> 'p answer result \<Rightarrow> bool" where
  "recent reqs t w a = (case a of Inl _ \<Rightarrow> True | Inr (Fresh p) \<Rightarrow> p = compute w
     | Inr (Cached v) \<Rightarrow> \<exists>t0 w0. (t0, w0) \<in> set reqs \<and> t < t0 + of_int ttl \<and> loads (dumps (compute w0)) = Some v)"

definition kept :: "(rat \<times> 'w) list \<Rightarrow> redis \<Rightarrow> bool" where
  "kept reqs r \<longleftrightarrow> (\<forall>t s. r_get t r key = Some s \<longrightarrow> (\<exists>t0 w0. (t0, w0) \<in> set reqs \<and> t < t0 + of_int ttl \<and> s = dumps (compute w0)))"

lemma serve_step:
  assumes "kept reqs r"
  shows "kept ((t, w) # reqs) (fst (serve t w r)) \<and> recent reqs t w (snd (serve t w r))"
proof (cases "str_or_empty (r_get t r key) = []")
  case True
  then have s: "serve t w r = (AList.update key (dumps (compute w), Some (t + of_int ttl)) r, Inr (Fresh (compute w)))"
    by (rule miss)
  show ?thesis unfolding s by (auto simp: kept_def recent_def split: if_splits)
next
  case False
  then obtain s where g: "r_get t r key = Some s" "s \<noteq> []" by (auto simp: str_or_empty_def split: option.splits)
  have f: "fst (serve t w r) = r" and a: "snd (serve t w r) \<in> range Inl \<union> range (Inr \<circ> Cached)" using keeps [OF g] by auto
  obtain t0 w0 where 0: "(t0, w0) \<in> set reqs" "t < t0 + of_int ttl" "s = dumps (compute w0)"
    using assms g(1) unfolding kept_def by blast
  have "recent reqs t w (snd (serve t w r))"
  proof (cases "snd (serve t w r)")
    case (Inl e)
    then show ?thesis by (simp add: recent_def)
  next
    case (Inr p)
    then obtain v where v: "snd (serve t w r) = Inr (Cached v)" using a by auto
    then have "serve t w r = (r, Inr (Cached v))" using f by (simp add: prod_eq_iff)
    from hit [OF g this] show ?thesis using 0 v by (auto simp: recent_def)
  qed
  moreover have "kept ((t, w) # reqs) r" using assms unfolding kept_def by (metis list.set_intros(2))
  ultimately show ?thesis by (simp add: f)
qed

lemma recent_mono: "recent reqs t w a \<Longrightarrow> set reqs \<subseteq> set reqs' \<Longrightarrow> recent reqs' t w a"
  unfolding recent_def by (auto split: sum.splits answer.splits)

lemma all_recent:
  "kept before r \<Longrightarrow> list_all2 (\<lambda>(t, w) a. recent (before @ reqs) t w a) reqs (snd (serve_all serve reqs r))"
proof (induction reqs arbitrary: before r)
  case Nil
  then show ?case by simp
next
  case (Cons q reqs)
  obtain t w where q: "q = (t, w)" by (cases q)
  note step = serve_step [OF Cons.prems, of t w]
  have "kept (before @ [q]) (fst (serve t w r))" using step by (auto simp: kept_def q)
  from Cons.IH [OF this] have "list_all2 (\<lambda>(t, w) a. recent (before @ q # reqs) t w a) reqs (snd (serve_all serve reqs (fst (serve t w r))))"
    by simp
  moreover have "recent (before @ q # reqs) t w (snd (serve t w r))"
    by (rule recent_mono [OF step [THEN conjunct2]]) auto
  ultimately show ?case by (auto simp: q split: prod.splits)
qed

lemma answers_recent: "list_all2 (\<lambda>(t, w) a. recent reqs t w a) reqs (snd (serve_all serve reqs []))"
  using all_recent [of "[]" "[]"] by (simp add: kept_def r_get_def)

end

lemma cached_answer_route:
  assumes "0 < ttl"
  shows "cached_route (\<lambda>t w. cached_answer loads dumps True t key ttl (compute w)) key ttl loads dumps compute"
  using assms by unfold_locales (auto simp: cached_answer_def Let_def str_or_empty_def r_setex_def split: if_splits option.splits)

interpretation stats_route: cached_route "\<lambda>t d. dashboard_stats loads dumps True t jtext d" "''dashboard:stats''" STATS_TTL loads dumps "landing_of jtext"
  for loads dumps jtext
  unfolding dashboard_stats_def by (rule cached_answer_route) (simp add: STATS_TTL_def)

interpretation triage_route: cached_route "\<lambda>t w. dashboard_triage loads dumps True t (fst w) q (snd w)" "triage_key (clamped q)" TRIAGE_TTL loads dumps
    "\<lambda>w. triage_of (fst w) (clamped q) (snd w)"
  for loads dumps q
  unfolding dashboard_triage_def by (rule cached_answer_route) (simp add: TRIAGE_TTL_def)

interpretation remediation_route: cached_route "\<lambda>t w. dashboard_remediation loads dumps True t (fst w) n (snd w)"
    "''dashboard:remediation:al'' @ py_str_int (max 1 (min 200 n))" REMEDIATION_TTL loads dumps
    "\<lambda>w. remediation_of (fst w) (max 1 (min 200 n)) (snd w)"
  for loads dumps n
  unfolding dashboard_remediation_def Let_def by (rule cached_answer_route) (simp add: REMEDIATION_TTL_def)

text \<open>The remediation board is at most thirty seconds old: in every sequence of requests, starting with an empty cache, each answer
  is either computed from the database as it is, or is what was computed for a request of the sequence less than thirty seconds before.\<close>

theorem remediation_board_is_recent:
  "list_all2 (\<lambda>(t, w) a. case a of
       Inl _ \<Rightarrow> True
     | Inr (Fresh p) \<Rightarrow> p = remediation_of (fst w) (max 1 (min 200 n)) (snd w)
     | Inr (Cached v) \<Rightarrow> \<exists>t0 w0. (t0, w0) \<in> set reqs \<and> t < t0 + 30 \<and>
         loads (dumps (remediation_of (fst w0) (max 1 (min 200 n)) (snd w0))) = Some v)
     reqs (snd (serve_all (\<lambda>t w. dashboard_remediation loads dumps True t (fst w) n (snd w)) reqs []))"
  by (rule list_all2_mono [OF remediation_route.answers_recent [of loads dumps n reqs]])
    (unfold remediation_route.recent_def, simp add: REMEDIATION_TTL_def split_def)

section \<open>Triage\<close>

lemma sort_key_urgent: "sort_key (urgent_le now)"
  by (auto simp: sort_key_def urgent_le_def nulls_last_def split: option.splits if_splits)

text \<open>The triage panels are what they say: at most fifty entries each; every entry of the KEV panel is known to be exploited
  and none of the hot list is, which holds only scores at or above the threshold; every entry of the exploitability panel has an exploit and
  was updated in the period; and no CVE that matches the keyword and is left out of the urgent panel has a higher priority
  than one that is in it.\<close>

theorem triage_panels_correct:
  "let q' = clamped q; tr = triage_of now q' d; kw = (\<lambda>c. triage_keyword q' c) in
   length (tr_top_urgent tr) \<le> 50 \<and> length (tr_new_exploitability tr) \<le> 50 \<and> length (tr_aging_kev tr) \<le> 50 \<and> length (tr_epss_hotlist tr) \<le> 50 \<and>
   list_all (\<lambda>(c, _). cv_is_kev c \<and> kw c) (tr_aging_kev tr) \<and>
   list_all (\<lambda>(c, _). \<not> cv_is_kev c \<and> opt_ex (\<lambda>x. tq_epss_threshold q' \<le> x) (cv_epss_score c) \<and> kw c) (tr_epss_hotlist tr) \<and>
   list_all (\<lambda>(c, _). (cv_has_public_poc c = Some True \<or> cv_has_nuclei_template c = Some True) \<and>
     opt_ex (\<lambda>t. now - tq_delta_days q' * day_us \<le> t) (cv_exploitability_updated_at c) \<and> kw c) (tr_new_exploitability tr) \<and>
   list_all (\<lambda>c. c \<in> fst ` set (tr_top_urgent tr) \<or> list_all (\<lambda>(_, n). sql_priority now c \<le> n) (tr_top_urgent tr))
     (filter kw (t_rows (db_cves d)))"
proof -
  let ?q = "clamped q"
  have short: "length (panel p le ?q d) \<le> 50" for p le
    unfolding panel_def by (rule order_trans [OF length_take [THEN eq_refl, THEN order_trans, OF min.cobounded2]]) (simp add: clamped_def)
  have mem: "c \<in> set (panel p le ?q d) \<Longrightarrow> p c \<and> triage_keyword ?q c" for c p le
    unfolding panel_def using set_take_subset by fastforce
  have urgent: "sql_priority now c \<le> sql_priority now x"
    if "c \<in> set (t_rows (db_cves d))" "triage_keyword ?q c" "c \<notin> set (panel (\<lambda>_. True) (urgent_le now) ?q d)"
      "x \<in> set (panel (\<lambda>_. True) (urgent_le now) ?q d)" for c x
    using taken_before_dropped [OF sort_key_urgent that(4) [unfolded panel_def], of c] that(1-3)
    by (simp add: panel_def urgent_le_def split: if_splits)
  show ?thesis unfolding Let_def
  proof (intro conjI)
    show "list_all (\<lambda>c. c \<in> fst ` set (tr_top_urgent (triage_of now ?q d)) \<or>
        list_all (\<lambda>(_, n). sql_priority now c \<le> n) (tr_top_urgent (triage_of now ?q d))) (filter (triage_keyword ?q) (t_rows (db_cves d)))"
      using urgent by (auto simp: triage_of_def Let_def list_all_iff image_image)
  qed (auto simp: short triage_of_def Let_def list_all_iff aging_kev_def epss_hot_def new_exploitable_def sql_ge_def dest!: mem)
qed

text \<open>Different queries share an entry of the cache: thresholds that agree in two digits, keywords that agree in forty characters.\<close>

lemma triage_key_shared:
  "triage_key (q\<lparr>tq_epss_threshold := 901 / 1000\<rparr>) = triage_key (q\<lparr>tq_epss_threshold := 904 / 1000\<rparr>)"
  "length k = 40 \<Longrightarrow> py_lower (py_strip (k @ a)) = k @ a' \<Longrightarrow> py_lower (py_strip (k @ b)) = k @ b' \<Longrightarrow>
   triage_key (q\<lparr>tq_keyword := Some (k @ a)\<rparr>) = triage_key (q\<lparr>tq_keyword := Some (k @ b)\<rparr>)"
proof -
  have "py_fixed 2 (901 / 1000) = py_fixed 2 (904 / 1000)" by code_simp
  then show "triage_key (q\<lparr>tq_epss_threshold := 901 / 1000\<rparr>) = triage_key (q\<lparr>tq_epss_threshold := 904 / 1000\<rparr>)"
    by (simp add: triage_key_def)
qed (simp add: triage_key_def str_or_empty_def)

end
