(* ===== verification/Exposure.thy ===== *)
theory Exposure
  imports Dashboard
begin

text \<open>
  The exposure and the executive dashboards of \<open>app/api/routers/dashboard.py\<close>. The table of snapshots is an
  argument of its own.
\<close>

section \<open>Exposure\<close>

definition EXPOSURE_TTL :: int where "EXPOSURE_TTL = 300"

record coverage =
  co_total :: int
  co_resolved :: int
  co_certain :: int
  co_uncertain :: int
  co_synced :: int
  co_pending :: int
  co_sync_error :: int
  co_sync_stale :: int

definition coverage_of :: "int \<Rightarrow> product_row list \<Rightarrow> coverage" where
  "coverage_of now ps =
     \<lparr>co_total = int (length ps), co_resolved = sql_count (\<lambda>p. str_or_empty (pr_normalized_cpe p) \<noteq> []) ps,
      co_certain = sql_count (\<lambda>p. pr_cpe_confidence p = Some ''certain'') ps,
      co_uncertain = sql_count (\<lambda>p. pr_cpe_confidence p = Some ''uncertain'') ps,
      co_synced = sql_count (\<lambda>p. pr_sync_status p = ''synced'') ps, co_pending = sql_count (\<lambda>p. pr_sync_status p = ''pending'') ps,
      co_sync_error = sql_count (\<lambda>p. pr_sync_status p = ''error'') ps,
      co_sync_stale = sql_count (\<lambda>p. case pr_last_synced_at p of None \<Rightarrow> True | Some t \<Rightarrow> t < now - 7 * day_us) ps\<rparr>"

text \<open>The findings of a product, with their CVEs where there is one (\<open>LEFT JOIN\<close>).\<close>

type_synonym exposure_rows = "(finding_row \<times> cve_row option) list"

definition findings_of :: "db \<Rightarrow> product_row \<Rightarrow> exposure_rows" where
  "findings_of d p = map (\<lambda>f. (f, cve_by_id d (fd_cve_id f))) (filter (\<lambda>f. fd_product_id f = pr_id p) (t_rows (db_findings d)))"

definition count_cve :: "(cve_row \<Rightarrow> bool) \<Rightarrow> exposure_rows \<Rightarrow> int" where
  "count_cve p xs = sql_count (\<lambda>x. opt_ex p (snd x)) xs"

definition has_severity :: "string \<Rightarrow> cve_row \<Rightarrow> bool" where
  "has_severity s c \<longleftrightarrow> cv_severity c = Some s"

record vendor_row =
  ve_vendor :: string
  ve_product_count :: int
  ve_finding_count :: int
  ve_critical_count :: int
  ve_high_count :: int
  ve_kev_count :: int
  ve_poc_count :: int
  ve_nuclei_count :: int
  ve_exposure_score :: rat

text \<open>
  \<open>GROUP BY vendor\<close> names the column of the table, not the label of the same name: the groups are those of the text as it
  is stored.
\<close>

definition vendor_figures :: "db \<Rightarrow> string option \<times> product_row list \<Rightarrow> vendor_row" where
  "vendor_figures d g = (case g of (v, ps) \<Rightarrow>
     (let xs = concat (map (findings_of d) ps) in
      \<lparr>ve_vendor = label_or ''(unknown)'' v, ve_product_count = int (length (remdups (map pr_id ps))), ve_finding_count = int (length xs),
       ve_critical_count = count_cve (has_severity ''CRITICAL'') xs, ve_high_count = count_cve (has_severity ''HIGH'') xs,
       ve_kev_count = count_cve cv_is_kev xs, ve_poc_count = count_cve (\<lambda>c. cv_has_public_poc c = Some True) xs,
       ve_nuclei_count = count_cve (\<lambda>c. cv_has_nuclei_template c = Some True) xs,
       ve_exposure_score = sum_list (List.map_filter (\<lambda>x. if unresolved (fst x) then fd_priority_score (fst x) else None) xs)\<rparr>))"

definition vendor_le :: "vendor_row \<Rightarrow> vendor_row \<Rightarrow> bool" where
  "vendor_le a b \<longleftrightarrow> ve_exposure_score b < ve_exposure_score a \<or>
     ve_exposure_score a = ve_exposure_score b \<and> desc2 ve_finding_count ve_product_count a b"

definition vendor_rows :: "db \<Rightarrow> vendor_row list" where
  "vendor_rows d = order_by vendor_le (map (vendor_figures d) (group_rows pr_vendor (t_rows (db_products d))))"

record product_exposure =
  px_product :: product_row
  px_finding_count :: int
  px_kev_count :: int
  px_critical_count :: int

definition product_figures :: "db \<Rightarrow> product_row \<Rightarrow> product_exposure" where
  "product_figures d p = (let xs = findings_of d p in
     \<lparr>px_product = p, px_finding_count = int (length xs), px_kev_count = count_cve cv_is_kev xs,
      px_critical_count = count_cve (has_severity ''CRITICAL'') xs\<rparr>)"

definition top_by_kev :: "nat \<Rightarrow> db \<Rightarrow> product_exposure list" where
  "top_by_kev n d = take n (order_by (desc2 px_kev_count px_critical_count)
     (filter (\<lambda>x. px_kev_count x > 0) (map (product_figures d) (t_rows (db_products d)))))"

definition top_by_critical :: "nat \<Rightarrow> db \<Rightarrow> product_exposure list" where
  "top_by_critical n d = take n (order_by (desc2 px_critical_count px_finding_count)
     (filter (\<lambda>x. px_critical_count x > 0) (map (product_figures d) (t_rows (db_products d)))))"

record heat_row =
  he_product :: product_row
  he_critical :: int
  he_high :: int
  he_medium :: int
  he_low :: int
  he_kev :: int
  he_total :: int
  he_avg_priority :: "rat option"

definition heat_figures :: "db \<Rightarrow> product_row \<Rightarrow> heat_row" where
  "heat_figures d p = (let xs = findings_of d p; n = (\<lambda>s. count_cve (has_severity s) xs) in
     \<lparr>he_product = p, he_critical = n ''CRITICAL'', he_high = n ''HIGH'', he_medium = n ''MEDIUM'', he_low = n ''LOW'',
      he_kev = count_cve cv_is_kev xs, he_total = int (length xs),
      he_avg_priority = map_option pg_round1 (sql_avg (List.map_filter (\<lambda>x. fd_priority_score (fst x)) xs))\<rparr>)"

definition heatmap :: "nat \<Rightarrow> db \<Rightarrow> heat_row list" where
  "heatmap n d = order_by (\<lambda>a b. he_total b \<le> he_total a) (map (heat_figures d)
     (take n (order_by (\<lambda>p q. length (findings_of d q) \<le> length (findings_of d p)) (t_rows (db_products d)))))"

record eol_row =
  eo_product :: product_row
  eo_finding_count :: int
  eo_critical_count :: int
  eo_last_cve_modified :: int

text \<open>Inner joins: only findings with their CVE, and only products that have one.\<close>

definition eol_figures :: "db \<Rightarrow> product_row \<Rightarrow> eol_row option" where
  "eol_figures d p = (let cs = List.map_filter snd (findings_of d p) in
     case map cv_last_modified_at cs of
       [] \<Rightarrow> None
     | t # ts \<Rightarrow> Some \<lparr>eo_product = p, eo_finding_count = int (length cs), eo_critical_count = sql_count (has_severity ''CRITICAL'') cs,
         eo_last_cve_modified = foldl max t ts\<rparr>)"

definition eol_candidates :: "nat \<Rightarrow> int \<Rightarrow> db \<Rightarrow> eol_row list" where
  "eol_candidates n now d = take n (order_by (desc2 eo_critical_count (\<lambda>x. - eo_last_cve_modified x))
     (filter (\<lambda>x. eo_critical_count x > 0 \<and> eo_last_cve_modified x < now - 365 * day_us)
       (List.map_filter (eol_figures d) (t_rows (db_products d)))))"

record exposure =
  es_top_limit :: int
  es_coverage :: coverage
  es_vendors :: "vendor_row list"
  es_by_kev :: "product_exposure list"
  es_by_critical :: "product_exposure list"
  es_heatmap :: "heat_row list"
  es_eol :: "eol_row list"

definition exposure_of :: "int \<Rightarrow> int \<Rightarrow> db \<Rightarrow> exposure" where
  "exposure_of now top_limit d = (let n = nat top_limit in
     \<lparr>es_top_limit = top_limit, es_coverage = coverage_of now (t_rows (db_products d)), es_vendors = take n (vendor_rows d),
      es_by_kev = top_by_kev n d, es_by_critical = top_by_critical n d, es_heatmap = heatmap n d, es_eol = eol_candidates n now d\<rparr>)"

definition dashboard_exposure where
  "dashboard_exposure loads dumps up t now top_limit d = (let n = max 1 (min 50 top_limit) in
     cached_answer loads dumps up t (''dashboard:exposure:l'' @ py_str_int n) EXPOSURE_TTL (exposure_of now n d))"

section \<open>Executive\<close>

definition EXEC_TTL :: int where "EXEC_TTL = 60"

definition series_of :: "int \<Rightarrow> int \<Rightarrow> snapshot_row table \<Rightarrow> snapshot_row list" where
  "series_of now period_days snaps = order_by (\<lambda>a b. ex_captured_on a \<le> ex_captured_on b)
     (filter (\<lambda>x. current_date now - period_days \<le> ex_captured_on x) (t_rows snaps))"

definition delta_of :: "(snapshot_values \<Rightarrow> int) \<Rightarrow> snapshot_row list \<Rightarrow> int option" where
  "delta_of fld series = (if series = [] then None else Some (fld (ex_values (last series)) - fld (ex_values (hd series))))"

record aging =
  ag_bucket_0_30 :: int
  ag_bucket_30_90 :: int
  ag_bucket_90_plus :: int
  ag_open_total :: int

definition aging_of :: "int \<Rightarrow> finding_row list \<Rightarrow> aging" where
  "aging_of now fs = (let n = (\<lambda>p. sql_count (\<lambda>f. unresolved f \<and> p (fd_created_at f)) fs) in
     \<lparr>ag_bucket_0_30 = n (\<lambda>t. now - 30 * day_us \<le> t),
      ag_bucket_30_90 = n (\<lambda>t. t < now - 30 * day_us \<and> now - 90 * day_us \<le> t),
      ag_bucket_90_plus = n (\<lambda>t. t < now - 90 * day_us), ag_open_total = n (\<lambda>_. True)\<rparr>)"

text \<open>\<open>date_trunc('week', t)\<close> is the Monday; day 0 was a Thursday.\<close>

definition week_of :: "int \<Rightarrow> string" where
  "week_of t = (let n = t div day_us in date_isoformat (n - (n + 3) mod 7))"

definition velocity_of :: "int \<Rightarrow> history_row list \<Rightarrow> (string \<times> int) list" where
  "velocity_of now hs = order_by (\<lambda>a b. text_le (fst a) (fst b)) (map (\<lambda>(k, rs). (k, int (length rs)))
     (group_rows (\<lambda>h. week_of (fh_changed_at h))
       (filter (\<lambda>h. fh_new_status h = ''remediated'' \<and> now - 84 * day_us \<le> fh_changed_at h) hs)))"

record top_owner =
  to_owner :: string
  to_remediated :: int
  to_breached :: int
  to_total :: int

definition top_owners :: "int \<Rightarrow> finding_row list \<Rightarrow> top_owner list" where
  "top_owners now fs = take 10 (order_by (desc2 to_remediated (\<lambda>x. - to_breached x))
     (map (\<lambda>(k, rs). \<lparr>to_owner = k, to_remediated = sql_count (with_status ''remediated'') rs,
          to_breached = sql_count (breached (current_date now)) rs, to_total = int (length rs)\<rparr>)
       (group_rows owner_of (filter (\<lambda>f. now - 90 * day_us \<le> fd_updated_at f \<or> unresolved f) fs))))"

record executive =
  xe_period_days :: int
  xe_snapshots :: "snapshot_row list"
  xe_delta_risk_score :: "int option"
  xe_delta_kev :: "int option"
  xe_delta_open :: "int option"
  xe_delta_breached :: "int option"
  xe_aging :: aging
  xe_velocity :: "(string \<times> int) list"
  xe_top_owners :: "top_owner list"

definition executive_of :: "int \<Rightarrow> int \<Rightarrow> snapshot_row table \<Rightarrow> db \<Rightarrow> executive" where
  "executive_of now period_days snaps d = (let series = series_of now period_days snaps; fs = t_rows (db_findings d) in
     \<lparr>xe_period_days = period_days, xe_snapshots = series, xe_delta_risk_score = delta_of sv_risk_score series,
      xe_delta_kev = delta_of sv_kev_with_open_finding series, xe_delta_open = delta_of sv_findings_open series,
      xe_delta_breached = delta_of sv_findings_breached series, xe_aging = aging_of now fs,
      xe_velocity = velocity_of now (t_rows (db_history d)), xe_top_owners = top_owners now fs\<rparr>)"

definition dashboard_exec where
  "dashboard_exec loads dumps up t now period_days snaps d = (let n = max 7 (min 730 period_days) in
     cached_answer loads dumps up t (''dashboard:exec:p'' @ py_str_int n) EXEC_TTL (executive_of now n snaps d))"

section \<open>Properties\<close>

lemma count_split: "(\<And>r. r \<in> set rs \<Longrightarrow> p r \<longleftrightarrow> a r \<or> b r) \<Longrightarrow> (\<And>r. r \<in> set rs \<Longrightarrow> \<not> (a r \<and> b r)) \<Longrightarrow>
   sql_count p rs = sql_count a rs + sql_count b rs"
  by (induction rs) auto

lemma severity_sum: "sum_list (map snd (severity_counts cs)) = int (length cs)"
  using group_lengths [of cv_severity cs] by (simp add: severity_counts_def split_def o_def)

lemma priority_sum:
  "(let p = priority_counts fs in pd_critical p + pd_high p + pd_medium p + pd_monitor p) = sql_count (\<lambda>f. fd_status f = ''open'') fs"
proof -
  let ?os = "filter (\<lambda>f. fd_status f = ''open'') fs"
  have "sql_count (\<lambda>f. opt_ex (\<lambda>x. x \<ge> 80) (fd_priority_score f)) os + sql_count (\<lambda>f. opt_ex (\<lambda>x. x \<ge> 60 \<and> x < 80) (fd_priority_score f)) os
      + sql_count (\<lambda>f. opt_ex (\<lambda>x. x \<ge> 40 \<and> x < 60) (fd_priority_score f)) os
      + sql_count (\<lambda>f. opt_ex (\<lambda>x. x < 40) (fd_priority_score f) \<or> fd_priority_score f = None) os = int (length os)" for os
    by (induction os) (auto simp: opt_ex_def split: option.splits)
  from this [of ?os] show ?thesis unfolding priority_counts_def Let_def priority_distribution.select_convs by (simp add: sql_count_def)
qed

lemma epss_sum:
  "case epss_distribution cs of (Some a, Some b, Some c) \<Rightarrow> a + b + c = sql_count (\<lambda>x. cv_epss_score x \<noteq> None) cs
   | _ \<Rightarrow> sql_count (\<lambda>x. cv_epss_score x \<noteq> None) cs = 0"
proof -
  have parts: "sql_count (\<lambda>x. x \<ge> 1/2) xs + sql_count (\<lambda>x. x \<ge> 1/10 \<and> x < 1/2) xs + sql_count (\<lambda>x. x < 1/10) xs = int (length xs)" for xs :: "rat list"
    by (induction xs) auto
  have "int (length (List.map_filter cv_epss_score cs)) = sql_count (\<lambda>x. cv_epss_score x \<noteq> None) cs"
    by (induction cs) (auto simp: List.map_filter_simps split: option.splits)
  then show ?thesis using parts [of "List.map_filter cv_epss_score cs"]
    by (cases "List.map_filter cv_epss_score cs = []") (simp_all add: epss_distribution_def Let_def)
qed

lemma pipeline_sum:
  assumes "list_all finding_check fs"
  shows "(let p = pipeline_of fs in pl_open p + pl_in_review p + pl_planned p + pl_accepted_risk p + pl_remediated p + pl_closed p +
    pl_false_positive p) = int (length fs)"
  using assms by (induction fs) (auto simp: pipeline_of_def Let_def with_status_def finding_check_def FINDING_STATUSES_def)

lemma aging_sum: "(let a = aging_of now fs in ag_bucket_0_30 a + ag_bucket_30_90 a + ag_bucket_90_plus a) = ag_open_total (aging_of now fs)"
  by (induction fs) (auto simp: aging_of_def Let_def day_us_def)

lemma owner_sums:
  "sum_list (map ow_total (owner_workload collate now d)) = int (length (t_rows (db_findings d)))"
  "sum_list (map ow_breached (owner_workload collate now d)) = sql_count (breached (current_date now)) (t_rows (db_findings d))"
  using group_lengths [of owner_of "t_rows (db_findings d)"] group_counts [of "breached (current_date now)" owner_of "t_rows (db_findings d)"]
  by (simp_all add: owner_workload_def owner_figures_def split_def o_def)

text \<open>C38: The dashboards account for everything once: the severities add up to the CVEs, the EPSS classes to the CVEs with a score, the
  priority classes to the open findings, the columns of the board to the findings, the age classes to the unresolved findings,
  and the rows of the owners to the findings and to those past their due date.\<close>

theorem dashboards_add_up:
  assumes "list_all finding_check (t_rows (db_findings d))"
  shows "sum_list (map snd (st_severity (landing_of jtext d))) = st_total_cves (landing_of jtext d) \<and>
    (case st_epss (landing_of jtext d) of
       (Some a, Some b, Some c) \<Rightarrow> a + b + c = sql_count (\<lambda>x. cv_epss_score x \<noteq> None) (t_rows (db_cves d))
     | _ \<Rightarrow> sql_count (\<lambda>x. cv_epss_score x \<noteq> None) (t_rows (db_cves d)) = 0) \<and>
    (let p = st_priority (landing_of jtext d); b = re_pipeline (remediation_of now n d); a = xe_aging (executive_of now m snaps d);
         os = owner_workload collate now d in
     pd_critical p + pd_high p + pd_medium p + pd_monitor p = pl_open b \<and>
     pl_open b + pl_in_review b + pl_planned b + pl_accepted_risk b + pl_remediated b + pl_closed b + pl_false_positive b = pl_total b \<and>
     ag_bucket_0_30 a + ag_bucket_30_90 a + ag_bucket_90_plus a = ag_open_total a \<and>
     ag_open_total a = pl_open b + pl_in_review b + pl_planned b \<and>
     sum_list (map ow_total os) = pl_total b \<and>
     sum_list (map ow_breached os) = sql_count (breached (current_date now)) (t_rows (db_findings d)))"
proof -
  let ?fs = "t_rows (db_findings d)"
  have unresolved: "ag_open_total (aging_of now fs) = sql_count (with_status ''open'') fs + sql_count (with_status ''in_review'') fs +
      sql_count (with_status ''planned'') fs" for fs
    by (induction fs) (auto simp: aging_of_def Let_def with_status_def unresolved_def)
  have priority: "(let p = st_priority (landing_of jtext d) in pd_critical p + pd_high p + pd_medium p + pd_monitor p) = pl_open (pipeline_of ?fs)"
    using priority_sum [of ?fs] by (simp add: landing_of_def Let_def pipeline_of_def with_status_def [abs_def])
  have board: "re_pipeline (remediation_of now n d) = pipeline_of ?fs" by (simp add: remediation_of_def)
  have aging: "xe_aging (executive_of now m snaps d) = aging_of now ?fs" by (simp add: executive_of_def Let_def)
  have "pl_total (pipeline_of ?fs) = int (length ?fs)" "pl_open (pipeline_of ?fs) = sql_count (with_status ''open'') ?fs"
    "pl_in_review (pipeline_of ?fs) = sql_count (with_status ''in_review'') ?fs" "pl_planned (pipeline_of ?fs) = sql_count (with_status ''planned'') ?fs"
    by (simp_all add: pipeline_of_def Let_def)
  then show ?thesis
    using severity_sum [of "t_rows (db_cves d)"] epss_sum [of "t_rows (db_cves d)"] pipeline_sum [OF assms] aging_sum [of now ?fs] priority
      unresolved [of ?fs] owner_sums [of collate now d]
    by (simp add: board aging Let_def) (simp add: landing_of_def Let_def)
qed

text \<open>The figures of a vendor are split by the spelling of its name, although the rows carry the trimmed one: with no vendor stored
  as NULL for one product and as a blank text for another, there are two rows for an unknown vendor.\<close>

lemma vendors_split_by_spelling:
  "map ve_vendor (vendor_rows ((empty_db 0)\<lparr>db_products := \<lparr>t_rows = [nginx, nginx\<lparr>pr_id := 4, pr_vendor := Some '' ''\<rparr>], t_serial = 4\<rparr>\<rparr>))
     = [''(unknown)'', ''(unknown)'']"
  by code_simp

text \<open>A deleted product still counts on the landing page and keeps its place among the top products.\<close>

lemma deleted_products_counted:
  "st_product_count (landing_of jtext (d\<lparr>db_products := update_rows p (\<lambda>r. r\<lparr>pr_is_deleted := True\<rparr>) (db_products d)\<rparr>)) = st_product_count (landing_of jtext d)"
  by (simp add: landing_of_def Let_def update_rows_def sql_update_def)

interpretation exposure_route: cached_route "\<lambda>t w. dashboard_exposure loads dumps True t (fst w) n (snd w)"
    "''dashboard:exposure:l'' @ py_str_int (max 1 (min 50 n))" EXPOSURE_TTL loads dumps "\<lambda>w. exposure_of (fst w) (max 1 (min 50 n)) (snd w)"
  for loads dumps n
  unfolding dashboard_exposure_def Let_def by (rule cached_answer_route) (simp add: EXPOSURE_TTL_def)

interpretation exec_route: cached_route "\<lambda>t w. dashboard_exec loads dumps True t (fst w) n (fst (snd w)) (snd (snd w))"
    "''dashboard:exec:p'' @ py_str_int (max 7 (min 730 n))" EXEC_TTL loads dumps
    "\<lambda>w. executive_of (fst w) (max 7 (min 730 n)) (fst (snd w)) (snd (snd w))"
  for loads dumps n
  unfolding dashboard_exec_def Let_def by (rule cached_answer_route) (simp add: EXEC_TTL_def)

theorem dashboards_add_up_witness:
  "sum_list (map snd (st_severity (landing_of (\<lambda>_. []) small_db))) = 1"
proof -
  have "list_all finding_check (t_rows (db_findings small_db))" by code_simp
  from dashboards_add_up [OF this, of "\<lambda>_. []"] have "sum_list (map snd (st_severity (landing_of (\<lambda>_. []) small_db))) = st_total_cves (landing_of (\<lambda>_. []) small_db)"
    by blast
  also have "\<dots> = 1" by code_simp
  finally show ?thesis .
qed

end
