(* ===== verification/Query_Engine.thy ===== *)
theory Query_Engine
  imports Circl Exploitability
begin

text \<open>
  The query layer for the findings of a product: \<open>app/query/local_query.py\<close> (the mirror),
  \<open>app/query/query_engine.py\<close> (the tiers) and \<open>app/query/vulnx_enricher.py\<close> (the refresh in the background), with the
  rows of \<open>app/models/finding.py\<close>. The rendering of JSON as text is an argument, log lines are left out.
\<close>

section \<open>Tier 1\<close>

record query_filters =
  qf_statuses :: "string list option"
  qf_severity :: "string option"
  qf_min_cvss :: "rat option"
  qf_min_epss :: "rat option"
  qf_confidence :: "string option"
  qf_page :: int
  qf_page_size :: int

definition no_filters :: query_filters where
  "no_filters = \<lparr>qf_statuses = None, qf_severity = None, qf_min_cvss = None, qf_min_epss = None, qf_confidence = None,
     qf_page = 1, qf_page_size = 50\<rparr>"

record finding_view =
  fv_finding_id :: int
  fv_product_id :: int
  fv_cve_id :: string
  fv_status :: string
  fv_match_confidence :: "string option"
  fv_priority_score :: "rat option"
  fv_assigned_to :: "string option"
  fv_due_date :: "int option"
  fv_cvss_v3_score :: "rat option"
  fv_cvss_v3_vector :: "string option"
  fv_cvss_v2_score :: "rat option"
  fv_severity :: "string option"
  fv_epss_score :: "rat option"
  fv_epss_percentile :: "rat option"
  fv_is_kev :: bool
  fv_kev_added_date :: "int option"
  fv_published_at :: int
  fv_last_modified_at :: int
  fv_description :: "string option"

record query_result =
  qr_findings :: "finding_view list"
  qr_total :: int
  qr_page :: int
  qr_page_size :: int
  qr_source :: string

definition row_to_finding :: "(json \<Rightarrow> string) \<Rightarrow> finding_row \<times> cve_row \<Rightarrow> finding_view" where
  "row_to_finding jtext r = (case r of (f, c) \<Rightarrow>
     \<lparr>fv_finding_id = fd_id f, fv_product_id = fd_product_id f, fv_cve_id = fd_cve_id f, fv_status = fd_status f,
      fv_match_confidence = fd_match_confidence f, fv_priority_score = fd_priority_score f, fv_assigned_to = fd_assigned_to f,
      fv_due_date = fd_due_date f, fv_cvss_v3_score = cv_cvss_v3_score c, fv_cvss_v3_vector = cv_cvss_v3_vector c,
      fv_cvss_v2_score = cv_cvss_v2_score c, fv_severity = cv_severity c, fv_epss_score = cv_epss_score c,
      fv_epss_percentile = cv_epss_percentile c, fv_is_kev = cv_is_kev c, fv_kev_added_date = cv_kev_added_date c,
      fv_published_at = cv_published_at c, fv_last_modified_at = cv_last_modified_at c,
      fv_description = description_of jtext (cv_raw_payload c)\<rparr>)"

text \<open>The conditions of both queries; an empty list of statuses is no filter.\<close>

definition finding_matches :: "query_filters \<Rightarrow> finding_row \<times> cve_row \<Rightarrow> bool" where
  "finding_matches q r = (case r of (f, c) \<Rightarrow>
     (case qf_statuses q of None \<Rightarrow> True | Some ss \<Rightarrow> ss = [] \<or> fd_status f \<in> set ss) \<and>
     (case qf_severity q of None \<Rightarrow> True | Some s \<Rightarrow> cv_severity c = Some s) \<and>
     (case qf_min_cvss q of None \<Rightarrow> True | Some x \<Rightarrow> sql_ge (cv_cvss_v3_score c) x) \<and>
     (case qf_min_epss q of None \<Rightarrow> True | Some x \<Rightarrow> sql_ge (cv_epss_score c) x) \<and>
     (case qf_confidence q of None \<Rightarrow> True | Some s \<Rightarrow> fd_match_confidence f = Some s))"

definition product_rows :: "int \<Rightarrow> db \<Rightarrow> (finding_row \<times> cve_row) list" where
  "product_rows pid d = List.map_filter (\<lambda>f. if fd_product_id f = pid then map_option (Pair f) (cve_by_id d (fd_cve_id f)) else None)
     (t_rows (db_findings d))"

definition finding_le :: "finding_row \<times> cve_row \<Rightarrow> finding_row \<times> cve_row \<Rightarrow> bool" where
  "finding_le a b = (let pa = fd_priority_score (fst a); pb = fd_priority_score (fst b) in
     if pa = pb then nulls_last (\<ge>) (cv_cvss_v3_score (snd a)) (cv_cvss_v3_score (snd b)) else nulls_last (\<ge>) pa pb)"

definition query_findings :: "(json \<Rightarrow> string) \<Rightarrow> int \<Rightarrow> query_filters \<Rightarrow> db \<Rightarrow> query_result result" where
  "query_findings jtext pid q d =
     (let offset = (qf_page q - 1) * qf_page_size q; rows = filter (finding_matches q) (product_rows pid d) in
      if qf_page_size q < 0 then Inl (OtherError ''InvalidRowCountInLimitClauseError'')
      else if offset < 0 then Inl (OtherError ''InvalidRowCountInResultOffsetClauseError'')
      else Inr \<lparr>qr_findings = map (row_to_finding jtext) (take (nat (qf_page_size q)) (drop (nat offset) (order_by finding_le rows))),
        qr_total = int (length rows), qr_page = qf_page q, qr_page_size = qf_page_size q, qr_source = ''local''\<rparr>)"

definition get_product_cpe :: "db \<Rightarrow> int \<Rightarrow> string option" where
  "get_product_cpe d pid = Option.bind (product_by_id d pid) pr_normalized_cpe"

section \<open>Tier 4\<close>

definition INFLIGHT_TTL :: int where "INFLIGHT_TTL = 60"
definition STALE_HOURS_DEFAULT :: int where "STALE_HOURS_DEFAULT = 24"

definition inflight_key :: "string \<Rightarrow> string" where
  "inflight_key cve_id = ''vulnx:in_flight:'' @ cve_id"

text \<open>A Redis that does not answer grants the claim.\<close>

definition claim_inflight :: "bool \<Rightarrow> rat \<Rightarrow> string \<Rightarrow> redis \<Rightarrow> redis \<times> bool" where
  "claim_inflight up now cve_id r = (if up then r_set_nx now (inflight_key cve_id) INFLIGHT_TTL ''1'' r else (r, True))"

definition release_inflight :: "bool \<Rightarrow> string \<Rightarrow> redis \<Rightarrow> redis" where
  "release_inflight up cve_id r = (if up then r_del (inflight_key cve_id) r else r)"

definition release_many :: "bool \<Rightarrow> string list \<Rightarrow> redis \<Rightarrow> redis" where
  "release_many up ids r = fold (release_inflight up) ids r"

text \<open>\<open>select_stale\<close> over the times of the last refresh; the first row of a CVE counts.\<close>

fun select_stale :: "int \<Rightarrow> int \<Rightarrow> string list \<Rightarrow> (string \<times> int option) list \<Rightarrow> string list" where
  "select_stale now hours seen [] = []"
| "select_stale now hours seen ((cid, upd) # rows) =
     (if cid = [] \<or> cid \<in> set seen then select_stale now hours seen rows
      else case upd of
        None \<Rightarrow> cid # select_stale now hours (cid # seen) rows
      | Some t \<Rightarrow>
          if t < now - hours * 3600000000 then cid # select_stale now hours (cid # seen) rows
          else select_stale now hours (cid # seen) rows)"

fun claim_all :: "bool \<Rightarrow> rat \<Rightarrow> string list \<Rightarrow> redis \<Rightarrow> redis \<times> string list" where
  "claim_all up now [] r = (r, [])"
| "claim_all up now (i # is) r = (case claim_inflight up now i r of (r', ok) \<Rightarrow>
     (case claim_all up now is r' of (r'', owned) \<Rightarrow> (r'', if ok then i # owned else owned)))"

text \<open>The tasks created and not yet run are a list of the CVEs each of them owns.\<close>

type_synonym circuit_map = "string \<rightharpoonup> breaker"

definition schedule_lazy_refresh ::
    "bool \<Rightarrow> rat \<Rightarrow> settings option \<Rightarrow> breaker option \<Rightarrow> string list \<Rightarrow> redis \<times> string list list \<Rightarrow> (redis \<times> string list list) \<times> int" where
  "schedule_lazy_refresh up now vulnx circuit ids s = (case s of (r, tasks) \<Rightarrow>
     if ids = [] \<or> \<not> opt_ex (\<lambda>st. vulnx_api_key st \<noteq> []) vulnx \<or> opt_ex (\<lambda>cb. cstate cb = OPEN) circuit then (s, 0)
     else (case claim_all up now ids r of (r', owned) \<Rightarrow>
       if owned = [] then ((r', tasks), 0) else ((r', tasks @ [owned]), int (length owned))))"

text \<open>\<open>_do_refresh\<close>: the task itself; a CVE vulnx does not know is stamped without \<open>updated_at\<close>.\<close>

definition stamp_not_found :: "int \<Rightarrow> string \<Rightarrow> db \<Rightarrow> db" where
  "stamp_not_found stamped i d = d\<lparr>db_cves := update_rows
     (\<lambda>c. cv_cve_id c = i \<and> cv_exploitability_updated_at c \<noteq> Some stamped)
     (\<lambda>c. c\<lparr>cv_exploitability_updated_at := Some stamped\<rparr>) (db_cves d)\<rparr>"

text \<open>\<open>_recompute_finding_priorities\<close>, a copy of the helper of \<open>Exploitability\<close> that reports no number.\<close>

definition recompute_lazy :: "int \<Rightarrow> int \<Rightarrow> string list \<Rightarrow> db \<Rightarrow> db" where
  "recompute_lazy now db_now ids d =
     (let rows = recompute_rows ids d in
      if rows = [] then d
      else (let changes = score_changes now rows in if changes = [] then d else fold (set_priority db_now) changes d))"

lemma recompute_lazy_mirrors: "recompute_lazy now db_now ids d = fst (recompute_finding_priorities now db_now ids d)"
  by (simp add: recompute_lazy_def recompute_finding_priorities_def Let_def score_changes_def)

definition store_lazy :: "vx_clock \<Rightarrow> string list \<Rightarrow> intel \<Rightarrow> db \<Rightarrow> db" where
  "store_lazy clk ids m d =
     (let found = List.map_filter (\<lambda>i. map_option (Pair i) (map_of m i)) ids; missing = filter (\<lambda>i. map_of m i = None) ids;
          d1 = fold (store_intel (vx_py clk) (vx_db clk)) found d;
          d2 = (if found = [] then d1 else recompute_lazy (vx_py clk) (vx_db clk) (map fst found) d1)
      in fold (stamp_not_found (vx_py clk)) missing d2)"

definition do_refresh ::
    "bool \<Rightarrow> vx_clock \<Rightarrow> (string list \<Rightarrow> (daily_counter, intel) action) \<Rightarrow> string list \<Rightarrow>
     breaker option \<Rightarrow> redis \<times> db \<times> daily_counter \<Rightarrow> breaker option \<times> (redis \<times> db \<times> daily_counter) \<times> unit result" where
  "do_refresh up clk fetch ids circuit s = (case s of (r, d, c) \<Rightarrow>
     (case (case circuit of
          None \<Rightarrow> (None, fetch ids c)
        | Some cb \<Rightarrow> (case cb_call (vx_enter clk) (vx_fail clk) (fetch ids) cb c of (cb', c', res) \<Rightarrow> (Some cb', c', res)))
      of (circuit', c', res) \<Rightarrow> (case res of
          Inl e \<Rightarrow> if is_exception e then (circuit', (release_many up ids r, d, c'), Inr ()) else (circuit', (r, d, c'), Inl e)
        | Inr m \<Rightarrow> (circuit', (release_many up ids r, store_lazy clk ids m d, c'), Inr ()))))"

section \<open>The engine\<close>

record query_world =
  qw_db :: db
  qw_redis :: redis
  qw_circuits :: circuit_map
  qw_tasks :: "string list list"

record query_env =
  qe_jtext :: "json \<Rightarrow> string"
  qe_loads :: "string \<Rightarrow> json option"
  qe_dumps :: "json \<Rightarrow> string"
  qe_circl :: circl_service
  qe_clock :: circl_clock
  qe_enter :: rat
  qe_fail :: rat
  qe_vulnx :: "settings option"
  qe_background :: bool
  qe_enrich :: bool
  qe_py :: int

definition maybe_schedule :: "query_env \<Rightarrow> query_result \<Rightarrow> query_world \<Rightarrow> query_world" where
  "maybe_schedule env res w =
     (if \<not> qe_enrich env \<or> qr_findings res = [] \<or> qe_vulnx env = None \<or> \<not> qe_background env then w
      else let ids = remdups (map fv_cve_id (qr_findings res));
               rows = map (\<lambda>c. (cv_cve_id c, cv_exploitability_updated_at c)) (filter (\<lambda>c. cv_cve_id c \<in> set ids) (t_rows (db_cves (qw_db w))));
               stale = select_stale (qe_py env) STALE_HOURS_DEFAULT [] rows in
        if stale = [] then w
        else case schedule_lazy_refresh (cl_get_ok (qe_clock env)) (cl_redis (qe_clock env)) (qe_vulnx env) (qw_circuits w ''vulnx'') stale
            (qw_redis w, qw_tasks w) of ((r, ts), _) \<Rightarrow> w\<lparr>qw_redis := r, qw_tasks := ts\<rparr>)"

definition local_only :: "query_result \<Rightarrow> query_result" where
  "local_only res = res\<lparr>qr_source := ''local_only''\<rparr>"

text \<open>The fallback, inside the breaker when there is one.\<close>

definition call_circl :: "query_env \<Rightarrow> int \<Rightarrow> string \<Rightarrow> query_world \<Rightarrow> query_world \<times> int result" where
  "call_circl env pid ncpe w =
     (let fetch = fetch_and_store (qe_loads env) (qe_dumps env) (qe_circl env) (qe_clock env) pid ncpe in
      case qw_circuits w ''circl'' of
        None \<Rightarrow> (case fetch (qw_redis w, qw_db w) of ((r, d), res) \<Rightarrow> (w\<lparr>qw_redis := r, qw_db := d\<rparr>, res))
      | Some cb \<Rightarrow> (case cb_call (qe_enter env) (qe_fail env) fetch cb (qw_redis w, qw_db w) of (cb', (r, d), res) \<Rightarrow>
          (w\<lparr>qw_redis := r, qw_db := d, qw_circuits := (qw_circuits w)(''circl'' \<mapsto> cb')\<rparr>, res)))"

definition query_cves_for_product :: "query_env \<Rightarrow> int \<Rightarrow> query_filters \<Rightarrow> (query_world, query_result) action" where
  "query_cves_for_product env pid q w = (case query_findings (qe_jtext env) pid q (qw_db w) of
     Inl e \<Rightarrow> (w, Inl e)
   | Inr res \<Rightarrow>
       if qr_total res > 0 then (maybe_schedule env res w, Inr res)
       else if opt_ex (\<lambda>cb. cstate cb = OPEN) (qw_circuits w ''circl'') then (w, Inr (local_only res))
       else if str_or_empty (get_product_cpe (qw_db w) pid) = [] then (w, Inr (local_only res))
       else (case call_circl env pid (str_or_empty (get_product_cpe (qw_db w) pid)) w of
           (w1, Inl e) \<Rightarrow> if is_exception e then (w1, Inr (local_only res)) else (w1, Inl e)
         | (w1, Inr k) \<Rightarrow>
             if k = 0 then (w1, Inr (local_only res))
             else (case query_findings (qe_jtext env) pid q (qw_db w1) of
                 Inl e \<Rightarrow> (w1, Inl e)
               | Inr res' \<Rightarrow> (maybe_schedule env res' w1, Inr (res'\<lparr>qr_source := ''local+circl''\<rparr>)))))"

section \<open>Properties\<close>

lemma inflight_prefix: "py_startswith (inflight_key i) ''vulnx:in_flight:''"
  unfolding inflight_key_def by (rule py_startswith_append)

lemma claim_one_other: "\<not> py_startswith k ''vulnx:in_flight:'' \<Longrightarrow> r_get t (fst (claim_inflight up now i r)) k = r_get t r k"
  using inflight_prefix [of i] by (auto simp: claim_inflight_def r_set_nx_def)

lemma claim_all_Cons: "claim_all up now (i # is) r =
    (let c = claim_inflight up now i r; a = claim_all up now is (fst c) in (fst a, if snd c then i # snd a else snd a))"
  by (simp add: Let_def split_def)

lemma claim_other: "\<not> py_startswith k ''vulnx:in_flight:'' \<Longrightarrow> r_get t (fst (claim_all up now ids r)) k = r_get t r k"
  by (induction ids arbitrary: r) (simp_all only: claim_all.simps(1) claim_all_Cons Let_def fst_conv claim_one_other not_False_eq_True)

lemma schedule_redis: "fst (fst (schedule_lazy_refresh up now vulnx circuit ids (r, tasks))) \<in> {r, fst (claim_all up now ids r)}"
  by (simp add: schedule_lazy_refresh_def split_def)

lemma maybe_schedule_cases: "\<exists>r ts. maybe_schedule env res w = w\<lparr>qw_redis := r, qw_tasks := ts\<rparr> \<and> (\<exists>up now ids. r \<in> {qw_redis w, fst (claim_all up now ids (qw_redis w))})"
proof (cases "maybe_schedule env res w = w")
  case True
  then show ?thesis by (intro exI [of _ "qw_redis w"] exI [of _ "qw_tasks w"]) simp
next
  case False
  then obtain up now vx cb stale where "maybe_schedule env res w =
      (case schedule_lazy_refresh up now vx cb stale (qw_redis w, qw_tasks w) of ((r, ts), _) \<Rightarrow> w\<lparr>qw_redis := r, qw_tasks := ts\<rparr>)"
    by (simp add: maybe_schedule_def Let_def split: if_splits)
  then show ?thesis using schedule_redis [of up now vx cb stale "qw_redis w" "qw_tasks w"]
    by (cases "schedule_lazy_refresh up now vx cb stale (qw_redis w, qw_tasks w)") (auto simp: split_def)
qed

lemma maybe_schedule_db [simp]: "qw_db (maybe_schedule env res w) = qw_db w" "qw_circuits (maybe_schedule env res w) = qw_circuits w"
  using maybe_schedule_cases [of env res w] by auto

lemma maybe_schedule_redis:
  "\<not> py_startswith k ''vulnx:in_flight:'' \<Longrightarrow> r_get t (qw_redis (maybe_schedule env res w)) k = r_get t (qw_redis w) k"
  using maybe_schedule_cases [of env res w] claim_other [of k t] by auto

lemma maybe_schedule_off: "\<not> qe_enrich env \<Longrightarrow> maybe_schedule env res w = w"
  by (simp add: maybe_schedule_def)

text \<open>What the mirror answers is the answer: when it has a finding, the query returns the mirror's result whatever
  CIRCL would say, changes neither the database nor a circuit breaker, and touches no key of Redis but the claims of the
  background refresh; without that refresh it changes nothing at all.\<close>

theorem mirror_answers_first:
  assumes "query_findings (qe_jtext env) pid q (qw_db w) = Inr res" and "qr_total res > 0"
  shows "snd (query_cves_for_product env pid q w) = Inr res \<and>
    (let w' = fst (query_cves_for_product env pid q w) in
       qw_db w' = qw_db w \<and> qw_circuits w' = qw_circuits w \<and> (qe_enrich env \<or> w' = w) \<and>
       (py_startswith k ''vulnx:in_flight:'' \<or> r_get t (qw_redis w') k = r_get t (qw_redis w) k))"
  using assms maybe_schedule_redis [of k t env res w] maybe_schedule_off [of env res w] by (auto simp: query_cves_for_product_def Let_def)

text \<open>A sequence of queries, each with its own clock and answers of the services.\<close>

definition run_queries :: "(query_env \<times> int \<times> query_filters) list \<Rightarrow> query_world \<Rightarrow> query_world" where
  "run_queries qs w = foldl (\<lambda>w (env, pid, q). fst (query_cves_for_product env pid q w)) w qs"

text \<open>An open breaker of the fallback stays open: no sequence of queries, at whatever times and with whatever answers,
  closes it, stores anything or changes any breaker, although its recovery time may be long over.\<close>

theorem open_fallback_stays_open:
  assumes "qw_circuits w ''circl'' = Some cb" and "cstate cb = OPEN"
  shows "qw_circuits (run_queries qs w) = qw_circuits w \<and> qw_db (run_queries qs w) = qw_db w"
  using assms
proof (induction qs arbitrary: w)
  case Nil
  then show ?case by (simp add: run_queries_def)
next
  case (Cons x qs)
  obtain env pid q where x: "x = (env, pid, q)" by (cases x)
  let ?w = "fst (query_cves_for_product env pid q w)"
  have "qw_circuits ?w = qw_circuits w \<and> qw_db ?w = qw_db w"
    using Cons.prems by (auto simp: query_cves_for_product_def split: sum.splits)
  then show ?case using Cons.IH [of ?w] Cons.prems by (simp add: x run_queries_def)
qed

lemma insert_stubs_link:
  assumes "list_all (\<lambda>i. cve_by_id d i \<noteq> None) ids" and "product_by_id d pid \<noteq> None"
  shows "\<exists>d'. insert_stubs now pid ids d = Inr d' \<and> only_adds pid d d' \<and>
    (\<forall>i \<in> set ids. \<exists>f \<in> set (t_rows (db_findings d')). fd_product_id f = pid \<and> fd_cve_id f = i)"
  using assms
proof (induction ids arbitrary: d)
  case Nil
  then show ?case by simp
next
  case (Cons i ids)
  obtain d1 where d1: "insert_stub now pid d i = Inr d1" "only_adds pid d d1" "db_cves d1 = db_cves d" "db_products d1 = db_products d"
      "\<exists>f \<in> set (t_rows (db_findings d1)). fd_product_id f = pid \<and> fd_cve_id f = i"
  proof
    let ?d1 = "case insert_stub now pid d i of Inr e \<Rightarrow> e | Inl _ \<Rightarrow> d"
    show ins: "insert_stub now pid d i = Inr ?d1" using Cons.prems by (auto simp: insert_stub_def)
    show "only_adds pid d ?d1" using insert_stub_adds [OF ins] .
    show "db_cves ?d1 = db_cves d" "db_products ?d1 = db_products d" using Cons.prems by (auto simp: insert_stub_def)
    show "\<exists>f \<in> set (t_rows (db_findings ?d1)). fd_product_id f = pid \<and> fd_cve_id f = i"
      using Cons.prems by (auto simp: insert_stub_def insert_row_def Let_def list_ex_iff stub_finding_def)
  qed
  have "list_all (\<lambda>i. cve_by_id d1 i \<noteq> None) ids" "product_by_id d1 pid \<noteq> None"
    using Cons.prems d1(3,4) by (simp_all add: cve_by_id_def product_by_id_def)
  from Cons.IH [OF this] obtain d2 where d2: "insert_stubs now pid ids d1 = Inr d2" "only_adds pid d1 d2"
      "\<forall>i \<in> set ids. \<exists>f \<in> set (t_rows (db_findings d2)). fd_product_id f = pid \<and> fd_cve_id f = i" by blast
  have "set (t_rows (db_findings d1)) \<subseteq> set (t_rows (db_findings d2))"
    using d2(2) unfolding only_adds_def extended_iff by auto
  then show ?case using d1 d2 only_adds_trans [OF d1(2) d2(2)] by (auto simp: bind_r_Inr)
qed

text \<open>The fallback answered from its cache is not shown: the findings it links to the product are stored, but the query
  that stored them returns none and says that nothing but the mirror was asked.\<close>

theorem cached_fallback_not_shown:
  assumes local: "query_findings (qe_jtext env) pid q (qw_db w) = Inr res" "qr_total res = 0"
    and product: "product_by_id (qw_db w) pid = Some p" "pr_normalized_cpe p = Some ncpe"
    and ncpe: "parse_cpe_vendor_product ncpe = Some (vendor @ '':'' @ product)" "CHR '':'' \<notin> set vendor" "CHR '':'' \<notin> set product"
    and cached: "r_get (cl_redis (qe_clock env)) (qw_redis w) (circl_key vendor product) = Some s" "s \<noteq> []"
      "qe_loads env s = Some (JArr (map JStr ids))" and known: "list_all (\<lambda>i. cve_by_id (qw_db w) i \<noteq> None) ids" "ids \<noteq> []"
    and ready: "cl_get_ok (qe_clock env)" "\<not> opt_ex (\<lambda>cb. cstate cb = OPEN) (qw_circuits w ''circl'')"
  shows "case query_cves_for_product env pid q w of (w', r) \<Rightarrow>
      r = Inr (local_only res) \<and> qr_findings res = [] \<and>
      list_all (\<lambda>i. list_ex (\<lambda>f. fd_product_id f = pid \<and> fd_cve_id f = i) (t_rows (db_findings (qw_db w')))) ids"
proof -
  let ?fetch = "fetch_and_store (qe_loads env) (qe_dumps env) (qe_circl env) (qe_clock env) pid ncpe"
  have n: "ncpe \<noteq> []" using ncpe(1) by (auto simp: parse_cpe_vendor_product_def)
  have split: "py_split CHR '':'' (vendor @ '':'' @ product) = [vendor, product]"
    using ncpe(2,3) by (simp add: py_split_append py_split_single)
  have texts: "map_r text_param (map JStr xs) = Inr xs" for xs by (induction xs) (simp_all add: text_param_def)
  obtain d' where d': "insert_stubs (cl_db (qe_clock env)) pid ids (qw_db w) = Inr d'"
      "\<forall>i \<in> set ids. \<exists>f \<in> set (t_rows (db_findings d')). fd_product_id f = pid \<and> fd_cve_id f = i"
    using insert_stubs_link [OF known(1)] product(1) by fastforce
  have fetch: "?fetch (qw_redis w, qw_db w) = ((qw_redis w, d'), Inr 0)"
    using ncpe(1) split ready(1) cached known(2) texts d'(1)
    by (simp add: fetch_and_store_def Let_def str_or_empty_def link_cached_def iterate_def)
  have call: "\<exists>cs. call_circl env pid ncpe w = (w\<lparr>qw_db := d', qw_circuits := cs\<rparr>, Inr 0)"
  proof (cases "qw_circuits w ''circl''")
    case None
    then show ?thesis using fetch by (auto simp: call_circl_def Let_def intro: exI [of _ "qw_circuits w"])
  next
    case (Some cb)
    then have "admit (qe_enter env) cb = Inr cb" using ready(2) by (simp add: admit_def)
    then show ?thesis using fetch Some by (auto simp: call_circl_def Let_def cb_call_def)
  qed
  have "qr_findings res = []" using local by (auto simp: query_findings_def Let_def split: if_splits)
  then show ?thesis using local product n call ready(2) d'(2)
    by (auto simp: query_cves_for_product_def get_product_cpe_def str_or_empty_def list_all_iff list_ex_iff)
qed

definition schedule_calls ::
    "settings option \<Rightarrow> (rat \<times> breaker option \<times> string list) list \<Rightarrow> redis \<times> string list list \<Rightarrow> redis \<times> string list list" where
  "schedule_calls vulnx calls s = foldl (\<lambda>s (t, circuit, ids). fst (schedule_lazy_refresh True t vulnx circuit ids s)) s calls"

text \<open>The claims of some CVEs last until an instant.\<close>

definition held :: "rat \<Rightarrow> redis \<Rightarrow> string list \<Rightarrow> bool" where
  "held until r ids \<longleftrightarrow> (\<forall>i \<in> set ids. \<forall>t < until. r_get t r (inflight_key i) \<noteq> None)"

lemma inflight_key_inj [simp]: "inflight_key i = inflight_key j \<longleftrightarrow> i = j"
  by (simp add: inflight_key_def)

lemma held_append: "held until r (is @ js) \<longleftrightarrow> held until r is \<and> held until r js"
  by (auto simp: held_def)

lemma claim_one:
  assumes "claim_inflight True now i r = (r', ok)" and "now < until" and "until \<le> now + 60"
  shows "held until r ids \<Longrightarrow> held until r' ids" and "ok \<Longrightarrow> held until r' [i] \<and> r_get now r (inflight_key i) = None"
    and "\<not> ok \<Longrightarrow> r' = r"
  using assms by (auto simp: claim_inflight_def r_set_nx_def held_def INFLIGHT_TTL_def split: if_splits)

lemma claim_all_owned:
  assumes "now < until" and "until \<le> now + 60"
  shows "claim_all True now is r = (r', owned) \<Longrightarrow> held until r ids \<Longrightarrow>
    held until r' (ids @ owned) \<and> distinct owned \<and> set ids \<inter> set owned = {}"
proof (induction "is" arbitrary: r owned ids)
  case Nil
  then show ?case by simp
next
  case (Cons i "is")
  obtain r1 ok where c: "claim_inflight True now i r = (r1, ok)" by (cases "claim_inflight True now i r")
  obtain own where a: "claim_all True now is r1 = (r', own)" "owned = (if ok then i # own else own)"
    using Cons.prems(1) c by (auto split: prod.splits)
  note one = claim_one [OF c assms]
  show ?case
  proof (cases ok)
    case False
    then show ?thesis using Cons.IH [OF a(1)] one(3) Cons.prems(2) a(2) by simp
  next
    case True
    have new: "i \<notin> set ids" using one(2) [OF True] Cons.prems(2) assms(1) unfolding held_def by blast
    have "held until r1 (ids @ [i])" using one(1,2) True Cons.prems(2) by (simp add: held_append)
    from Cons.IH [OF a(1) this] show ?thesis using new True a(2) by auto
  qed
qed


section \<open>Witnesses\<close>

definition demo_cve :: cve_row where
  "demo_cve = new_cve 0 \<lparr>cvv_cve_id = ''CVE-2024-1'', cvv_source = ''circl'', cvv_raw_payload = JNull, cvv_cvss_v3_score = None,
     cvv_cvss_v3_vector = None, cvv_cvss_v2_score = Some 9, cvv_severity = Some ''CRITICAL'', cvv_published_at = 0,
     cvv_last_modified_at = 0\<rparr> 1"

definition known_db :: db where
  "known_db = demo_db\<lparr>db_cves := \<lparr>t_rows = [demo_cve], t_serial = 1\<rparr>\<rparr>"

definition linked_db :: db where
  "linked_db = known_db\<lparr>db_findings := \<lparr>t_rows = [stub_finding 0 3 ''CVE-2024-1'' 1], t_serial = 1\<rparr>\<rparr>"

definition demo_env :: query_env where
  "demo_env = \<lparr>qe_jtext = \<lambda>_. [], qe_loads = demo_loads, qe_dumps = demo_dumps, qe_circl = demo_service,
     qe_clock = \<lparr>cl_redis = 5, cl_db = 0, cl_get_ok = True, cl_set_ok = True\<rparr>, qe_enter = 0, qe_fail = 0,
     qe_vulnx = None, qe_background = False, qe_enrich = False, qe_py = 0\<rparr>"

definition demo_world :: "db \<Rightarrow> query_world" where
  "demo_world d = \<lparr>qw_db = d, qw_redis = [(circl_key ''f5'' ''nginx'', ''i'', None)],
     qw_circuits = map_of build_circuit_breakers, qw_tasks = []\<rparr>"

theorem mirror_answers_first_witness:
  "fst (query_cves_for_product demo_env 3 no_filters (demo_world linked_db)) = demo_world linked_db"
proof -
  obtain res where r: "query_findings (qe_jtext demo_env) 3 no_filters (qw_db (demo_world linked_db)) = Inr res" "qr_total res > 0"
  proof -
    have "case query_findings (qe_jtext demo_env) 3 no_filters (qw_db (demo_world linked_db)) of Inr res \<Rightarrow> qr_total res > 0 | Inl _ \<Rightarrow> False"
      by code_simp
    then show thesis using that by (auto split: sum.splits)
  qed
  show ?thesis using mirror_answers_first [OF r] by (simp add: Let_def demo_env_def)
qed

theorem open_fallback_stays_open_witness:
  "qw_circuits (run_queries [(demo_env, 3, no_filters)] ((demo_world known_db)\<lparr>qw_circuits := [''circl'' \<mapsto>
     (new_breaker ''circl'' 3 300)\<lparr>cstate := OPEN\<rparr>]\<rparr>)) ''circl'' = Some ((new_breaker ''circl'' 3 300)\<lparr>cstate := OPEN\<rparr>)"
  using open_fallback_stays_open [of "(demo_world known_db)\<lparr>qw_circuits := [''circl'' \<mapsto> (new_breaker ''circl'' 3 300)\<lparr>cstate := OPEN\<rparr>]\<rparr>"
      "(new_breaker ''circl'' 3 300)\<lparr>cstate := OPEN\<rparr>" "[(demo_env, 3, no_filters)]"] by simp

theorem cached_fallback_not_shown_witness:
  "case query_cves_for_product demo_env 3 no_filters (demo_world known_db) of (w', r) \<Rightarrow>
     list_all (\<lambda>i. list_ex (\<lambda>f. fd_product_id f = 3 \<and> fd_cve_id f = i) (t_rows (db_findings (qw_db w')))) [''CVE-2024-1'']"
proof -
  obtain res where r: "query_findings (qe_jtext demo_env) 3 no_filters (qw_db (demo_world known_db)) = Inr res" "qr_total res = 0"
  proof -
    have "case query_findings (qe_jtext demo_env) 3 no_filters (qw_db (demo_world known_db)) of Inr res \<Rightarrow> qr_total res = 0 | Inl _ \<Rightarrow> False"
      by code_simp
    then show thesis using that by (auto split: sum.splits)
  qed
  have h: "product_by_id (qw_db (demo_world known_db)) 3 = Some nginx" "pr_normalized_cpe nginx = Some ''cpe:2.3:a:f5:nginx:1.18.0:*''"
    "parse_cpe_vendor_product ''cpe:2.3:a:f5:nginx:1.18.0:*'' = Some (''f5'' @ '':'' @ ''nginx'')"
    "CHR '':'' \<notin> set ''f5''" "CHR '':'' \<notin> set ''nginx''"
    "r_get (cl_redis (qe_clock demo_env)) (qw_redis (demo_world known_db)) (circl_key ''f5'' ''nginx'') = Some ''i''" "''i'' \<noteq> []"
    "qe_loads demo_env ''i'' = Some (JArr (map JStr [''CVE-2024-1'']))"
    "list_all (\<lambda>i. cve_by_id (qw_db (demo_world known_db)) i \<noteq> None) [''CVE-2024-1'']" "[''CVE-2024-1''] \<noteq> []"
    "cl_get_ok (qe_clock demo_env)" "\<not> opt_ex (\<lambda>cb. cstate cb = OPEN) (qw_circuits (demo_world known_db) ''circl'')"
    by code_simp+
  show ?thesis using cached_fallback_not_shown [OF r h] by auto
qed


end
