(* ===== verification/Intel.thy ===== *)
theory Intel
  imports Dashboard Query_Engine
begin

text \<open>
  \<open>app/api/routers/intel.py\<close>: everything known about one CVE, with a refresh from vulnx on demand. The driver
  hands out a JSONB column as text: its rendering \<open>jtext\<close>, \<open>json.loads\<close> and \<open>json.dumps\<close> of the payload are
  arguments; a payload is a record of its parts.
\<close>

section \<open>Helpers\<close>

definition hours_since :: "int \<Rightarrow> int option \<Rightarrow> rat option" where
  "hours_since now ts = map_option (\<lambda>t. round2 (of_int (now - t) / 3600000000)) ts"

definition source_tag :: "bool \<Rightarrow> bool \<Rightarrow> string" where
  "source_tag refreshed vulnx_available =
     (if refreshed then ''local+vulnx'' else if vulnx_available then ''local'' else ''local_only'')"

text \<open>\<open>(w or {}).get(k) or []\<close>.\<close>

definition get_or_nil :: "json \<Rightarrow> string \<Rightarrow> json result" where
  "get_or_nil w k = bind_r (as_dict (if json_truthy w then w else JObj [])) (\<lambda>kvs. Inr (case obj_get kvs k of
     Some v \<Rightarrow> if json_truthy v then v else JArr [] | None \<Rightarrow> JArr []))"

definition cwe_text :: "json \<Rightarrow> string option" where
  "cwe_text d = (case d of
      JObj kvs \<Rightarrow> (case obj_get kvs ''value'' of Some (JStr s) \<Rightarrow> if py_startswith s ''CWE-'' then Some s else None | _ \<Rightarrow> None)
    | _ \<Rightarrow> None)"

definition add_new :: "string list \<Rightarrow> string option \<Rightarrow> string list" where
  "add_new out s = (case s of None \<Rightarrow> out | Some x \<Rightarrow> if x \<in> set out then out else out @ [x])"

fun cwe_loop :: "json list \<Rightarrow> string list \<Rightarrow> string list result" where
  "cwe_loop [] out = Inr out"
| "cwe_loop (w # ws) out = bind_r (get_or_nil w ''description'') (\<lambda>descs. case descs of
      JArr ds \<Rightarrow> cwe_loop ws (foldl add_new out (map cwe_text ds))
    | _ \<Rightarrow> cwe_loop ws out)"

definition extract_cwe :: "json \<Rightarrow> string list result" where
  "extract_cwe raw = (case raw of
      JObj kvs \<Rightarrow> (case obj_get kvs ''weaknesses'' of Some (JArr ws) \<Rightarrow> cwe_loop ws [] | _ \<Rightarrow> Inr [])
    | _ \<Rightarrow> Inr [])"

text \<open>A reference: its URL and its first tag; a tag that is no text is put out as it is.\<close>

definition reference_of :: "json \<Rightarrow> (string \<times> json) option" where
  "reference_of r = (case r of
      JObj kvs \<Rightarrow> (case obj_get kvs ''url'' of
          Some (JStr url) \<Rightarrow> Some (url, (case obj_get kvs ''tags'' of
              Some (JArr (t # _)) \<Rightarrow> if json_truthy t then t else JStr ''reference'' | _ \<Rightarrow> JStr ''reference''))
        | _ \<Rightarrow> None)
    | _ \<Rightarrow> None)"

definition extract_references :: "json \<Rightarrow> (string \<times> json) list" where
  "extract_references raw = (case raw of
      JObj kvs \<Rightarrow> (case obj_get kvs ''references'' of Some (JArr rs) \<Rightarrow> List.map_filter reference_of rs | _ \<Rightarrow> [])
    | _ \<Rightarrow> [])"

section \<open>The route\<close>

record intel_view =
  iv_cve :: cve_row
  iv_source :: string
  iv_description :: "string option"
  iv_cwe :: "string list"
  iv_has_public_poc :: "bool option"
  iv_has_nuclei_template :: "bool option"
  iv_poc_urls :: "string list"
  iv_template_paths :: "string list"
  iv_references :: "(string \<times> json) list"
  iv_affected :: "(product_row \<times> finding_row) list"
  iv_score :: int
  iv_label :: "string \<times> string"
  iv_factors :: factors
  iv_age_hours :: "rat option"
  iv_degraded_reason :: "string option"

record intel_env =
  ie_jtext :: "json \<Rightarrow> string"
  ie_loads :: "string \<Rightarrow> json option"
  ie_dumps :: "intel_view \<Rightarrow> string"
  ie_collate :: "string \<Rightarrow> string \<Rightarrow> bool"
  ie_settings :: settings
  ie_vulnx :: "settings option"
  ie_fetch :: "string list \<Rightarrow> (daily_counter, intel) action"
  ie_up :: bool
  ie_time :: rat
  ie_clock :: vx_clock

record intel_world =
  iw_db :: db
  iw_redis :: redis
  iw_counter :: daily_counter
  iw_circuit :: "breaker option"

text \<open>A cached payload is marked; one without \<open>_meta\<close> counts as corrupt, one that is no object raises.\<close>

definition cached_intel :: "(string \<Rightarrow> json option) \<Rightarrow> string option \<Rightarrow> json option result" where
  "cached_intel loads cached = (case cached of
      None \<Rightarrow> Inr None
    | Some s \<Rightarrow> if s = [] then Inr None
        else (case loads s of
          None \<Rightarrow> Inr None
        | Some (JObj kvs) \<Rightarrow> (case obj_get kvs ''_meta'' of
            None \<Rightarrow> Inr None
          | Some (JObj ms) \<Rightarrow> Inr (Some (JObj (dict_put ''_meta'' (JObj (dict_put ''cache_hit'' (JBool True) ms)) kvs)))
          | Some _ \<Rightarrow> Inl (TypeError ''object does not support item assignment''))
        | Some _ \<Rightarrow> Inl (TypeError ''indices must be integers'')))"

definition affected_le :: "(string \<Rightarrow> string \<Rightarrow> bool) \<Rightarrow> product_row \<times> finding_row \<Rightarrow> product_row \<times> finding_row \<Rightarrow> bool" where
  "affected_le collate a b = (let pa = fd_priority_score (snd a); pb = fd_priority_score (snd b) in
     if pa = pb then collate (pr_name (fst a)) (pr_name (fst b)) else nulls_last (\<ge>) pa pb)"

text \<open>
  The call of vulnx: the record it has, and why the answer is degraded, if it is. Only an exception that is none
  of \<open>Exception\<close> leaves the route.
\<close>

definition vulnx_open :: "breaker option \<Rightarrow> bool" where
  "vulnx_open circuit = opt_ex (\<lambda>cb. cstate cb = OPEN) circuit"

definition call_vulnx :: "intel_env \<Rightarrow> string \<Rightarrow> intel_world \<Rightarrow> intel_world \<times> intel result" where
  "call_vulnx env cve_id w = (case iw_circuit w of
      None \<Rightarrow> (case ie_fetch env [cve_id] (iw_counter w) of (c, r) \<Rightarrow> (w\<lparr>iw_counter := c\<rparr>, r))
    | Some cb \<Rightarrow> (case cb_call (vx_enter (ie_clock env)) (vx_fail (ie_clock env)) (ie_fetch env [cve_id]) cb (iw_counter w) of
        (cb', c, r) \<Rightarrow> (w\<lparr>iw_counter := c, iw_circuit := Some cb'\<rparr>, r)))"

definition refresh_intel :: "intel_env \<Rightarrow> bool \<Rightarrow> string \<Rightarrow> intel_world \<Rightarrow> intel_world \<times> (intel_record option \<times> string option) result" where
  "refresh_intel env refresh cve_id w =
     (if \<not> (refresh \<and> opt_ex (\<lambda>st. vulnx_api_key st \<noteq> []) (ie_vulnx env)) then (w, Inr (None, None))
      else if vulnx_open (iw_circuit w) then (w, Inr (None, Some ''vulnx_circuit_open''))
      else (case call_vulnx env cve_id w of
          (w', Inr m) \<Rightarrow> (case map_of m cve_id of
              None \<Rightarrow> (w', Inr (None, None))
            | Some rec \<Rightarrow> (w'\<lparr>iw_db := store_intel (vx_py (ie_clock env)) (vx_db (ie_clock env)) (cve_id, rec) (iw_db w')\<rparr>, Inr (Some rec, None)))
        | (w', Inl e) \<Rightarrow> (case e of
            CircuitOpenError n \<Rightarrow> (w', Inr (None, Some (''vulnx_circuit_open:'' @ exc_str e)))
          | _ \<Rightarrow> if is_exception e then (w', Inr (None, Some ''vulnx_error'')) else (w', Inl e))))"

definition view_of :: "intel_env \<Rightarrow> cve_row \<Rightarrow> (product_row \<times> finding_row) list \<Rightarrow> intel_record option \<Rightarrow> string option \<Rightarrow> intel_view result" where
  "view_of env c affs rec degraded =
     (let poc = (case rec of Some i \<Rightarrow> Some (ir_has_public_poc i) | None \<Rightarrow> cv_has_public_poc c);
          nuclei = (case rec of Some i \<Rightarrow> Some (ir_has_nuclei_template i) | None \<Rightarrow> cv_has_nuclei_template c);
          sg = recompute_signals (c\<lparr>cv_has_public_poc := poc, cv_has_nuclei_template := nuclei\<rparr>);
          now = vx_py (ie_clock env); score = compute_priority_score (utc now) sg; raw = JStr (ie_jtext env (cv_raw_payload c))
      in bind_r (extract_cwe raw) (\<lambda>cwe. Inr
        \<lparr>iv_cve = c, iv_source = source_tag (rec \<noteq> None) (ie_vulnx env \<noteq> None),
         iv_description = description_of (ie_jtext env) (cv_raw_payload c), iv_cwe = cwe,
         iv_has_public_poc = poc, iv_has_nuclei_template = nuclei,
         iv_poc_urls = (case rec of Some i \<Rightarrow> ir_poc_urls i | None \<Rightarrow> []),
         iv_template_paths = (case rec of Some i \<Rightarrow> ir_template_paths i | None \<Rightarrow> []),
         iv_references = extract_references raw, iv_affected = affs, iv_score = score, iv_label = get_priority_label score,
         iv_factors = compute_priority_factors (utc now) sg, iv_age_hours = hours_since now (cv_exploitability_updated_at c),
         iv_degraded_reason = degraded\<rparr>))"

definition cve_intel :: "intel_env \<Rightarrow> string \<Rightarrow> bool \<Rightarrow> (intel_world, intel_view answer) action" where
  "cve_intel env cve refresh w =
     (let i = py_upper cve; key = ''intel:'' @ i in
      if \<not> is_cve_id i then (w, Inl (HttpException 400 ''Invalid CVE ID format''))
      else (case (if refresh then Inr None else cached_intel (ie_loads env) (get_cached (ie_up env) (ie_time env) (iw_redis w) key)) of
          Inl e \<Rightarrow> (w, Inl e)
        | Inr (Some v) \<Rightarrow> (w, Inr (Cached v))
        | Inr None \<Rightarrow> (case cve_by_id (iw_db w) i of
            None \<Rightarrow> (w, Inl (HttpException 404 (i @ '' not found'')))
          | Some c \<Rightarrow>
              (let affs = take 200 (order_by (affected_le (ie_collate env)) (affected_products i (iw_db w))) in
               case refresh_intel env refresh i w of
                 (w', Inl e) \<Rightarrow> (w', Inl e)
               | (w', Inr (rec, degraded)) \<Rightarrow> (case view_of env c affs rec degraded of
                   Inl e \<Rightarrow> (w', Inl e)
                 | Inr v \<Rightarrow> (w'\<lparr>iw_redis := (if degraded = None
                     then set_cached (ie_up env) (ie_time env) key (ie_dumps env v) (intel_cache_ttl_seconds (ie_settings env)) (iw_redis w')
                     else iw_redis w')\<rparr>, Inr (Fresh v)))))))"

section \<open>Properties\<close>

lemma view_of_ok: "\<exists>v. view_of env c a rec deg = Inr v \<and> iv_cwe v = [] \<and> iv_references v = [] \<and> iv_degraded_reason v = deg \<and>
    iv_score v = compute_priority_score (utc (vx_py (ie_clock env))) (recompute_signals (c\<lparr>
      cv_has_public_poc := (case rec of Some i \<Rightarrow> Some (ir_has_public_poc i) | None \<Rightarrow> cv_has_public_poc c),
      cv_has_nuclei_template := (case rec of Some i \<Rightarrow> Some (ir_has_nuclei_template i) | None \<Rightarrow> cv_has_nuclei_template c)\<rparr>))"
  by (simp add: view_of_def extract_cwe_def extract_references_def Let_def)

lemma call_vulnx_db: "call_vulnx env i w = (w', r) \<Longrightarrow> iw_db w' = iw_db w \<and> iw_redis w' = iw_redis w"
  by (auto simp: call_vulnx_def split: option.splits prod.splits)

text \<open>How a refresh ends for a CVE of the mirror, when it is not cancelled.\<close>

lemma refresh_outcome:
  assumes "\<And>s. snd (ie_fetch env [i] s) \<noteq> Inl Cancelled"
  shows "\<exists>w' rec deg. refresh_intel env refresh i w = (w', Inr (rec, deg)) \<and> iw_redis w' = iw_redis w \<and>
    (rec = None \<longrightarrow> iw_db w' = iw_db w)"
proof (cases "call_vulnx env i w")
  case (Pair w1 r)
  note k = call_vulnx_db [OF Pair]
  have "r \<noteq> Inl Cancelled"
  proof
    assume "r = Inl Cancelled"
    then show False using Pair assms [of "iw_counter w"]
      by (auto simp: call_vulnx_def cb_call_def admit_def split: option.splits prod.splits sum.splits py_exn.splits if_splits)
  qed
  then show ?thesis using k
    by (auto simp: refresh_intel_def Pair is_exception_def split: sum.splits option.splits py_exn.splits)
qed

text \<open>A refresh never makes the page fail: for a CVE of the mirror the route answers whatever vulnx does, with the priority
  of what the mirror and vulnx say; an answer without vulnx's says why and leaves cache and database as they are, so
  that the next request tries again, and a complete one is cached for the configured time.\<close>

theorem intel_survives_vulnx:
  assumes "is_cve_id (py_upper cve)" and "cve_by_id (iw_db w) (py_upper cve) = Some c"
    and "\<And>s. snd (ie_fetch env [py_upper cve] s) \<noteq> Inl Cancelled" and "0 < intel_cache_ttl_seconds (ie_settings env)" and "ie_up env"
  shows "\<exists>w' v. cve_intel env cve True w = (w', Inr (Fresh v)) \<and> iv_cve v = c \<and>
    (case iv_degraded_reason v of
       Some _ \<Rightarrow> iw_redis w' = iw_redis w \<and> iw_db w' = iw_db w
     | None \<Rightarrow> \<forall>t < ie_time env + of_int (intel_cache_ttl_seconds (ie_settings env)).
         r_get t (iw_redis w') (''intel:'' @ py_upper cve) = Some (ie_dumps env v))"
proof -
  let ?aff = "take 200 (order_by (affected_le (ie_collate env)) (affected_products (py_upper cve) (iw_db w)))"
  obtain w1 rec deg where r: "refresh_intel env True (py_upper cve) w = (w1, Inr (rec, deg))" "iw_redis w1 = iw_redis w"
      "rec = None \<longrightarrow> iw_db w1 = iw_db w"
    using refresh_outcome [OF assms(3)] by blast
  have deg: "deg \<noteq> None \<longrightarrow> rec = None"
    using r(1) by (auto simp: refresh_intel_def split: if_splits sum.splits prod.splits option.splits py_exn.splits)
  obtain v where v: "view_of env c ?aff rec deg = Inr v" "iv_degraded_reason v = deg" using view_of_ok by blast
  have "iv_cve v = c" using v(1) by (auto simp: view_of_def Let_def bind_r_Inr)
  then show ?thesis using assms(1,2,4,5) r v deg
    by (auto simp: cve_intel_def Let_def set_cached_def r_setex_def split: option.splits)
qed

text \<open>The page never shows a weakness or a reference: both are read from a dict, and the column arrives as text. For every CVE,
  whatever its record holds, the lists are empty.\<close>

theorem intel_shows_no_references:
  "case snd (cve_intel env cve refresh w) of Inr (Fresh v) \<Rightarrow> iv_cwe v = [] \<and> iv_references v = [] | _ \<Rightarrow> True"
proof -
  have "view_of env c a rec deg = Inr v \<Longrightarrow> iv_cwe v = [] \<and> iv_references v = []" for c a rec deg v
    using view_of_ok [of env c a rec deg] by auto
  then show ?thesis by (auto simp: cve_intel_def Let_def split: sum.splits prod.splits option.splits answer.splits)
qed

text \<open>What the helpers would find in the record itself.\<close>

lemma extract_samples:
  "extract_cwe (JObj [(''weaknesses'', JArr [JObj [(''description'', JArr [JObj [(''value'', JStr ''CWE-79'')], JObj [(''value'', JStr ''CWE-79'')],
     JObj [(''value'', JStr ''NVD-CWE-Other'')]])]])]) = Inr [''CWE-79'']"
  "extract_references (JObj [(''references'', JArr [JObj [(''url'', JStr ''u''), (''tags'', JArr [JStr ''Patch''])], JObj [(''url'', JStr ''v'')]])]) =
     [(''u'', JStr ''Patch''), (''v'', JStr ''reference'')]"
  by code_simp+

section \<open>Witness\<close>

definition demo_intel_env :: intel_env where
  "demo_intel_env = \<lparr>ie_jtext = \<lambda>_. [], ie_loads = \<lambda>_. None, ie_dumps = \<lambda>_. ''v'', ie_collate = \<lambda>_ _. True,
     ie_settings = default_settings, ie_vulnx = Some (default_settings\<lparr>vulnx_api_key := ''k''\<rparr>),
     ie_fetch = \<lambda>_ s. (s, Inl (HttpError ''timeout'')), ie_up = True, ie_time = 0,
     ie_clock = \<lparr>vx_enter = 0, vx_fail = 0, vx_db = 0, vx_py = 0\<rparr>\<rparr>"

definition demo_intel_world :: intel_world where
  "demo_intel_world = \<lparr>iw_db = known_db, iw_redis = [], iw_counter = \<lparr>dc_limit = 5, dc_count = 0, dc_day = 0\<rparr>,
     iw_circuit = Some (new_breaker ''vulnx'' 5 180)\<rparr>"

theorem intel_survives_vulnx_witness:
  "\<exists>w' v. cve_intel demo_intel_env ''cve-2024-1'' True demo_intel_world = (w', Inr (Fresh v)) \<and> iv_cve v = demo_cve"
proof -
  have "is_cve_id (py_upper ''cve-2024-1'')" "cve_by_id (iw_db demo_intel_world) (py_upper ''cve-2024-1'') = Some demo_cve"
    "0 < intel_cache_ttl_seconds (ie_settings demo_intel_env)" "ie_up demo_intel_env" by code_simp+
  moreover have "snd (ie_fetch demo_intel_env [py_upper ''cve-2024-1''] s) \<noteq> Inl Cancelled" for s by (simp add: demo_intel_env_def)
  ultimately show ?thesis using intel_survives_vulnx [of "''cve-2024-1''" demo_intel_world demo_cve demo_intel_env] by blast
qed

end
