(* ===== verification/Live.thy ===== *)
theory Live
  imports Dashboard Nvd_Clients
begin

text \<open>
  \<open>app/api/routers/live.py\<close>: the search in the NVD itself. The NVD is an argument that answers a query of given
  parameters, page size and start index; \<open>json.loads\<close> and \<open>json.dumps\<close> are arguments. Times are shown in UTC, and the
  texts of error messages are shortened.
\<close>

section \<open>The request\<close>

definition LIVE_TTL :: int where "LIVE_TTL = 120"

record live_query =
  lq_q :: "string option"
  lq_cpe :: "string option"
  lq_id :: "string option"
  lq_severity :: "string option"
  lq_from :: "string option"
  lq_to :: "string option"
  lq_page :: int
  lq_limit :: int

text \<open>\<open>strftime("%Y-%m-%dT%H:%M:%S.000")\<close>; a text that is no date is passed on as it is.\<close>

definition nvd_fmt :: "string \<Rightarrow> string" where
  "nvd_fmt s = (case datetime_fromisoformat s of
      None \<Rightarrow> s
    | Some t \<Rightarrow> (case civil_from_days (wall t div day_us) of (y, m, d) \<Rightarrow> (let secs = wall t mod day_us div 1000000 in
        py_str_int y @ ''-'' @ two m @ ''-'' @ two d @ ''T'' @ two (secs div 3600) @ '':'' @ two (secs div 60 mod 60) @ '':'' @
        two (secs mod 60) @ ''.000'')))"

definition param :: "string \<Rightarrow> string \<Rightarrow> (string \<times> json) list" where
  "param k s = (if s = [] then [] else [(k, JStr s)])"

text \<open>The parameters in the order of \<open>sort_keys\<close>; a keyword excludes the dates.\<close>

definition base_params :: "live_query \<Rightarrow> (string \<times> json) list" where
  "base_params q =
     (let kw = str_or_empty (lq_q q); date = (\<lambda>x. if kw = [] \<and> str_or_empty x \<noteq> [] then nvd_fmt (str_or_empty x) else []) in
      param ''cpeName'' (str_or_empty (lq_cpe q)) @ param ''cveId'' (py_upper (str_or_empty (lq_id q))) @ param ''keywordSearch'' kw @
      param ''pubEndDate'' (date (lq_to q)) @ param ''pubStartDate'' (date (lq_from q)))"

definition live_limit :: "live_query \<Rightarrow> int" where
  "live_limit q = min 100 (max 1 (lq_limit q))"

definition live_page :: "live_query \<Rightarrow> int" where
  "live_page q = max 1 (lq_page q)"

definition live_key :: "(json \<Rightarrow> string) \<Rightarrow> live_query \<Rightarrow> string" where
  "live_key dumps q = ''live:'' @ dumps (JObj (base_params q)) @ '':p'' @ py_str_int (live_page q) @ '':l'' @ py_str_int (live_limit q)"

section \<open>The answer of the NVD\<close>

type_synonym nvd_service = "(string \<times> json) list \<Rightarrow> int \<Rightarrow> int \<Rightarrow> response result"

definition nvd_fetch :: "response result \<Rightarrow> json result" where
  "nvd_fetch answer = (case answer of
      Inl e \<Rightarrow> Inl e
    | Inr resp \<Rightarrow>
        if r_status resp = 429 then Inl (HttpException 429 ''NVD rate limit'')
        else if r_status resp = 404 then Inr (JObj [(''totalResults'', JInt 0), (''vulnerabilities'', JArr [])])
        else if \<not> (200 \<le> r_status resp \<and> r_status resp < 300) then Inl (OtherError ''HTTPStatusError'')
        else (case r_body resp of None \<Rightarrow> Inl (ValueError ''JSONDecodeError'') | Some v \<Rightarrow> Inr v))"

text \<open>\<open>body.get("totalResults", 0)\<close>, used as an integer.\<close>

definition total_results :: "json \<Rightarrow> int result" where
  "total_results body = bind_r (as_dict body) (\<lambda>kvs. case get_or kvs ''totalResults'' (JInt 0) of
      JInt n \<Rightarrow> Inr n | JBool b \<Rightarrow> Inr (if b then 1 else 0) | _ \<Rightarrow> Inl (TypeError ''unsupported operand''))"

text \<open>
  The body of the page; \<open>None\<close> when a first page of a keyword search has nothing to show. A keyword search asks
  for the total first and then counts back from the end. Only a request that fails becomes a 502.
\<close>

definition live_body :: "nvd_service \<Rightarrow> live_query \<Rightarrow> json option result" where
  "live_body srv q =
     (let base = base_params q; limit = live_limit q; page = live_page q; r =
        (if str_or_empty (lq_q q) \<noteq> [] then
           bind_r (nvd_fetch (srv base 1 0)) (\<lambda>probe. bind_r (total_results probe) (\<lambda>n.
             if page = 1 \<and> n = 0 then Inr None
             else bind_r (nvd_fetch (srv base limit (max 0 (n - page * limit)))) (\<lambda>b. Inr (Some b))))
         else bind_r (nvd_fetch (srv base limit ((page - 1) * limit))) (\<lambda>b. Inr (Some b)))
      in case r of Inl (HttpError _) \<Rightarrow> Inl (HttpException 502 ''NVD non raggiungibile'') | _ \<Rightarrow> r)"

section \<open>The items\<close>

record live_item =
  li_cve_id :: string
  li_description :: json
  li_severity :: "string option"
  li_cvss_v3_score :: "rat option"
  li_cvss_v2_score :: "rat option"
  li_priority_score :: int
  li_published_at :: string
  li_last_modified_at :: string

fun english :: "json list \<Rightarrow> json result" where
  "english [] = Inr (JStr [])"
| "english (d # ds) = bind_r (as_dict d) (\<lambda>kvs.
     if obj_get kvs ''lang'' = Some (JStr ''en'') then Inr (get_or kvs ''value'' (JStr [])) else english ds)"

definition live_description :: "json \<Rightarrow> json result" where
  "live_description raw = bind_r (as_dict raw) (\<lambda>kvs.
     let v = (case obj_get kvs ''descriptions'' of Some w \<Rightarrow> if json_truthy w then w else JArr [] | None \<Rightarrow> JArr []) in
     bind_r (iterate v) (\<lambda>ds. bind_r (english ds) (\<lambda>desc.
       if json_truthy desc then Inr desc
       else case ds of [] \<Rightarrow> Inr (JStr []) | d # _ \<Rightarrow> bind_r (as_dict d) (\<lambda>kvs. Inr (get_or kvs ''value'' (JStr []))))))"

definition live_enrich :: "py_datetime \<Rightarrow> nvd_record \<Rightarrow> live_item result" where
  "live_enrich now rec = bind_r (live_description (nr_raw_payload rec)) (\<lambda>desc. Inr
     \<lparr>li_cve_id = nr_cve_id rec, li_description = desc, li_severity = nr_severity rec, li_cvss_v3_score = nr_cvss_v3_score rec,
      li_cvss_v2_score = nr_cvss_v2_score rec,
      li_priority_score = compute_priority_score now \<lparr>cvss_score = nr_cvss_v3_score rec, severity = nr_severity rec, epss_score = None,
        is_kev = False, published_at = Some (utc (nr_published_at rec)), has_public_poc = False, has_nuclei_template = False\<rparr>,
      li_published_at = datetime_isoformat (utc (nr_published_at rec)),
      li_last_modified_at = datetime_isoformat (utc (nr_last_modified_at rec))\<rparr>)"

definition severity_wanted :: "live_query \<Rightarrow> live_item \<Rightarrow> bool" where
  "severity_wanted q x \<longleftrightarrow> (let s = str_or_empty (lq_severity q) in s = [] \<or> py_upper (str_or_empty (li_severity x)) = py_upper s)"

text \<open>What cannot be read is left out.\<close>

definition live_items :: "(json \<Rightarrow> rat option) \<Rightarrow> py_datetime \<Rightarrow> live_query \<Rightarrow> json list \<Rightarrow> live_item list" where
  "live_items lax_float now q vs = filter (severity_wanted q) (List.map_filter (\<lambda>v.
     case bind_r (from_nvd_cve lax_float v) (live_enrich now) of Inl _ \<Rightarrow> None | Inr x \<Rightarrow> Some x) vs)"

definition newest_first :: "live_item \<Rightarrow> live_item \<Rightarrow> bool" where
  "newest_first a b \<longleftrightarrow> text_le (li_published_at b) (li_published_at a)"

section \<open>The route\<close>

record live_result =
  lr_data :: "live_item list"
  lr_total :: int
  lr_page :: int
  lr_pages :: int

definition live_result_of :: "(json \<Rightarrow> rat option) \<Rightarrow> py_datetime \<Rightarrow> live_query \<Rightarrow> json \<Rightarrow> live_result result" where
  "live_result_of lax_float now q body = bind_r (total_results body) (\<lambda>n. bind_r (as_dict body) (\<lambda>kvs.
     bind_r (iterate (get_or kvs ''vulnerabilities'' (JArr []))) (\<lambda>vs. Inr
       \<lparr>lr_data = order_by newest_first (live_items lax_float now q vs), lr_total = n, lr_page = live_page q,
        lr_pages = max 1 ((n + live_limit q - 1) div live_limit q)\<rparr>)))"

definition mark_cached :: "json option \<Rightarrow> live_result answer result" where
  "mark_cached v = (case v of
      None \<Rightarrow> Inl (ValueError ''JSONDecodeError'')
    | Some (JObj kvs) \<Rightarrow> Inr (Cached (JObj (dict_put ''cached'' (JBool True) kvs)))
    | Some _ \<Rightarrow> Inl (TypeError ''object does not support item assignment''))"

definition live_search ::
    "(json \<Rightarrow> rat option) \<Rightarrow> (string \<Rightarrow> json option) \<Rightarrow> (json \<Rightarrow> string) \<Rightarrow> (live_result \<Rightarrow> string) \<Rightarrow> nvd_service \<Rightarrow> bool \<Rightarrow> rat \<Rightarrow>
     py_datetime \<Rightarrow> live_query \<Rightarrow> (redis, live_result answer) action" where
  "live_search lax_float loads dumps dumps_result srv up t now q r =
     (if str_or_empty (lq_q q) = [] \<and> str_or_empty (lq_cpe q) = [] \<and> str_or_empty (lq_id q) = []
      then (r, Inl (HttpException 400 ''Specify at least one of: q, cpe, id''))
      else if \<not> up then (r, Inl (OtherError ''ConnectionError''))
      else let key = live_key dumps q; cached = str_or_empty (r_get t r key) in
        if cached \<noteq> [] then (r, mark_cached (loads cached))
        else (case live_body srv q of
          Inl e \<Rightarrow> (r, Inl e)
        | Inr None \<Rightarrow> (r, Inr (Fresh \<lparr>lr_data = [], lr_total = 0, lr_page = 1, lr_pages = 0\<rparr>))
        | Inr (Some body) \<Rightarrow> (case live_result_of lax_float now q body of
            Inl e \<Rightarrow> (r, Inl e)
          | Inr p \<Rightarrow> (case r_setex t key LIVE_TTL (dumps_result p) r of
              Inl e \<Rightarrow> (r, Inl e) | Inr r' \<Rightarrow> (r', Inr (Fresh p))))))"

section \<open>Properties\<close>

text \<open>A filter by severity poisons the cache: the page that was filtered is stored under a key that does not name the severity, so for
  two minutes every search that differs only in the severity, with none or with another one, is answered with the
  rows of the first.\<close>

theorem live_cache_ignores_severity:
  assumes "live_search lax_float loads dumps dumps_result srv True t now q r = (r', Inr (Fresh p))" and "lr_total p \<noteq> 0"
    and "dumps_result p \<noteq> []" and "loads (dumps_result p) = Some (JObj kvs)" and "t' < t + 120"
  shows "live_search lax_float loads dumps dumps_result srv' True t' now' (q\<lparr>lq_severity := s\<rparr>) r' =
      (r', Inr (Cached (JObj (dict_put ''cached'' (JBool True) kvs)))) \<and>
    list_all (severity_wanted q) (lr_data p)"
proof -
  have key: "live_key dumps (q\<lparr>lq_severity := s\<rparr>) = live_key dumps q"
    by (simp add: live_key_def base_params_def live_page_def live_limit_def)
  have asked: "str_or_empty (lq_q q) \<noteq> [] \<or> str_or_empty (lq_cpe q) \<noteq> [] \<or> str_or_empty (lq_id q) \<noteq> []"
    using assms(1) by (auto simp: live_search_def split: if_splits)
  obtain body where "live_result_of lax_float now q body = Inr p"
    and r': "r' = AList.update (live_key dumps q) (dumps_result p, Some (t + 120)) r"
    using assms(1,2) asked
    by (auto simp: live_search_def Let_def r_setex_def LIVE_TTL_def mark_cached_def split: if_splits sum.splits option.splits json.splits)
  then have "list_all (severity_wanted q) (lr_data p)"
    by (auto simp: live_result_of_def bind_r_Inr live_items_def list_all_iff)
  then show ?thesis using asked assms(3-5)
    by (auto simp: live_search_def Let_def r' key str_or_empty_def mark_cached_def)
qed

text \<open>A service that holds a list and answers with slices of it.\<close>

definition slices :: "json list \<Rightarrow> nvd_service" where
  "slices vs base per start = Inr \<lparr>r_status = 200, r_retry_after = None, r_body = Some (JObj
     [(''totalResults'', JInt (int (length vs))), (''vulnerabilities'', JArr (take (nat per) (drop (nat start) vs)))])\<rparr>"

definition keyword_page :: "(json \<Rightarrow> rat option) \<Rightarrow> py_datetime \<Rightarrow> live_query \<Rightarrow> json list \<Rightarrow> live_item list" where
  "keyword_page lax_float now q vs = (case live_body (slices vs) q of
     Inr (Some b) \<Rightarrow> (case live_result_of lax_float now q b of Inr p \<Rightarrow> lr_data p | Inl _ \<Rightarrow> []) | _ \<Rightarrow> [])"

lemma nth_in_slice: "s \<le> i \<Longrightarrow> i < s + m \<Longrightarrow> i < length xs \<Longrightarrow> xs ! i \<in> set (take m (drop s xs))"
  by (auto simp: set_conv_nth intro!: exI [of _ "i - s"])

lemma live_items_mem:
  "x \<in> set (live_items lax_float now q vs) \<longleftrightarrow>
    severity_wanted q x \<and> (\<exists>v \<in> set vs. bind_r (from_nvd_cve lax_float v) (live_enrich now) = Inr x)"
proof -
  have "(case r of Inl _ \<Rightarrow> None | Inr y \<Rightarrow> Some y) = Some x \<longleftrightarrow> r = Inr x" for r :: "live_item result" by (cases r) auto
  then show ?thesis unfolding live_items_def set_filter mem_Collect_eq map_filter_mem by auto
qed

lemma keyword_page_slice:
  assumes "str_or_empty (lq_q q) \<noteq> []" and "vs \<noteq> []"
  shows "keyword_page lax_float now q vs = order_by newest_first (live_items lax_float now q
    (take (nat (live_limit q)) (drop (nat (int (length vs) - live_page q * live_limit q)) vs)))"
  using assms
  by (simp add: keyword_page_def live_body_def Let_def slices_def nvd_fetch_def total_results_def as_dict_def get_or_def obj_get_def
      live_result_of_def iterate_def max_def)

text \<open>Paging back through a keyword search: the first page holds the newest entries, every entry that can be read and passes the filter is on some
  page up to the number of pages given, and asking for a page after the last one repeats the oldest entries instead of ending.\<close>

theorem keyword_pages_cover:
  assumes "str_or_empty (lq_q q) \<noteq> []" and "vs \<noteq> []" and "live_limit q = L" and "n = (int (length vs) + L - 1) div L"
  shows "set (live_items lax_float now q vs) =
      (\<Union>p \<in> {1..n}. set (keyword_page lax_float now (q\<lparr>lq_page := p\<rparr>) vs)) \<and>
    (k \<ge> n \<longrightarrow> keyword_page lax_float now (q\<lparr>lq_page := k\<rparr>) vs = order_by newest_first (live_items lax_float now q (take (nat L) vs)))"
proof -
  let ?T = "int (length vs)"
  have L: "1 \<le> L" using assms(3) by (auto simp: live_limit_def)
  have T: "1 \<le> ?T" using assms(2) by (cases vs) auto
  have n: "1 \<le> n" using L T assms(4) by (simp add: pos_imp_zdiv_pos_iff int_one_le_iff_zero_less)
  have items: "live_items lax_float now (q\<lparr>lq_page := p\<rparr>) xs = live_items lax_float now q xs" for p xs
    by (simp add: live_items_def severity_wanted_def [abs_def])
  have page: "keyword_page lax_float now (q\<lparr>lq_page := p\<rparr>) vs =
      order_by newest_first (live_items lax_float now q (take (nat L) (drop (nat (?T - p * L)) vs)))" if "1 \<le> p" for p
    using keyword_page_slice [of "q\<lparr>lq_page := p\<rparr>" vs lax_float now] assms(1-3) that
    by (simp add: items live_page_def live_limit_def max_absorb2)
  have last: "?T - k * L \<le> 0" if "n \<le> k" for k
  proof -
    have "?T \<le> n * L" unfolding assms(4)
      using L div_mult_mod_eq [of "?T + L - 1" L] pos_mod_bound [of L "?T + L - 1"] by linarith
    then show ?thesis using mult_right_mono [OF that, of L] L by linarith
  qed
  have sub: "set (live_items lax_float now q (take a (drop b vs))) \<subseteq> set (live_items lax_float now q vs)" for a b
    unfolding subset_iff live_items_mem using in_set_takeD in_set_dropD by metis
  have all: "x \<in> (\<Union>p \<in> {1..n}. set (keyword_page lax_float now (q\<lparr>lq_page := p\<rparr>) vs))"
    if x: "x \<in> set (live_items lax_float now q vs)" for x
  proof -
    obtain v where v: "v \<in> set vs" "severity_wanted q x" "bind_r (from_nvd_cve lax_float v) (live_enrich now) = Inr x"
      using x unfolding live_items_mem by blast
    then obtain i where i: "i < length vs" "vs ! i = v" by (auto simp: in_set_conv_nth)
    let ?p = "(?T - int i - 1) div L + 1"
    have parts: "?T - int i - 1 = (?T - int i - 1) div L * L + (?T - int i - 1) mod L" by simp
    have bounds: "0 \<le> (?T - int i - 1) mod L" "(?T - int i - 1) mod L < L" using L by simp_all
    have pL: "?p * L = (?T - int i - 1) div L * L + L" "(?p - 1) * L = (?T - int i - 1) div L * L" by (simp_all add: distrib_right)
    have low: "?T - ?p * L \<le> int i" and high: "int i < ?T - (?p - 1) * L"
      unfolding pL using parts bounds by linarith+
    have "1 \<le> ?p" using L i(1) by (simp add: pos_imp_zdiv_nonneg_iff)
    moreover have "?p \<le> n"
    proof -
      have "(?T - int i - 1) div L \<le> (?T - 1) div L" using L by (intro zdiv_mono1) auto
      moreover have "(?T + L - 1) div L = (?T - 1) div L + 1"
        using L by (metis add_diff_eq diff_add_eq div_add_self2 not_one_le_zero)
      ultimately show ?thesis unfolding assms(4) by linarith
    qed
    moreover have "v \<in> set (take (nat L) (drop (nat (?T - ?p * L)) vs))"
    proof -
      let ?s = "nat (?T - ?p * L)"
      have s: "?s \<le> i" "i < ?s + nat L" using low high L by (auto simp: algebra_simps nat_less_iff)
      show ?thesis using nth_in_slice [OF s i(1)] i(2) by simp
    qed
    then have "x \<in> set (live_items lax_float now q (take (nat L) (drop (nat (?T - ?p * L)) vs)))"
      using v(2,3) unfolding live_items_mem by blast
    ultimately show ?thesis using page [of ?p] by (intro UN_I [of ?p]) auto
  qed
  have "(\<Union>p \<in> {1..n}. set (keyword_page lax_float now (q\<lparr>lq_page := p\<rparr>) vs)) \<subseteq> set (live_items lax_float now q vs)"
    using page sub by auto
  moreover have "keyword_page lax_float now (q\<lparr>lq_page := k\<rparr>) vs = order_by newest_first (live_items lax_float now q (take (nat L) vs))" if "n \<le> k"
    using page [of k] last [OF that] n that by (simp del: of_nat_le_0_iff)
  ultimately show ?thesis using all by blast
qed

section \<open>Witnesses\<close>

definition demo_vuln :: json where
  "demo_vuln = JObj [(''cve'', JObj [(''id'', JStr ''CVE-2024-1''), (''published'', JStr ''2024-01-01''), (''lastModified'', JStr ''2024-01-01'')])]"

definition demo_live :: live_query where
  "demo_live = \<lparr>lq_q = Some ''nginx'', lq_cpe = None, lq_id = None, lq_severity = Some ''HIGH'', lq_from = None, lq_to = None,
     lq_page = 1, lq_limit = 20\<rparr>"

lemma fresh_case:
  assumes "case x of (_, Inr (Fresh p)) \<Rightarrow> P p | _ \<Rightarrow> False"
  shows "\<exists>r p. x = (r, Inr (Fresh p)) \<and> P p"
proof (cases x)
  case (Pair r res)
  show ?thesis
  proof (cases res)
    case (Inl e)
    then show ?thesis using assms Pair by simp
  next
    case (Inr a)
    then show ?thesis using assms Pair by (cases a) simp_all
  qed
qed

theorem live_cache_ignores_severity_witness:
  "snd (live_search (\<lambda>_. None) (\<lambda>_. Some (JObj [])) (\<lambda>_. ''k'') (\<lambda>_. ''v'') (slices [demo_vuln]) True 10 (utc 0) (demo_live\<lparr>lq_severity := None\<rparr>)
     (fst (live_search (\<lambda>_. None) (\<lambda>_. Some (JObj [])) (\<lambda>_. ''k'') (\<lambda>_. ''v'') (slices [demo_vuln]) True 0 (utc 0) demo_live [])))
   = Inr (Cached (JObj [(''cached'', JBool True)]))"
proof -
  let ?run = "live_search (\<lambda>_. None) (\<lambda>_. Some (JObj [])) (\<lambda>_. ''k'') (\<lambda>_. ''v'') (slices [demo_vuln]) True 0 (utc 0) demo_live []"
  have "case ?run of (_, Inr (Fresh p)) \<Rightarrow> lr_total p \<noteq> 0 | _ \<Rightarrow> False"
    by (simp add: live_search_def demo_live_def Let_def str_or_empty_def r_get_def live_body_def slices_def nvd_fetch_def live_page_def
        live_limit_def live_result_of_def total_results_def iterate_def get_or_def obj_get_def r_setex_def LIVE_TTL_def as_dict_def)
  then obtain r' p where p: "?run = (r', Inr (Fresh p))" "lr_total p \<noteq> 0" using fresh_case [where P = "\<lambda>p. lr_total p \<noteq> 0"] by metis
  show ?thesis using live_cache_ignores_severity [OF p, of "[]" 10 "slices [demo_vuln]" "utc 0" None] by (simp add: p(1))
qed

theorem keyword_pages_cover_witness:
  "set (live_items (\<lambda>_. None) (utc 0) (demo_live\<lparr>lq_severity := None\<rparr>) [demo_vuln, demo_vuln]) =
     (\<Union>p \<in> {1..1}. set (keyword_page (\<lambda>_. None) (utc 0) (demo_live\<lparr>lq_severity := None, lq_page := p\<rparr>) [demo_vuln, demo_vuln]))"
proof -
  have a: "str_or_empty (lq_q (demo_live\<lparr>lq_severity := None\<rparr>)) \<noteq> []"
    by (simp add: demo_live_def str_or_empty_def)
  have b: "live_limit (demo_live\<lparr>lq_severity := None\<rparr>) = 20"
    by (simp add: demo_live_def live_limit_def)
  have c: "1 = (int (length [demo_vuln, demo_vuln]) + 20 - 1) div 20"
    by simp
  show ?thesis
    by (rule keyword_pages_cover [OF a _ b c, THEN conjunct1, unfolded live_query.update_convs]) simp
qed

end
