(* ===== verification/Cpe_Resolution.thy ===== *)
theory Cpe_Resolution
  imports Circl
begin

text \<open>
  Free-form product names to CPE names: \<open>app/resolution/cpe_normalizer.py\<close> and the two caches of
  \<open>app/resolution/resolution_cache.py\<close>, with the model of \<open>app/models/product.py\<close>. The fuzzy matcher (\<open>rapidfuzz\<close>) is an
  argument: it answers with the best choice, its score and its index. \<open>json.loads\<close> and \<open>json.dumps\<close> are arguments too.
\<close>

section \<open>Normalising\<close>

definition CANDIDATE_LIMIT :: nat where "CANDIDATE_LIMIT = 500"

record cpe_resolution =
  cs_input_string :: string
  cs_resolved_cpe :: string
  cs_confidence :: string
  cs_match_score :: "rat option"
  cs_resolved_by :: string
  cs_from_cache :: bool

text \<open>\<open>^cpe:2\.3:[aoh]:[^:]+:[^:]+\<close>.\<close>

definition is_cpe_string :: "string \<Rightarrow> bool" where
  "is_cpe_string s = (case py_split CHR '':'' (py_lower s) of
      a # b # c # vendor # product # _ \<Rightarrow> a = ''cpe'' \<and> b = ''2.3'' \<and> c \<in> {''a'', ''o'', ''h''} \<and> vendor \<noteq> [] \<and> product \<noteq> []
    | _ \<Rightarrow> False)"

text \<open>The last word is a version when it begins with a digit.\<close>

definition extract_hints :: "string \<Rightarrow> string \<times> string \<times> string" where
  "extract_hints s = (case rev (py_words s) of
      [] \<Rightarrow> ([], [], [])
    | w # ws \<Rightarrow>
        if (case w of c # _ \<Rightarrow> is_digit c | [] \<Rightarrow> False) then ([], py_join ''_'' (map py_lower (rev ws)), w)
        else ([], py_join ''_'' (map py_lower (rev (w # ws))), []))"

definition build_cpe :: "string \<Rightarrow> string \<Rightarrow> string \<Rightarrow> string \<Rightarrow> string" where
  "build_cpe part vendor product version = ''cpe:2.3:'' @ part @ '':'' @ vendor @ '':'' @ product @ '':'' @
     (if version = [] then ''*'' else version) @ '':*:*:*:*:*:*:*''"

record cpe_candidate =
  ca_vendor :: string
  ca_product :: string
  ca_part :: string

definition split_part :: "string \<Rightarrow> nat \<Rightarrow> string" where
  "split_part s n = (let ps = py_split CHR '':'' s in if n \<le> length ps then ps ! (n - 1) else [])"

definition candidate_of :: "string \<Rightarrow> cpe_candidate" where
  "candidate_of s = \<lparr>ca_vendor = split_part s 4, ca_product = split_part s 5, ca_part = split_part s 3\<rparr>"

definition criteria_of :: "json \<Rightarrow> string list result" where
  "criteria_of raw =
     bind_r (sql_elements raw ''configurations'') (\<lambda>cfgs.
     bind_r (map_r (\<lambda>c. sql_elements c ''nodes'') cfgs) (\<lambda>nds.
     bind_r (map_r (\<lambda>n. sql_elements n ''cpeMatch'') (concat nds)) (\<lambda>ms. Inr (List.map_filter sql_criteria (concat ms)))))"

text \<open>A JSON null counts as no configurations; an error of the query as no candidates.\<close>

definition with_configurations :: "json \<Rightarrow> bool" where
  "with_configurations raw = (case raw of JObj kvs \<Rightarrow> obj_get kvs ''configurations'' \<noteq> None \<and> obj_get kvs ''configurations'' \<noteq> Some JNull | _ \<Rightarrow> False)"

definition fetch_candidates :: "db \<Rightarrow> string \<Rightarrow> cpe_candidate list" where
  "fetch_candidates d keyword = (let pat = ''%'' @ keyword @ ''%'' in
     case map_r (\<lambda>c. criteria_of (cv_raw_payload c)) (filter (\<lambda>c. with_configurations (cv_raw_payload c)) (t_rows (db_cves d))) of
       Inl _ \<Rightarrow> []
     | Inr css \<Rightarrow> take CANDIDATE_LIMIT (remdups (map candidate_of
         (filter (\<lambda>s. ilike (split_part s 5) pat \<or> ilike (split_part s 4) pat) (concat css)))))"

type_synonym matcher = "string \<Rightarrow> string list \<Rightarrow> (string \<times> rat \<times> nat) option"

definition fuzzy_match :: "matcher \<Rightarrow> string \<Rightarrow> cpe_candidate list \<Rightarrow> rat \<Rightarrow> cpe_candidate option \<times> rat" where
  "fuzzy_match extract_one hint cands confirm =
     (if cands = [] then (None, 0)
      else (case extract_one hint (map (\<lambda>c. ca_vendor c @ '':'' @ ca_product c) cands) of
          None \<Rightarrow> (None, 0)
        | Some (_, score, idx) \<Rightarrow> if score < confirm then (None, score) else (Some (cands ! idx), score)))"

definition round_2 :: "rat \<Rightarrow> rat" where
  "round_2 x = of_int (py_round (x * 100)) / 100"

definition normalize :: "matcher \<Rightarrow> settings \<Rightarrow> db \<Rightarrow> string \<Rightarrow> cpe_resolution option" where
  "normalize extract_one st d input = (let s = py_strip input in
     if s = [] then None
     else if is_cpe_string s then Some \<lparr>cs_input_string = s, cs_resolved_cpe = s, cs_confidence = ''certain'', cs_match_score = Some 100,
       cs_resolved_by = ''auto'', cs_from_cache = False\<rparr>
     else (case extract_hints s of (_, hint, version) \<Rightarrow>
       if hint = [] then None
       else (case fuzzy_match extract_one hint (fetch_candidates d hint) (cpe_confirm_threshold st) of
           (None, _) \<Rightarrow> None
         | (Some best, score) \<Rightarrow> Some \<lparr>cs_input_string = s,
             cs_resolved_cpe = build_cpe (ca_part best) (ca_vendor best) (ca_product best) version,
             cs_confidence = (if score \<ge> cpe_auto_match_threshold st then ''certain'' else ''uncertain''),
             cs_match_score = Some (round_2 score), cs_resolved_by = ''auto'', cs_from_cache = False\<rparr>)))"

section \<open>The caches\<close>

definition RESOLUTION_TTL :: int where "RESOLUTION_TTL = 86400"

definition resolution_key :: "string \<Rightarrow> string" where
  "resolution_key s = ''cpe:resolution:'' @ py_strip (py_lower s)"

definition resolution_json :: "cpe_resolution \<Rightarrow> json" where
  "resolution_json c = JObj [(''resolved_cpe'', JStr (cs_resolved_cpe c)), (''confidence'', JStr (cs_confidence c)),
     (''match_score'', jopt JFloat (cs_match_score c)), (''resolved_by'', JStr (cs_resolved_by c))]"

text \<open>\<open>_from_json\<close>, with the checks of the model's fields; what does not fit raises.\<close>

definition literal :: "string list \<Rightarrow> json \<Rightarrow> string result" where
  "literal allowed v = (case v of JStr s \<Rightarrow> if s \<in> set allowed then Inr s else Inl (ValueError ''literal'') | _ \<Rightarrow> Inl (ValueError ''literal''))"

definition opt_number :: "json \<Rightarrow> rat option result" where
  "opt_number v = (case v of JNull \<Rightarrow> Inr None | _ \<Rightarrow> bind_r (to_float v) (\<lambda>x. Inr (Some x)))"

definition from_json :: "(string \<Rightarrow> json option) \<Rightarrow> string \<Rightarrow> string \<Rightarrow> cpe_resolution result" where
  "from_json loads input raw = (case loads raw of
      None \<Rightarrow> Inl (ValueError ''JSONDecodeError'')
    | Some v \<Rightarrow> bind_r (as_dict v) (\<lambda>kvs. bind_r (item kvs ''resolved_cpe'') (\<lambda>c. bind_r (required_text c) (\<lambda>cpe_name.
        bind_r (bind_r (item kvs ''confidence'') (literal [''certain'', ''uncertain'', ''manual''])) (\<lambda>conf.
        bind_r (opt_number (get_or kvs ''match_score'' JNull)) (\<lambda>score.
        bind_r (literal [''auto'', ''manual''] (get_or kvs ''resolved_by'' (JStr ''auto''))) (\<lambda>by.
          Inr \<lparr>cs_input_string = input, cs_resolved_cpe = cpe_name, cs_confidence = conf, cs_match_score = score, cs_resolved_by = by,
            cs_from_cache = True\<rparr>)))))))"

text \<open>\<open>NUMERIC(5,2)\<close> keeps two decimals and overflows at a thousand.\<close>

definition numeric_5_2 :: "rat option \<Rightarrow> rat option result" where
  "numeric_5_2 x = (case x of None \<Rightarrow> Inr None | Some y \<Rightarrow> (let z = of_int (sql_round (y * 100)) / 100 in
     if \<bar>z\<bar> < 1000 then Inr (Some z) else Inl (OtherError ''NumericValueOutOfRangeError'')))"

definition resolution_check :: "cpe_resolution_row \<Rightarrow> bool" where
  "resolution_check r \<longleftrightarrow> cr_confidence r \<in> {''certain'', ''uncertain'', ''manual''} \<and> cr_resolved_by r \<in> {''auto'', ''manual''}"

definition resolution_of_row :: "cpe_resolution_row \<Rightarrow> cpe_resolution" where
  "resolution_of_row r = \<lparr>cs_input_string = cr_input_string r, cs_resolved_cpe = cr_resolved_cpe r, cs_confidence = cr_confidence r,
     cs_match_score = cr_match_score r, cs_resolved_by = cr_resolved_by r, cs_from_cache = True\<rparr>"

definition upsert_resolution :: "int \<Rightarrow> cpe_resolution \<Rightarrow> db \<Rightarrow> db result" where
  "upsert_resolution now c d = bind_r (numeric_5_2 (cs_match_score c)) (\<lambda>score.
     let row = (\<lambda>n. \<lparr>cr_id = n, cr_input_string = cs_input_string c, cr_resolved_cpe = cs_resolved_cpe c, cr_confidence = cs_confidence c,
           cr_match_score = score, cr_resolved_at = now, cr_resolved_by = cs_resolved_by c\<rparr>); t = db_cpe_resolutions d in
     if \<not> resolution_check (row 0) then Inl CheckViolation
     else Inr (d\<lparr>db_cpe_resolutions := (if list_ex (\<lambda>r. cr_input_string r = cs_input_string c) (t_rows t)
       then update_rows (\<lambda>r. cr_input_string r = cs_input_string c) (\<lambda>r. row (cr_id r)) t else fst (insert_row row t))\<rparr>))"

text \<open>The state: Redis and the database, each of which may not answer. Every failure is swallowed.\<close>

record resolution_env =
  rv_loads :: "string \<Rightarrow> json option"
  rv_dumps :: "json \<Rightarrow> string"
  rv_redis_up :: bool
  rv_db_up :: bool
  rv_time :: rat
  rv_now :: int

definition store_redis :: "resolution_env \<Rightarrow> string \<Rightarrow> cpe_resolution \<Rightarrow> redis \<Rightarrow> redis result" where
  "store_redis env key c r =
     (if rv_redis_up env then r_setex (rv_time env) key RESOLUTION_TTL (rv_dumps env (resolution_json c)) r else Inl (OtherError ''ConnectionError''))"

definition cache_get :: "resolution_env \<Rightarrow> string \<Rightarrow> redis \<times> db \<Rightarrow> (redis \<times> db) \<times> cpe_resolution option" where
  "cache_get env input s = (case s of (r, d) \<Rightarrow>
     (let key = resolution_key input;
          hit = (if rv_redis_up env \<and> str_or_empty (r_get (rv_time env) r key) \<noteq> []
            then (case from_json (rv_loads env) input (str_or_empty (r_get (rv_time env) r key)) of Inr c \<Rightarrow> Some c | Inl _ \<Rightarrow> None) else None)
      in case hit of
        Some c \<Rightarrow> (s, Some c)
      | None \<Rightarrow>
          if \<not> rv_db_up env then (s, None)
          else (case fetchrow (\<lambda>x. cr_input_string x = input) (t_rows (db_cpe_resolutions d)) of
            None \<Rightarrow> (s, None)
          | Some row \<Rightarrow> (let c = resolution_of_row row in
              case store_redis env key c r of Inl _ \<Rightarrow> (s, None) | Inr r' \<Rightarrow> ((r', d), Some c)))))"

definition cache_save :: "resolution_env \<Rightarrow> cpe_resolution \<Rightarrow> redis \<times> db \<Rightarrow> redis \<times> db" where
  "cache_save env c s = (case s of (r, d) \<Rightarrow>
     (case (if rv_db_up env then upsert_resolution (rv_now env) c d else Inl (OtherError ''ConnectionError'')) of
        Inl _ \<Rightarrow> s
      | Inr d' \<Rightarrow> ((case store_redis env (resolution_key (cs_input_string c)) c r of Inl _ \<Rightarrow> r | Inr r' \<Rightarrow> r'), d')))"

definition cache_invalidate :: "resolution_env \<Rightarrow> string \<Rightarrow> redis \<times> db \<Rightarrow> redis \<times> db" where
  "cache_invalidate env input s = (case s of (r, d) \<Rightarrow>
     if \<not> rv_redis_up env then s
     else (r_del (resolution_key input) r, if rv_db_up env
       then d\<lparr>db_cpe_resolutions := (db_cpe_resolutions d)\<lparr>t_rows := sql_delete (\<lambda>x. cr_input_string x = input) (t_rows (db_cpe_resolutions d))\<rparr>\<rparr> else d))"

section \<open>Properties\<close>

lemma split_part_no_colon: "CHR '':'' \<notin> set (split_part s n)"
proof (cases "n \<le> length (py_split CHR '':'' s)")
  case True
  then have "split_part s n = py_split CHR '':'' s ! (n - 1)" by (simp add: split_part_def Let_def)
  moreover have "n - 1 < length (py_split CHR '':'' s)" using True by (cases "py_split CHR '':'' s") auto
  ultimately show ?thesis using py_split_no_sep nth_mem by metis
qed (simp add: split_part_def Let_def)

lemma candidates_no_colon:
  assumes "c \<in> set (fetch_candidates d k)"
  shows "CHR '':'' \<notin> set (ca_vendor c) \<and> CHR '':'' \<notin> set (ca_product c) \<and> CHR '':'' \<notin> set (ca_part c) \<and>
    (ilike (ca_product c) (''%'' @ k @ ''%'') \<or> ilike (ca_vendor c) (''%'' @ k @ ''%''))"
proof -
  obtain s where "c = candidate_of s" "ilike (split_part s 5) (''%'' @ k @ ''%'') \<or> ilike (split_part s 4) (''%'' @ k @ ''%'')"
    using assms by (auto simp: fetch_candidates_def Let_def split: sum.splits dest!: in_set_takeD)
  then show ?thesis using split_part_no_colon by (simp add: candidate_of_def)
qed

lemma build_cpe_parts:
  assumes "CHR '':'' \<notin> set part" and "CHR '':'' \<notin> set vendor" and "CHR '':'' \<notin> set product"
  shows "parse_cpe_vendor_product (build_cpe part vendor product version) = Some (vendor @ '':'' @ product)"
proof -
  have "py_split CHR '':'' (build_cpe part vendor product version) = ''cpe'' # ''2.3'' # part # vendor # product #
      py_split CHR '':'' ((if version = [] then ''*'' else version) @ '':*:*:*:*:*:*:*'')"
    using assms by (simp add: build_cpe_def py_split_append)
  moreover have "build_cpe part vendor product version \<noteq> []" by (simp add: build_cpe_def)
  ultimately show ?thesis by (simp add: parse_cpe_vendor_product_def)
qed

text \<open>What the fuzzy matcher documents: the index of a choice, and a score between 0 and 100.\<close>

definition matcher_contract :: "matcher \<Rightarrow> bool" where
  "matcher_contract m \<longleftrightarrow> (\<forall>h cs b s i. m h cs = Some (b, s, i) \<longrightarrow> i < length cs \<and> b = cs ! i \<and> 0 \<le> s \<and> s \<le> 100)"

lemma normalize_cases:
  assumes "matcher_contract m" and "normalize m st d input = Some c"
  shows "(is_cpe_string (py_strip input) \<and> cs_resolved_cpe c = py_strip input \<and> cs_match_score c = Some 100 \<and> cs_confidence c = ''certain'') \<or>
    (\<exists>ca score. ca \<in> set (fetch_candidates d (fst (snd (extract_hints (py_strip input))))) \<and> 0 \<le> score \<and> score \<le> 100 \<and>
      cpe_confirm_threshold st \<le> score \<and> cs_match_score c = Some (round_2 score) \<and>
      cs_confidence c = (if cpe_auto_match_threshold st \<le> score then ''certain'' else ''uncertain'') \<and>
      cs_resolved_cpe c = build_cpe (ca_part ca) (ca_vendor ca) (ca_product ca) (snd (snd (extract_hints (py_strip input)))))"
proof (cases "is_cpe_string (py_strip input)")
  case True
  then show ?thesis using assms(2) by (auto simp: normalize_def Let_def split: if_splits)
next
  case False
  let ?s = "py_strip input"
  obtain v hint version where h: "extract_hints ?s = (v, hint, version)" by (cases "extract_hints ?s") auto
  let ?cs = "fetch_candidates d hint"
  obtain best score where f: "fuzzy_match m hint ?cs (cpe_confirm_threshold st) = (Some best, score)"
    and c: "c = \<lparr>cs_input_string = ?s, cs_resolved_cpe = build_cpe (ca_part best) (ca_vendor best) (ca_product best) version,
      cs_confidence = (if score \<ge> cpe_auto_match_threshold st then ''certain'' else ''uncertain''),
      cs_match_score = Some (round_2 score), cs_resolved_by = ''auto'', cs_from_cache = False\<rparr>"
    using assms(2) False h by (auto simp: normalize_def Let_def split: if_splits prod.splits option.splits)
  from f obtain b i where "m hint (map (\<lambda>c. ca_vendor c @ '':'' @ ca_product c) ?cs) = Some (b, score, i)" "best = ?cs ! i"
      "cpe_confirm_threshold st \<le> score"
    by (auto simp: fuzzy_match_def split: if_splits option.splits prod.splits)
  then have "best \<in> set ?cs" "0 \<le> score" "score \<le> 100" "cpe_confirm_threshold st \<le> score"
    using assms(1) unfolding matcher_contract_def by (fastforce intro: nth_mem)+
  then show ?thesis using h c by auto
qed

lemma round_2_bounds: "0 \<le> x \<Longrightarrow> x \<le> 100 \<Longrightarrow> 0 \<le> round_2 x \<and> round_2 x \<le> 100"
proof -
  assume x: "0 \<le> x" "x \<le> 100"
  have "py_round (x * 100) \<le> py_round (of_int 10000)" by (rule py_round_mono) (use x in simp)
  then have "py_round (x * 100) \<le> 10000" by (simp only: py_round_of_int)
  moreover have "0 \<le> py_round (x * 100)" by (rule py_round_nonneg) (use x in simp)
  ultimately show ?thesis by (simp add: round_2_def)
qed

lemma sql_round_of_int: "sql_round (of_int n) = n"
  by (simp add: sql_round_def floor_unique)

lemma round_2_exact: "numeric_5_2 (Some (round_2 x)) = (if \<bar>round_2 x\<bar> < 1000 then Inr (Some (round_2 x)) else Inl (OtherError ''NumericValueOutOfRangeError''))"
  by (simp add: numeric_5_2_def round_2_def Let_def sql_round_of_int)

text \<open>C30: What the normaliser returns fits the table it is kept in and the matcher that reads it: the confidence and the origin are values
  the table accepts, the score lies between 0 and 100 and is stored without loss; and the name is either the input, a CPE name already, or
  is read back as the vendor and product of a candidate of the mirror that contains the words of the input.\<close>

theorem resolutions_well_formed:
  assumes "matcher_contract m" and "normalize m st d input = Some c"
  shows "resolution_check \<lparr>cr_id = n, cr_input_string = cs_input_string c, cr_resolved_cpe = cs_resolved_cpe c, cr_confidence = cs_confidence c,
       cr_match_score = cs_match_score c, cr_resolved_at = now, cr_resolved_by = cs_resolved_by c\<rparr> \<and>
    opt_ex (\<lambda>x. 0 \<le> x \<and> x \<le> 100) (cs_match_score c) \<and> numeric_5_2 (cs_match_score c) = Inr (cs_match_score c) \<and>
    (is_cpe_string (cs_resolved_cpe c) \<and> cs_resolved_cpe c = py_strip input \<or>
     (\<exists>ca k. ca \<in> set (fetch_candidates d k) \<and> parse_cpe_vendor_product (cs_resolved_cpe c) = Some (ca_vendor ca @ '':'' @ ca_product ca) \<and>
       k = fst (snd (extract_hints (py_strip input))) \<and> (ilike (ca_product ca) (''%'' @ k @ ''%'') \<or> ilike (ca_vendor ca) (''%'' @ k @ ''%''))))"
proof -
  have auto: "cs_resolved_by c = ''auto''" using assms(2) by (auto simp: normalize_def Let_def split: if_splits prod.splits option.splits)
  from normalize_cases [OF assms] show ?thesis
  proof (elim disjE exE conjE)
    assume "is_cpe_string (py_strip input)" "cs_resolved_cpe c = py_strip input" "cs_match_score c = Some 100" "cs_confidence c = ''certain''"
    moreover have "numeric_5_2 (Some 100) = Inr (Some 100)" using round_2_exact [of 100] by (simp add: round_2_def py_round_of_int [of 10000, simplified])
    ultimately show ?thesis using auto by (simp add: resolution_check_def)
  next
    fix ca score
    assume ca: "ca \<in> set (fetch_candidates d (fst (snd (extract_hints (py_strip input)))))" and s: "0 \<le> score" "score \<le> 100"
      and c: "cs_match_score c = Some (round_2 score)"
        "cs_confidence c = (if cpe_auto_match_threshold st \<le> score then ''certain'' else ''uncertain'')"
        "cs_resolved_cpe c = build_cpe (ca_part ca) (ca_vendor ca) (ca_product ca) (snd (snd (extract_hints (py_strip input))))"
    note k = candidates_no_colon [OF ca]
    note b = round_2_bounds [OF s]
    have "parse_cpe_vendor_product (cs_resolved_cpe c) = Some (ca_vendor ca @ '':'' @ ca_product ca)"
      unfolding c(3) using k by (intro build_cpe_parts) blast+
    moreover have "numeric_5_2 (cs_match_score c) = Inr (cs_match_score c)" using b by (simp add: c(1) round_2_exact)
    ultimately show ?thesis using ca k b auto c(1,2) by (auto simp: resolution_check_def)
  qed
qed

lemma saved_key: "resolution_key a = resolution_key b \<longleftrightarrow> py_strip (py_lower a) = py_strip (py_lower b)"
  by (simp add: resolution_key_def)

lemma from_json_saved:
  assumes "loads raw = Some (resolution_json c)" and "cs_confidence c \<in> {''certain'', ''uncertain'', ''manual''}"
    and "cs_resolved_by c \<in> {''auto'', ''manual''}"
  shows "from_json loads input raw = Inr (c\<lparr>cs_input_string := input, cs_from_cache := True\<rparr>)"
proof -
  have "opt_number (jopt JFloat (cs_match_score c)) = Inr (cs_match_score c)"
    by (cases "cs_match_score c") (simp_all add: opt_number_def to_float_def)
  then show ?thesis using assms(2,3)
    by (cases c) (simp add: from_json_def assms(1) resolution_json_def as_dict_def item_def obj_get_def get_or_def required_text_def literal_def)
qed

lemma fetchrow_updated:
  assumes "\<And>r. p r \<Longrightarrow> p (f r)"
  shows "fetchrow p (sql_update p f rows) = map_option f (fetchrow p rows)"
  using assms by (induction rows) (auto simp: fetchrow_def)

lemma fetchrow_append: "fetchrow p xs = None \<Longrightarrow> fetchrow p (xs @ [x]) = (if p x then Some x else None)"
  by (induction xs) (auto simp: fetchrow_def split: if_splits)

lemma upsert_found:
  assumes "cs_confidence c \<in> {''certain'', ''uncertain'', ''manual''}" and "cs_resolved_by c \<in> {''auto'', ''manual''}"
    and "numeric_5_2 (cs_match_score c) = Inr (cs_match_score c)"
  shows "\<exists>d' row. upsert_resolution now c d = Inr d' \<and>
    fetchrow (\<lambda>x. cr_input_string x = cs_input_string c) (t_rows (db_cpe_resolutions d')) = Some row \<and>
    resolution_of_row row = c\<lparr>cs_from_cache := True\<rparr>"
proof -
  let ?row = "\<lambda>n. \<lparr>cr_id = n, cr_input_string = cs_input_string c, cr_resolved_cpe = cs_resolved_cpe c, cr_confidence = cs_confidence c,
       cr_match_score = cs_match_score c, cr_resolved_at = now, cr_resolved_by = cs_resolved_by c\<rparr>"
  let ?p = "\<lambda>x. cr_input_string x = cs_input_string c"
  have ok: "resolution_check (?row 0)" using assms(1,2) by (simp add: resolution_check_def)
  have of_row: "resolution_of_row (?row n) = c\<lparr>cs_from_cache := True\<rparr>" for n by (simp add: resolution_of_row_def)
  show ?thesis
  proof (cases "fetchrow ?p (t_rows (db_cpe_resolutions d))")
    case None
    then have "\<not> list_ex ?p (t_rows (db_cpe_resolutions d))" by (auto simp: fetchrow_None list_ex_iff)
    moreover have "fetchrow ?p (t_rows (db_cpe_resolutions d) @ [?row n]) = Some (?row n)" for n
      using fetchrow_append [OF None] by simp
    ultimately show ?thesis using ok assms(3) of_row by (auto simp: upsert_resolution_def insert_row_def Let_def)
  next
    case (Some r)
    then have "list_ex ?p (t_rows (db_cpe_resolutions d))" by (auto simp: list_ex_iff dest: fetchrow_Some)
    moreover have "fetchrow ?p (sql_update ?p (\<lambda>r. ?row (cr_id r)) (t_rows (db_cpe_resolutions d))) = Some (?row (cr_id r))"
      using fetchrow_updated [of ?p "\<lambda>r. ?row (cr_id r)"] Some by simp
    ultimately show ?thesis using ok assms(3) of_row by (auto simp: upsert_resolution_def update_rows_def Let_def)
  qed
qed

text \<open>A saved resolution comes back: for a day, every spelling of the name that differs in case or in outer blanks is answered from Redis with the
  name, confidence, score and origin that were saved, marked as cached; and when Redis has lost it, the exact spelling is
  answered from the table.\<close>

theorem saved_resolution_returned:
  assumes "rv_redis_up env" and "rv_db_up env" and "cs_confidence c \<in> {''certain'', ''uncertain'', ''manual''}" and "cs_resolved_by c \<in> {''auto'', ''manual''}"
    and "numeric_5_2 (cs_match_score c) = Inr (cs_match_score c)" and "rv_dumps env (resolution_json c) \<noteq> []"
    and "rv_loads env (rv_dumps env (resolution_json c)) = Some (resolution_json c)"
    and "py_strip (py_lower input) = py_strip (py_lower (cs_input_string c))" and "t < rv_time env + 86400"
  shows "snd (cache_get (env\<lparr>rv_time := t\<rparr>) input (cache_save env c (r, d))) = Some (c\<lparr>cs_input_string := input, cs_from_cache := True\<rparr>) \<and>
    snd (cache_get env (cs_input_string c) ([], snd (cache_save env c (r, d)))) = Some (c\<lparr>cs_from_cache := True\<rparr>)"
proof -
  obtain d' row where d': "upsert_resolution (rv_now env) c d = Inr d'"
      "fetchrow (\<lambda>x. cr_input_string x = cs_input_string c) (t_rows (db_cpe_resolutions d')) = Some row"
      "resolution_of_row row = c\<lparr>cs_from_cache := True\<rparr>"
    using upsert_found [OF assms(3-5)] by blast
  have key: "resolution_key input = resolution_key (cs_input_string c)" using assms(8) by (simp add: resolution_key_def)
  have save: "cache_save env c (r, d) = (AList.update (resolution_key (cs_input_string c)) (rv_dumps env (resolution_json c), Some (rv_time env + 86400)) r, d')"
    using assms(1,2) d'(1) by (simp add: cache_save_def store_redis_def r_setex_def RESOLUTION_TTL_def)
  have "from_json (rv_loads env) input (rv_dumps env (resolution_json c)) = Inr (c\<lparr>cs_input_string := input, cs_from_cache := True\<rparr>)"
    by (rule from_json_saved) (fact assms)+
  then have "snd (cache_get (env\<lparr>rv_time := t\<rparr>) input (cache_save env c (r, d))) = Some (c\<lparr>cs_input_string := input, cs_from_cache := True\<rparr>)"
    using assms(1,6,9) by (simp add: save cache_get_def Let_def key str_or_empty_def)
  moreover have "snd (cache_get env (cs_input_string c) ([], snd (cache_save env c (r, d)))) = Some (c\<lparr>cs_from_cache := True\<rparr>)"
    using assms(1,2) d'(2,3) by (simp add: save cache_get_def Let_def str_or_empty_def r_get_def store_redis_def r_setex_def RESOLUTION_TTL_def)
  ultimately show ?thesis ..
qed

text \<open>Without Redis there is no cache: the row of the table is read, but the failing write to Redis that follows is caught with the read, so
  every lookup answers nothing, whatever the table holds; and a correction is not carried out.\<close>

theorem no_resolution_without_redis:
  "cache_get (env\<lparr>rv_redis_up := False\<rparr>) input s = (s, None) \<and> cache_invalidate (env\<lparr>rv_redis_up := False\<rparr>) input s = s"
  by (simp add: cache_get_def cache_invalidate_def store_redis_def Let_def split: prod.splits option.splits)

text \<open>A product whose only word begins with a digit has a version and no name, and a correction under another spelling leaves the row.\<close>

lemma digit_names_unresolved: "normalize m st d ''7zip'' = None"
proof -
  have "py_strip ''7zip'' = ''7zip''" "\<not> is_cpe_string ''7zip''" "extract_hints ''7zip'' = ([], [], ''7zip'')" by code_simp+
  then show ?thesis by (simp add: normalize_def)
qed

lemma invalidate_misses_spelling:
  assumes "rv_redis_up env" and "rv_db_up env" and "rv_dumps env (resolution_json (resolution_of_row row)) \<noteq> []"
  shows "snd (cache_get env ''nginx'' (cache_invalidate env ''NGINX'' (r, (empty_db 0)\<lparr>db_cpe_resolutions := \<lparr>t_rows = [row\<lparr>cr_input_string := ''nginx''\<rparr>], t_serial = 1\<rparr>\<rparr>)))
    = Some (resolution_of_row (row\<lparr>cr_input_string := ''nginx''\<rparr>))"
proof -
  have "resolution_key ''NGINX'' = resolution_key ''nginx''" by code_simp
  then show ?thesis using assms
    by (simp add: cache_invalidate_def cache_get_def Let_def str_or_empty_def sql_delete_def fetchrow_def store_redis_def r_setex_def RESOLUTION_TTL_def)
qed

section \<open>Witnesses\<close>

definition first_choice :: matcher where
  "first_choice h cs = (case cs of [] \<Rightarrow> None | c # _ \<Rightarrow> Some (c, 90, 0))"

definition nginx_db :: db where
  "nginx_db = (empty_db 0)\<lparr>db_cves := \<lparr>t_rows = [new_cve 0 \<lparr>cvv_cve_id = ''CVE-2021-1'', cvv_source = ''nvd_api'',
     cvv_raw_payload = nvd_payload ''cpe:2.3:a:f5:nginx:1.0:*'' ''1.20'', cvv_cvss_v3_score = None, cvv_cvss_v3_vector = None, cvv_cvss_v2_score = None,
     cvv_severity = None, cvv_published_at = 0, cvv_last_modified_at = 0\<rparr> 1], t_serial = 1\<rparr>\<rparr>"

theorem resolutions_well_formed_witness:
  "opt_ex (\<lambda>c. opt_ex (\<lambda>x. 0 \<le> x \<and> x \<le> 100) (cs_match_score c)) (normalize first_choice default_settings nginx_db ''Nginx 1.18'')"
proof -
  have contract: "matcher_contract first_choice" by (auto simp: matcher_contract_def first_choice_def split: list.splits)
  have "normalize first_choice default_settings nginx_db ''Nginx 1.18'' \<noteq> None" by code_simp
  then obtain c where c: "normalize first_choice default_settings nginx_db ''Nginx 1.18'' = Some c" by blast
  show ?thesis using resolutions_well_formed [OF contract c] by (simp add: c)
qed

definition demo_resolution :: cpe_resolution where
  "demo_resolution = \<lparr>cs_input_string = ''Nginx'', cs_resolved_cpe = ''cpe:2.3:a:f5:nginx:*:*:*:*:*:*:*:*'', cs_confidence = ''certain'',
     cs_match_score = Some 90, cs_resolved_by = ''auto'', cs_from_cache = False\<rparr>"

definition demo_resolution_env :: resolution_env where
  "demo_resolution_env = \<lparr>rv_loads = \<lambda>_. Some (resolution_json demo_resolution), rv_dumps = \<lambda>_. ''v'', rv_redis_up = True,
     rv_db_up = True, rv_time = 0, rv_now = 0\<rparr>"

theorem saved_resolution_returned_witness:
  "snd (cache_get (demo_resolution_env\<lparr>rv_time := 60\<rparr>) '' NGINX'' (cache_save demo_resolution_env demo_resolution ([], empty_db 0))) =
     Some (demo_resolution\<lparr>cs_input_string := '' NGINX'', cs_from_cache := True\<rparr>)"
proof -
  have h: "rv_redis_up demo_resolution_env" "rv_db_up demo_resolution_env" "cs_confidence demo_resolution \<in> {''certain'', ''uncertain'', ''manual''}"
    "cs_resolved_by demo_resolution \<in> {''auto'', ''manual''}" "numeric_5_2 (cs_match_score demo_resolution) = Inr (cs_match_score demo_resolution)"
    "rv_dumps demo_resolution_env (resolution_json demo_resolution) \<noteq> []" by code_simp+
  have l: "rv_loads demo_resolution_env (rv_dumps demo_resolution_env (resolution_json demo_resolution)) = Some (resolution_json demo_resolution)"
    by (simp add: demo_resolution_env_def)
  have k: "py_strip (py_lower '' NGINX'') = py_strip (py_lower (cs_input_string demo_resolution))" by code_simp
  show ?thesis by (rule saved_resolution_returned [OF h l k, THEN conjunct1]) (simp add: demo_resolution_env_def)
qed

end
