(* ===== verification/Http_Edge.thy ===== *)
theory Http_Edge
  imports Metrics Settings
begin

text \<open>
  What every request passes through before it reaches a route: \<open>app/core/rate_limit.py\<close>,
  \<open>app/api/middleware/security_headers.py\<close>, \<open>app/api/middleware/prom_http.py\<close>,
  \<open>app/api/middleware/error_handler.py\<close> and their order in \<open>create_app\<close> of \<open>app/main.py\<close>. An application
  turns a request into a response or an exception. Starlette wraps the middleware that is added last around all others, and an
  error handler of its own around all of them; the decision of the rate limiter (\<open>slowapi\<close>) and
  the CORS middleware are arguments. Times and request ids are inputs.
\<close>

section \<open>Requests and responses\<close>

type_synonym headers = "(string \<times> string) list"

datatype outcome = Reply int headers | Raised py_exn

record http_request =
  rq_method :: string
  rq_path :: string
  rq_route :: "string option"
  rq_client :: string
  rq_id :: string
  rq_ms :: int

text \<open>The counters: those of the process, and the observations of Prometheus (method, path, status, seconds).\<close>

record edge =
  ed_http :: http_metrics
  ed_prom :: "(string \<times> string \<times> int \<times> rat) list"

type_synonym asgi = "http_request \<Rightarrow> edge \<Rightarrow> edge \<times> outcome"

section \<open>Rate limit\<close>

definition EXEMPT_PATHS :: "string list" where
  "EXEMPT_PATHS = [''/api/health'', ''/api/health/ready'', ''/api/health/metrics'']"

definition limit_key :: "http_request \<Rightarrow> string" where
  "limit_key rq = (if rq_path rq \<in> set EXEMPT_PATHS then ''health-probe'' else rq_client rq)"

definition storage_uri :: "(string \<Rightarrow> string option) \<Rightarrow> string option" where
  "storage_uri env =
     (let explicit = py_strip (str_or_empty (env ''RATE_LIMIT_STORAGE_URL'')); url = py_strip (str_or_empty (env ''REDIS_URL'')) in
      if explicit \<noteq> [] then Some explicit
      else if url \<noteq> [] \<and> (py_startswith url ''redis://'' \<or> py_startswith url ''rediss://'') then Some url else None)"

text \<open>\<open>SlowAPIMiddleware\<close>: a request over the limit of its key is answered at once.\<close>

definition rate_limited :: "(string \<Rightarrow> bool) \<Rightarrow> headers \<Rightarrow> asgi \<Rightarrow> asgi" where
  "rate_limited over hs app rq s = (if over (limit_key rq) then (s, Reply 429 hs) else app rq s)"

section \<open>Headers\<close>

fun set_header :: "string \<Rightarrow> string \<Rightarrow> headers \<Rightarrow> headers" where
  "set_header k v [] = [(k, v)]"
| "set_header k v ((k', v') # hs) = (if py_lower k' = py_lower k then (k, v) # hs else (k', v') # set_header k v hs)"

definition CSP :: string where
  "CSP = concat [''default-src '', [CHR 0x27], ''self'', [CHR 0x27], ''; script-src '', [CHR 0x27], ''self'', [CHR 0x27],
     '' https://cdn.jsdelivr.net '', [CHR 0x27], ''unsafe-inline'', [CHR 0x27], ''; style-src '', [CHR 0x27], ''self'', [CHR 0x27],
     '' https://cdn.jsdelivr.net '', [CHR 0x27], ''unsafe-inline'', [CHR 0x27], ''; img-src '', [CHR 0x27], ''self'', [CHR 0x27],
     '' data: https://fastapi.tiangolo.com; font-src '', [CHR 0x27], ''self'', [CHR 0x27], '' data:; connect-src '', [CHR 0x27], ''self'', [CHR 0x27],
     ''; frame-ancestors '', [CHR 0x27], ''none'', [CHR 0x27], ''; base-uri '', [CHR 0x27], ''self'', [CHR 0x27],
     ''; form-action '', [CHR 0x27], ''self'', [CHR 0x27]]"

definition PERMISSIONS_POLICY :: string where
  "PERMISSIONS_POLICY = ''accelerometer=(), camera=(), geolocation=(), gyroscope=(), magnetometer=(), microphone=(), payment=(), usb=()''"

definition with_security :: "string \<Rightarrow> headers \<Rightarrow> headers" where
  "with_security envt hs =
     (let hs = set_header ''permissions-policy'' PERMISSIONS_POLICY (set_header ''referrer-policy'' ''strict-origin-when-cross-origin''
        (set_header ''x-content-type-options'' ''nosniff'' (set_header ''x-frame-options'' ''DENY'' (set_header ''content-security-policy'' CSP hs))))
      in if envt = ''production'' then set_header ''strict-transport-security'' ''max-age=31536000; includeSubDomains'' hs else hs)"

definition security_headers :: "string \<Rightarrow> asgi \<Rightarrow> asgi" where
  "security_headers envt app rq s = (case app rq s of
     (s', Reply st hs) \<Rightarrow> (s', Reply st (with_security envt hs)) | (s', Raised e) \<Rightarrow> (s', Raised e))"

section \<open>Metrics and errors\<close>

definition observed_path :: "http_request \<Rightarrow> string" where
  "observed_path rq = (if str_or_empty (rq_route rq) \<noteq> [] then str_or_empty (rq_route rq) else rq_path rq)"

definition prometheus_http :: "(http_request \<Rightarrow> rat) \<Rightarrow> asgi \<Rightarrow> asgi" where
  "prometheus_http duration app rq s = (case app rq s of (s', out) \<Rightarrow>
     (s'\<lparr>ed_prom := ed_prom s' @ [(rq_method rq, observed_path rq, (case out of Reply st _ \<Rightarrow> st | Raised _ \<Rightarrow> 500), duration rq)]\<rparr>, out))"

definition request_context :: "asgi \<Rightarrow> asgi" where
  "request_context app rq s = (case app rq s of
     (s', Reply st hs) \<Rightarrow> (s'\<lparr>ed_http := record_http (of_int (rq_ms rq) / 1000) st (ed_http s')\<rparr>, Reply st (set_header ''X-Request-ID'' (rq_id rq) hs))
   | (s', Raised e) \<Rightarrow> (s', Raised e))"

definition generic_exception_handler :: "asgi \<Rightarrow> asgi" where
  "generic_exception_handler app rq s = (case app rq s of
     (s', Raised e) \<Rightarrow> if is_exception e then (s', Reply 500 [(''X-Request-ID'', rq_id rq)]) else (s', Raised e)
   | (s', Reply st hs) \<Rightarrow> (s', Reply st hs))"

section \<open>The order\<close>

definition add_middleware :: "(asgi \<Rightarrow> asgi) \<Rightarrow> (asgi \<Rightarrow> asgi) list \<Rightarrow> (asgi \<Rightarrow> asgi) list" where
  "add_middleware m ms = m # ms"

record edge_env =
  ee_cors :: "asgi \<Rightarrow> asgi"
  ee_environment :: string
  ee_duration :: "http_request \<Rightarrow> rat"
  ee_over :: "string \<Rightarrow> bool"
  ee_limit_headers :: headers

definition app_middleware :: "edge_env \<Rightarrow> (asgi \<Rightarrow> asgi) list" where
  "app_middleware env =
     (let ms = add_middleware (ee_cors env) [];
          ms = add_middleware (security_headers (ee_environment env)) ms;
          ms = add_middleware (prometheus_http (ee_duration env)) ms;
          ms = add_middleware (rate_limited (ee_over env) (ee_limit_headers env)) ms
      in add_middleware request_context ms)"

definition create_app :: "edge_env \<Rightarrow> asgi \<Rightarrow> asgi" where
  "create_app env routes = generic_exception_handler (foldr (\<lambda>m app. m app) (app_middleware env) routes)"

section \<open>Properties\<close>

definition header :: "string \<Rightarrow> headers \<Rightarrow> string option" where
  "header k hs = map_option snd (List.find (\<lambda>h. py_lower (fst h) = py_lower k) hs)"

lemma header_set: "header k (set_header k' v hs) = (if py_lower k = py_lower k' then Some v else header k hs)"
  by (induction hs) (auto simp: header_def)

lemma header_Nil [simp]: "header k [] = None"
  by (simp add: header_def)

lemma create_app_unfold: "create_app env routes = generic_exception_handler (request_context (rate_limited (ee_over env) (ee_limit_headers env)
    (prometheus_http (ee_duration env) (security_headers (ee_environment env) (ee_cors env routes)))))"
  by (simp add: create_app_def app_middleware_def add_middleware_def Let_def)

lemma security_values:
  "header ''content-security-policy'' (with_security e hs) = Some CSP" "header ''x-frame-options'' (with_security e hs) = Some ''DENY''"
  "header ''x-content-type-options'' (with_security e hs) = Some ''nosniff''"
  "header ''referrer-policy'' (with_security e hs) = Some ''strict-origin-when-cross-origin''"
  "header ''permissions-policy'' (with_security e hs) = Some PERMISSIONS_POLICY"
  "e = ''production'' \<Longrightarrow> header ''strict-transport-security'' (with_security e hs) = Some ''max-age=31536000; includeSubDomains''"
  "e \<noteq> ''production'' \<Longrightarrow> header ''strict-transport-security'' (with_security e hs) = header ''strict-transport-security'' hs"
  by (simp_all add: with_security_def Let_def header_set py_lower_def lower_char_def is_upper_def)

text \<open>C39: A response of the application leaves with the security headers, with its request id, with strict transport security exactly
  in production, unless the application set it itself, and is counted once by Prometheus and once by the process.\<close>

theorem routed_responses_hardened:
  assumes "ee_cors env routes rq s = (s1, Reply st hs)" and "\<not> ee_over env (limit_key rq)"
  shows "\<exists>s' hs'. create_app env routes rq s = (s', Reply st hs') \<and>
    header ''content-security-policy'' hs' = Some CSP \<and> header ''x-frame-options'' hs' = Some ''DENY'' \<and>
    header ''x-content-type-options'' hs' = Some ''nosniff'' \<and> header ''referrer-policy'' hs' = Some ''strict-origin-when-cross-origin'' \<and>
    header ''permissions-policy'' hs' = Some PERMISSIONS_POLICY \<and> header ''X-Request-ID'' hs' = Some (rq_id rq) \<and>
    header ''strict-transport-security'' hs' = (if ee_environment env = ''production'' then Some ''max-age=31536000; includeSubDomains''
      else header ''strict-transport-security'' hs) \<and>
    ed_prom s' = ed_prom s1 @ [(rq_method rq, observed_path rq, st, ee_duration env rq)] \<and>
    hm_requests_total (ed_http s') = hm_requests_total (ed_http s1) + 1"
  using assms security_values [of "ee_environment env" hs]
  by (simp add: create_app_unfold generic_exception_handler_def request_context_def rate_limited_def prometheus_http_def security_headers_def
      header_set record_http_def py_lower_def lower_char_def is_upper_def)

text \<open>Two kinds of responses leave without them. A request over the limit is answered with status 429 outside the middleware that sets the headers and
  the one that counts for Prometheus; and the 500 of an unhandled exception is made outside all of them, so it has the request id only
  and the process does not count it.\<close>

theorem errors_leave_unhardened:
  "(if ee_over env (limit_key rq) then
      snd (create_app env routes rq s) = Reply 429 (set_header ''X-Request-ID'' (rq_id rq) (ee_limit_headers env)) \<and>
      ed_prom (fst (create_app env routes rq s)) = ed_prom s
    else case ee_cors env routes rq s of
        (s1, Raised e) \<Rightarrow> is_exception e = (snd (create_app env routes rq s) = Reply 500 [(''X-Request-ID'', rq_id rq)]) \<and>
          ed_http (fst (create_app env routes rq s)) = ed_http s1 \<and>
          ed_prom (fst (create_app env routes rq s)) = ed_prom s1 @ [(rq_method rq, observed_path rq, 500, ee_duration env rq)]
      | (s1, Reply st hs) \<Rightarrow> True)"
  by (auto simp: create_app_unfold generic_exception_handler_def request_context_def rate_limited_def prometheus_http_def security_headers_def
      split: prod.splits outcome.splits)

text \<open>The probes are not exempt: all of them, from every client, share one budget.\<close>

lemma probes_share_a_budget:
  "rq_path a \<in> set EXEMPT_PATHS \<Longrightarrow> rq_path b \<in> set EXEMPT_PATHS \<Longrightarrow> limit_key a = limit_key b"
  by (simp add: limit_key_def)

theorem routed_responses_hardened_witness:
  "\<exists>s' hs'. create_app \<lparr>ee_cors = id, ee_environment = ''production'', ee_duration = \<lambda>_. 0, ee_over = \<lambda>_. False, ee_limit_headers = []\<rparr>
     (\<lambda>_ s. (s, Reply 200 [(''X-Frame-Options'', ''SAMEORIGIN'')]))
     \<lparr>rq_method = ''GET'', rq_path = ''/api/cves'', rq_route = None, rq_client = ''10.0.0.1'', rq_id = ''r1'', rq_ms = 3\<rparr>
     \<lparr>ed_http = \<lparr>hm_requests_total = 0, hm_errors_5xx_total = 0, hm_latencies = []\<rparr>, ed_prom = []\<rparr> = (s', Reply 200 hs') \<and>
   header ''x-frame-options'' hs' = Some ''DENY'' \<and> header ''strict-transport-security'' hs' = Some ''max-age=31536000; includeSubDomains''"
proof -
  let ?env = "\<lparr>ee_cors = id, ee_environment = ''production'', ee_duration = \<lambda>_. 0, ee_over = \<lambda>_. False, ee_limit_headers = []\<rparr> :: edge_env"
  let ?routes = "(\<lambda>_ s. (s, Reply 200 [(''X-Frame-Options'', ''SAMEORIGIN'')])) :: asgi"
  let ?rq = "\<lparr>rq_method = ''GET'', rq_path = ''/api/cves'', rq_route = None, rq_client = ''10.0.0.1'', rq_id = ''r1'', rq_ms = 3\<rparr> :: http_request"
  let ?s = "\<lparr>ed_http = \<lparr>hm_requests_total = 0, hm_errors_5xx_total = 0, hm_latencies = []\<rparr>, ed_prom = []\<rparr> :: edge"
  have h: "ee_cors ?env ?routes ?rq ?s = (?s, Reply 200 [(''X-Frame-Options'', ''SAMEORIGIN'')])" "\<not> ee_over ?env (limit_key ?rq)" by simp_all
  have e: "ee_environment ?env = ''production''" by simp
  show ?thesis using routed_responses_hardened [OF h] unfolding e by (simp only: refl if_True) blast
qed

end
