(* ===== verification/Cron.thy ===== *)
theory Cron
  imports Ingest Exploitability Opencve Scheduler Daily_Snapshot Webhook_Worker Findings
begin

text \<open>
  \<open>create_scheduler\<close> of \<open>app/workers/scheduler.py\<close>: the periodic jobs, each the run of another module behind a
  wrapper that logs what it raises, and the table of the jobs with their intervals. A tick is one run of one job on a
  replica that may lead. The world is what the jobs share in one process: the database and Redis, the
  breakers, the daily budget of vulnx. Clocks and the answers of the services are inputs of a tick. A job whose
  polling loop has not ended yields \<open>None\<close>.
\<close>

section \<open>The world and the inputs of a tick\<close>

record cron_world =
  cw_db :: db
  cw_redis :: redis
  cw_circuits :: circuits
  cw_epss :: breaker
  cw_kev :: breaker
  cw_vulnx :: breaker
  cw_counter :: daily_counter
  cw_snapshots :: "snapshot_row table"
  cw_subscriptions :: "subscription_row table"

record cron_env =
  ce_now :: int
  ce_vc_clock :: ingest_clock
  ce_nvd_clock :: ingest_clock
  ce_vc_client :: "Ingest.client option"
  ce_nvd_client :: Ingest.client
  ce_loads :: "string \<Rightarrow> json option"
  ce_dumps :: "json \<Rightarrow> string"
  ce_redis_up :: bool
  ce_enrich_clock :: enrich_clock
  ce_epss :: "string list \<Rightarrow> response result"
  ce_kev :: "response result"
  ce_job_clocks :: "clock list"
  ce_webhooks :: webhook_env
  ce_allowlist :: "string option"
  ce_vx_clock :: vx_clock
  ce_vulnx :: "string list \<Rightarrow> response result"
  ce_today :: "nat \<Rightarrow> int"
  ce_opencve :: "string \<Rightarrow> string \<Rightarrow> nat \<Rightarrow> response result"

type_synonym job_body = "settings \<Rightarrow> cron_env \<Rightarrow> cron_world \<Rightarrow> cron_world option"

section \<open>The jobs\<close>

text \<open>Whatever the run of a job returns or raises is logged and dropped; what it had committed stays.\<close>

definition delta_sync :: job_body where
  "delta_sync st env w =
     (case run_smart_delta (ce_vc_clock env) (ce_nvd_clock env) (ce_vc_client env) (ce_nvd_client env) (cw_circuits w) (cw_db w) of
        (cs, d, _) \<Rightarrow> Some (w\<lparr>cw_circuits := cs, cw_db := d\<rparr>))"

definition epss_refresh :: job_body where
  "epss_refresh st env w =
     (case run_epss_refresh (ce_loads env) (ce_dumps env) (ce_epss env) (ce_redis_up env) (ce_enrich_clock env)
        (cw_epss w) (cw_db w, cw_redis w) of
        (cb, (d, r), _) \<Rightarrow> Some (w\<lparr>cw_epss := cb, cw_db := d, cw_redis := r\<rparr>))"

definition kev_refresh :: job_body where
  "kev_refresh st env w =
     (case run_kev_refresh (ce_loads env) (ce_dumps env) (ce_kev env) (ce_redis_up env) (ce_enrich_clock env)
        (cw_kev w) (cw_db w, cw_redis w) of
        (cb, (d, r), _) \<Rightarrow> Some (w\<lparr>cw_kev := cb, cw_db := d, cw_redis := r\<rparr>))"

definition retention_job :: job_body where
  "retention_job st env w = Some (w\<lparr>cw_db := retention_cleanup (ce_now env) (cw_db w)\<rparr>)"

definition queue_job :: job_body where
  "queue_job st env w = Some (w\<lparr>cw_db := queue_cleanup (ce_now env) (cw_db w)\<rparr>)"

definition sync_job_poll :: job_body where
  "sync_job_poll st env w =
     map_option (\<lambda>(d, _). w\<lparr>cw_db := d\<rparr>) (drain_pending_jobs (ce_job_clocks env) (cw_db w))"

definition snapshot_job :: job_body where
  "snapshot_job st env w = Some (w\<lparr>cw_snapshots := capture_daily_snapshot (ce_now env) (cw_db w) (cw_snapshots w)\<rparr>)"

definition expiry_job :: job_body where
  "expiry_job st env w = Some (w\<lparr>cw_db := fst (expire_risk_acceptances (ce_now env) (cw_db w))\<rparr>)"

text \<open>The allow-list is read from the environment at every tick.\<close>

definition webhook_dispatch :: job_body where
  "webhook_dispatch st env w =
     (let we = (ce_webhooks env)\<lparr>we_enc_key := webhook_enc_key st, we_enforcement := opsec_enforcement st,
          we_allowlist := str_or_empty (ce_allowlist env)\<rparr>
      in Some (w\<lparr>cw_db := fst (drain_pending_deliveries we (ce_now env) (cw_db w))\<rparr>))"

definition vulnx_refresh :: job_body where
  "vulnx_refresh st env w =
     (case run_exploitability_refresh st 5000 (ce_vx_clock env) (fetch_intel st (ce_vulnx env) (ce_today env))
        (cw_vulnx w) (cw_db w, cw_counter w) of
        (cb, (d, c), _) \<Rightarrow> Some (w\<lparr>cw_vulnx := cb, cw_db := d, cw_counter := c\<rparr>))"

definition opencve_poll :: job_body where
  "opencve_poll st env w =
     Some (w\<lparr>cw_db := fst (poll_subscriptions st (ce_now env) (ce_opencve env) (cw_subscriptions w) (cw_db w))\<rparr>)"

section \<open>The table\<close>

text \<open>Intervals are in seconds; a job runs for the flag of the replica, \<open>None\<close> without an election.\<close>

record cron_job =
  cj_id :: string
  cj_interval :: int
  cj_run :: "bool option \<Rightarrow> cron_env \<Rightarrow> cron_world \<Rightarrow> cron_world option"

definition hours :: "int \<Rightarrow> int" where "hours n = n * 3600"

text \<open>\<open>_leader_only\<close>, and the two jobs that run everywhere.\<close>

definition gated :: "job_body \<Rightarrow> settings \<Rightarrow> bool option \<Rightarrow> cron_env \<Rightarrow> cron_world \<Rightarrow> cron_world option" where
  "gated job st lead env w = leader_only lead (\<lambda>s. Option.bind s (job st env)) (Some w)"

definition everywhere :: "job_body \<Rightarrow> settings \<Rightarrow> bool option \<Rightarrow> cron_env \<Rightarrow> cron_world \<Rightarrow> cron_world option" where
  "everywhere job st lead env w = job st env w"

definition create_scheduler :: "settings \<Rightarrow> cron_job list" where
  "create_scheduler st =
     [\<lparr>cj_id = ''delta_sync'', cj_interval = hours (delta_sync_interval_hours st), cj_run = gated delta_sync st\<rparr>,
      \<lparr>cj_id = ''epss_refresh'', cj_interval = hours (epss_refresh_interval_hours st), cj_run = gated epss_refresh st\<rparr>,
      \<lparr>cj_id = ''kev_refresh'', cj_interval = hours (kev_refresh_interval_hours st), cj_run = gated kev_refresh st\<rparr>,
      \<lparr>cj_id = ''retention_cleanup'', cj_interval = hours 24, cj_run = gated retention_job st\<rparr>,
      \<lparr>cj_id = ''queue_cleanup'', cj_interval = hours 24, cj_run = gated queue_job st\<rparr>,
      \<lparr>cj_id = ''sync_job_poll'', cj_interval = 5, cj_run = everywhere sync_job_poll st\<rparr>,
      \<lparr>cj_id = ''daily_snapshot'', cj_interval = hours 24, cj_run = gated snapshot_job st\<rparr>,
      \<lparr>cj_id = ''expire_risk_acceptances'', cj_interval = hours 24, cj_run = gated expiry_job st\<rparr>,
      \<lparr>cj_id = ''webhook_dispatch'', cj_interval = 10, cj_run = everywhere webhook_dispatch st\<rparr>] @
     (if vulnx_api_key st = [] then []
      else [\<lparr>cj_id = ''vulnx_refresh'', cj_interval = hours (vulnx_refresh_interval_hours st), cj_run = gated vulnx_refresh st\<rparr>]) @
     (if opencve_api_key st = [] then []
      else [\<lparr>cj_id = ''opencve_poll'', cj_interval = hours (delta_sync_interval_hours st), cj_run = gated opencve_poll st\<rparr>])"

text \<open>A tick: the flag of the replica, the inputs, and the job that is due.\<close>

type_synonym tick = "bool option \<times> cron_env \<times> string"

definition run_tick :: "cron_job list \<Rightarrow> tick \<Rightarrow> cron_world \<Rightarrow> cron_world option" where
  "run_tick jobs t w = (case t of (lead, env, i) \<Rightarrow>
     (case List.find (\<lambda>j. cj_id j = i) jobs of None \<Rightarrow> Some w | Some j \<Rightarrow> cj_run j lead env w))"

fun run_ticks :: "cron_job list \<Rightarrow> tick list \<Rightarrow> cron_world \<Rightarrow> cron_world option" where
  "run_ticks jobs [] w = Some w"
| "run_ticks jobs (t # ts) w = Option.bind (run_tick jobs t w) (run_ticks jobs ts)"

lemma run_ticks_induct:
  assumes "run_ticks jobs ts w = Some w'" and "\<And>x. R x x" and "\<And>x y z. R x y \<Longrightarrow> R y z \<Longrightarrow> R x z"
    and "\<And>t x y. t \<in> set ts \<Longrightarrow> run_tick jobs t x = Some y \<Longrightarrow> R x y"
  shows "R w w'"
  using assms(1,4)
proof (induction ts arbitrary: w)
  case Nil
  then show ?case using assms(2) by simp
next
  case (Cons t ts)
  then obtain x where x: "run_tick jobs t w = Some x" "run_ticks jobs ts x = Some w'" by (auto simp: bind_eq_Some_conv)
  have "R w x" using Cons.prems(2) x(1) by (meson list.set_intros(1))
  moreover have "R x w'" using Cons.IH [OF x(2)] Cons.prems(2) by (meson list.set_intros(2))
  ultimately show ?case by (rule assms(3))
qed

section \<open>What the jobs leave alone\<close>

text \<open>The tables that hold decisions and their traces.\<close>

definition people :: "db \<Rightarrow> finding_row table \<times> history_row table \<times> risk_row table \<times> audit_row table" where
  "people d = (db_findings d, db_history d, db_risks d, db_audit d)"

definition undecided :: "finding_row \<Rightarrow> bool" where
  "undecided f \<longleftrightarrow> fd_status f = ''open'' \<and> fd_assigned_to f = None \<and> fd_due_date f = None \<and> fd_notes f = None"

definition decisions_kept :: "db \<Rightarrow> db \<Rightarrow> bool" where
  "decisions_kept d d' \<longleftrightarrow> (\<exists>g new. t_rows (db_findings d') = map g (t_rows (db_findings d)) @ new \<and>
       list_all (\<lambda>f. human (g f) = human f) (t_rows (db_findings d)) \<and> list_all undecided new) \<and>
     db_history d' = db_history d \<and> db_risks d' = db_risks d \<and> db_audit d' = db_audit d"

lemma decisions_kept_people: "people d' = people d \<Longrightarrow> decisions_kept d d'"
  unfolding decisions_kept_def people_def by (intro conjI exI [of _ id] exI [of _ "[]"]) (simp_all add: list_all_iff)

lemma decisions_kept_refl [simp]: "decisions_kept d d"
  by (rule decisions_kept_people) (rule refl)

lemma human_undecided: "human g = human f \<Longrightarrow> undecided f \<Longrightarrow> undecided g"
  by (simp add: human_def undecided_def)

lemma decisions_kept_trans:
  assumes "decisions_kept a b" and "decisions_kept b c"
  shows "decisions_kept a c"
proof -
  obtain g new where g: "t_rows (db_findings b) = map g (t_rows (db_findings a)) @ new"
    "list_all (\<lambda>f. human (g f) = human f) (t_rows (db_findings a))" "list_all undecided new"
    using assms(1) unfolding decisions_kept_def by blast
  obtain h old where h: "t_rows (db_findings c) = map h (t_rows (db_findings b)) @ old"
    "list_all (\<lambda>f. human (h f) = human f) (t_rows (db_findings b))" "list_all undecided old"
    using assms(2) unfolding decisions_kept_def by blast
  have "t_rows (db_findings c) = map (h \<circ> g) (t_rows (db_findings a)) @ (map h new @ old)" by (simp add: g(1) h(1))
  moreover have "list_all (\<lambda>f. human ((h \<circ> g) f) = human f) (t_rows (db_findings a))"
    using g(2) h(2) by (simp add: g(1) list_all_iff)
  moreover have "list_all undecided (map h new @ old)"
    using g(3) h(2,3) human_undecided by (fastforce simp: g(1) list_all_iff)
  ultimately have "\<exists>g new. t_rows (db_findings c) = map g (t_rows (db_findings a)) @ new \<and>
     list_all (\<lambda>f. human (g f) = human f) (t_rows (db_findings a)) \<and> list_all undecided new" by blast
  then show ?thesis using assms by (simp add: decisions_kept_def)
qed

lemma kept_then: "decisions_kept a b \<Longrightarrow> people c = people b \<Longrightarrow> decisions_kept a c"
  by (rule decisions_kept_trans [OF _ decisions_kept_people])

subsection \<open>Jobs that fill the mirror\<close>

lemma feed_people: "people (pg_db (snd (feed now source batch p rs))) = people (pg_db p)"
  by (induction rs arbitrary: batch p) (auto simp: Let_def flush_def people_def)

lemma upsert_people: "people (fst (upsert_batched now source records d)) = people d"
  using feed_people [of now source "[]" "\<lparr>pg_db = d, pg_processed = 0, pg_errors = 0\<rparr>" "fst records"]
  by (auto simp: upsert_batched_def Let_def flush_def people_def split: prod.splits option.splits)

lemma ingest_people: "people (fst (snd (run_ingest source b clk records cb d))) = people d"
proof (cases "cb_call (ic_enter clk) (ic_fail clk) (upsert_batched (ic_db clk) source records) cb d")
  case (fields cb' d1 r)
  then have "people d1 = people d"
    using cb_call_state [of "ic_enter clk" "ic_fail clk" "upsert_batched (ic_db clk) source records" cb d]
      upsert_people [of "ic_db clk" source records d] by (simp only: fst_conv snd_conv) metis
  moreover have "people (checkpoint a b' c e d1) = people d1" "people (record_error a b' x d1) = people d1" for a b' c e x
    by (simp_all add: people_def checkpoint_def record_error_def)
  ultimately show ?thesis by (auto simp: run_ingest_def fields split: sum.splits prod.splits py_exn.splits)
qed

lemma smart_delta_people: "people (fst (snd (run_smart_delta clk nclk vc nvd cs d))) = people d"
proof -
  have nvd: "people (fst (snd (run_nvd_delta_ingest nclk nvd b d))) = people d" for b d
    by (simp add: run_nvd_delta_ingest_def ingest_people)
  have vc: "people (fst (snd (run_delta_ingest clk v b d))) = people d" for v b d
    by (simp add: run_delta_ingest_def ingest_people)
  show ?thesis
    by (cases vc; cases "snd (snd (run_delta_ingest clk (the vc) (c_vulncheck cs) d))")
      (simp_all add: run_smart_delta_def Let_def split_def nvd vc)
qed

lemma write_scores_people: "people (write_scores now es d) = people d"
proof -
  have "people (fold (update_epss now) es d) = people d" for d by (induction es arbitrary: d) (simp_all add: update_epss_def people_def)
  moreover have "people (fold (insert_epss_history now) es d) = people d" for d
    by (induction es arbitrary: d) (simp_all add: insert_epss_history_def people_def)
  ultimately show ?thesis by (simp add: write_scores_def)
qed

lemma kev_fold_people: "people (fold update_kev us d) = people d"
  by (induction us arbitrary: d) (simp_all add: update_kev_def people_def)

lemma enrich_people:
  assumes "\<And>d r. people (fst (fst (pass (d, r)))) = people d"
  shows "people (fst (fst (snd (run_enrich job clk pass cb (d, r))))) = people d"
  using cb_call_state [of "ec_enter clk" "ec_fail clk" pass cb "(d, r)"] assms [of d r]
  by (auto simp: run_enrich_def split_def)

lemma epss_people: "people (fst (fst (snd (run_epss_refresh loads dumps srv up clk cb (d, r))))) = people d"
  unfolding run_epss_refresh_def
  by (rule enrich_people) (auto simp: epss_pass_def Let_def write_scores_people split: prod.split sum.split)

lemma kev_people: "people (fst (fst (snd (run_kev_refresh loads dumps answer up clk cb (d, r))))) = people d"
  unfolding run_kev_refresh_def
  by (rule enrich_people) (auto simp: kev_pass_def Let_def kev_fold_people split: prod.split sum.split)

lemma poll_people: "fst (poll_subscriptions st now srv subs d) = d"
proof -
  have one: "fst (poll_one now srv s d) = d" for s d using poll_pages_nothing by (simp add: poll_one_def)
  have "fst (poll_all now srv ss d) = d" for ss
  proof (induction ss)
    case Nil
    then show ?case by simp
  next
    case (Cons s ss)
    show ?case using one [of s d] Cons by (cases "poll_one now srv s d"; cases "snd (poll_one now srv s d)") (auto split: prod.split)
  qed
  then show ?thesis by (simp add: poll_subscriptions_def)
qed

subsection \<open>Jobs over the findings\<close>

lemma set_priority_kept: "decisions_kept d (set_priority now e d)"
  unfolding decisions_kept_def set_priority_def
  by (intro conjI exI [of _ "\<lambda>f. if fd_id f = fst e then f\<lparr>fd_priority_score := Some (of_int (snd e)), fd_updated_at := now\<rparr> else f"] exI [of _ "[]"])
    (auto simp: update_rows_def sql_update_def human_def list_all_iff)

lemma recompute_kept: "decisions_kept d (fst (recompute_finding_priorities t now ids d))"
proof -
  have "decisions_kept d (fold (set_priority now) es d)" for es
    by (induction es arbitrary: d) (auto intro: decisions_kept_trans set_priority_kept)
  then show ?thesis by (simp add: recompute_finding_priorities_def Let_def)
qed

lemma stored_people: "people (fold (store_not_found st now) is (fold (store_intel st now) es d)) = people d"
  by (simp add: fold_store_intel fold_store_not_found people_def)

lemma vx_pass_kept: "decisions_kept d (fst (fst (vx_pass st page clk fetch (d, c))))"
proof -
  have stored: "decisions_kept d (fold (store_not_found t now) is (fold (store_intel t now) es d))" for t now "is" es
    by (rule decisions_kept_people [OF stored_people])
  have none: "decisions_kept d (fold (store_not_found t now) is d)" for t now "is"
    using stored [of t now "is" "[]"] by simp
  show ?thesis
    using stored none decisions_kept_trans [OF stored recompute_kept]
    by (auto simp: vx_pass_def Let_def split: prod.split sum.split)
qed

lemma vx_run_kept: "decisions_kept d (fst (fst (snd (run_exploitability_refresh st page clk fetch cb (d, c)))))"
  using cb_call_state [of "vx_enter clk" "vx_fail clk" "vx_pass st page clk fetch" cb "(d, c)"] vx_pass_kept [of d st page clk fetch c]
  by (auto simp: run_exploitability_refresh_def split_def)

lemma sync_kept: "decisions_kept d (fst (sync_product now pid d))"
proof (cases "sync_product now pid d")
  case (Pair d' res)
  have other: "db_risks d' = db_risks d \<and> db_audit d' = db_audit d"
    using Pair by (auto simp: sync_product_def Let_def set_sync_status_def stats_update_def split: option.splits sum.splits list.splits if_splits)
  show ?thesis using Pair
  proof (rule sync_product_shape)
    assume "d' = d"
    then show ?thesis using Pair by simp
  next
    fix vs
    assume f: "db_findings d' = foldl (upsert_finding now pid) (db_findings d) vs" and h: "db_history d' = db_history d"
    obtain g new where "t_rows (db_findings d') = map g (t_rows (db_findings d)) @ new"
      "\<forall>f \<in> set (t_rows (db_findings d)). kept f (g f)" "\<forall>f \<in> set new. fresh pid (fv_cve_id ` set vs) f"
      using upserts_cases [of now pid "db_findings d" vs] unfolding f by blast
    then have "decisions_kept d d'" using other h unfolding decisions_kept_def
      by (intro conjI exI [of _ g] exI [of _ new]) (auto simp: kept_def fresh_def undecided_def list_all_iff)
    then show ?thesis using Pair by simp
  qed
qed

lemma process_kept: "decisions_kept d (fst (process_one_job clk d))"
proof (cases "claim_job (fst clk) d")
  case (Pair d1 j)
  have 1: "people d1 = people d" using Pair by (auto simp: claim_job_def people_def split: option.splits)
  show ?thesis
  proof (cases j)
    case None
    then show ?thesis using Pair decisions_kept_people [OF 1] by (simp add: process_one_job_def split_def)
  next
    case (Some k)
    obtain d2 r where 2: "dispatch (fst (snd clk)) k d1 = (d2, r)" by (cases "dispatch (fst (snd clk)) k d1")
    have "decisions_kept d1 d2"
      using 2 sync_kept by (auto simp: dispatch_def split: if_splits option.splits prod.splits) (metis fst_conv)+
    moreover have "people (complete_job t i d2) = people d2" "people (fail_job t i m d2) = people d2" for t i m
      by (simp_all add: people_def complete_job_def fail_job_def)
    ultimately have "decisions_kept d (complete_job t i d2)" "decisions_kept d (fail_job t i m d2)" "decisions_kept d d2" for t i m
      using decisions_kept_trans [OF decisions_kept_people [OF 1]] kept_then by blast+
    then show ?thesis using Pair Some 2 by (cases r) (simp_all add: process_one_job_def split_def)
  qed
qed

lemma drain_kept: "drain_pending_jobs ts d = Some (d', r) \<Longrightarrow> decisions_kept d d'"
proof (induction ts arbitrary: d d' r)
  case Nil
  then show ?case by simp
next
  case (Cons t ts)
  obtain d1 s where 1: "process_one_job t d = (d1, s)" by (cases "process_one_job t d")
  then have k: "decisions_kept d d1" using process_kept [of d t] by simp
  show ?case
  proof (cases s)
    case (Inl e)
    then show ?thesis using Cons.prems 1 k by simp
  next
    case (Inr b)
    show ?thesis
    proof (cases b)
      case True
      then obtain r' where "drain_pending_jobs ts d1 = Some (d', r')" using Cons.prems 1 Inr by (auto split: prod.splits)
      then show ?thesis using Cons.IH decisions_kept_trans [OF k] by blast
    next
      case False
      then show ?thesis using Cons.prems 1 Inr k by simp
    qed
  qed
qed

lemma deliveries_people: "people (fst (drain_pending_deliveries we now d)) = people d"
proof -
  have marks: "people (mark_success a b c e d) = people d" "people (mark_failure a' b' c' e' s' d) = people d"
    "people (bump_webhook_success a b d) = people d" "people (bump_webhook_failure a b t d) = people d"
    for a b c e a' b' c' e' s' t d
    by (simp_all add: people_def mark_success_def mark_failure_def bump_webhook_success_def bump_webhook_failure_def)
  have fail: "people (fail_with we now r st e b d) = people d" for r st e b d
    by (simp add: fail_with_def record_failure_def Let_def marks)
  have "people (fst (attempt_delivery we now r d)) = people d" for r d
    by (auto simp: attempt_delivery_def send_delivery_def Let_def marks fail split: option.split sum.split py_exn.split)
  then have "people (bounded we now r d) = people d" for r d
    using fail by (cases "attempt_delivery we now r d"; cases "snd (attempt_delivery we now r d)") (auto simp: bounded_def, (metis fst_conv)+)
  then have "people (foldl (\<lambda>d r. bounded we now r d) d rs) = people d" for rs d by (induction rs arbitrary: d) simp_all
  then show ?thesis by (auto simp: drain_pending_deliveries_def claim_def Let_def people_def)
qed

lemma queue_people: "people (queue_cleanup now d) = people d"
  by (simp add: queue_cleanup_def purge_deliveries_def purge_dead_def purge_completed_def people_def)

section \<open>Properties\<close>

lemmas mirror_jobs = delta_sync_def epss_refresh_def kev_refresh_def opencve_poll_def

lemma body_kept:
  assumes "job st env w = Some w'"
    and "job \<in> {delta_sync, epss_refresh, kev_refresh, queue_job, sync_job_poll, snapshot_job, webhook_dispatch, vulnx_refresh, opencve_poll}"
  shows "decisions_kept (cw_db w) (cw_db w')"
  using assms(2)
proof (elim insertE emptyE)
  assume "job = delta_sync"
  then show ?thesis using assms(1) smart_delta_people by (auto simp: delta_sync_def split_def intro!: decisions_kept_people)
next
  assume "job = epss_refresh"
  then show ?thesis using assms(1) epss_people by (auto simp: epss_refresh_def split_def intro!: decisions_kept_people)
next
  assume "job = kev_refresh"
  then show ?thesis using assms(1) kev_people by (auto simp: kev_refresh_def split_def intro!: decisions_kept_people)
next
  assume "job = queue_job"
  then show ?thesis using assms(1) queue_people by (auto simp: queue_job_def intro!: decisions_kept_people)
next
  assume "job = sync_job_poll"
  then show ?thesis using assms(1) drain_kept by (auto simp: sync_job_poll_def)
next
  assume "job = snapshot_job"
  then show ?thesis using assms(1) by (auto simp: snapshot_job_def)
next
  assume "job = webhook_dispatch"
  then show ?thesis using assms(1) deliveries_people by (auto simp: webhook_dispatch_def Let_def intro!: decisions_kept_people)
next
  assume "job = vulnx_refresh"
  then show ?thesis using assms(1) vx_run_kept by (auto simp: vulnx_refresh_def split_def)
next
  assume "job = opencve_poll"
  then show ?thesis using assms(1) poll_people by (auto simp: opencve_poll_def)
qed

lemma gatedE:
  assumes "gated job st lead env w = Some w'"
  obtains "w' = w" | "lead \<noteq> Some False" "job st env w = Some w'"
  using assms by (auto simp: gated_def leader_only_def split: if_splits)

lemma tick_cases:
  assumes "run_tick (create_scheduler st) (lead, env, i) w = Some w'"
  obtains "w' = w"
  | job where "lead \<noteq> Some False" "job st env w = Some w'"
      "(i, job) \<in> {(''delta_sync'', delta_sync), (''epss_refresh'', epss_refresh), (''kev_refresh'', kev_refresh),
        (''retention_cleanup'', retention_job), (''queue_cleanup'', queue_job), (''daily_snapshot'', snapshot_job),
        (''expire_risk_acceptances'', expiry_job), (''vulnx_refresh'', vulnx_refresh), (''opencve_poll'', opencve_poll)}"
  | job where "job st env w = Some w'" "(i, job) \<in> {(''sync_job_poll'', sync_job_poll), (''webhook_dispatch'', webhook_dispatch)}"
proof (cases "List.find (\<lambda>j. cj_id j = i) (create_scheduler st)")
  case None
  then show thesis using assms that(1) by (simp add: run_tick_def)
next
  case (Some j)
  then have j: "j \<in> set (create_scheduler st)" "i = cj_id j"
    by (auto simp: find_Some_iff)
  have run: "cj_run j lead env w = Some w'" using assms Some by (simp add: run_tick_def)
  show thesis
    using j(1) unfolding create_scheduler_def set_append Un_iff list.set
    by (elim disjE insertE) (use j(2) run that in \<open>auto simp: everywhere_def elim!: gatedE split: if_splits\<close>)
qed

text \<open>C4: No periodic job but two decides anything: whatever jobs run, on leaders and followers, in whatever order and whatever the services
  answer, as long as neither the retention nor the expiry of acceptances is among them, every finding keeps its
  status, assignee, notes, due date and creation time, none is deleted, the new ones are open and undecided, and the history, the risk
  acceptances and the audit log are as before.\<close>

theorem cron_keeps_decisions:
  assumes "run_ticks (create_scheduler st) ts w = Some w'"
    and "\<forall>t \<in> set ts. snd (snd t) \<noteq> ''retention_cleanup'' \<and> snd (snd t) \<noteq> ''expire_risk_acceptances''"
  shows "(\<exists>g new. t_rows (db_findings (cw_db w')) = map g (t_rows (db_findings (cw_db w))) @ new \<and>
       list_all (\<lambda>f. human (g f) = human f) (t_rows (db_findings (cw_db w))) \<and> list_all undecided new) \<and>
     db_history (cw_db w') = db_history (cw_db w) \<and> db_risks (cw_db w') = db_risks (cw_db w) \<and> db_audit (cw_db w') = db_audit (cw_db w)"
proof -
  have "decisions_kept (cw_db w) (cw_db w')"
    using assms(1)
  proof (rule run_ticks_induct)
    fix t x y
    assume t: "t \<in> set ts" and r: "run_tick (create_scheduler st) t x = Some y"
    obtain lead env i where e: "t = (lead, env, i)" by (cases t)
    show "decisions_kept (cw_db x) (cw_db y)"
      using r [unfolded e]
    proof (rule tick_cases)
      assume "y = x"
      then show ?thesis by simp
    next
      fix job
      assume "job st env x = Some y" and "(i, job) \<in> {(''delta_sync'', delta_sync), (''epss_refresh'', epss_refresh), (''kev_refresh'', kev_refresh),
        (''retention_cleanup'', retention_job), (''queue_cleanup'', queue_job), (''daily_snapshot'', snapshot_job),
        (''expire_risk_acceptances'', expiry_job), (''vulnx_refresh'', vulnx_refresh), (''opencve_poll'', opencve_poll)}"
      then show ?thesis using assms(2) t e by (intro body_kept [of job st env]) auto
    next
      fix job
      assume "job st env x = Some y" and "(i, job) \<in> {(''sync_job_poll'', sync_job_poll), (''webhook_dispatch'', webhook_dispatch)}"
      then show ?thesis by (intro body_kept [of job st env]) auto
    qed
  qed (auto intro: decisions_kept_trans)
  then show ?thesis by (simp add: decisions_kept_def)
qed

text \<open>The tables and counters of the mirror.\<close>

definition mirror :: "db \<Rightarrow> cve_row table \<times> sync_state_row table \<times> epss_row table" where
  "mirror d = (db_cves d, db_sync_state d, db_epss_history d)"

lemma sync_mirror: "mirror (fst (sync_product now pid d)) = mirror d"
  by (auto simp: sync_product_def Let_def set_sync_status_def stats_update_def mirror_def split: option.splits sum.splits list.splits)

lemma process_mirror: "mirror (fst (process_one_job clk d)) = mirror d"
proof -
  have "mirror (fst (dispatch t j d)) = mirror d" for t j d
    using sync_mirror by (auto simp: dispatch_def split_def split: option.split)
  then show ?thesis
    by (auto simp: process_one_job_def split_def claim_job_def complete_job_def fail_job_def mirror_def split: option.splits sum.splits)
qed

lemma drain_mirror: "drain_pending_jobs ts d = Some (d', r) \<Longrightarrow> mirror d' = mirror d"
proof (induction ts arbitrary: d d' r)
  case Nil
  then show ?case by simp
next
  case (Cons t ts)
  then show ?case using process_mirror [of t d] by (auto split: prod.splits sum.splits if_splits)
qed

lemma deliveries_mirror: "mirror (fst (drain_pending_deliveries we now d)) = mirror d"
proof -
  have marks: "mirror (mark_success a b c e d) = mirror d" "mirror (mark_failure a' b' c' e' s' d) = mirror d"
    "mirror (bump_webhook_success a b d) = mirror d" "mirror (bump_webhook_failure a b t d) = mirror d"
    for a b c e a' b' c' e' s' t d
    by (simp_all add: mirror_def mark_success_def mark_failure_def bump_webhook_success_def bump_webhook_failure_def)
  have fail: "mirror (fail_with we now r st e b d) = mirror d" for r st e b d
    by (simp add: fail_with_def record_failure_def Let_def marks)
  have "mirror (fst (attempt_delivery we now r d)) = mirror d" for r d
    by (auto simp: attempt_delivery_def send_delivery_def Let_def marks fail split: option.split sum.split py_exn.split)
  then have "mirror (bounded we now r d) = mirror d" for r d
    using fail by (cases "attempt_delivery we now r d"; cases "snd (attempt_delivery we now r d)") (auto simp: bounded_def, (metis fst_conv)+)
  then have "mirror (foldl (\<lambda>d r. bounded we now r d) d rs) = mirror d" for rs d by (induction rs arbitrary: d) simp_all
  then show ?thesis by (auto simp: drain_pending_deliveries_def claim_def Let_def mirror_def)
qed


section \<open>Witnesses\<close>

definition quiet_env :: cron_env where
  "quiet_env = \<lparr>ce_now = 1700000000000000, ce_vc_clock = \<lparr>ic_enter = 0, ic_fail = 0, ic_db = 0, ic_end = 0\<rparr>,
     ce_nvd_clock = \<lparr>ic_enter = 0, ic_fail = 0, ic_db = 0, ic_end = 0\<rparr>, ce_vc_client = None, ce_nvd_client = (\<lambda>_. ([], None)),
     ce_loads = (\<lambda>_. None), ce_dumps = (\<lambda>_. ''{}''), ce_redis_up = False,
     ce_enrich_clock = \<lparr>ec_enter = 0, ec_fail = 0, ec_redis = 0, ec_db = 0\<rparr>, ce_epss = (\<lambda>_. Inl (HttpError ''timeout'')),
     ce_kev = Inl (HttpError ''timeout''), ce_job_clocks = [(1, 2, 3)], ce_webhooks = dead_env, ce_allowlist = None,
     ce_vx_clock = \<lparr>vx_enter = 0, vx_fail = 0, vx_db = 0, vx_py = 0\<rparr>, ce_vulnx = (\<lambda>_. Inl (HttpError ''timeout'')),
     ce_today = (\<lambda>_. 0), ce_opencve = (\<lambda>_ _ _. Inl (HttpError ''timeout''))\<rparr>"

definition quiet_world :: cron_world where
  "quiet_world = \<lparr>cw_db = sample_db, cw_redis = [],
     cw_circuits = \<lparr>c_vulncheck = new_breaker ''vulncheck'' 5 60, c_nvd = new_breaker ''nvd'' 5 120\<rparr>,
     cw_epss = new_breaker ''epss'' 3 60, cw_kev = new_breaker ''kev'' 3 3600, cw_vulnx = new_breaker ''vulnx'' 5 180,
     cw_counter = \<lparr>dc_limit = 10, dc_count = 0, dc_day = 0\<rparr>, cw_snapshots = empty_table, cw_subscriptions = empty_table\<rparr>"

definition some_ticks :: "bool option \<Rightarrow> tick list" where
  "some_ticks lead = map (\<lambda>i. (lead, quiet_env, i)) [''delta_sync'', ''kev_refresh'', ''queue_cleanup'', ''sync_job_poll'', ''webhook_dispatch'']"

lemma some_ticks_return: "\<not> Option.is_none (run_ticks (create_scheduler default_settings) (some_ticks None) quiet_world)"
  "\<not> Option.is_none (run_ticks (create_scheduler default_settings) (some_ticks (Some False)) quiet_world)"
  by code_simp+

theorem cron_keeps_decisions_witness:
  "\<exists>w'. run_ticks (create_scheduler default_settings) (some_ticks None) quiet_world = Some w' \<and>
     db_history (cw_db w') = db_history sample_db \<and> (\<exists>f. f \<in> set (t_rows (db_findings (cw_db w'))) \<and> human f = human sample_finding)"
proof -
  obtain w' where w: "run_ticks (create_scheduler default_settings) (some_ticks None) quiet_world = Some w'"
    using some_ticks_return(1) by (auto simp: Option.is_none_def)
  have q: "cw_db quiet_world = sample_db" "sample_finding \<in> set (t_rows (db_findings sample_db))"
    by (simp_all add: quiet_world_def sample_db_def)
  have "\<forall>t \<in> set (some_ticks None). snd (snd t) \<noteq> ''retention_cleanup'' \<and> snd (snd t) \<noteq> ''expire_risk_acceptances''"
    by (simp add: some_ticks_def)
  note kept = cron_keeps_decisions [OF w this, unfolded q(1)]
  then obtain g new where "t_rows (db_findings (cw_db w')) = map g (t_rows (db_findings sample_db)) @ new"
    "list_all (\<lambda>f. human (g f) = human f) (t_rows (db_findings sample_db))" by blast
  then have "g sample_finding \<in> set (t_rows (db_findings (cw_db w')))" "human (g sample_finding) = human sample_finding"
    using q(2) by (simp_all add: list_all_iff)
  then show ?thesis using w kept by blast
qed


end
