(* ===== verification/Startup.thy ===== *)
theory Startup
  imports Cron Auth Rate_Governor
begin

text \<open>
  \<open>lifespan\<close> of \<open>app/main.py\<close> with \<open>app/core/migrations.py\<close>: what a replica does before it serves and when it
  stops. Alembic, bcrypt and the delivery of the calls to Redis are arguments. Of a client the model keeps its bucket and the
  settings of its scanner; the log, Sentry and the closing of pools are left out.
\<close>

section \<open>Steps\<close>

text \<open>The URL given to Alembic: the driver is named, once, at the front.\<close>

definition migration_url :: "string \<Rightarrow> string" where
  "migration_url url =
     (if py_startswith url ''postgresql://'' then ''postgresql+asyncpg://'' @ drop (length ''postgresql://'') url
      else if py_startswith url ''postgres://'' then ''postgresql+asyncpg://'' @ drop (length ''postgres://'') url
      else url)"

definition secret_check :: "settings \<Rightarrow> unit result" where
  "secret_check st =
     (if environment st = ''production'' \<and> py_startswith (jwt_secret st) ''dev-secret''
      then Inl (OtherError ''RuntimeError'') else Inr ())"

definition new_admin :: "int \<Rightarrow> string \<Rightarrow> string \<Rightarrow> int \<Rightarrow> user_row" where
  "new_admin now email hash n =
     \<lparr>us_id = n, us_email = email, us_password_hash = hash, us_role = ''admin'', us_is_active = True,
      us_created_at = now, us_last_login_at = None\<rparr>"

definition seed_admin :: "(string \<Rightarrow> string \<Rightarrow> string) \<Rightarrow> string \<Rightarrow> int \<Rightarrow> settings \<Rightarrow> db \<Rightarrow> db result" where
  "seed_admin hashpw salt now st d =
     (if admin_email st = [] \<or> admin_password st = [] \<or> t_rows (db_users d) \<noteq> [] then Inr d
      else bind_r (hash_password hashpw salt (admin_password st)) (\<lambda>h. Inr
        (d\<lparr>db_users := fst (insert_row (new_admin now (py_lower (admin_email st)) h) (db_users d))\<rparr>)))"

section \<open>The clients\<close>

text \<open>A client of an outside service: the name of the bucket it takes tokens from, and the scanner of its requests with the counters of the
  registry attached. OpenCVE shares the bucket of EPSS, and scans for as long as it has a key.\<close>

record api_client =
  ac_governor :: string
  ac_http :: opsec_client

definition new_client :: "(string \<times> bucket) list \<Rightarrow> string \<Rightarrow> string \<Rightarrow> bool \<Rightarrow> api_client result" where
  "new_client governors governor provider enforced = (case map_of governors governor of
      None \<Rightarrow> Inl (KeyError governor)
    | Some b \<Rightarrow> Inr \<lparr>ac_governor = governor,
        ac_http = attach_blocks [] \<lparr>oc_provider = provider, oc_enforcement = enforced, oc_blocks = None\<rparr>\<rparr>)"

definition build_clients :: "settings \<Rightarrow> (string \<times> bucket) list \<Rightarrow> api_client list result" where
  "build_clients st governors = map_r (\<lambda>(g, p, enforced). new_client governors g p enforced)
     ([(''nvd'', ''nvd'', opsec_enforcement st), (''epss'', ''epss'', opsec_enforcement st), (''kev'', ''kev'', opsec_enforcement st),
       (''circl'', ''circl'', opsec_enforcement st), (''epss'', ''opencve'', opencve_api_key st \<noteq> [] \<and> opsec_enforcement st)] @
      (if vulncheck_api_key st = [] then [] else [(''vulncheck'', ''vulncheck'', opsec_enforcement st)]) @
      [(''vulnx'', ''vulnx'', opsec_enforcement st)])"

section \<open>Starting and stopping\<close>

record startup_env =
  se_migrate :: "string \<Rightarrow> db \<Rightarrow> db result"
  se_hashpw :: "string \<Rightarrow> string \<Rightarrow> string"
  se_salt :: string
  se_now :: int
  se_clock :: rat
  se_redis_up :: bool
  se_redis_now :: rat
  se_delivery :: delivery
  se_node :: string

record app_state =
  as_db :: db
  as_redis :: redis
  as_governors :: "(string \<times> bucket) list"
  as_breakers :: "(string \<times> breaker) list"
  as_clients :: "api_client list"
  as_leader :: elector
  as_jobs :: "cron_job list"

definition lifespan :: "startup_env \<Rightarrow> settings \<Rightarrow> db \<Rightarrow> redis \<Rightarrow> app_state result" where
  "lifespan env st d r =
     bind_r (secret_check st) (\<lambda>_.
     bind_r (if auto_migrate st then se_migrate env (migration_url (database_url st)) d else Inr d) (\<lambda>d1.
     if \<not> se_redis_up env then Inl ConnectionError
     else bind_r (seed_admin (se_hashpw env) (se_salt env) (se_now env) st d1) (\<lambda>d2.
     bind_r (build_governors (se_clock env) st) (\<lambda>gs.
     let governors = map (\<lambda>(n, b). (n, attach_metrics b)) gs in
     bind_r (build_clients st governors) (\<lambda>clients.
     case leader_acquire (se_redis_now env) (se_delivery env) \<lparr>el_node = se_node env, el_is_leader = False\<rparr> r of (leader, r', _) \<Rightarrow> Inr
       \<lparr>as_db = d2, as_redis = r', as_governors = governors, as_breakers = build_circuit_breakers, as_clients = clients,
        as_leader = leader, as_jobs = create_scheduler st\<rparr>)))))"

text \<open>The shutdown gives the lock back.\<close>

definition shutdown :: "rat \<Rightarrow> delivery \<Rightarrow> app_state \<Rightarrow> app_state" where
  "shutdown now dl app = (case leader_release now dl (as_leader app) (as_redis app) of (e, r) \<Rightarrow> app\<lparr>as_leader := e, as_redis := r\<rparr>)"

section \<open>Properties\<close>

definition migration_keeps_users :: "startup_env \<Rightarrow> bool" where
  "migration_keeps_users env \<longleftrightarrow> (\<forall>url d d'. se_migrate env url d = Inr d' \<longrightarrow> db_users d' = db_users d)"

lemma lifespan_steps:
  assumes "lifespan env st d r = Inr app"
  obtains d1 where "secret_check st = Inr ()" "migration_keeps_users env \<Longrightarrow> db_users d1 = db_users d"
    "seed_admin (se_hashpw env) (se_salt env) (se_now env) st d1 = Inr (as_db app)"
    "as_redis app = fst (snd (leader_acquire (se_redis_now env) (se_delivery env) \<lparr>el_node = se_node env, el_is_leader = False\<rparr> r))"
    "as_leader app = fst (leader_acquire (se_redis_now env) (se_delivery env) \<lparr>el_node = se_node env, el_is_leader = False\<rparr> r)"
proof -
  let ?l = "leader_acquire (se_redis_now env) (se_delivery env) \<lparr>el_node = se_node env, el_is_leader = False\<rparr> r"
  obtain d1 d2 g c where 1: "secret_check st = Inr ()"
      "(if auto_migrate st then se_migrate env (migration_url (database_url st)) d else Inr d) = Inr d1"
      "seed_admin (se_hashpw env) (se_salt env) (se_now env) st d1 = Inr d2"
      "app = \<lparr>as_db = d2, as_redis = fst (snd ?l), as_governors = g, as_breakers = build_circuit_breakers, as_clients = c,
         as_leader = fst ?l, as_jobs = create_scheduler st\<rparr>"
    using assms unfolding lifespan_def split_def Let_def bind_r_Inr by (auto split: if_splits simp: bind_r_Inr)
  show thesis
    by (rule that [of d1]) (use 1 in \<open>auto simp: migration_keeps_users_def split: if_splits\<close>)
qed

text \<open>Every client finds its bucket, and every scanner counts what it finds: it blocks as configured, OpenCVE's only with a key.\<close>

lemma clients_find_their_bucket:
  assumes "build_governors now st = Inr gs"
  shows "\<exists>cs. build_clients st (map (\<lambda>(n, b). (n, attach_metrics b)) gs) = Inr cs \<and>
    list_all (\<lambda>c. ac_governor c \<in> fst ` set gs \<and> oc_blocks (ac_http c) = Some [] \<and>
      (oc_enforcement (ac_http c) \<longleftrightarrow> opsec_enforcement st \<and> (oc_provider (ac_http c) = ''opencve'' \<longrightarrow> opencve_api_key st \<noteq> []))) cs"
  using assms by (auto simp: build_governors_def Let_def build_clients_def new_client_def attach_blocks_def split: if_splits)

text \<open>A start fails for a reason it names: the secret, the migration, Redis, the hash of the password or an interval of zero hours.\<close>

lemma starts_when:
  assumes "secret_check st = Inr ()" and "se_redis_up env" and "kev_refresh_interval_hours st \<noteq> 0"
    and "(if auto_migrate st then se_migrate env (migration_url (database_url st)) d else Inr d) = Inr d1"
    and "seed_admin (se_hashpw env) (se_salt env) (se_now env) st d1 = Inr d2"
  shows "\<exists>app. lifespan env st d r = Inr app \<and> as_db app = d2 \<and> as_jobs app = create_scheduler st"
proof -
  obtain gs where g: "build_governors (se_clock env) st = Inr gs" using assms(3) by (simp add: build_governors_def Let_def)
  obtain cs where c: "build_clients st (map (\<lambda>(n, b). (n, attach_metrics b)) gs) = Inr cs" using clients_find_their_bucket [OF g] by blast
  show ?thesis unfolding lifespan_def assms(1,4,5) bind_r_simps g Let_def c using assms(2) by (simp add: split_def)
qed


text \<open>A clean restart hands the cron jobs over at once: when a replica that holds the lock stops and Redis answers, the next replica
  that starts leads, without waiting for the lock to expire.\<close>

theorem restart_hands_over:
  assumes "el_is_leader (as_leader app)" and "r_get t (as_redis app) LOCK_KEY = Some (el_node (as_leader app))"
    and "lifespan env st d (as_redis (shutdown t Answered app)) = Inr app'" and "se_delivery env = Answered" and "t \<le> se_redis_now env"
  shows "el_is_leader (as_leader app') \<and> el_node (as_leader app') = se_node env \<and>
    r_get (se_redis_now env) (as_redis app') LOCK_KEY = Some (se_node env) \<and> \<not> el_is_leader (as_leader (shutdown t Answered app))"
proof -
  obtain d1 where l: "as_redis app' = fst (snd (leader_acquire (se_redis_now env) (se_delivery env)
       \<lparr>el_node = se_node env, el_is_leader = False\<rparr> (as_redis (shutdown t Answered app))))"
     "as_leader app' = fst (leader_acquire (se_redis_now env) (se_delivery env) \<lparr>el_node = se_node env, el_is_leader = False\<rparr>
       (as_redis (shutdown t Answered app)))"
    using lifespan_steps [OF assms(3)] by metis
  have s: "as_redis (shutdown t Answered app) = r_del LOCK_KEY (as_redis app)" "\<not> el_is_leader (as_leader (shutdown t Answered app))"
    using assms(1,2) by (simp_all add: shutdown_def leader_defs)
  show ?thesis using s assms(4) by (simp add: l leader_defs)
qed

section \<open>Witnesses\<close>

definition start_env :: "string \<Rightarrow> startup_env" where
  "start_env node = \<lparr>se_migrate = (\<lambda>_ d. Inr d), se_hashpw = (\<lambda>p s. s @ p), se_salt = ''$2b$'', se_now = 1700000000000000, se_clock = 0,
     se_redis_up = True, se_redis_now = 7, se_delivery = Answered, se_node = node\<rparr>"

definition prod_settings :: settings where
  "prod_settings = default_settings\<lparr>environment := ''production'', jwt_secret := ''k7'', admin_email := ''Root@Corp.io'', admin_password := ''pw''\<rparr>"

definition salted_check :: "string \<Rightarrow> string \<Rightarrow> bool result" where
  "salted_check p h = Inr (h = ''$2b$'' @ p)"

lemma prod_starts:
  "(case lifespan (start_env ''a'') prod_settings (empty_db 0) [] of Inl _ \<Rightarrow> False | Inr app \<Rightarrow>
     el_is_leader (as_leader app) \<and> r_get 7 (as_redis app) LOCK_KEY = Some (el_node (as_leader app)) \<and>
     \<not> isl (lifespan (start_env ''b'') prod_settings (empty_db 0) (as_redis (shutdown 7 Answered app))))"
  by code_simp


theorem restart_hands_over_witness:
  "\<exists>app app'. lifespan (start_env ''a'') prod_settings (empty_db 0) [] = Inr app \<and> el_is_leader (as_leader app) \<and>
     lifespan (start_env ''b'') prod_settings (empty_db 0) (as_redis (shutdown 7 Answered app)) = Inr app' \<and> el_is_leader (as_leader app')"
proof -
  obtain app where a: "lifespan (start_env ''a'') prod_settings (empty_db 0) [] = Inr app" "el_is_leader (as_leader app)"
    "r_get 7 (as_redis app) LOCK_KEY = Some (el_node (as_leader app))"
    "\<not> isl (lifespan (start_env ''b'') prod_settings (empty_db 0) (as_redis (shutdown 7 Answered app)))"
    using prod_starts by (auto split: sum.splits)
  obtain app' where b: "lifespan (start_env ''b'') prod_settings (empty_db 0) (as_redis (shutdown 7 Answered app)) = Inr app'"
    using a(4) by (cases "lifespan (start_env ''b'') prod_settings (empty_db 0) (as_redis (shutdown 7 Answered app))") auto
  show ?thesis using restart_hands_over [OF a(2,3) b] a(1,2) b by (auto simp: start_env_def)
qed

end
