(* ===== verification/System_Api.thy ===== *)
theory System_Api
  imports Auth Redis_Store Circuit_Breaker Sql_Order
begin

text \<open>
  The routers \<open>app/api/routers/system.py\<close>, \<open>health.py\<close> and \<open>audit.py\<close>: probes, the configuration items with their
  overrides in Redis, health and readiness, the audit log. The answers of the probed services and their latencies are arguments. A
  masked value begins with four bullets, which stand here as the bytes of their UTF-8 text.
\<close>

section \<open>Probes\<close>

datatype probe_answer = ProbeResponse int | ProbeTimeout | ProbeError string

record probe_result =
  pb_status :: string
  pb_latency_ms :: "int option"
  pb_detail :: "string option"

definition probe_http :: "int \<Rightarrow> probe_answer \<Rightarrow> probe_result" where
  "probe_http latency a = (case a of
      ProbeResponse st \<Rightarrow>
        if 200 \<le> st \<and> st < 300 then \<lparr>pb_status = ''ok'', pb_latency_ms = Some latency, pb_detail = None\<rparr>
        else \<lparr>pb_status = ''degraded'', pb_latency_ms = Some latency, pb_detail = Some (''HTTP '' @ py_str_int st)\<rparr>
    | ProbeTimeout \<Rightarrow> \<lparr>pb_status = ''error'', pb_latency_ms = Some latency, pb_detail = Some ''timeout''\<rparr>
    | ProbeError msg \<Rightarrow> \<lparr>pb_status = ''error'', pb_latency_ms = None, pb_detail = Some (take 120 msg)\<rparr>)"

text \<open>\<open>_probe_db\<close> and \<open>_probe_redis\<close>: \<open>None\<close> is a call that succeeds, otherwise the text of its exception.\<close>

definition probe_dependency :: "int \<Rightarrow> string option \<Rightarrow> probe_result" where
  "probe_dependency latency failure = (case failure of
      None \<Rightarrow> \<lparr>pb_status = ''ok'', pb_latency_ms = Some latency, pb_detail = None\<rparr>
    | Some msg \<Rightarrow> \<lparr>pb_status = ''error'', pb_latency_ms = None, pb_detail = Some (take 120 msg)\<rparr>)"

definition PROBES :: "(string \<times> string) list" where
  "PROBES =
     [(''nvd'', ''https://services.nvd.nist.gov/rest/json/cves/2.0?cveId=CVE-2021-44228''),
      (''circl'', ''https://vulnerability.circl.lu/api/search/apache/log4j?page=1''),
      (''epss'', ''https://api.first.org/data/v1/epss?cve=CVE-2021-44228''),
      (''kev'', ''https://www.cisa.gov/sites/default/files/feeds/known_exploited_vulnerabilities.json'')]"

definition system_status :: "(string \<Rightarrow> probe_result) \<Rightarrow> probe_result \<Rightarrow> probe_result \<Rightarrow> string option \<Rightarrow> (string \<times> probe_result) list" where
  "system_status http db_probe redis_probe service =
     (let s = str_or_empty service in
      if s \<noteq> [] then
        [(s, case map_of PROBES s of
            Some url \<Rightarrow> http url
          | None \<Rightarrow> if s = ''database'' then db_probe else if s = ''redis'' then redis_probe
              else \<lparr>pb_status = ''unknown'', pb_latency_ms = None, pb_detail = None\<rparr>)]
      else map (\<lambda>(k, url). (k, http url)) PROBES @ [(''database'', db_probe), (''redis'', redis_probe)])"

section \<open>Configuration\<close>

definition CONFIG_KEYS :: "string list" where
  "CONFIG_KEYS = [''NVD_API_KEY'', ''VULNCHECK_API_KEY'', ''OPENCVE_API_KEY'', ''EPSS_PROVIDER'']"

definition cfg_key :: "string \<Rightarrow> string" where
  "cfg_key key = ''cfg:'' @ key"

definition MASK :: string where
  "MASK = concat (replicate 4 [CHR 0xE2, CHR 0x80, CHR 0xA2])"

definition mask :: "string \<Rightarrow> string" where
  "mask v = (if length v \<le> 8 then MASK else MASK @ drop (length v - 4) v)"

text \<open>\<open>_env_val\<close>: an empty setting counts as none.\<close>

definition env_val :: "settings \<Rightarrow> string \<Rightarrow> string option" where
  "env_val st key =
     (let v = (if key = ''NVD_API_KEY'' then nvd_api_key st else if key = ''VULNCHECK_API_KEY'' then vulncheck_api_key st
          else if key = ''OPENCVE_API_KEY'' then opencve_api_key st else if key = ''EPSS_PROVIDER'' then ''first_org'' else [])
      in if v = [] then None else Some v)"

record config_item =
  ci_key :: string
  ci_is_set :: bool
  ci_value_masked :: "string option"
  ci_source :: string

definition is_secret :: "string \<Rightarrow> bool" where
  "is_secret key \<longleftrightarrow> py_endswith key ''_KEY''"

definition config_item_of :: "settings \<Rightarrow> string option \<Rightarrow> string \<Rightarrow> config_item" where
  "config_item_of st redis_val key =
     (let rv = str_or_empty redis_val; ev = env_val st key; effective = (if rv \<noteq> [] then rv else str_or_empty ev) in
      \<lparr>ci_key = key, ci_is_set = (effective \<noteq> []),
       ci_value_masked = (if effective = [] then None else Some (if is_secret key then mask effective else effective)),
       ci_source = (if rv \<noteq> [] then ''db'' else if ev \<noteq> None then ''env'' else ''unset'')\<rparr>)"

definition get_config :: "settings \<Rightarrow> bool \<Rightarrow> rat \<Rightarrow> redis \<Rightarrow> config_item list result" where
  "get_config st up t r =
     (if up then Inr (map (\<lambda>k. config_item_of st (r_get t r (cfg_key k)) k) CONFIG_KEYS) else Inl (OtherError ''ConnectionError''))"

text \<open>The settings are one object of the process; an OpenCVE key is written into it.\<close>

record system_world =
  sw_settings :: settings
  sw_redis :: redis
  sw_db :: db

definition config_audit :: "client \<Rightarrow> auth_user \<Rightarrow> string \<Rightarrow> string \<Rightarrow> audit_args" where
  "config_audit cl user key v =
     \<lparr>au_action = ''system.config_update'', au_target_type = Some ''config'', au_target_id = Some key,
      au_actor_email = Some (au_email user), au_actor_role = Some (au_role user),
      au_diff = Some [(''key'', JStr key), (''value_set'', JBool (v \<noteq> []))], au_metadata = None,
      au_ip_address = client_ip cl, au_user_agent = user_agent cl\<rparr>"

definition update_config ::
    "'tok decoder \<Rightarrow> (json \<Rightarrow> string) \<Rightarrow> client \<Rightarrow> bool \<Rightarrow> int \<Rightarrow> (string \<times> 'tok) option \<Rightarrow> string \<Rightarrow> string \<Rightarrow>
     (system_world, string) action" where
  "update_config dec repr cl up now credentials key v w =
     (case guarded_by [''admin''] dec repr (sw_settings w) now credentials of
        Inl e \<Rightarrow> (w, Inl e)
      | Inr user \<Rightarrow>
          if key \<notin> set CONFIG_KEYS then (w, Inl (HttpException 400 (''Unknown config key: '' @ key)))
          else if \<not> up then (w, Inl (OtherError ''ConnectionError''))
          else (\<lparr>sw_settings = (if key = ''OPENCVE_API_KEY'' then (sw_settings w)\<lparr>opencve_api_key := py_strip v\<rparr> else sw_settings w),
                 sw_redis = AList.update (cfg_key key) (py_strip v, None) (sw_redis w),
                 sw_db = fst (record_audit now (config_audit cl user key v) (sw_db w))\<rparr>, Inr key))"

section \<open>Health\<close>

record dependency_status =
  ds_status :: string
  ds_detail :: "string option"

definition check_dependency :: "bool \<Rightarrow> dependency_status" where
  "check_dependency ok =
     (if ok then \<lparr>ds_status = ''ok'', ds_detail = None\<rparr> else \<lparr>ds_status = ''error'', ds_detail = Some ''connection failed''\<rparr>)"

record health_response =
  hr_status :: string
  hr_dependencies :: "(string \<times> dependency_status) list"
  hr_circuit_breakers :: "(string \<times> cb_snapshot) list"
  hr_sync_state :: "(string \<times> int option \<times> int option \<times> int \<times> string option) list"
  hr_scheduler_jobs :: "(string \<times> string option) list"

definition get_sync_state :: "bool \<Rightarrow> db \<Rightarrow> (string \<times> int option \<times> int option \<times> int \<times> string option) list" where
  "get_sync_state up d =
     (if up then map (\<lambda>s. (ss_source s, ss_last_success_at s, ss_last_mod_date s, ss_total_ingested s, ss_last_error s)) (t_rows (db_sync_state d))
      else [])"

definition get_circuit_breakers :: "rat \<Rightarrow> (string \<times> breaker) list \<Rightarrow> (string \<times> cb_snapshot) list" where
  "get_circuit_breakers now breakers = map (\<lambda>(n, cb). (n, status_snapshot now cb)) breakers"

text \<open>The ids and next runs are those of APScheduler.\<close>

definition health_check :: "bool \<Rightarrow> bool \<Rightarrow> rat \<Rightarrow> (string \<times> breaker) list \<Rightarrow> (string \<times> string option) list \<Rightarrow> db \<Rightarrow> health_response" where
  "health_check pg vk now breakers jobs d =
     (let deps = [(''postgres'', check_dependency pg), (''valkey'', check_dependency vk)] in
      \<lparr>hr_status = (if list_all (\<lambda>(_, x). ds_status x = ''ok'') deps then ''ok'' else ''degraded''), hr_dependencies = deps,
       hr_circuit_breakers = get_circuit_breakers now breakers, hr_sync_state = get_sync_state pg d, hr_scheduler_jobs = jobs\<rparr>)"

definition readiness :: "bool \<Rightarrow> bool \<Rightarrow> bool \<times> string \<times> string" where
  "readiness pg vk =
     (let p = check_dependency pg; v = check_dependency vk in
      (ds_status p = ''ok'' \<and> ds_status v = ''ok'', ds_status p, ds_status v))"

section \<open>The audit log\<close>

record audit_filter =
  af_target_type :: "string option"
  af_target_id :: "string option"
  af_action :: "string option"
  af_actor_email :: "string option"
  af_limit :: int

text \<open>\<open>$n IS NULL OR column = $n\<close>; a column that is NULL equals nothing.\<close>

definition column_is :: "string option \<Rightarrow> string option \<Rightarrow> bool" where
  "column_is wanted column = (case wanted of None \<Rightarrow> True | Some s \<Rightarrow> column = Some s)"

definition audit_matches :: "audit_filter \<Rightarrow> audit_row \<Rightarrow> bool" where
  "audit_matches q r \<longleftrightarrow> column_is (af_target_type q) (al_target_type r) \<and> column_is (af_target_id q) (al_target_id r) \<and>
     column_is (af_action q) (Some (al_action r)) \<and> column_is (af_actor_email q) (al_actor_email r)"

definition newer :: "audit_row \<Rightarrow> audit_row \<Rightarrow> bool" where
  "newer a b \<longleftrightarrow> al_ts b \<le> al_ts a"

definition list_audit_log :: "audit_filter \<Rightarrow> db \<Rightarrow> (audit_row list \<times> int) result" where
  "list_audit_log q d =
     (if af_limit q < 1 \<or> af_limit q > 500 then Inl (HttpException 422 ''limit must be between 1 and 500'')
      else let rows = take (nat (af_limit q)) (order_by newer (filter (audit_matches q) (t_rows (db_audit d)))) in
        Inr (rows, int (length rows)))"

section \<open>Properties\<close>

lemma cfg_key_inj [simp]: "cfg_key a = cfg_key b \<longleftrightarrow> a = b"
  by (simp add: cfg_key_def)

lemma env_val_samples [simp]: "env_val st ''NVD_API_KEY'' = (if nvd_api_key st = [] then None else Some (nvd_api_key st))"
  "env_val st ''VULNCHECK_API_KEY'' = (if vulncheck_api_key st = [] then None else Some (vulncheck_api_key st))"
  "env_val st ''OPENCVE_API_KEY'' = (if opencve_api_key st = [] then None else Some (opencve_api_key st))"
  "env_val st ''EPSS_PROVIDER'' = Some ''first_org''"
  by (simp_all add: env_val_def)

lemma is_secret_samples [simp]: "is_secret ''NVD_API_KEY''" "is_secret ''VULNCHECK_API_KEY''" "is_secret ''OPENCVE_API_KEY''" "\<not> is_secret ''EPSS_PROVIDER''"
  by code_simp+

text \<open>Two texts that a reader of the configuration is not to tell apart.\<close>

definition alike :: "string \<Rightarrow> string \<Rightarrow> bool" where
  "alike a b \<longleftrightarrow> a = b \<or> (a \<noteq> [] \<and> length a \<le> 8 \<and> b \<noteq> [] \<and> length b \<le> 8) \<or>
     (8 < length a \<and> 8 < length b \<and> drop (length a - 4) a = drop (length b - 4) b)"

lemma alike_mask: "alike a b \<Longrightarrow> mask a = mask b"
  by (auto simp: alike_def mask_def)

lemma alike_nil: "alike a b \<Longrightarrow> a = [] \<longleftrightarrow> b = []"
  by (auto simp: alike_def)

lemma alike_item:
  assumes "is_secret k" and "alike (str_or_empty v) (str_or_empty v')" and "alike (str_or_empty (env_val st k)) (str_or_empty (env_val st' k))"
    and "env_val st k = None \<longleftrightarrow> env_val st' k = None"
  shows "config_item_of st v k = config_item_of st' v' k"
  using assms(1,4) alike_mask [OF assms(2)] alike_nil [OF assms(2)] alike_mask [OF assms(3)] alike_nil [OF assms(3)]
  by (simp add: config_item_of_def Let_def)

text \<open>C22: The configuration shows no more of a key than its last four characters, and of a key of at most eight characters nothing: two deployments
  whose keys, in the environment and in Redis, are alike in this sense give the same answer.\<close>

theorem config_hides_secrets:
  assumes "alike (nvd_api_key st) (nvd_api_key st')" and "alike (vulncheck_api_key st) (vulncheck_api_key st')"
    and "alike (opencve_api_key st) (opencve_api_key st')"
    and "\<forall>k \<in> {''NVD_API_KEY'', ''VULNCHECK_API_KEY'', ''OPENCVE_API_KEY''}.
      alike (str_or_empty (r_get t r (cfg_key k))) (str_or_empty (r_get t r' (cfg_key k)))"
    and "r_get t r (cfg_key ''EPSS_PROVIDER'') = r_get t r' (cfg_key ''EPSS_PROVIDER'')"
  shows "get_config st up t r = get_config st' up t r'"
proof -
  have e: "config_item_of st v ''EPSS_PROVIDER'' = config_item_of st' v ''EPSS_PROVIDER''" for v
    by (simp add: config_item_of_def)
  have env: "alike (str_or_empty (env_val st k)) (str_or_empty (env_val st' k)) \<and> (env_val st k = None \<longleftrightarrow> env_val st' k = None)"
    if "alike a b" "env_val st k = (if a = [] then None else Some a)" "env_val st' k = (if b = [] then None else Some b)" for a b k
    using that alike_nil [OF that(1)] by (cases "a = []") (simp_all add: str_or_empty_def)
  have stored: "alike (str_or_empty (r_get t r (cfg_key k))) (str_or_empty (r_get t r' (cfg_key k)))"
    if "k \<in> {''NVD_API_KEY'', ''VULNCHECK_API_KEY'', ''OPENCVE_API_KEY''}" for k
    using assms(4) that by blast
  have "config_item_of st (r_get t r (cfg_key k)) k = config_item_of st' (r_get t r' (cfg_key k)) k"
    if "is_secret k" "k \<in> {''NVD_API_KEY'', ''VULNCHECK_API_KEY'', ''OPENCVE_API_KEY''}" "alike a b"
      "env_val st k = (if a = [] then None else Some a)" "env_val st' k = (if b = [] then None else Some b)" for a b k
    by (rule alike_item [OF that(1) stored [OF that(2)]]) (use env [OF that(3-5)] in simp_all)
  note secret = this [OF is_secret_samples(1) _ assms(1) env_val_samples(1) env_val_samples(1), simplified]
    this [OF is_secret_samples(2) _ assms(2) env_val_samples(2) env_val_samples(2), simplified]
    this [OF is_secret_samples(3) _ assms(3) env_val_samples(3) env_val_samples(3), simplified]
  show ?thesis using secret e by (simp add: get_config_def CONFIG_KEYS_def assms(5))
qed

text \<open>An update of the configuration needs an administrator and is shown, not used: the item shows the new value as coming from the database, or, when the
  value is blank, falls back; the other items show what they did; and the NVD and VulnCheck keys of the settings, the ones the clients
  were built with, stay as they were.\<close>

theorem config_update_is_shown_not_used:
  assumes "update_config dec repr cl up now credentials key v w = (w', Inr k)"
  shows "(\<exists>user. guarded_by [''admin''] dec repr (sw_settings w) now credentials = Inr user) \<and> key \<in> set CONFIG_KEYS \<and>
    nvd_api_key (sw_settings w') = nvd_api_key (sw_settings w) \<and> vulncheck_api_key (sw_settings w') = vulncheck_api_key (sw_settings w) \<and>
    (\<exists>before after. get_config (sw_settings w) True t (sw_redis w) = Inr before \<and> get_config (sw_settings w') True t (sw_redis w') = Inr after \<and>
       list_all2 (\<lambda>b a. if ci_key a \<noteq> key then a = b else if py_strip v \<noteq> [] then ci_is_set a \<and> ci_source a = ''db'' else ci_source a \<noteq> ''db'')
         before after)"
proof -
  obtain user where u: "guarded_by [''admin''] dec repr (sw_settings w) now credentials = Inr user" "key \<in> set CONFIG_KEYS"
    "sw_settings w' = (if key = ''OPENCVE_API_KEY'' then (sw_settings w)\<lparr>opencve_api_key := py_strip v\<rparr> else sw_settings w)"
    "sw_redis w' = AList.update (cfg_key key) (py_strip v, None) (sw_redis w)"
    using assms by (auto simp: update_config_def split: sum.splits if_splits)
  have other: "config_item_of (sw_settings w') (r_get t (sw_redis w') (cfg_key c)) c = config_item_of (sw_settings w) (r_get t (sw_redis w) (cfg_key c)) c"
    if "c \<noteq> key" "c \<in> set CONFIG_KEYS" for c
    using that by (auto simp: u(3,4) config_item_of_def env_val_def CONFIG_KEYS_def)
  have this_one: "if py_strip v \<noteq> [] then ci_is_set a \<and> ci_source a = ''db'' else ci_source a \<noteq> ''db''"
    if "a = config_item_of (sw_settings w') (r_get t (sw_redis w') (cfg_key key)) key" for a
    using that by (simp add: u(4) config_item_of_def Let_def str_or_empty_def)
  have key: "ci_key (config_item_of st x c) = c" for st x c by (simp add: config_item_of_def Let_def)
  have "list_all2 (\<lambda>b a. if ci_key a \<noteq> key then a = b else if py_strip v \<noteq> [] then ci_is_set a \<and> ci_source a = ''db'' else ci_source a \<noteq> ''db'')
      (map (\<lambda>c. config_item_of (sw_settings w) (r_get t (sw_redis w) (cfg_key c)) c) CONFIG_KEYS)
      (map (\<lambda>c. config_item_of (sw_settings w') (r_get t (sw_redis w') (cfg_key c)) c) CONFIG_KEYS)"
    unfolding list_all2_map1 list_all2_map2
    by (rule list.rel_refl_strong) (use other this_one key in \<open>auto\<close>)
  then show ?thesis using u by (simp add: get_config_def)
qed

lemma newer_key: "sort_key newer"
  by (auto simp: sort_key_def newer_def)

text \<open>The audit log lists the newest entries that match: at most as many as asked for, newest first, and no matching entry that is left out is
  newer than one that is shown; it is empty only when nothing matches.\<close>

theorem audit_log_lists_newest:
  assumes "list_audit_log q d = Inr (rows, n)"
  shows "1 \<le> af_limit q \<and> af_limit q \<le> 500 \<and> n = int (length rows) \<and> n \<le> af_limit q \<and> sorted_wrt newer rows \<and>
    list_all (\<lambda>r. r \<in> set (t_rows (db_audit d)) \<and> audit_matches q r) rows \<and>
    list_all (\<lambda>r. r \<in> set rows \<or> list_all (\<lambda>s. newer s r) rows) (filter (audit_matches q) (t_rows (db_audit d))) \<and>
    (rows = [] \<longleftrightarrow> filter (audit_matches q) (t_rows (db_audit d)) = [])"
proof -
  let ?all = "filter (audit_matches q) (t_rows (db_audit d))"
  have l: "1 \<le> af_limit q" "af_limit q \<le> 500" and n: "n = int (length rows)" and r: "rows = take (nat (af_limit q)) (order_by newer ?all)"
    using assms by (auto simp: list_audit_log_def Let_def split: if_splits)
  have mem: "x \<in> set ?all" if "x \<in> set rows" for x
    using in_set_takeD [OF that [unfolded r]] by simp
  have left: "newer s x" if "x \<in> set ?all" "x \<notin> set rows" "s \<in> set rows" for x s
    by (rule taken_before_dropped [OF newer_key that(3) [unfolded r] that(1)]) (use that(2) r in simp)
  have sorted: "sorted_wrt newer rows" unfolding r by (rule sorted_wrt_take) (rule order_by_sorted [OF newer_key])
  have len: "int (length rows) \<le> af_limit q" unfolding r using l(1) by simp
  have empty: "rows = [] \<longleftrightarrow> ?all = []"
  proof -
    have "order_by newer ?all = [] \<longleftrightarrow> ?all = []" using order_by_set [of newer ?all] by (metis set_empty)
    then show ?thesis unfolding r take_eq_Nil using l(1) by simp
  qed
  have "list_all (\<lambda>r. r \<in> set (t_rows (db_audit d)) \<and> audit_matches q r) rows" using mem by (simp add: list_all_iff)
  moreover have "list_all (\<lambda>r. r \<in> set rows \<or> list_all (\<lambda>s. newer s r) rows) ?all" using left unfolding list_all_iff by blast
  ultimately show ?thesis using l n len sorted empty by blast
qed

section \<open>Witnesses\<close>

definition long_keys :: "string \<Rightarrow> settings" where
  "long_keys start = default_settings\<lparr>nvd_api_key := start @ ''-secret-9f3c'', vulncheck_api_key := start\<rparr>"

theorem config_hides_secrets_witness:
  "get_config (long_keys ''aaaa'') True 0 [(''cfg:OPENCVE_API_KEY'', ''one'', None)] =
   get_config (long_keys ''bb'') True 0 [(''cfg:OPENCVE_API_KEY'', ''two-two'', None)]"
  by (rule config_hides_secrets) (simp_all add: long_keys_def default_settings_def alike_def r_get_def cfg_key_def str_or_empty_def)

definition admin_token :: "claims \<times> string \<times> string" where
  "admin_token = create_access_token plain_enc 0 1 ''root@corp.io'' ''admin'' (jwt_secret default_settings) (jwt_algorithm default_settings) 60"

definition fresh_world :: system_world where
  "fresh_world = \<lparr>sw_settings = default_settings, sw_redis = [], sw_db = empty_db 0\<rparr>"

theorem config_update_is_shown_not_used_witness:
  "\<exists>w' k. update_config plain_dec (\<lambda>_. []) \<lparr>client_ip = None, user_agent = None\<rparr> True 0 (Some (''Bearer'', admin_token)) ''NVD_API_KEY'' ''k'' fresh_world =
     (w', Inr k) \<and> nvd_api_key (sw_settings w') = []"
proof -
  let ?u = "update_config plain_dec (\<lambda>_. []) \<lparr>client_ip = None, user_agent = None\<rparr> True 0 (Some (''Bearer'', admin_token)) ''NVD_API_KEY'' ''k'' fresh_world"
  have "\<not> isl (snd ?u)" by code_simp
  then obtain w' k where u: "?u = (w', Inr k)" by (cases "?u"; cases "snd ?u") auto
  then show ?thesis using config_update_is_shown_not_used [OF u] by (simp add: fresh_world_def default_settings_def)
qed

definition two_entries :: db where
  "two_entries = (empty_db 0)\<lparr>db_audit := foldl (\<lambda>t n. fst (insert_row (audit_row_of n sample_audit) t)) empty_table [5, 9]\<rparr>"

definition any_entry :: "int \<Rightarrow> audit_filter" where
  "any_entry n = \<lparr>af_target_type = Some ''webhook'', af_target_id = None, af_action = None, af_actor_email = None, af_limit = n\<rparr>"

theorem audit_log_lists_newest_witness:
  "\<exists>rows n. list_audit_log (any_entry 1) two_entries = Inr (rows, n) \<and> n \<le> 1 \<and> rows \<noteq> []"
proof -
  have "\<not> isl (list_audit_log (any_entry 1) two_entries)" and m: "filter (audit_matches (any_entry 1)) (t_rows (db_audit two_entries)) \<noteq> []"
    by code_simp+
  then obtain rows n where l: "list_audit_log (any_entry 1) two_entries = Inr (rows, n)"
    by (cases "list_audit_log (any_entry 1) two_entries") auto
  show ?thesis using audit_log_lists_newest [OF l] l m by (auto simp: any_entry_def)
qed

end
