(* ===== verification/Sentry.thy ===== *)
theory Sentry
  imports Py_Number
begin

text \<open>
  \<open>app/core/sentry.py\<close>: what is taken out of an error report before it leaves the process. A report is a JSON object, as the SDK
  hands it to \<open>before_send\<close>; whether the SDK can be imported is an argument.
\<close>

section \<open>The hook\<close>

definition SENSITIVE_HEADERS :: "string list" where
  "SENSITIVE_HEADERS = [''authorization'', ''cookie'', ''x-api-key'']"

definition scrub_value :: "string \<Rightarrow> json \<Rightarrow> json" where
  "scrub_value k v = (if py_lower k \<in> set SENSITIVE_HEADERS then JStr ''[scrubbed]'' else v)"

text \<open>\<open>for (k, v) in headers\<close>: an entry must unpack into two values, the first of them a text.\<close>

definition scrub_pair :: "json \<Rightarrow> json result" where
  "scrub_pair entry = bind_r (iterate entry) (\<lambda>xs. case xs of
      [k, v] \<Rightarrow> (case k of JStr s \<Rightarrow> Inr (JArr [k, scrub_value s v]) | _ \<Rightarrow> Inl AttributeError)
    | _ \<Rightarrow> Inl (ValueError ''values to unpack''))"

definition scrub_headers :: "(string \<times> json) list \<Rightarrow> (string \<times> json) list result" where
  "scrub_headers rq = (case obj_get rq ''headers'' of
      Some (JObj hs) \<Rightarrow> Inr (dict_put ''headers'' (JObj (map (\<lambda>(k, v). (k, scrub_value k v)) hs)) rq)
    | Some (JArr hs) \<Rightarrow> bind_r (map_r scrub_pair hs) (\<lambda>hs'. Inr (dict_put ''headers'' (JArr hs') rq))
    | _ \<Rightarrow> Inr rq)"

definition dict_pop :: "'k \<Rightarrow> ('k \<times> 'v) list \<Rightarrow> ('k \<times> 'v) list" where
  "dict_pop k kvs = filter (\<lambda>kv. fst kv \<noteq> k) kvs"

definition public_user :: "(string \<times> json) list \<Rightarrow> (string \<times> json) list" where
  "public_user us = filter (\<lambda>kv. fst kv \<in> {''id'', ''role''}) us"

definition scrub_event :: "(string \<times> json) list \<Rightarrow> (string \<times> json) list result" where
  "scrub_event event =
     bind_r (dict_or_empty event ''request'') (\<lambda>rq.
     bind_r (scrub_headers rq) (\<lambda>rq1.
     let event1 = dict_put ''request'' (JObj (dict_pop ''cookies'' (dict_pop ''data'' rq1))) event in
     bind_r (dict_or_empty event1 ''user'') (\<lambda>us.
     Inr (dict_put ''user'' (JObj (public_user us)) event1))))"

text \<open>The sample rate with which the SDK is started, when it is.\<close>

definition init_sentry :: "bool \<Rightarrow> string \<Rightarrow> rat \<Rightarrow> rat option" where
  "init_sentry importable dsn rate = (if dsn = [] \<or> \<not> importable then None else Some (max 0 (min 1 rate)))"

section \<open>Properties\<close>

lemma dict_pop_get: "obj_get (dict_pop k kvs) j = (if j = k then None else obj_get kvs j)"
  by (induction kvs) (auto simp: dict_pop_def obj_get_def)

text \<open>What a header may show.\<close>

definition hidden :: "string \<Rightarrow> json \<Rightarrow> bool" where
  "hidden k v \<longleftrightarrow> (py_lower k \<in> {''authorization'', ''cookie'', ''x-api-key''} \<longrightarrow> v = JStr ''[scrubbed]'')"

definition clean_entry :: "json \<Rightarrow> bool" where
  "clean_entry e = (case e of JArr [JStr k, v] \<Rightarrow> hidden k v | _ \<Rightarrow> False)"

definition clean_headers :: "json option \<Rightarrow> bool" where
  "clean_headers h = (case h of
      Some (JObj hs) \<Rightarrow> list_all (\<lambda>(k, v). hidden k v) hs
    | Some (JArr es) \<Rightarrow> list_all clean_entry es
    | _ \<Rightarrow> True)"

lemma hidden_scrubbed [simp]: "hidden k (scrub_value k v)"
  by (simp add: scrub_value_def hidden_def SENSITIVE_HEADERS_def)

lemma scrub_pair_clean:
  assumes "scrub_pair e = Inr e'"
  shows "clean_entry e'"
proof -
  obtain xs where x: "(case xs of [k, v] \<Rightarrow> (case k of JStr s \<Rightarrow> Inr (JArr [k, scrub_value s v]) | _ \<Rightarrow> Inl AttributeError)
      | _ \<Rightarrow> Inl (ValueError ''values to unpack'')) = Inr e'"
    using assms unfolding scrub_pair_def bind_r_Inr by blast
  obtain k v where "xs = [k, v]" using x by (cases xs; cases "tl xs"; cases "tl (tl xs)") auto
  then show ?thesis using x by (cases k) (auto simp: clean_entry_def)
qed

lemma put_get: "obj_get (dict_put k v d) j = (if j = k then Some v else obj_get d j)"
  by (simp add: obj_get_def)

lemma scrub_headers_clean:
  assumes "scrub_headers rq = Inr rq'"
  shows "clean_headers (obj_get rq' ''headers'')"
proof (cases "obj_get rq ''headers''")
  case None
  then show ?thesis using assms by (simp add: scrub_headers_def clean_headers_def)
next
  case (Some h)
  show ?thesis
  proof (cases h)
    case (JArr es)
    then obtain es' where "map_r scrub_pair es = Inr es'" "rq' = dict_put ''headers'' (JArr es') rq"
      using assms Some by (auto simp: scrub_headers_def bind_r_Inr)
    moreover from this(1) have "list_all clean_entry es'"
      using map_r_mem scrub_pair_clean by (fastforce simp: list_all_iff)
    ultimately show ?thesis by (simp add: clean_headers_def obj_get_def)
  qed (use assms Some in \<open>auto simp: scrub_headers_def clean_headers_def obj_get_def list_all_iff\<close>)
qed

text \<open>C21: No report carries credentials: in what leaves, the request has no body and no cookies, its headers, given as an object or as pairs, hold
  the placeholder for every sensitive name in any case, the user is at most an id and a role, and the other parts of the report
  are as they were.\<close>

theorem reports_carry_no_credentials:
  assumes "scrub_event event = Inr event'"
  shows "(\<exists>rq us. obj_get event' ''request'' = Some (JObj rq) \<and> obj_get rq ''data'' = None \<and> obj_get rq ''cookies'' = None \<and>
      clean_headers (obj_get rq ''headers'') \<and> obj_get event' ''user'' = Some (JObj us) \<and> set (map fst us) \<subseteq> {''id'', ''role''}) \<and>
    (\<forall>k. k \<noteq> ''request'' \<longrightarrow> k \<noteq> ''user'' \<longrightarrow> obj_get event' k = obj_get event k)"
proof -
  obtain rq rq1 us where 1: "dict_or_empty event ''request'' = Inr rq" "scrub_headers rq = Inr rq1"
    "event' = dict_put ''user'' (JObj (public_user us)) (dict_put ''request'' (JObj (dict_pop ''cookies'' (dict_pop ''data'' rq1))) event)"
    using assms by (auto simp: scrub_event_def bind_r_Inr Let_def)
  have "clean_headers (obj_get (dict_pop ''cookies'' (dict_pop ''data'' rq1)) ''headers'')"
    using scrub_headers_clean [OF 1(2)] by (simp add: dict_pop_get)
  then show ?thesis
    by (intro conjI exI [of _ "dict_pop ''cookies'' (dict_pop ''data'' rq1)"] exI [of _ "public_user us"])
      (auto simp: 1(3) put_get dict_pop_get public_user_def)
qed

definition demo_event :: "(string \<times> json) list" where
  "demo_event = [(''level'', JStr ''error''), (''user'', JObj [(''id'', JInt 4), (''email'', JStr ''a@b.c'')]),
     (''request'', JObj [(''url'', JStr ''/api''), (''data'', JStr ''{}''),
       (''headers'', JArr [JArr [JStr ''Authorization'', JStr ''Bearer x''], JArr [JStr ''Accept'', JStr ''*/*'']])])]"

theorem reports_carry_no_credentials_witness:
  "\<exists>event' rq. scrub_event demo_event = Inr event' \<and> obj_get event' ''request'' = Some (JObj rq) \<and> clean_headers (obj_get rq ''headers'') \<and>
     obj_get event' ''level'' = Some (JStr ''error'')"
proof -
  have "\<not> isl (scrub_event demo_event)" and l: "obj_get demo_event ''level'' = Some (JStr ''error'')" by code_simp+
  then obtain event' where e: "scrub_event demo_event = Inr event'" by (cases "scrub_event demo_event") auto
  show ?thesis using reports_carry_no_credentials [OF e] e l by auto
qed

end
