(* ===== verification/Cpe_Suggest.thy ===== *)
theory Cpe_Suggest
  imports Dashboard Nvd_Clients
begin

text \<open>
  \<open>app/api/routers/cpe_suggest.py\<close>: the suggestions of the CPE search, from at most five pages of the NVD's dictionary. The
  dictionary is an argument that answers a start index; \<open>json.loads\<close> and \<open>json.dumps\<close> are arguments.
\<close>

section \<open>The pages\<close>

definition SUGGEST_TTL :: int where "SUGGEST_TTL = 3600"

type_synonym cpe_service = "int \<Rightarrow> response result"

definition cpe_object :: "json \<Rightarrow> (string \<times> json) list result" where
  "cpe_object p = bind_r (as_dict p) (\<lambda>kvs. dict_or_empty kvs ''cpe'')"

definition deprecated :: "json \<Rightarrow> bool result" where
  "deprecated p = bind_r (cpe_object p) (\<lambda>c. Inr (opt_ex json_truthy (obj_get c ''deprecated'')))"

definition or_nil :: "json option \<Rightarrow> json" where
  "or_nil v = (case v of Some w \<Rightarrow> if json_truthy w then w else JArr [] | None \<Rightarrow> JArr [])"

text \<open>\<open>len(all_products) >= total\<close>.\<close>

definition read_all :: "nat \<Rightarrow> json \<Rightarrow> bool result" where
  "read_all n v = (case v of
      JInt k \<Rightarrow> Inr (k \<le> int n) | JBool b \<Rightarrow> Inr ((if b then 1 else 0) \<le> n) | JFloat x \<Rightarrow> Inr (x \<le> of_nat n)
    | _ \<Rightarrow> Inl (TypeError ''not supported between instances''))"

text \<open>The loop over the start indices; it stops when all is read, on an empty page, or with enough entries that are not deprecated.\<close>

primrec suggest_pages :: "nat \<Rightarrow> cpe_service \<Rightarrow> int \<Rightarrow> int \<Rightarrow> json list \<Rightarrow> json list result" where
  "suggest_pages 0 srv limit start acc = Inr acc"
| "suggest_pages (Suc n) srv limit start acc = bind_r (srv start) (\<lambda>resp.
     if \<not> (200 \<le> r_status resp \<and> r_status resp < 300) then Inr acc
     else case r_body resp of
       None \<Rightarrow> Inl (ValueError ''JSONDecodeError'')
     | Some body \<Rightarrow> bind_r (as_dict body) (\<lambda>kvs. bind_r (iterate (or_nil (obj_get kvs ''products''))) (\<lambda>batch.
         let acc' = acc @ batch in
         bind_r (read_all (length acc') (get_or kvs ''totalResults'' (JInt 0))) (\<lambda>complete.
           if complete \<or> batch = [] then Inr acc'
           else bind_r (filter_r (\<lambda>p. bind_r (deprecated p) (\<lambda>b. Inr (\<not> b))) acc') (\<lambda>current.
             if int (length current) \<ge> limit * 3 then Inr acc' else suggest_pages n srv limit (start + 100) acc')))))"

section \<open>An entry\<close>

record suggestion =
  sg_cpe_name :: string
  sg_title :: string
  sg_vendor :: string
  sg_product :: string
  sg_part :: string

fun english_title :: "json list \<Rightarrow> json option result" where
  "english_title [] = Inr None"
| "english_title (t # ts) = bind_r (as_dict t) (\<lambda>kvs.
     if obj_get kvs ''lang'' = Some (JStr ''en'') then Inr (Some (get_or kvs ''title'' (JStr []))) else english_title ts)"

text \<open>The first English title; otherwise the first title; otherwise the product.\<close>

definition raw_title :: "json \<Rightarrow> string \<Rightarrow> json result" where
  "raw_title titles product =
     (if \<not> json_truthy titles then Inr (JStr product)
      else case titles of
        JArr (t # ts) \<Rightarrow> bind_r (as_dict t) (\<lambda>kvs. bind_r (english_title (t # ts)) (\<lambda>en.
          Inr (case en of Some v \<Rightarrow> v | None \<Rightarrow> get_or kvs ''title'' (JStr []))))
      | JObj _ \<Rightarrow> Inl (KeyError ''0'')
      | JStr _ \<Rightarrow> Inl AttributeError
      | _ \<Rightarrow> Inl (TypeError ''object is not iterable''))"

text \<open>\<open>\s+on\s+(x64|x86|arm64)\s*$\<close> at the front of a text, case ignored; the leftmost match is cut off.\<close>

definition on_arch :: "string \<Rightarrow> bool" where
  "on_arch s \<longleftrightarrow> (let a = dropWhile is_space s; b = dropWhile is_space (drop 2 a) in
     a \<noteq> s \<and> py_startswith (py_lower a) ''on'' \<and> b \<noteq> drop 2 a \<and> py_lower (py_strip b) \<in> {''x64'', ''x86'', ''arm64''})"

fun cut_arch :: "string \<Rightarrow> string" where
  "cut_arch [] = []"
| "cut_arch (c # cs) = (if on_arch (c # cs) then [] else c # cut_arch cs)"

text \<open>The flag says that the entry is deprecated.\<close>

definition suggestion_of :: "json \<Rightarrow> (bool \<times> suggestion) option result" where
  "suggestion_of p = bind_r (cpe_object p) (\<lambda>c.
     bind_r (case obj_get c ''cpeName'' of None \<Rightarrow> Inr []
       | Some v \<Rightarrow> if \<not> json_truthy v then Inr [] else (case v of JStr s \<Rightarrow> Inr s | _ \<Rightarrow> Inl AttributeError)) (\<lambda>name.
     let parts = py_split CHR '':'' name in
     if length parts < 6 then Inr None
     else (let part = parts ! 2; vendor = parts ! 3; product = parts ! 4; version = parts ! 5; base = ''cpe:2.3:'' @ part @ '':'' @ vendor @ '':'' @ product in
       bind_r (raw_title (or_nil (obj_get c ''titles'')) product) (\<lambda>raw. case raw of
         JStr s \<Rightarrow> Inr (Some (opt_ex json_truthy (obj_get c ''deprecated''),
           \<lparr>sg_cpe_name = (if version = ''*'' \<or> version = [] then base else base @ '':'' @ version), sg_title = py_strip (cut_arch s),
            sg_vendor = vendor, sg_product = product, sg_part = part\<rparr>))
       | _ \<Rightarrow> Inl (TypeError ''expected string'')))))"

section \<open>The route\<close>

definition group_key :: "suggestion \<Rightarrow> string" where
  "group_key s = sg_vendor s @ '':'' @ sg_product s"

definition suggest_limit :: "int \<Rightarrow> int" where
  "suggest_limit limit = min 30 (max 1 limit)"

text \<open>The first entry of each vendor and product; deprecated ones only when there are no others.\<close>

definition suggestions_of :: "cpe_service \<Rightarrow> int \<Rightarrow> suggestion list result" where
  "suggestions_of srv limit = bind_r (suggest_pages 5 srv limit 0 []) (\<lambda>ps. bind_r (map_r suggestion_of ps) (\<lambda>es.
     let found = List.map_filter id es; seen = first_of_each group_key (map snd (filter (\<lambda>e. \<not> fst e) found));
         seen_dep = first_of_each group_key (map snd (filter fst found)) in
     Inr (take (nat limit) (if seen \<noteq> [] then seen else seen_dep))))"

definition suggest_key :: "string \<Rightarrow> string" where
  "suggest_key q = ''cpe:suggest:'' @ py_lower (py_strip q)"

definition cpe_suggest ::
    "(string \<Rightarrow> json option) \<Rightarrow> (suggestion list \<Rightarrow> string) \<Rightarrow> (string \<Rightarrow> cpe_service) \<Rightarrow> bool \<Rightarrow> rat \<Rightarrow> string \<Rightarrow> int \<Rightarrow>
     (redis, suggestion list answer) action" where
  "cpe_suggest loads dumps srv up t q limit r =
     (if length q < 2 then (r, Inl (HttpException 422 ''q''))
      else if \<not> up then (r, Inl (OtherError ''ConnectionError''))
      else let cached = str_or_empty (r_get t r (suggest_key q)) in
        if cached \<noteq> [] then (r, case loads cached of None \<Rightarrow> Inl (ValueError ''JSONDecodeError'') | Some v \<Rightarrow> Inr (Cached v))
        else (case suggestions_of (srv (py_strip q)) (suggest_limit limit) of
          Inl e \<Rightarrow> (r, if is_exception e then Inr (Fresh []) else Inl e)
        | Inr xs \<Rightarrow> (case r_setex t (suggest_key q) SUGGEST_TTL (dumps xs) r of
            Inl e \<Rightarrow> (r, Inl e) | Inr r' \<Rightarrow> (r', Inr (Fresh xs)))))"

section \<open>Properties\<close>

lemma first_of_each_sub: "set (first_of_each f xs) \<subseteq> set xs"
  by (induction f xs rule: first_of_each.induct) auto

lemma first_of_each_onto: "f ` set (first_of_each f xs) = f ` set xs"
  by (induction f xs rule: first_of_each.induct) auto

lemma first_of_each_keys: "distinct (map f (first_of_each f xs))"
proof (induction f xs rule: first_of_each.induct)
  case (2 f x xs)
  have "f y \<noteq> f x" if "y \<in> set (first_of_each f (filter (\<lambda>y. f y \<noteq> f x) xs))" for y
    using subsetD [OF first_of_each_sub that] by simp
  then have "f x \<notin> f ` set (first_of_each f (filter (\<lambda>y. f y \<noteq> f x) xs))" by (metis imageE)
  then show ?case using 2 by simp
qed simp

text \<open>Fresh suggestions are at most as many as asked for, at most thirty, name each vendor and product once and are current entries of the
  dictionary: a deprecated one is suggested only when every entry read is deprecated.\<close>

theorem suggestions_are_distinct:
  assumes "cpe_suggest loads dumps srv True t q limit r = (r', Inr (Fresh xs))" and "xs \<noteq> []"
  shows "int (length xs) \<le> max 1 limit \<and> length xs \<le> 30 \<and> distinct (map (\<lambda>x. (sg_vendor x, sg_product x)) xs) \<and>
    (\<exists>ps es. suggest_pages 5 (srv (py_strip q)) (suggest_limit limit) 0 [] = Inr ps \<and> map_r suggestion_of ps = Inr es \<and>
       (let found = List.map_filter id es in
         list_all (\<lambda>x. (False, x) \<in> set found) xs \<or> (list_all fst found \<and> list_all (\<lambda>x. (True, x) \<in> set found) xs)))"
proof -
  have fresh: "suggestions_of (srv (py_strip q)) (suggest_limit limit) = Inr xs"
    using assms by (auto simp: cpe_suggest_def Let_def split: if_splits option.splits sum.splits)
  obtain ps es where p: "suggest_pages 5 (srv (py_strip q)) (suggest_limit limit) 0 [] = Inr ps" "map_r suggestion_of ps = Inr es"
    using fresh unfolding suggestions_of_def bind_r_Inr by blast
  define found where "found = List.map_filter id es"
  define seen where "seen = first_of_each group_key (map snd (filter (\<lambda>e. \<not> fst e) found))"
  define seen_dep where "seen_dep = first_of_each group_key (map snd (filter fst found))"
  have xs: "xs = take (nat (suggest_limit limit)) (if seen \<noteq> [] then seen else seen_dep)"
    using fresh [unfolded suggestions_of_def p(1) bind_r_simps p(2) Let_def] unfolding found_def seen_def seen_dep_def by (rule sum.inject(2) [THEN iffD1, THEN sym])
  have "distinct (map group_key xs)"
    unfolding xs by (simp add: take_map [symmetric] distinct_take seen_def seen_dep_def first_of_each_keys)
  moreover have "map group_key xs = map (\<lambda>(v, p). v @ '':'' @ p) (map (\<lambda>x. (sg_vendor x, sg_product x)) xs)"
    by (simp add: group_key_def)
  ultimately have d: "distinct (map (\<lambda>x. (sg_vendor x, sg_product x)) xs)"
    by (simp only: distinct_map [of _ "map _ xs"])
  have n: "length xs \<le> nat (suggest_limit limit)" by (simp add: xs)
  have all: "list_all (\<lambda>x. (False, x) \<in> set found) xs \<or> (list_all fst found \<and> list_all (\<lambda>x. (True, x) \<in> set found) xs)"
  proof (cases "seen = []")
    case False
    then have "set xs \<subseteq> set seen" by (simp add: xs set_take_subset)
    then have "list_all (\<lambda>x. (False, x) \<in> set found) xs"
      using first_of_each_sub [of group_key "map snd (filter (\<lambda>e. \<not> fst e) found)"]
      unfolding list_all_iff seen_def by fastforce
    then show ?thesis by blast
  next
    case True
    then have "set xs \<subseteq> set seen_dep" by (simp add: xs set_take_subset)
    then have "list_all (\<lambda>x. (True, x) \<in> set found) xs"
      using first_of_each_sub [of group_key "map snd (filter fst found)"]
      unfolding list_all_iff seen_dep_def by fastforce
    moreover have "filter (\<lambda>e. \<not> fst e) found = []"
      using True first_of_each_onto [of group_key "map snd (filter (\<lambda>e. \<not> fst e) found)"] unfolding seen_def
      by (cases "filter (\<lambda>e. \<not> fst e) found") auto
    ultimately show ?thesis by (auto simp: filter_empty_conv list_all_iff)
  qed
  show ?thesis using n d p all by (auto simp: suggest_limit_def found_def Let_def)
qed

text \<open>The key of the cache does not name the limit: for an hour, every search for the same text gets the list of the first one, longer
  than it asked for or cut short.\<close>

lemma suggestions_cached_for_any_limit:
  assumes "cpe_suggest loads dumps srv True t q limit r = (r', Inr (Fresh xs))" and "xs \<noteq> []" and "dumps xs \<noteq> []" and "loads (dumps xs) = Some v"
    and "t' < t + 3600"
  shows "snd (cpe_suggest loads dumps srv' True t' q limit' r') = Inr (Cached v)"
proof -
  have "r' = AList.update (suggest_key q) (dumps xs, Some (t + 3600)) r" and "\<not> length q < 2"
    using assms(1,2) by (auto simp: cpe_suggest_def Let_def r_setex_def SUGGEST_TTL_def split: if_splits option.splits sum.splits)
  then show ?thesis using assms(3-5) by (simp add: cpe_suggest_def Let_def str_or_empty_def)
qed

section \<open>Witness\<close>

definition dictionary_entry :: "bool \<Rightarrow> string \<Rightarrow> json" where
  "dictionary_entry dep name = JObj [(''cpe'', JObj [(''cpeName'', JStr name), (''deprecated'', JBool dep),
     (''titles'', JArr [JObj [(''lang'', JStr ''en''), (''title'', JStr ''nginx 1.25 on x64'')]])])]"

definition demo_dictionary :: "string \<Rightarrow> cpe_service" where
  "demo_dictionary q start = Inr \<lparr>r_status = 200, r_retry_after = None, r_body = Some (JObj [(''totalResults'', JInt 3),
     (''products'', JArr [dictionary_entry True ''cpe:2.3:a:f5:nginx:1.0'', dictionary_entry False ''cpe:2.3:a:f5:nginx:1.25'',
        dictionary_entry False ''cpe:2.3:a:f5:nginx:*''])])\<rparr>"

theorem suggestions_are_distinct_witness:
  "\<exists>r' xs. cpe_suggest (\<lambda>_. None) (\<lambda>_. ''[]'') demo_dictionary True 0 ''nginx'' 15 [] = (r', Inr (Fresh xs)) \<and> xs \<noteq> [] \<and>
     length xs \<le> 30 \<and> distinct (map (\<lambda>x. (sg_vendor x, sg_product x)) xs)"
proof -
  let ?c = "cpe_suggest (\<lambda>_. None) (\<lambda>_. ''[]'') demo_dictionary True 0 ''nginx'' 15 []"
  have "(case snd ?c of Inr (Fresh xs) \<Rightarrow> xs \<noteq> [] | _ \<Rightarrow> False)" by code_simp
  then obtain r' xs where c: "?c = (r', Inr (Fresh xs))" "xs \<noteq> []"
    by (cases "?c"; cases "snd ?c") (auto split: answer.splits)
  show ?thesis using suggestions_are_distinct [OF c] c by blast
qed

end
