(* ===== verification/Freshness.thy ===== *)
theory Freshness
  imports Exposure Sync_Jobs Products
begin

text \<open>
  The writers and the cached dashboards together: \<open>update_finding\<close> of \<open>app/api/routers/findings.py\<close>, \<open>delete_product\<close> of
  \<open>app/api/routers/products.py\<close> and \<open>sync_product\<close> of \<open>app/workers/product_sync.py\<close> with the keys they delete from Redis, and what the dashboard routes answer afterwards.
\<close>

section \<open>The writers on database and cache\<close>

definition DASHBOARDS :: string where "DASHBOARDS = ''dashboard:*''"

definition product_pattern :: "int \<Rightarrow> string" where
  "product_pattern pid = ''cves:product:'' @ py_str_int pid @ ''*''"

text \<open>\<open>glob\<close> says which keys a pattern of Redis matches. A request that fails does not reach the deletion.\<close>

definition invalidating ::
    "(string \<Rightarrow> string \<Rightarrow> bool) \<Rightarrow> bool \<Rightarrow> rat \<Rightarrow> (db \<Rightarrow> db \<times> 'r result) \<Rightarrow> (db \<times> redis, 'r) action" where
  "invalidating glob up t f w = (case f (fst w) of
      (d, Inl e) \<Rightarrow> ((d, snd w), Inl e)
    | (d, Inr v) \<Rightarrow> ((d, fst (delete_pattern glob up t DASHBOARDS (snd w))), Inr v))"

definition patch_finding ::
    "(string \<Rightarrow> string \<Rightarrow> bool) \<Rightarrow> bool \<Rightarrow> rat \<Rightarrow> int \<Rightarrow> auth_user \<Rightarrow> client \<Rightarrow> int \<Rightarrow> string \<Rightarrow> finding_update \<Rightarrow>
     (db \<times> redis, finding_row option) action" where
  "patch_finding glob up t now user cl pid cve body = invalidating glob up t (update_finding now user cl pid cve body)"

definition drop_product :: "(string \<Rightarrow> string \<Rightarrow> bool) \<Rightarrow> bool \<Rightarrow> rat \<Rightarrow> int \<Rightarrow> auth_user \<Rightarrow> client \<Rightarrow> int \<Rightarrow> (db \<times> redis, int) action" where
  "drop_product glob up t now user cl pid = invalidating glob up t (delete_product now user cl pid)"

text \<open>Without candidates the function returns before it deletes anything.\<close>

definition sync_and_invalidate ::
    "(string \<Rightarrow> string \<Rightarrow> bool) \<Rightarrow> bool \<Rightarrow> rat \<Rightarrow> int \<Rightarrow> int \<Rightarrow> (db \<times> redis, sync_result) action" where
  "sync_and_invalidate glob up t now pid w = (case sync_product now pid (fst w) of
      (d, Inl e) \<Rightarrow> ((d, snd w), Inl e)
    | (d, Inr res) \<Rightarrow> ((d, if sr_candidates res = 0 then snd w
        else fst (delete_pattern glob up t (product_pattern pid) (fst (delete_pattern glob up t DASHBOARDS (snd w))))), Inr res))"

section \<open>Deleted keys\<close>

lemma del_all_get: "r_get t (foldl (\<lambda>r k. r_del k r) r ks) k = (if k \<in> set ks then None else r_get t r k)"
  by (induction ks arbitrary: r) auto

lemma deleted_stays_away:
  assumes "glob p k" and "t \<le> t'"
  shows "r_get t' (fst (delete_pattern glob True t p r)) k = None"
proof (cases "r_get t r k")
  case None
  then have "r_get t' r k = None"
    using assms(2) by (auto simp: r_get_def unexpired_def split: option.splits if_splits)
  then show ?thesis by (simp add: delete_pattern_def Let_def del_all_get)
next
  case (Some v)
  then have "k \<in> set (map fst r)" by (auto simp: r_get_def split: option.splits dest: map_of_SomeD intro: rev_image_eqI)
  then show ?thesis using assms(1) Some by (simp add: delete_pattern_def Let_def del_all_get)
qed

lemma delete_keeps_none:
  assumes "r_get t' r k = None"
  shows "r_get t' (fst (delete_pattern glob up t p r)) k = None"
  using assms by (simp add: delete_pattern_def Let_def del_all_get)

text \<open>The documented meaning of a pattern that ends in its only star: it matches what begins with the rest.\<close>

definition prefix_glob :: "(string \<Rightarrow> string \<Rightarrow> bool) \<Rightarrow> bool" where
  "prefix_glob glob \<longleftrightarrow> (\<forall>s. glob ''dashboard:*'' (''dashboard:'' @ s))"

definition no_dashboards :: "rat \<Rightarrow> redis \<Rightarrow> bool" where
  "no_dashboards t r \<longleftrightarrow> (\<forall>t' \<ge> t. \<forall>s. r_get t' r (''dashboard:'' @ s) = None)"

lemma delete_dashboards: "prefix_glob glob \<Longrightarrow> no_dashboards t (fst (delete_pattern glob True t DASHBOARDS r))"
  unfolding no_dashboards_def using deleted_stays_away [of glob "''dashboard:*''"] by (simp add: prefix_glob_def DASHBOARDS_def)

lemma no_dashboards_delete: "no_dashboards t r \<Longrightarrow> no_dashboards t (fst (delete_pattern glob up t' p r))"
  unfolding no_dashboards_def using delete_keeps_none by blast

text \<open>Every dashboard of a database, computed anew at an instant; the parameters are those of the requests.\<close>

lemma dashboards_computed:
  assumes "no_dashboards t r" and "t \<le> t'"
  shows "snd (dashboard_stats loads jsa True t' jtext d r) = Inr (Fresh (landing_of jtext d))"
    and "snd (dashboard_triage loads jsb True t' now q d r) = Inr (Fresh (triage_of now (clamped q) d))"
    and "snd (dashboard_remediation loads jsc True t' now n d r) = Inr (Fresh (remediation_of now (max 1 (min 200 n)) d))"
    and "snd (dashboard_exposure loads jsd True t' now n d r) = Inr (Fresh (exposure_of now (max 1 (min 50 n)) d))"
    and "snd (dashboard_exec loads jse True t' now n snaps d r) = Inr (Fresh (executive_of now (max 7 (min 730 n)) snaps d))"
proof -
  have none: "str_or_empty (r_get t' r (''dashboard:'' @ s)) = []" for s
    using assms by (simp add: no_dashboards_def str_or_empty_def)
  show "snd (dashboard_stats loads jsa True t' jtext d r) = Inr (Fresh (landing_of jtext d))"
    using stats_route.miss [of t' r loads jsa jtext d] none [of "''stats''"] by simp
  show "snd (dashboard_triage loads jsb True t' now q d r) = Inr (Fresh (triage_of now (clamped q) d))"
    using triage_route.miss [of t' r q loads jsb "(now, d)"] none by (simp add: triage_key_def)
  show "snd (dashboard_remediation loads jsc True t' now n d r) = Inr (Fresh (remediation_of now (max 1 (min 200 n)) d))"
    using remediation_route.miss [of t' r n loads jsc "(now, d)"] none [of "''remediation:al'' @ py_str_int (max 1 (min 200 n))"] by simp
  show "snd (dashboard_exposure loads jsd True t' now n d r) = Inr (Fresh (exposure_of now (max 1 (min 50 n)) d))"
    using exposure_route.miss [of t' r n loads jsd "(now, d)"] none [of "''exposure:l'' @ py_str_int (max 1 (min 50 n))"] by simp
  show "snd (dashboard_exec loads jse True t' now n snaps d r) = Inr (Fresh (executive_of now (max 7 (min 730 n)) snaps d))"
    using exec_route.miss [of t' r n loads jse "(now, snaps, d)"] none [of "''exec:p'' @ py_str_int (max 7 (min 730 n))"] by simp
qed

lemma update_finding_refused:
  assumes "update_finding now user cl pid cve body d = (d', Inl e)"
  shows "d' = d"
  using assms by (auto simp: update_finding_def Let_def split: if_splits option.splits sum.splits prod.splits)

section \<open>Properties\<close>


text \<open>The deletion of a product, which closes its findings, leaves no dashboard either.\<close>

lemma dropped_products_show:
  assumes "drop_product glob True t now user cl pid (d, r) = ((d', r'), Inr n)" and "prefix_glob glob"
  shows "no_dashboards t r'"
  using assms(1) delete_dashboards [OF assms(2), of t r] by (auto simp: drop_product_def invalidating_def split: prod.splits sum.splits)

text \<open>A synchronisation that found candidates leaves no dashboard in the cache; one without candidates, which changes the state of the
  product only, deletes nothing.\<close>

lemma synchronised_findings_show:
  assumes "sync_and_invalidate glob True t now pid (d, r) = ((d', r'), Inr res)" and "prefix_glob glob"
  shows "if sr_candidates res = 0 then r' = r \<and> db_findings d' = db_findings d else no_dashboards t r'"
proof -
  have s: "sync_product now pid d = (d', Inr res)"
    and r: "r' = (if sr_candidates res = 0 then r
        else fst (delete_pattern glob True t (product_pattern pid) (fst (delete_pattern glob True t DASHBOARDS r))))"
    using assms(1) by (auto simp: sync_and_invalidate_def split: prod.splits sum.splits)
  have "db_findings d' = db_findings d" if "sr_candidates res = 0"
    using s that by (auto simp: sync_product_def Let_def set_sync_status_def split: option.splits sum.splits list.splits)
  then show ?thesis using r no_dashboards_delete [OF delete_dashboards [OF assms(2)]] by simp
qed

section \<open>Witness\<close>

definition star_glob :: "string \<Rightarrow> string \<Rightarrow> bool" where
  "star_glob p k \<longleftrightarrow> py_endswith p ''*'' \<and> py_startswith k (butlast p)"

lemma star_glob_ok: "prefix_glob star_glob"
  by (simp add: prefix_glob_def star_glob_def py_endswith_def py_startswith_def)


end
