(* ===== verification/Write_Api.thy ===== *)
theory Write_Api
  imports Freshness Risk_Acceptance Webhook_Api Products System_Api
begin

text \<open>
  The routes of \<open>create_app\<close> that change something, behind their guards: who may send which request, what it does to the database, to Redis
  and to the settings of the process, and what it leaves in the audit log. The test of a webhook and the refresh of a session
  change nothing and are left out.
\<close>

section \<open>Requests\<close>

datatype write_request =
    PatchFinding int string finding_update
  | PostAcceptance int string risk_create
  | PatchAcceptance int string int risk_decision
  | PostWebhook webhook_create
  | PatchWebhook int webhook_update
  | DropWebhook int
  | PostProduct product_create
  | PostBulk "product_create list"
  | PostResync
  | DropProduct int
  | PostSync int
  | PatchConfig string string
  | PostLogin string string

text \<open>What the process reads from outside while it serves one.\<close>

record 'tok api_env =
  ae_enc :: "'tok encoder"
  ae_dec :: "'tok decoder"
  ae_repr :: "json \<Rightarrow> string"
  ae_checkpw :: "string \<Rightarrow> string \<Rightarrow> bool result"
  ae_glob :: "string \<Rightarrow> string \<Rightarrow> bool"
  ae_redis_up :: bool
  ae_redis_now :: rat
  ae_webhooks :: webhook_env
  ae_allowlist :: "string option"
  ae_fenc :: fernet
  ae_generated :: string
  ae_collate :: "string \<Rightarrow> string \<Rightarrow> bool"

definition webhooks_of :: "'tok api_env \<Rightarrow> settings \<Rightarrow> webhook_env" where
  "webhooks_of env st = (ae_webhooks env)\<lparr>we_enc_key := webhook_enc_key st, we_enforcement := opsec_enforcement st,
     we_allowlist := str_or_empty (ae_allowlist env)\<rparr>"

section \<open>Handlers and guards\<close>

definition on_db :: "(db \<Rightarrow> db \<times> 'r result) \<Rightarrow> (system_world, unit) action" where
  "on_db f w = (case f (sw_db w) of (d, r) \<Rightarrow> (w\<lparr>sw_db := d\<rparr>, bind_r r (\<lambda>_. Inr ())))"

text \<open>\<open>resync_all\<close> cannot fail.\<close>

definition resync :: "(string \<Rightarrow> string \<Rightarrow> bool) \<Rightarrow> int \<Rightarrow> auth_user \<Rightarrow> client \<Rightarrow> (db, resync_result) action" where
  "resync collate now user cl d = map_prod id Inr (resync_all collate now user cl d)"

text \<open>The handlers behind \<open>require_role("analyst")\<close>.\<close>

definition handle :: "'tok api_env \<Rightarrow> int \<Rightarrow> client \<Rightarrow> write_request \<Rightarrow> auth_user \<Rightarrow> (system_world, unit) action" where
  "handle env now cl req user w = (case req of
      PatchFinding pid cve b \<Rightarrow>
        (case patch_finding (ae_glob env) (ae_redis_up env) (ae_redis_now env) now user cl pid cve b (sw_db w, sw_redis w) of
          ((d, r), res) \<Rightarrow> (w\<lparr>sw_db := d, sw_redis := r\<rparr>, bind_r res (\<lambda>_. Inr ())))
    | PostAcceptance pid cve b \<Rightarrow> on_db (create_risk_acceptance now user cl pid cve b) w
    | PatchAcceptance pid cve aid b \<Rightarrow> on_db (decide_risk_acceptance now user cl pid cve aid b) w
    | PostWebhook b \<Rightarrow> on_db (create_webhook (webhooks_of env (sw_settings w)) (ae_fenc env) (ae_generated env) now user cl b) w
    | PatchWebhook wid b \<Rightarrow> on_db (update_webhook (webhooks_of env (sw_settings w)) (ae_fenc env) now user cl wid b) w
    | DropWebhook wid \<Rightarrow> on_db (delete_webhook now user cl wid) w
    | PostProduct b \<Rightarrow> on_db (create_product now user cl b) w
    | PostBulk bs \<Rightarrow> on_db (bulk_import now user cl bs) w
    | PostResync \<Rightarrow> on_db (resync (ae_collate env) now user cl) w
    | DropProduct pid \<Rightarrow>
        (case drop_product (ae_glob env) (ae_redis_up env) (ae_redis_now env) now user cl pid (sw_db w, sw_redis w) of
          ((d, r), res) \<Rightarrow> (w\<lparr>sw_db := d, sw_redis := r\<rparr>, bind_r res (\<lambda>_. Inr ())))
    | PostSync pid \<Rightarrow> on_db (manual_sync now user cl pid) w
    | PatchConfig k v \<Rightarrow> (w, Inr ())
    | PostLogin e p \<Rightarrow> (w, Inr ()))"

text \<open>The routes: the configuration asks for an administrator, the login for nobody, the others for an analyst.\<close>

definition serve :: "'tok api_env \<Rightarrow> int \<Rightarrow> client \<Rightarrow> (string \<times> 'tok) option \<Rightarrow> write_request \<Rightarrow> (system_world, unit) action" where
  "serve env now cl cred req w = (case req of
      PatchConfig k v \<Rightarrow>
        (case update_config (ae_dec env) (ae_repr env) cl (ae_redis_up env) now cred k v w of (w', r) \<Rightarrow> (w', bind_r r (\<lambda>_. Inr ())))
    | PostLogin e p \<Rightarrow> on_db (login (ae_enc env) (ae_checkpw env) (sw_settings w) now cl e p) w
    | _ \<Rightarrow> (case guarded_by [''analyst''] (ae_dec env) (ae_repr env) (sw_settings w) now cred of
          Inl e \<Rightarrow> (w, Inl e) | Inr user \<Rightarrow> handle env now cl req user w))"

type_synonym 'tok arrival = "int \<times> client \<times> (string \<times> 'tok) option \<times> write_request"

definition serve_one :: "'tok api_env \<Rightarrow> system_world \<Rightarrow> 'tok arrival \<Rightarrow> system_world" where
  "serve_one env w a = (case a of (now, cl, cred, req) \<Rightarrow> fst (serve env now cl cred req w))"

definition serve_run :: "'tok api_env \<Rightarrow> 'tok arrival list \<Rightarrow> system_world \<Rightarrow> system_world" where
  "serve_run env as w = foldl (serve_one env) w as"

section \<open>Signed changes\<close>

text \<open>The change from one database to another is signed: one entry more in the audit log, of that time and by that address.\<close>

definition attributed :: "int \<Rightarrow> string \<Rightarrow> db \<Rightarrow> db \<Rightarrow> bool" where
  "attributed now who d d' \<longleftrightarrow> (\<exists>row. t_rows (db_audit d') = t_rows (db_audit d) @ [row] \<and> al_ts row = now \<and>
     al_actor_email row = Some (str_or (Some who) ''anonymous''))"

lemma record_in_tx_signs:
  assumes "record_in_tx now a d1 = Inr (d', n)" and "db_audit d1 = db_audit d" and "au_actor_email a = Some who"
  shows "attributed now who d d'"
  using assms(2,3) by (simp add: record_in_tx_cases(1) [OF assms(1)] attributed_def snd_insert_row audit_row_of_def Let_def)

lemma record_audit_signs:
  assumes "inet_ok (au_ip_address a)" and "db_audit d1 = db_audit d" and "au_actor_email a = Some who"
  shows "attributed now who d (fst (record_audit now a d1))"
  using record_in_tx_signs [OF record_in_tx_ok [OF assms(1), of now d1] assms(2,3)]
  by (simp add: record_audit_def record_in_tx_ok [OF assms(1)])

text \<open>The contract of a handler: what it changes it signs, with the address of its user.\<close>

locale signing_handler =
  fixes handler :: "int \<Rightarrow> auth_user \<Rightarrow> client \<Rightarrow> db \<Rightarrow> db \<times> 'r result"
  assumes signs: "inet_ok (client_ip cl) \<Longrightarrow> handler now user cl d = (d', r) \<Longrightarrow> d' \<noteq> d \<Longrightarrow> attributed now (au_email user) d d'"
begin

lemma on_db_signs:
  assumes "inet_ok (client_ip cl)" and "on_db (handler now user cl) w = (w', r)" and "w' \<noteq> w"
  shows "attributed now (au_email user) (sw_db w) (sw_db w') \<and> sw_settings w' = sw_settings w"
proof -
  obtain d res where h: "handler now user cl (sw_db w) = (d, res)" by (cases "handler now user cl (sw_db w)")
  then have w': "w' = w\<lparr>sw_db := d\<rparr>" using assms(2) by (simp add: on_db_def)
  then have "d \<noteq> sw_db w" using assms(3) by auto
  then show ?thesis using signs [OF assms(1) h] by (simp add: w')
qed

end

text \<open>A handler that refuses without a trace and signs whatever it grants: then also the deletion of the dashboards after it is signed.\<close>

locale granting_handler =
  fixes handler :: "int \<Rightarrow> auth_user \<Rightarrow> client \<Rightarrow> db \<Rightarrow> db \<times> 'r result"
  assumes refused: "handler now user cl d = (d', Inl e) \<Longrightarrow> d' = d"
    and granted: "handler now user cl d = (d', Inr v) \<Longrightarrow> attributed now (au_email user) d d'"
begin

lemma invalidating_signs:
  assumes "invalidating glob up t (handler now user cl) (sw_db w, sw_redis w) = ((d, r), res)" and "w' = w\<lparr>sw_db := d, sw_redis := r\<rparr>" and "w' \<noteq> w"
  shows "attributed now (au_email user) (sw_db w) (sw_db w') \<and> sw_settings w' = sw_settings w"
proof (cases res)
  case (Inl e)
  then have "handler now user cl (sw_db w) = (d, Inl e)" "r = sw_redis w"
    using assms(1) by (auto simp: invalidating_def split: prod.splits sum.splits)
  then show ?thesis using assms(2,3) refused by fastforce
next
  case (Inr v)
  then have "handler now user cl (sw_db w) = (d, Inr v)"
    using assms(1) by (auto simp: invalidating_def split: prod.splits sum.splits)
  then show ?thesis using granted by (simp add: assms(2))
qed

end

sublocale granting_handler \<subseteq> signing_handler handler
proof unfold_locales
  fix cl now user d d' r
  assume "handler now user cl d = (d', r)" "d' \<noteq> d"
  then show "attributed now (au_email user) d d'" using refused granted by (cases r) blast+
qed

lemma enqueue_audit [simp]: "db_audit (fst (enqueue_sync now pid prio d)) = db_audit d"
  by (simp add: enqueue_sync_def split_def Let_def)

lemma history_audit [simp]: "db_audit (insert_history now fid old new who c d) = db_audit d"
  by (simp add: insert_history_def)

lemma update_finding_signs:
  assumes "update_finding now user cl pid cve body d = (d', Inr row)"
  shows "attributed now (au_email user) d d'"
  using assms
  by (auto simp: update_finding_def Let_def update_audit_def split: if_splits option.splits sum.splits prod.splits elim!: record_in_tx_signs)

interpretation finding_patches: granting_handler "\<lambda>now user cl. update_finding now user cl pid cve body" for pid cve body
  by unfold_locales (fact update_finding_refused, fact update_finding_signs)

interpretation acceptance_requests: signing_handler "\<lambda>now user cl. create_risk_acceptance now user cl pid cve body" for pid cve body
proof unfold_locales
  fix cl now user d d' r
  assume h: "create_risk_acceptance now user cl pid cve body d = (d', r)" "d' \<noteq> d"
  from h show "attributed now (au_email user) d d'"
    by (auto simp: create_risk_acceptance_def Let_def request_audit_def split: if_splits option.splits sum.splits prod.splits elim!: record_in_tx_signs)
qed

interpretation acceptance_decisions: signing_handler "\<lambda>now user cl. decide_risk_acceptance now user cl pid cve aid body" for pid cve aid body
proof unfold_locales
  fix cl now user d d' r
  assume h: "decide_risk_acceptance now user cl pid cve aid body d = (d', r)" "d' \<noteq> d"
  from h show "attributed now (au_email user) d d'"
    by (auto simp: decide_risk_acceptance_def decide_commit_def Let_def decide_audit_def split: if_splits option.splits sum.splits prod.splits
        elim!: record_in_tx_signs)
qed

interpretation webhook_posts: signing_handler "\<lambda>now user cl. create_webhook env fenc gen now user cl body" for env fenc gen body
proof unfold_locales
  fix cl now user d d' r
  assume i: "inet_ok (client_ip cl)" and h: "create_webhook env fenc gen now user cl body d = (d', r)" "d' \<noteq> d"
  from h show "attributed now (au_email user) d d'"
    by (auto simp: create_webhook_def Let_def webhook_audit_def i split: if_splits sum.splits prod.splits intro!: record_audit_signs)
qed

interpretation webhook_patches: signing_handler "\<lambda>now user cl. update_webhook env fenc now user cl wid body" for env fenc wid body
proof unfold_locales
  fix cl now user d d' r
  assume i: "inet_ok (client_ip cl)" and h: "update_webhook env fenc now user cl wid body d = (d', r)" "d' \<noteq> d"
  from h show "attributed now (au_email user) d d'"
    by (auto simp: update_webhook_def Let_def webhook_audit_def i split: if_splits sum.splits option.splits intro!: record_audit_signs)
qed

interpretation webhook_drops: signing_handler "\<lambda>now user cl. delete_webhook now user cl wid" for wid
proof unfold_locales
  fix cl now user d d' r
  assume i: "inet_ok (client_ip cl)" and h: "delete_webhook now user cl wid d = (d', r)" "d' \<noteq> d"
  from h show "attributed now (au_email user) d d'"
    by (auto simp: delete_webhook_def webhook_audit_def i split: if_splits intro!: record_audit_signs)
qed

lemma import_audit: "db_audit (fst (import_one now s p)) = db_audit (fst s)"
  by (auto simp: import_one_def insert_on_conflict_def insert_product_def Let_def split: prod.splits sum.splits option.splits if_splits dest!: arg_cong [of "enqueue_sync _ _ _ _" _ "db_audit \<circ> fst"])

lemma imports_audit: "db_audit (fst (foldl (import_one now) s ps)) = db_audit (fst s)"
  by (induction ps arbitrary: s) (simp_all add: import_audit)

lemma resync_audit: "db_audit (fst (resync_one now s p)) = db_audit (fst s)"
  by (simp add: resync_one_def split_def)

lemma resyncs_audit: "db_audit (fst (foldl (resync_one now) s ps)) = db_audit (fst s)"
  by (induction ps arbitrary: s) (simp_all add: resync_audit)

lemma histories_audit [simp]: "db_audit (foldl (\<lambda>s f. insert_history now (i f) old new who c s) d fs) = db_audit d"
  by (induction fs arbitrary: d) simp_all

interpretation product_posts: signing_handler "\<lambda>now user cl. create_product now user cl body" for body
proof unfold_locales
  fix cl now user d d' r
  assume h: "create_product now user cl body d = (d', r)" "d' \<noteq> d"
  then show "attributed now (au_email user) d d'"
    by (auto simp: create_product_def insert_product_def Let_def product_audit_def split: if_splits sum.splits prod.splits
        elim!: record_in_tx_signs dest!: arg_cong [of "enqueue_sync _ _ _ _" _ "db_audit \<circ> fst"])
qed

interpretation bulk_imports: signing_handler "\<lambda>now user cl. bulk_import now user cl ps" for ps
proof unfold_locales
  fix cl now user d d' r
  assume i: "inet_ok (client_ip cl)" and h: "bulk_import now user cl ps d = (d', r)" "d' \<noteq> d"
  let ?s = "foldl (import_one now) (d, \<lparr>br_created = [], br_skipped = [], br_errors = []\<rparr>) ps"
  have "db_audit (fst ?s) = db_audit d" by (simp add: imports_audit)
  with h show "attributed now (au_email user) d d'"
    by (auto simp: bulk_import_def Let_def split_def product_audit_def i split: if_splits intro!: record_audit_signs)
qed

interpretation resyncs: signing_handler "resync collate" for collate
proof unfold_locales
  fix cl now user d d' r
  assume i: "inet_ok (client_ip cl)" and h: "resync collate now user cl d = (d', r)" "d' \<noteq> d"
  let ?s = "foldl (resync_one now) (d, 0) (order_by (\<lambda>a b. collate (pr_name a) (pr_name b)) (t_rows (db_products d)))"
  have "db_audit (fst ?s) = db_audit d" by (simp add: resyncs_audit)
  with h show "attributed now (au_email user) d d'"
    by (auto simp: resync_def resync_all_def Let_def split_def product_audit_def i split: if_splits intro!: record_audit_signs)
qed

interpretation product_drops: granting_handler "\<lambda>now user cl. delete_product now user cl pid" for pid
proof unfold_locales
  show "d' = d" if "delete_product now user cl pid d = (d', Inl e)" for now user cl d d' e
    using that by (auto simp: delete_product_def Let_def split: if_splits sum.splits option.splits prod.splits)
  show "attributed now (au_email user) d d'" if "delete_product now user cl pid d = (d', Inr n)" for now user cl d d' n
    using that
    by (auto simp: delete_product_def Let_def delete_audit_def product_audit_def split: if_splits sum.splits option.splits prod.splits elim!: record_in_tx_signs)
qed

interpretation product_syncs: signing_handler "\<lambda>now user cl. manual_sync now user cl pid" for pid
proof unfold_locales
  fix cl now user d d' r
  assume h: "manual_sync now user cl pid d = (d', r)" "d' \<noteq> d"
  have "db_audit (fst (enqueue_sync now pid 10 d)) = db_audit d" by simp
  with h show "attributed now (au_email user) d d'"
    by (auto simp: manual_sync_def Let_def split_def product_audit_def split: option.splits sum.splits elim!: record_in_tx_signs)
qed

lemma config_signs:
  assumes "inet_ok (client_ip cl)" and "update_config dec repr cl up now cred k v w = (w', r)" and "w' \<noteq> w"
  obtains user where "guarded_by [''admin''] dec repr (sw_settings w) now cred = Inr user"
    "attributed now (au_email user) (sw_db w) (sw_db w')"
    "jwt_secret (sw_settings w') = jwt_secret (sw_settings w)" "jwt_algorithm (sw_settings w') = jwt_algorithm (sw_settings w)"
proof -
  obtain user where u: "guarded_by [''admin''] dec repr (sw_settings w) now cred = Inr user"
      "w' = \<lparr>sw_settings = (if k = ''OPENCVE_API_KEY'' then (sw_settings w)\<lparr>opencve_api_key := py_strip v\<rparr> else sw_settings w),
         sw_redis = AList.update (cfg_key k) (py_strip v, None) (sw_redis w),
         sw_db = fst (record_audit now (config_audit cl user k v) (sw_db w))\<rparr>"
    using assms(2,3) by (auto simp: update_config_def split: sum.splits if_splits)
  have "attributed now (au_email user) (sw_db w) (fst (record_audit now (config_audit cl user k v) (sw_db w)))"
    by (rule record_audit_signs) (simp_all add: config_audit_def assms(1))
  then show thesis by (intro that [OF u(1)]) (simp_all add: u(2))
qed

lemma login_signs:
  assumes "inet_ok (client_ip cl)" and "login enc checkpw st now cl email pw d = (d', r)" and "d' \<noteq> d"
  shows "attributed now (py_lower email) d d'"
proof -
  have failed: "attributed now (py_lower email) d (fst (record_audit now (login_failed_audit cl (py_lower email)) d))"
    by (rule record_audit_signs) (simp_all add: login_failed_audit_def assms(1))
  show ?thesis
    using assms(2,3) failed
    by (auto simp: login_def Let_def login_audit_def split: option.splits sum.splits if_splits bool.splits prod.splits
        elim!: record_in_tx_signs dest!: fetchrow_Some)
qed

section \<open>Properties\<close>

text \<open>Who may sign what a request changes.\<close>

definition may_sign :: "'tok api_env \<Rightarrow> settings \<Rightarrow> int \<Rightarrow> (string \<times> 'tok) option \<Rightarrow> write_request \<Rightarrow> string \<Rightarrow> bool" where
  "may_sign env st now cred req who = (case req of
      PostLogin e p \<Rightarrow> who = py_lower e
    | PatchConfig k v \<Rightarrow> (case guarded_by [''admin''] (ae_dec env) (ae_repr env) st now cred of Inl _ \<Rightarrow> False | Inr u \<Rightarrow> who = au_email u)
    | _ \<Rightarrow> (case guarded_by [''analyst''] (ae_dec env) (ae_repr env) st now cred of Inl _ \<Rightarrow> False | Inr u \<Rightarrow> who = au_email u))"

definition same_keys :: "settings \<Rightarrow> settings \<Rightarrow> bool" where
  "same_keys st st' \<longleftrightarrow> jwt_secret st' = jwt_secret st \<and> jwt_algorithm st' = jwt_algorithm st"

lemmas route_signs = acceptance_requests.on_db_signs acceptance_decisions.on_db_signs webhook_posts.on_db_signs webhook_patches.on_db_signs
  webhook_drops.on_db_signs product_posts.on_db_signs bulk_imports.on_db_signs resyncs.on_db_signs product_syncs.on_db_signs

lemma handle_signs:
  assumes "inet_ok (client_ip cl)" and "handle env now cl req user w = (w', r)" and "w' \<noteq> w"
  shows "attributed now (au_email user) (sw_db w) (sw_db w') \<and> sw_settings w' = sw_settings w"
proof (cases req)
  case (PatchFinding pid cve b)
  obtain d rd res where p: "patch_finding (ae_glob env) (ae_redis_up env) (ae_redis_now env) now user cl pid cve b (sw_db w, sw_redis w) = ((d, rd), res)"
    by (metis prod.collapse)
  then have "w' = w\<lparr>sw_db := d, sw_redis := rd\<rparr>" using assms(2) PatchFinding by (simp add: handle_def)
  from finding_patches.invalidating_signs [OF p [unfolded patch_finding_def] this assms(3)] show ?thesis .
next
  case (DropProduct pid)
  obtain d rd res where p: "drop_product (ae_glob env) (ae_redis_up env) (ae_redis_now env) now user cl pid (sw_db w, sw_redis w) = ((d, rd), res)"
    by (metis prod.collapse)
  then have "w' = w\<lparr>sw_db := d, sw_redis := rd\<rparr>" using assms(2) DropProduct by (simp add: handle_def)
  from product_drops.invalidating_signs [OF p [unfolded drop_product_def] this assms(3)] show ?thesis .
next
  case (PostAcceptance pid cve b)
  with assms(2) show ?thesis by (intro acceptance_requests.on_db_signs [OF assms(1) _ assms(3)]) (simp add: handle_def)
qed (insert assms, simp_all add: handle_def, (blast dest: route_signs)+)

lemma analyst_route:
  assumes "\<forall>k v. req \<noteq> PatchConfig k v" and "\<forall>e p. req \<noteq> PostLogin e p"
  shows "serve env now cl cred req w = (case guarded_by [''analyst''] (ae_dec env) (ae_repr env) (sw_settings w) now cred of
      Inl e \<Rightarrow> (w, Inl e) | Inr user \<Rightarrow> handle env now cl req user w)"
proof -
  have "\<not> (\<exists>k v. req = PatchConfig k v)" and "\<not> (\<exists>e p. req = PostLogin e p)" using assms by auto
  then show ?thesis unfolding serve_def by (cases req) (simp_all only: write_request.case, simp_all)
qed

lemma analyst_signs:
  assumes "\<forall>k v. req \<noteq> PatchConfig k v" and "\<forall>e p. req \<noteq> PostLogin e p"
    and "guarded_by [''analyst''] (ae_dec env) (ae_repr env) st now cred = Inr u"
  shows "may_sign env st now cred req (au_email u)"
proof -
  have "\<not> (\<exists>k v. req = PatchConfig k v)" and "\<not> (\<exists>e p. req = PostLogin e p)" using assms by auto
  then show ?thesis unfolding may_sign_def assms(3) by (cases req) (simp_all only: write_request.case sum.case, simp_all)
qed

lemma serve_signs:
  assumes "inet_ok (client_ip cl)" and "serve env now cl cred req w = (w', r)" and "w' \<noteq> w"
  shows "\<exists>who. may_sign env (sw_settings w) now cred req who \<and> attributed now who (sw_db w) (sw_db w') \<and> same_keys (sw_settings w) (sw_settings w')"
proof -
  have analyst: ?thesis if n: "\<forall>k v. req \<noteq> PatchConfig k v" "\<forall>e p. req \<noteq> PostLogin e p"
  proof -
    obtain u where u: "guarded_by [''analyst''] (ae_dec env) (ae_repr env) (sw_settings w) now cred = Inr u"
        "handle env now cl req u w = (w', r)"
      using assms(2,3) unfolding analyst_route [OF n] by (auto split: sum.splits)
    show ?thesis using analyst_signs [OF n u(1)] handle_signs [OF assms(1) u(2) assms(3)] by (auto simp: same_keys_def)
  qed
  show ?thesis
  proof (cases req)
    case (PatchConfig k v)
    obtain r' where c: "update_config (ae_dec env) (ae_repr env) cl (ae_redis_up env) now cred k v w = (w', r')"
      using assms(2) PatchConfig by (auto simp: serve_def split: prod.splits)
    obtain u where "guarded_by [''admin''] (ae_dec env) (ae_repr env) (sw_settings w) now cred = Inr u"
        "attributed now (au_email u) (sw_db w) (sw_db w')" "same_keys (sw_settings w) (sw_settings w')"
      using config_signs [OF assms(1) c assms(3)] unfolding same_keys_def by metis
    then show ?thesis by (auto simp: may_sign_def PatchConfig)
  next
    case (PostLogin e p)
    obtain d res where l: "login (ae_enc env) (ae_checkpw env) (sw_settings w) now cl e p (sw_db w) = (d, res)"
      by (metis prod.collapse)
    then have w': "w' = w\<lparr>sw_db := d\<rparr>" using assms(2) PostLogin by (simp add: serve_def on_db_def)
    then have "d \<noteq> sw_db w" using assms(3) by auto
    then show ?thesis using login_signs [OF assms(1) l] by (auto simp: may_sign_def PostLogin w' same_keys_def)
  qed (rule analyst; simp)+
qed

lemma same_keys_guard:
  assumes "same_keys st st'"
  shows "guarded_by roles dec repr st' now cred = guarded_by roles dec repr st now cred"
proof -
  have k: "jwt_secret st' = jwt_secret st" "jwt_algorithm st' = jwt_algorithm st" using assms by (simp_all add: same_keys_def)
  show ?thesis unfolding guarded_by_def get_current_user_def k ..
qed

text \<open>An entry of the audit log that a request explains.\<close>

definition explains :: "'tok api_env \<Rightarrow> settings \<Rightarrow> audit_row \<Rightarrow> 'tok arrival \<Rightarrow> bool" where
  "explains env st row a \<longleftrightarrow> (case a of (now, cl, cred, req) \<Rightarrow> al_ts row = now \<and>
     (\<exists>who. may_sign env st now cred req who \<and> al_actor_email row = Some (str_or (Some who) ''anonymous'')))"

lemma same_keys_explains: "same_keys st st' \<Longrightarrow> explains env st' = explains env st"
  by (simp add: fun_eq_iff explains_def may_sign_def same_keys_guard split: write_request.split)


text \<open>So a request without a valid token changes nothing.\<close>

lemma strangers_change_nothing:
  assumes "inet_ok (client_ip cl)" and "\<forall>e p. req \<noteq> PostLogin e p" and "isl (get_current_user (ae_dec env) (ae_repr env) (sw_settings w) now cred)"
  shows "fst (serve env now cl cred req w) = w"
proof (rule ccontr)
  assume "fst (serve env now cl cred req w) \<noteq> w"
  then obtain who where "may_sign env (sw_settings w) now cred req who"
    using serve_signs [OF assms(1), of env now cred req w] by (metis prod.collapse)
  then show False using assms(2,3) by (auto simp: may_sign_def guarded_by_def isl_def split: write_request.splits)
qed

text \<open>The hypothesis is needed: the audit of a webhook route is written after the change and its failure is swallowed, so a client without an IP
  address (a host name, as a proxy or a test client gives) removes a webhook and leaves no entry.\<close>

lemma nameless_client_leaves_no_trace:
  "t_rows (db_webhooks hook_db) \<noteq> [] \<and>
   (let d = fst (delete_webhook 1 ann \<lparr>client_ip = Some ''testclient'', user_agent = None\<rparr> 1 hook_db) in
     t_rows (db_webhooks d) = [] \<and> t_rows (db_audit d) = t_rows (db_audit hook_db))"
  by (simp only: Let_def) code_simp

section \<open>Witness\<close>

definition demo_api :: "(claims \<times> string \<times> string) api_env" where
  "demo_api = \<lparr>ae_enc = plain_enc, ae_dec = plain_dec, ae_repr = (\<lambda>_. []), ae_checkpw = plain_check, ae_glob = star_glob, ae_redis_up = True,
     ae_redis_now = 0, ae_webhooks = dead_env, ae_allowlist = None, ae_fenc = safe_fenc, ae_generated = ''g'', ae_collate = (\<lambda>_ _. True)\<rparr>"

definition analyst_token :: "claims \<times> string \<times> string" where
  "analyst_token = create_access_token plain_enc 0 1 ''ann@corp.io'' ''analyst'' (jwt_secret default_settings) (jwt_algorithm default_settings) 60"

text \<open>An analyst plans a finding; a stranger tries to delete the product.\<close>

definition demo_arrivals :: "(claims \<times> string \<times> string) arrival list" where
  "demo_arrivals =
     [(1, local_client, Some (''Bearer'', analyst_token), PatchFinding 3 ''CVE-2021-44228'' (no_update\<lparr>bu_status := Some ''planned''\<rparr>)),
      (2, local_client, None, DropProduct 3)]"

definition demo_world :: system_world where
  "demo_world = \<lparr>sw_settings = default_settings, sw_redis = [], sw_db = sample_db\<rparr>"


end
