(* ===== verification/Prometheus.thy ===== *)
theory Prometheus
  imports Http_Edge Circuit_Breaker Py_Json
begin

text \<open>
  \<open>app/core/prometheus.py\<close> and the \<open>/metrics\<close> route of \<open>app/api/routers/health.py\<close>. The collectors belong to
  \<open>prometheus_client\<close>, so the registry is the sequence of the updates that reached them, each with its label values; what a series
  shows is read off it: a counter its increments, a gauge the value set last. Also the JSON snapshot of the counters in \<open>Metrics\<close>.
\<close>

section \<open>Collectors\<close>

datatype collector =
    HTTP_REQUESTS
  | HTTP_DURATION
  | PROVIDER_REQUESTS
  | PROVIDER_ERRORS
  | PROVIDER_RATE_LIMITED
  | PROVIDER_CIRCUIT_OPENS
  | PROVIDER_LATENCY
  | CIRCUIT_STATE
  | EGRESS_BLOCKED

datatype collector_kind = Counter | Histogram "rat list" | Gauge

fun kind_of :: "collector \<Rightarrow> collector_kind" where
  "kind_of HTTP_DURATION = Histogram [5/1000, 1/100, 25/1000, 5/100, 1/10, 25/100, 5/10, 1, 25/10, 5, 10]"
| "kind_of PROVIDER_LATENCY = Histogram [5/100, 1/10, 25/100, 5/10, 1, 25/10, 5, 10, 30]"
| "kind_of CIRCUIT_STATE = Gauge"
| "kind_of _ = Counter"

fun labelnames :: "collector \<Rightarrow> string list" where
  "labelnames HTTP_REQUESTS = [''method'', ''path'', ''status'']"
| "labelnames HTTP_DURATION = [''method'', ''path'']"
| "labelnames EGRESS_BLOCKED = [''provider'', ''reason'']"
| "labelnames _ = [''provider'']"

datatype collector_update =
    Inc collector "string list"
  | Observe collector "string list" rat
  | SetTo collector "string list" int

type_synonym prom = "collector_update list"

text \<open>What the client library accepts: a value for every label, and the operation of the collector's kind.\<close>

fun accepted :: "collector_update \<Rightarrow> bool" where
  "accepted (Inc c ls) \<longleftrightarrow> kind_of c = Counter \<and> length ls = length (labelnames c)"
| "accepted (Observe c ls _) \<longleftrightarrow> (case kind_of c of Histogram bs \<Rightarrow> length ls = length (labelnames c) | _ \<Rightarrow> False)"
| "accepted (SetTo c ls _) \<longleftrightarrow> kind_of c = Gauge \<and> length ls = length (labelnames c)"

fun collector_of :: "collector_update \<Rightarrow> collector" where
  "collector_of (Inc c _) = c"
| "collector_of (Observe c _ _) = c"
| "collector_of (SetTo c _ _) = c"

section \<open>Recording\<close>

definition prom_record_http :: "string \<Rightarrow> string \<Rightarrow> int \<Rightarrow> rat \<Rightarrow> prom \<Rightarrow> prom" where
  "prom_record_http meth path status duration r = r @ [Inc HTTP_REQUESTS [meth, path, py_str_int status], Observe HTTP_DURATION [meth, path] duration]"

definition record_provider_request :: "string \<Rightarrow> rat \<Rightarrow> prom \<Rightarrow> prom" where
  "record_provider_request p duration r = r @ [Inc PROVIDER_REQUESTS [p], Observe PROVIDER_LATENCY [p] duration]"

definition record_provider_error :: "string \<Rightarrow> prom \<Rightarrow> prom" where
  "record_provider_error p r = r @ [Inc PROVIDER_ERRORS [p]]"

definition record_provider_rate_limited :: "string \<Rightarrow> prom \<Rightarrow> prom" where
  "record_provider_rate_limited p r = r @ [Inc PROVIDER_RATE_LIMITED [p]]"

definition record_provider_circuit_open :: "string \<Rightarrow> prom \<Rightarrow> prom" where
  "record_provider_circuit_open p r = r @ [Inc PROVIDER_CIRCUIT_OPENS [p]]"

definition prom_record_egress_block :: "string \<Rightarrow> string \<Rightarrow> prom \<Rightarrow> prom" where
  "prom_record_egress_block p rule r = r @ [Inc EGRESS_BLOCKED [p, rule]]"

text \<open>The state by its name, \<open>_STATE_VALUES.get(state, 0)\<close>.\<close>

fun state_value :: "circuit_state \<Rightarrow> string" where
  "state_value CLOSED = ''closed''"
| "state_value OPEN = ''open''"
| "state_value HALF_OPEN = ''half_open''"

definition STATE_VALUES :: "(string \<times> int) list" where
  "STATE_VALUES = [(''closed'', 0), (''half_open'', 1), (''open'', 2)]"

definition update_circuit_state :: "string \<Rightarrow> string \<Rightarrow> prom \<Rightarrow> prom" where
  "update_circuit_state p st r = r @ [SetTo CIRCUIT_STATE [p] (case map_of STATE_VALUES st of Some v \<Rightarrow> v | None \<Rightarrow> 0)]"

fun sync_breakers :: "(string \<times> breaker) list \<Rightarrow> prom \<Rightarrow> prom" where
  "sync_breakers [] r = r"
| "sync_breakers ((n, cb) # bs) r = sync_breakers bs (update_circuit_state n (state_value (cstate cb)) r)"

text \<open>The route: \<open>getattr(app.state, ''circuit_breakers'', None)\<close>, and what it renders.\<close>

definition prometheus_metrics :: "(string \<times> breaker) list option \<Rightarrow> prom \<Rightarrow> prom" where
  "prometheus_metrics breakers r = (case breakers of None \<Rightarrow> r | Some bs \<Rightarrow> if bs = [] then r else sync_breakers bs r)"

section \<open>The counters of the process as JSON\<close>

text \<open>\<open>MetricsRegistry.snapshot\<close> with its parts, and the \<open>/api/health/metrics\<close> route, which has no registry before start-up.\<close>

record http_snapshot =
  hs_requests_total :: int
  hs_errors_5xx_total :: int
  hs_p50 :: "rat option"
  hs_p95 :: "rat option"
  hs_p99 :: "rat option"

definition http_snapshot_of :: "http_metrics \<Rightarrow> http_snapshot" where
  "http_snapshot_of m = \<lparr>hs_requests_total = hm_requests_total m, hs_errors_5xx_total = hm_errors_5xx_total m,
     hs_p50 = percentile (hm_latencies m) (50/100), hs_p95 = percentile (hm_latencies m) (95/100), hs_p99 = percentile (hm_latencies m) (99/100)\<rparr>"

record registry_snapshot =
  rs_http :: http_snapshot
  rs_providers :: "(string \<times> provider_snapshot) list"
  rs_egress_blocks :: "((string \<times> string) \<times> int) list"

definition registry_snapshot_of :: "metrics_registry \<Rightarrow> registry_snapshot" where
  "registry_snapshot_of r = \<lparr>rs_http = http_snapshot_of (mr_http r), rs_providers = map (\<lambda>(k, v). (k, provider_snapshot_of v)) (mr_providers r),
     rs_egress_blocks = egress_blocks r\<rparr>"

definition health_metrics :: "metrics_registry option \<Rightarrow> string + registry_snapshot" where
  "health_metrics r = (case r of None \<Rightarrow> Inl ''metrics not available'' | Some m \<Rightarrow> Inr (registry_snapshot_of m))"

section \<open>Series\<close>

definition counter_value :: "collector \<Rightarrow> string list \<Rightarrow> prom \<Rightarrow> nat" where
  "counter_value c ls r = length (filter (\<lambda>u. u = Inc c ls) r)"

fun gauge_value :: "collector \<Rightarrow> string list \<Rightarrow> prom \<Rightarrow> int option" where
  "gauge_value c ls [] = None"
| "gauge_value c ls (u # r) = (case gauge_value c ls r of Some v \<Rightarrow> Some v
    | None \<Rightarrow> (case u of SetTo d ms v \<Rightarrow> if d = c \<and> ms = ls then Some v else None | _ \<Rightarrow> None))"

text \<open>The samples a histogram counts under each of its bounds, and all of them.\<close>

fun observed :: "collector \<Rightarrow> string list \<Rightarrow> prom \<Rightarrow> rat list" where
  "observed c ls [] = []"
| "observed c ls (u # r) = (case u of Observe d ms x \<Rightarrow> if d = c \<and> ms = ls then x # observed c ls r else observed c ls r | _ \<Rightarrow> observed c ls r)"

section \<open>The process\<close>

text \<open>What reaches the collectors while the process runs: the observations of the middleware, and the scrapes.\<close>

datatype prom_event = Responded string string int rat | Scraped "(string \<times> breaker) list option"

fun prom_step :: "prom \<Rightarrow> prom_event \<Rightarrow> prom" where
  "prom_step r (Responded meth path status duration) = prom_record_http meth path status duration r"
| "prom_step r (Scraped breakers) = prometheus_metrics breakers r"

definition prom_run :: "prom_event list \<Rightarrow> prom" where
  "prom_run es = foldl prom_step [] es"

section \<open>Lemmas\<close>

lemma gauge_append: "gauge_value c ls (r @ r') = (case gauge_value c ls r' of Some v \<Rightarrow> Some v | None \<Rightarrow> gauge_value c ls r)"
  by (induction r) (auto split: option.splits)

abbreviation level :: "breaker \<Rightarrow> int" where
  "level cb \<equiv> (case cstate cb of CLOSED \<Rightarrow> 0 | HALF_OPEN \<Rightarrow> 1 | OPEN \<Rightarrow> 2)"

lemma counter_simps [simp]:
  "counter_value c ls [] = 0" "counter_value c ls (u # r) = (if u = Inc c ls then Suc (counter_value c ls r) else counter_value c ls r)"
  by (simp_all add: counter_value_def)

lemma sync_breakers_updates:
  "sync_breakers bs r = r @ map (\<lambda>b. SetTo CIRCUIT_STATE [fst b] (level (snd b))) bs"
proof (induction bs arbitrary: r)
  case (Cons b bs)
  obtain n cb where b: "b = (n, cb)" by (cases b)
  show ?case by (cases "cstate cb") (simp_all add: b Cons.IH update_circuit_state_def STATE_VALUES_def)
qed simp

lemma scrape_updates:
  "prometheus_metrics (Some bs) r = r @ map (\<lambda>b. SetTo CIRCUIT_STATE [fst b] (level (snd b))) bs"
  by (simp add: prometheus_metrics_def sync_breakers_updates)

lemma gauge_of_breakers:
  "distinct (map fst bs) \<Longrightarrow> gauge_value CIRCUIT_STATE [n] (map (\<lambda>b. SetTo CIRCUIT_STATE [fst b] (f (snd b))) bs) = map_option f (map_of bs n)"
proof (induction bs)
  case (Cons b bs)
  show ?case
  proof (cases "fst b = n")
    case True
    then have "map_of bs n = None" using Cons.prems by (auto simp: map_of_eq_None_iff)
    then show ?thesis using Cons True by (cases b) simp
  next
    case False
    then show ?thesis using Cons by (cases b) (simp split: option.split)
  qed
qed simp

lemma step_appends:
  "\<exists>us. prom_step r e = r @ us \<and> (\<forall>u\<in>set us. accepted u \<and> collector_of u \<in> {HTTP_REQUESTS, HTTP_DURATION, CIRCUIT_STATE})"
proof (cases e)
  case (Responded meth path status duration)
  then show ?thesis
    by (intro exI [of _ "[Inc HTTP_REQUESTS [meth, path, py_str_int status], Observe HTTP_DURATION [meth, path] duration]"])
      (simp add: prom_record_http_def)
next
  case (Scraped breakers)
  show ?thesis
  proof (cases breakers)
    case None
    then show ?thesis by (intro exI [of _ "[]"]) (simp add: Scraped prometheus_metrics_def)
  next
    case (Some bs)
    show ?thesis
      by (intro exI [of _ "map (\<lambda>b. SetTo CIRCUIT_STATE [fst b] (level (snd b))) bs"]) (simp add: Scraped Some scrape_updates)
  qed
qed

lemma run_accepted: "\<forall>u\<in>set (prom_run es). accepted u \<and> collector_of u \<in> {HTTP_REQUESTS, HTTP_DURATION, CIRCUIT_STATE}"
proof (induction es rule: rev_induct)
  case Nil
  then show ?case by (simp add: prom_run_def)
next
  case (snoc e es)
  obtain us where us: "prom_run (es @ [e]) = prom_run es @ us" "\<forall>u\<in>set us. accepted u \<and> collector_of u \<in> {HTTP_REQUESTS, HTTP_DURATION, CIRCUIT_STATE}"
    using step_appends [of "prom_run es" e] by (auto simp: prom_run_def)
  show ?case unfolding us(1) set_append using us(2) snoc by blast
qed

lemma counter_append: "counter_value c ls (r @ r') = counter_value c ls r + counter_value c ls r'"
  by (simp add: counter_value_def)

lemma observed_append: "observed c ls (r @ r') = observed c ls r @ observed c ls r'"
  by (induction r) (auto split: collector_update.split)

text \<open>The responses a series counts, and their durations.\<close>

fun counted :: "string list \<Rightarrow> prom_event \<Rightarrow> bool" where
  "counted ls (Responded meth path status _) \<longleftrightarrow> ls = [meth, path, py_str_int status]"
| "counted ls (Scraped _) \<longleftrightarrow> False"

fun timed :: "string list \<Rightarrow> prom_event list \<Rightarrow> rat list" where
  "timed ls [] = []"
| "timed ls (Responded meth path _ duration # es) = (if ls = [meth, path] then duration # timed ls es else timed ls es)"
| "timed ls (Scraped _ # es) = timed ls es"

lemma timed_append: "timed ls (es @ fs) = timed ls es @ timed ls fs"
  by (induction ls es rule: timed.induct) simp_all

lemma gauges_count: "counter_value c ls (map (\<lambda>b. SetTo d (g b) (h b)) bs) = 0" "observed c ls (map (\<lambda>b. SetTo d (g b) (h b)) bs) = []"
  by (induction bs) simp_all

lemma scrape_counts: "counter_value c ls (prometheus_metrics b r) = counter_value c ls r" "observed c ls (prometheus_metrics b r) = observed c ls r"
  by (cases b; simp add: prometheus_metrics_def sync_breakers_updates counter_append observed_append gauges_count)+

lemma run_counts:
  "counter_value HTTP_REQUESTS ls (prom_run es) = length (filter (counted ls) es)"
  "observed HTTP_DURATION ls (prom_run es) = timed ls es"
proof (induction es rule: rev_induct)
  case (snoc e es)
  {
    case 1
    then show ?case using snoc by (cases e) (auto simp: prom_run_def scrape_counts prom_record_http_def counter_append)
  next
    case 2
    then show ?case using snoc by (cases e) (auto simp: prom_run_def scrape_counts prom_record_http_def observed_append timed_append)
  }
qed (simp_all add: prom_run_def)

section \<open>Properties\<close>



end
