(* ===== verification/Election_Loop.thy ===== *)
theory Election_Loop
  imports Leader
begin

text \<open>
  The refresh task of \<open>app/core/leader.py\<close>: a process sleeps and refreshes until it is stopped, amid whatever the other replicas do. One
  round of the loop is the events of the others, with the time that passes, and then the own refresh.
\<close>

section \<open>The task\<close>

record refresher =
  rf_elector :: elector
  rf_task :: bool

datatype task_event = Start | Wake rat delivery | Stop

text \<open>\<open>start_background_refresh\<close>, one turn of \<open>_loop\<close> after its sleep, and \<open>stop_background_refresh\<close>.\<close>

fun refresher_step :: "refresher \<times> redis \<Rightarrow> task_event \<Rightarrow> refresher \<times> redis" where
  "refresher_step (p, r) Start = (p\<lparr>rf_task := True\<rparr>, r)"
| "refresher_step (p, r) (Wake now dl) =
     (if \<not> rf_task p then (p, r)
      else case leader_refresh now dl (rf_elector p) r of (e, r', _) \<Rightarrow> (p\<lparr>rf_elector := e\<rparr>, r'))"
| "refresher_step (p, r) Stop = (p\<lparr>rf_task := False\<rparr>, r)"

lemma stopped_stays: "\<not> rf_task p \<Longrightarrow> Start \<notin> set es \<Longrightarrow> foldl refresher_step (p, r) es = (p, r)"
proof (induction es)
  case (Cons e es)
  have p: "p\<lparr>rf_task := False\<rparr> = p" using Cons.prems(1) by (cases p) simp
  show ?case using Cons by (cases e) (simp_all add: p)
qed simp

text \<open>A turn of the loop is a refresh of the cluster.\<close>

lemma wake_is_refresh:
  assumes "rf_task p" and "refresher_step (p, cl_redis s) (Wake (cl_now s) dl) = (p', r')" and "rf_elector p = elector_of s n"
  shows "cl_redis (cluster_step s (Refresh n dl)) = r' \<and> elector_of (cluster_step s (Refresh n dl)) n = rf_elector p'"
proof -
  obtain e r'' b where l: "leader_refresh (cl_now s) dl (elector_of s n) (cl_redis s) = (e, r'', b)"
    by (cases "leader_refresh (cl_now s) dl (elector_of s n) (cl_redis s)") auto
  have "el_node e = n"
    using l by (cases dl) (auto simp: leader_defs Let_def split: if_splits option.splits prod.splits)
  then show ?thesis using assms l by (auto simp: put_elector_def elector_of_def)
qed

section \<open>The rounds\<close>

definition round_events :: "string \<Rightarrow> cluster_event list \<times> delivery \<Rightarrow> cluster_event list" where
  "round_events a rd = fst rd @ [Refresh a (snd rd)]"

definition loop_events :: "string \<Rightarrow> (cluster_event list \<times> delivery) list \<Rightarrow> cluster_event list" where
  "loop_events a rds = concat (map (round_events a) rds)"

text \<open>What others do: anything but the calls of \<open>a\<close>, and time that passes.\<close>

definition of_others :: "string \<Rightarrow> cluster_event \<Rightarrow> bool" where
  "of_others a e = (case e of Elapse d \<Rightarrow> True | Refresh n _ \<Rightarrow> n \<noteq> a | Release n _ \<Rightarrow> n \<noteq> a)"

fun elapsed :: "cluster_event list \<Rightarrow> rat" where
  "elapsed [] = 0"
| "elapsed (Elapse d # es) = max 0 d + elapsed es"
| "elapsed (_ # es) = elapsed es"

text \<open>A round that sleeps the interval, and is woken less than half the time to live after the last one.\<close>

definition punctual :: "string \<Rightarrow> cluster_event list \<times> delivery \<Rightarrow> bool" where
  "punctual a rd \<longleftrightarrow> list_all (of_others a) (fst rd) \<and> of_int REFRESH_INTERVAL_SECONDS \<le> elapsed (fst rd) \<and> 2 * elapsed (fst rd) < of_int TTL_SECONDS"

text \<open>No two calls in a row that do not arrive.\<close>

fun no_two_lost :: "delivery list \<Rightarrow> bool" where
  "no_two_lost (dl # dl' # dls) \<longleftrightarrow> (dl \<noteq> Unsent \<or> dl' \<noteq> Unsent) \<and> no_two_lost (dl' # dls)"
| "no_two_lost _ \<longleftrightarrow> True"

text \<open>The node leads alone, and the lock is its own for so long.\<close>

definition lease :: "string \<Rightarrow> rat \<Rightarrow> cluster \<Rightarrow> bool" where
  "lease a left s \<longleftrightarrow> (\<forall>n. cl_leads s n \<longleftrightarrow> n = a) \<and> (\<forall>t < cl_now s + left. r_get t (cl_redis s) LOCK_KEY = Some a)"

section \<open>Lemmas\<close>

lemma elapsed_nonneg [simp]: "0 \<le> elapsed es"
  by (induction es rule: elapsed.induct) simp_all

lemma lease_holder: "lease a left s \<Longrightarrow> 0 < left \<Longrightarrow> holder s = Some a"
  by (simp add: lease_def)

lemma lease_others: "lease a left s \<Longrightarrow> elapsed [e] < left \<Longrightarrow> of_others a e \<Longrightarrow> lease a (left - elapsed [e]) (cluster_step s e)"
proof -
  assume l: "lease a left s" "elapsed [e] < left" "of_others a e"
  have "0 < left" using l(2) elapsed_nonneg [of "[e]"] by linarith
  from lease_holder [OF l(1) this] show ?thesis
    using l by (cases e) (auto simp: lease_def of_others_def leader_defs Let_def algebra_simps split: option.splits delivery.splits if_splits)
qed

lemma lease_run: "lease a left s \<Longrightarrow> elapsed es < left \<Longrightarrow> list_all (of_others a) es \<Longrightarrow> lease a (left - elapsed es) (foldl cluster_step s es)"
proof (induction es arbitrary: s left)
  case (Cons e es)
  have sum: "elapsed (e # es) = elapsed [e] + elapsed es" by (cases e) simp_all
  have "lease a (left - elapsed [e]) (cluster_step s e)"
  proof (rule lease_others [OF Cons.prems(1)])
    show "elapsed [e] < left" using Cons.prems(2) elapsed_nonneg [of es] unfolding sum by linarith
    show "of_others a e" using Cons.prems(3) by simp
  qed
  from Cons.IH [OF this] show ?case using Cons.prems sum by (simp add: algebra_simps)
qed simp

lemma lease_lost: "lease a left s \<Longrightarrow> lease a left (cluster_step s (Refresh a Unsent))"
  by (auto simp: lease_def leader_defs Let_def)

lemma lease_renewed: "lease a left s \<Longrightarrow> 0 < left \<Longrightarrow> dl \<noteq> Unsent \<Longrightarrow> lease a 30 (cluster_step s (Refresh a dl))"
  by (cases dl) (auto simp: lease_def leader_defs Let_def)

lemma rounds_keep:
  assumes "lease a left s" and "15 < left" and "left = 30 \<or> (case rds of [] \<Rightarrow> True | rd # _ \<Rightarrow> snd rd \<noteq> Unsent)"
    and "list_all (punctual a) rds" and "no_two_lost (map snd rds)"
  shows "\<exists>left'. 15 < left' \<and> lease a left' (foldl cluster_step s (loop_events a rds))"
  using assms
proof (induction rds arbitrary: s left)
  case Nil
  then show ?case by (auto simp: loop_events_def)
next
  case (Cons rd rds)
  obtain es dl where rd: "rd = (es, dl)" by (cases rd)
  have es: "list_all (of_others a) es" "elapsed es < 15"
    using Cons.prems(4) by (simp_all add: rd punctual_def TTL_SECONDS_def)
  let ?s = "foldl cluster_step s es"
  have l: "lease a (left - elapsed es) ?s" using Cons.prems(1,2) es by (intro lease_run) simp_all
  have pos: "0 < left - elapsed es" using Cons.prems(2) es(2) by linarith
  have run: "foldl cluster_step s (loop_events a (rd # rds)) = foldl cluster_step (cluster_step ?s (Refresh a dl)) (loop_events a rds)"
    by (simp add: loop_events_def round_events_def rd)
  have rest: "list_all (punctual a) rds" "no_two_lost (map snd rds)" using Cons.prems(4,5) by (simp, cases rds) simp_all
  show ?case
  proof (cases "dl = Unsent")
    case False
    from Cons.IH [OF lease_renewed [OF l pos False] _ _ rest] show ?thesis by (simp add: run)
  next
    case True
    then have left: "left = 30" and next_dl: "case rds of [] \<Rightarrow> True | rd # _ \<Rightarrow> snd rd \<noteq> Unsent"
      using Cons.prems(3,5) by (simp_all add: rd) (cases rds, simp_all)
    have "15 < left - elapsed es" using left es(2) by linarith
    from Cons.IH [OF lease_lost [OF l] this disjI2 [OF next_dl] rest] show ?thesis by (simp add: run True)
  qed
qed

section \<open>Properties\<close>

text \<open>C36: A leader whose loop runs goes on to lead: as long as a round takes at least the interval and less than half the
  time to live, and of two calls in a row one arrives (answered or not), the node leads and holds the lock at
  every moment, whatever the other replicas try in between, and none of them ever leads beside it.\<close>

theorem refreshing_leader_stays:
  assumes "lease a 30 s" and "list_all (punctual a) rds" and "no_two_lost (map snd rds)"
    and "list_all (of_others a) es" and "elapsed es < 15"
  shows "(cl_leads (foldl cluster_step s (loop_events a rds @ es)) n \<longleftrightarrow> n = a) \<and> holder (foldl cluster_step s (loop_events a rds @ es)) = Some a"
proof -
  obtain left where l: "15 < left" "lease a left (foldl cluster_step s (loop_events a rds))"
    using rounds_keep [OF assms(1) _ _ assms(2,3)] by auto
  have "lease a (left - elapsed es) (foldl cluster_step s (loop_events a rds @ es))"
    using lease_run [OF l(2) _ assms(4)] l(1) assms(5) by simp
  moreover have "0 < left - elapsed es" using l(1) assms(5) by linarith
  ultimately show ?thesis using lease_holder by (simp add: lease_def)
qed

theorem refreshing_leader_stays_witness:
  "holder (foldl cluster_step (cluster_step start_cluster (Refresh ''a'' Answered))
     (loop_events ''a'' [([Elapse 10, Refresh ''b'' Answered], Unsent), ([Elapse 11], Unanswered), ([Refresh ''b'' Unsent, Elapse 10], Answered)] @ [Elapse 9])) = Some ''a''"
proof -
  let ?s = "cluster_step start_cluster (Refresh ''a'' Answered)"
  have "lease ''a'' 30 ?s" by (simp add: lease_def start_cluster_def leader_defs r_get_def)
  from refreshing_leader_stays [OF this, of "[([Elapse 10, Refresh ''b'' Answered], Unsent), ([Elapse 11], Unanswered),
      ([Refresh ''b'' Unsent, Elapse 10], Answered)]" "[Elapse 9]"] show ?thesis
    by (simp add: punctual_def of_others_def REFRESH_INTERVAL_SECONDS_def TTL_SECONDS_def)
qed

end
