(* ===== verification/Migrations.thy ===== *)
theory Migrations
  imports Py_Result
begin

text \<open>
  The migrations in \<open>alembic/versions\<close> as scripts over a catalogue: tables with their columns, indexes, unique and foreign keys,
  sequences, roles and privileges. A script runs in one transaction, so a statement that fails leaves the catalogue as it was. Types,
  defaults and CHECK clauses of columns are those of the rows in \<open>Database\<close>.
\<close>

section \<open>The catalogue\<close>

text \<open>The tables and roles by their names; a sequence belongs to a table.\<close>

datatype table_name =
    T_cves
  | T_products
  | T_cpe_resolutions
  | T_findings
  | T_findings_history
  | T_sync_jobs
  | T_sync_state
  | T_subscriptions_opencve
  | T_epss_history
  | T_audit_log
  | T_webhooks
  | T_webhook_deliveries
  | T_risk_acceptances
  | T_exec_snapshots
  | T_users

datatype object_name = Tab table_name | Seq table_name

datatype role_name = Sync_worker | Query_engine

datatype privilege = PSelect | PInsert | PUpdate | PDelete | PUsage

datatype key_kind =
    Unique "string list"
  | Foreign string table_name string bool \<comment> \<open>column, table and column it refers to, ON DELETE CASCADE\<close>

record db_schema =
  cg_tables :: "(table_name \<times> string list) list"
  cg_keys :: "(string \<times> table_name \<times> key_kind) list"
  cg_indexes :: "(string \<times> table_name \<times> string list) list"
  cg_roles :: "role_name list"
  cg_public :: bool
  cg_usage :: "role_name list"
  cg_grants :: "(role_name \<times> object_name \<times> privilege) list"
  cg_table_defaults :: "(role_name \<times> privilege) list"
  cg_sequence_defaults :: "(role_name \<times> privilege) list"

definition empty_catalog :: db_schema where
  "empty_catalog = \<lparr>cg_tables = [], cg_keys = [], cg_indexes = [], cg_roles = [], cg_public = True, cg_usage = [],
     cg_grants = [], cg_table_defaults = [], cg_sequence_defaults = []\<rparr>"

definition columns :: "db_schema \<Rightarrow> table_name \<Rightarrow> string list option" where
  "columns c t = map_of (cg_tables c) t"

definition has_columns :: "db_schema \<Rightarrow> table_name \<Rightarrow> string list \<Rightarrow> bool" where
  "has_columns c t cs = (case columns c t of None \<Rightarrow> False | Some ds \<Rightarrow> list_all (List.member ds) cs)"

definition key_fits :: "db_schema \<Rightarrow> table_name \<Rightarrow> key_kind \<Rightarrow> bool" where
  "key_fits c t k = (case k of Unique cs \<Rightarrow> has_columns c t cs | Foreign col t' col' _ \<Rightarrow> has_columns c t [col] \<and> has_columns c t' [col'])"

definition objects :: "db_schema \<Rightarrow> object_name list" where
  "objects c = concat (map (\<lambda>(t, _). [Tab t, Seq t]) (cg_tables c))"

section \<open>Statements\<close>

datatype ddl =
    CreateTable table_name "string list" "(string \<times> key_kind) list"
  | DropTable table_name
  | AddColumns table_name "string list"
  | DropColumns table_name "string list"
  | CreateIndex string table_name "string list"
  | DropIndex string
  | AddKey table_name string key_kind
  | DropKey table_name string
  | CreateRole role_name
  | GrantOn "privilege list" "object_name list" "role_name list"
  | GrantTables "privilege list" "role_name list"
  | GrantSequences "privilege list" "role_name list"
  | DefaultTables "privilege list" "role_name list"
  | DefaultSequences "privilege list" "role_name list"
  | SchemaUsage "role_name list"
  | SchemaPublic bool
  | SeedRows table_name

definition undefined_object :: "string \<Rightarrow> py_exn" where
  "undefined_object what = OtherError (what @ '' does not exist'')"

text \<open>Granting what is granted changes nothing.\<close>

definition grant :: "privilege list \<Rightarrow> object_name list \<Rightarrow> role_name list \<Rightarrow> db_schema \<Rightarrow> db_schema result" where
  "grant ps obs rs c =
     (if \<not> list_all (List.member (cg_roles c)) rs then Inl (undefined_object ''role'')
      else if \<not> list_all (List.member (objects c)) obs then Inl (undefined_object ''relation'')
      else Inr (c\<lparr>cg_grants := cg_grants c @ filter (\<lambda>g. g \<notin> set (cg_grants c)) (List.product rs (List.product obs ps))\<rparr>))"

definition add_defaults :: "privilege list \<Rightarrow> role_name list \<Rightarrow> (role_name \<times> privilege) list \<Rightarrow> (role_name \<times> privilege) list" where
  "add_defaults ps rs ds = ds @ filter (\<lambda>g. g \<notin> set ds) (List.product rs ps)"

text \<open>Every table has a serial \<open>id\<close>, so a sequence; both get the default privileges in force.\<close>

definition create_table :: "table_name \<Rightarrow> string list \<Rightarrow> (string \<times> key_kind) list \<Rightarrow> db_schema \<Rightarrow> db_schema result" where
  "create_table t cols ks c =
     (if columns c t \<noteq> None then Inr c
      else (let c' = c\<lparr>cg_tables := cg_tables c @ [(t, ''id'' # cols)]\<rparr> in
        if \<not> list_all (\<lambda>(_, k). key_fits c' t k) ks then Inl (undefined_object ''column'')
        else Inr (c'\<lparr>cg_keys := cg_keys c @ map (\<lambda>(n, k). (n, t, k)) ks,
          cg_grants := cg_grants c @ map (\<lambda>(r, p). (r, Tab t, p)) (cg_table_defaults c) @
            map (\<lambda>(r, p). (r, Seq t, p)) (cg_sequence_defaults c)\<rparr>)))"

definition refers_to :: "table_name \<Rightarrow> string \<times> table_name \<times> key_kind \<Rightarrow> bool" where
  "refers_to t x = (case x of (_, t', Foreign _ r _ _) \<Rightarrow> r = t \<and> t' \<noteq> t | _ \<Rightarrow> False)"

definition drop_table :: "table_name \<Rightarrow> db_schema \<Rightarrow> db_schema result" where
  "drop_table t c =
     (if columns c t = None then Inr c
      else if list_ex (refers_to t) (cg_keys c) then Inl (OtherError ''DependentObjectsStillExist'')
      else Inr (c\<lparr>cg_tables := filter (\<lambda>x. fst x \<noteq> t) (cg_tables c), cg_keys := filter (\<lambda>(_, u, _). u \<noteq> t) (cg_keys c),
          cg_indexes := filter (\<lambda>(_, u, _). u \<noteq> t) (cg_indexes c),
          cg_grants := filter (\<lambda>(_, ob, _). ob \<noteq> Tab t \<and> ob \<noteq> Seq t) (cg_grants c)\<rparr>))"

definition set_columns :: "table_name \<Rightarrow> string list \<Rightarrow> db_schema \<Rightarrow> db_schema" where
  "set_columns t cs c = c\<lparr>cg_tables := map (\<lambda>(u, ds). (u, if u = t then cs else ds)) (cg_tables c)\<rparr>"

definition add_columns :: "table_name \<Rightarrow> string list \<Rightarrow> db_schema \<Rightarrow> db_schema result" where
  "add_columns t cs c = (case columns c t of None \<Rightarrow> Inl (undefined_object ''table'')
    | Some ds \<Rightarrow> Inr (set_columns t (ds @ filter (\<lambda>x. x \<notin> set ds) cs) c))"

definition key_uses :: "table_name \<Rightarrow> string list \<Rightarrow> string \<times> table_name \<times> key_kind \<Rightarrow> bool" where
  "key_uses t cs x = (case x of (_, u, Unique ds) \<Rightarrow> u = t \<and> list_ex (List.member cs) ds
    | (_, u, Foreign d r e _) \<Rightarrow> (u = t \<and> List.member cs d) \<or> (r = t \<and> List.member cs e))"

text \<open>With a column go the indexes and keys that use it, unless a key of another table does.\<close>

definition drop_columns :: "table_name \<Rightarrow> string list \<Rightarrow> db_schema \<Rightarrow> db_schema result" where
  "drop_columns t cs c = (case columns c t of None \<Rightarrow> Inl (undefined_object ''table'')
    | Some ds \<Rightarrow>
        if list_ex (\<lambda>x. key_uses t cs x \<and> fst (snd x) \<noteq> t) (cg_keys c) then Inl (OtherError ''DependentObjectsStillExist'')
        else Inr ((set_columns t (filter (\<lambda>x. x \<notin> set cs) ds) c)
          \<lparr>cg_keys := filter (\<lambda>x. \<not> key_uses t cs x) (cg_keys c),
           cg_indexes := filter (\<lambda>(_, u, es). \<not> (u = t \<and> list_ex (List.member cs) es)) (cg_indexes c)\<rparr>))"

definition create_index :: "string \<Rightarrow> table_name \<Rightarrow> string list \<Rightarrow> db_schema \<Rightarrow> db_schema result" where
  "create_index n t cs c =
     (if n \<in> fst ` set (cg_indexes c) then Inr c
      else if \<not> has_columns c t cs then Inl (undefined_object ''column'')
      else Inr (c\<lparr>cg_indexes := cg_indexes c @ [(n, t, cs)]\<rparr>))"

definition add_key :: "table_name \<Rightarrow> string \<Rightarrow> key_kind \<Rightarrow> db_schema \<Rightarrow> db_schema result" where
  "add_key t n k c =
     (if list_ex (\<lambda>(m, u, _). m = n \<and> u = t) (cg_keys c) then Inl (OtherError ''DuplicateObject'')
      else if \<not> key_fits c t k then Inl (undefined_object ''column'')
      else Inr (c\<lparr>cg_keys := cg_keys c @ [(n, t, k)]\<rparr>))"

definition run_ddl :: "ddl \<Rightarrow> db_schema \<Rightarrow> db_schema result" where
  "run_ddl s c = (case s of
      CreateTable t cols ks \<Rightarrow> create_table t cols ks c
    | DropTable t \<Rightarrow> drop_table t c
    | AddColumns t cs \<Rightarrow> add_columns t cs c
    | DropColumns t cs \<Rightarrow> drop_columns t cs c
    | CreateIndex n t cs \<Rightarrow> create_index n t cs c
    | DropIndex n \<Rightarrow> Inr (c\<lparr>cg_indexes := filter (\<lambda>x. fst x \<noteq> n) (cg_indexes c)\<rparr>)
    | AddKey t n k \<Rightarrow> add_key t n k c
    | DropKey t n \<Rightarrow> (if columns c t = None then Inl (undefined_object ''table'')
        else Inr (c\<lparr>cg_keys := filter (\<lambda>(m, u, _). \<not> (m = n \<and> u = t)) (cg_keys c)\<rparr>))
    | CreateRole r \<Rightarrow> Inr (c\<lparr>cg_roles := cg_roles c @ filter (\<lambda>x. x \<notin> set (cg_roles c)) [r]\<rparr>)
    | GrantOn ps obs rs \<Rightarrow> grant ps obs rs c
    | GrantTables ps rs \<Rightarrow> grant ps (map (Tab \<circ> fst) (cg_tables c)) rs c
    | GrantSequences ps rs \<Rightarrow> grant ps (map (Seq \<circ> fst) (cg_tables c)) rs c
    | DefaultTables ps rs \<Rightarrow> (if \<not> list_all (List.member (cg_roles c)) rs then Inl (undefined_object ''role'')
        else Inr (c\<lparr>cg_table_defaults := add_defaults ps rs (cg_table_defaults c)\<rparr>))
    | DefaultSequences ps rs \<Rightarrow> (if \<not> list_all (List.member (cg_roles c)) rs then Inl (undefined_object ''role'')
        else Inr (c\<lparr>cg_sequence_defaults := add_defaults ps rs (cg_sequence_defaults c)\<rparr>))
    | SchemaUsage rs \<Rightarrow> (if \<not> list_all (List.member (cg_roles c)) rs then Inl (undefined_object ''role'')
        else Inr (c\<lparr>cg_usage := cg_usage c @ filter (\<lambda>x. x \<notin> set (cg_usage c)) rs\<rparr>))
    | SchemaPublic b \<Rightarrow> Inr (c\<lparr>cg_public := b\<rparr>)
    | SeedRows t \<Rightarrow> (if columns c t = None then Inl (undefined_object ''table'') else Inr c))"

fun run_script :: "ddl list \<Rightarrow> db_schema \<Rightarrow> db_schema result" where
  "run_script [] c = Inr c"
| "run_script (s # ss) c = bind_r (run_ddl s c) (run_script ss)"

section \<open>The scripts\<close>

definition up_0001 :: "ddl list" where
  "up_0001 =
    [CreateTable T_cves [''cve_id'', ''source'', ''raw_payload'', ''cvss_v3_score'', ''cvss_v3_vector'', ''cvss_v2_score'', ''severity'',
       ''epss_score'', ''epss_percentile'', ''epss_updated_at'', ''is_kev'', ''kev_added_date'', ''published_at'', ''last_modified_at'', ''created_at'',
       ''updated_at''] [(''cves_cve_id_key'', Unique [''cve_id''])],
     CreateIndex ''idx_cves_raw_gin'' T_cves [''raw_payload''],
     CreateIndex ''idx_cves_configurations'' T_cves [''raw_payload''],
     CreateIndex ''idx_cves_metrics'' T_cves [''raw_payload''],
     CreateIndex ''idx_cves_severity'' T_cves [''severity''],
     CreateIndex ''idx_cves_is_kev'' T_cves [''is_kev''],
     CreateIndex ''idx_cves_published'' T_cves [''published_at''],
     CreateIndex ''idx_cves_last_modified'' T_cves [''last_modified_at''],
     CreateIndex ''idx_cves_epss'' T_cves [''epss_score''],
     CreateTable T_products [''name'', ''vendor'', ''version'', ''normalized_cpe'', ''cpe_confidence'', ''sync_status'', ''last_synced_at'',
       ''cve_count'', ''critical_count'', ''created_at'', ''updated_at''] [(''products_name_vendor_version_key'', Unique [''name'', ''vendor'',
       ''version''])],
     CreateTable T_cpe_resolutions [''input_string'', ''resolved_cpe'', ''confidence'', ''match_score'', ''resolved_at'',
       ''resolved_by''] [(''cpe_resolutions_input_string_key'', Unique [''input_string''])],
     CreateTable T_findings [''product_id'', ''cve_id'', ''status'', ''match_confidence'', ''match_reason'', ''priority_score'', ''assigned_to'',
       ''due_date'', ''notes'', ''created_at'', ''updated_at''] [(''findings_product_id_fkey'', Foreign ''product_id'' T_products ''id'' True),
       (''findings_cve_id_fkey'', Foreign ''cve_id'' T_cves ''cve_id'' True), (''findings_product_id_cve_id_key'', Unique [''product_id'', ''cve_id''])],
     CreateIndex ''idx_findings_product'' T_findings [''product_id''],
     CreateIndex ''idx_findings_cve'' T_findings [''cve_id''],
     CreateIndex ''idx_findings_open'' T_findings [''product_id'', ''priority_score'', ''status''],
     CreateIndex ''idx_findings_priority'' T_findings [''priority_score''],
     CreateTable T_findings_history [''finding_id'', ''old_status'', ''new_status'', ''changed_by'', ''changed_at'',
       ''reason''] [(''findings_history_finding_id_fkey'', Foreign ''finding_id'' T_findings ''id'' False)],
     CreateIndex ''idx_findings_history_fid'' T_findings_history [''finding_id'']]"

definition down_0001 :: "ddl list" where
  "down_0001 =
    [DropTable T_findings_history,
     DropTable T_findings,
     DropTable T_cpe_resolutions,
     DropTable T_products,
     DropTable T_cves]"

definition up_0002 :: "ddl list" where
  "up_0002 =
    [CreateTable T_sync_jobs [''job_type'', ''target_id'', ''status'', ''priority'', ''attempts'', ''max_attempts'', ''scheduled_at'', ''started_at'',
       ''completed_at'', ''locked_until'', ''error_message'', ''metadata''] [],
     CreateIndex ''idx_sync_jobs_pickup'' T_sync_jobs [''status'', ''priority'', ''scheduled_at''],
     CreateIndex ''uq_sync_jobs_active'' T_sync_jobs [''job_type'', ''target_id'', ''status''],
     CreateTable T_sync_state [''source'', ''last_success_at'', ''last_mod_date'', ''total_ingested'', ''last_error'',
       ''updated_at''] [(''sync_state_source_key'', Unique [''source''])],
     SeedRows T_sync_state,
     CreateTable T_subscriptions_opencve [''vendor'', ''product'', ''project_id'', ''webhook_secret'', ''active'',
       ''created_at''] [(''subscriptions_opencve_vendor_product_key'', Unique [''vendor'', ''product''])],
     CreateTable T_epss_history [''cve_id'', ''score'', ''percentile'', ''recorded_at''] [(''epss_history_cve_id_fkey'',
       Foreign ''cve_id'' T_cves ''cve_id'' False)],
     CreateIndex ''idx_epss_history_cve'' T_epss_history [''cve_id'', ''recorded_at''],
     CreateTable T_audit_log [''action'', ''actor'', ''target_type'', ''target_id'', ''metadata'', ''ts''] [],
     CreateIndex ''idx_audit_log_ts'' T_audit_log [''ts''],
     CreateIndex ''idx_audit_log_target'' T_audit_log [''target_type'', ''target_id'']]"

definition down_0002 :: "ddl list" where
  "down_0002 =
    [DropTable T_audit_log,
     DropTable T_epss_history,
     DropTable T_subscriptions_opencve,
     DropTable T_sync_state,
     DropTable T_sync_jobs]"

definition up_0003 :: "ddl list" where
  "up_0003 =
    [SchemaPublic False,
     CreateRole Sync_worker,
     CreateRole Query_engine,
     SchemaUsage [Sync_worker, Query_engine],
     GrantOn [PInsert, PUpdate] [Tab T_cves, Tab T_products, Tab T_findings, Tab T_findings_history, Tab T_sync_jobs, Tab T_sync_state, Tab T_cpe_resolutions, Tab T_subscriptions_opencve, Tab T_audit_log, Tab T_epss_history] [Sync_worker],
     GrantTables [PSelect] [Sync_worker],
     GrantSequences [PUsage, PSelect] [Sync_worker],
     GrantTables [PSelect] [Query_engine],
     GrantSequences [PUsage, PSelect] [Query_engine],
     DefaultTables [PSelect] [Query_engine],
     DefaultTables [PSelect, PInsert, PUpdate] [Sync_worker],
     DefaultSequences [PUsage, PSelect] [Sync_worker, Query_engine]]"

definition down_0003 :: "ddl list" where
  "down_0003 =
    [SchemaPublic True]"

definition up_0004 :: "ddl list" where
  "up_0004 =
    [DropKey T_epss_history ''epss_history_cve_id_fkey'',
     AddKey T_epss_history ''epss_history_cve_id_fkey'' (Foreign ''cve_id'' T_cves ''cve_id'' True)]"

definition down_0004 :: "ddl list" where
  "down_0004 =
    [DropKey T_epss_history ''epss_history_cve_id_fkey'',
     AddKey T_epss_history ''epss_history_cve_id_fkey'' (Foreign ''cve_id'' T_cves ''cve_id'' False)]"

definition up_0005 :: "ddl list" where
  "up_0005 =
    [AddColumns T_cves [''has_public_poc'', ''has_nuclei_template'', ''exploitability_updated_at''],
     CreateIndex ''idx_cves_has_poc'' T_cves [''has_public_poc''],
     CreateIndex ''idx_cves_has_template'' T_cves [''has_nuclei_template''],
     CreateIndex ''idx_cves_expl_stale'' T_cves [''exploitability_updated_at'']]"

definition down_0005 :: "ddl list" where
  "down_0005 =
    [DropIndex ''idx_cves_expl_stale'',
     DropIndex ''idx_cves_has_template'',
     DropIndex ''idx_cves_has_poc'',
     DropColumns T_cves [''exploitability_updated_at'', ''has_nuclei_template'', ''has_public_poc'']]"

definition up_0006 :: "ddl list" where
  "up_0006 =
    [CreateTable T_webhooks [''name'', ''url'', ''secret'', ''event_types'', ''min_priority'', ''enabled'', ''created_by'', ''created_at'',
       ''updated_at'', ''last_success_at'', ''last_error_at'', ''last_error''] [],
     CreateIndex ''idx_webhooks_enabled'' T_webhooks [''enabled''],
     CreateIndex ''idx_webhooks_event_types'' T_webhooks [''event_types''],
     CreateTable T_webhook_deliveries [''webhook_id'', ''event_type'', ''payload'', ''dedup_key'', ''status_code'', ''response_body'', ''attempts'',
       ''max_attempts'', ''scheduled_at'', ''delivered_at'', ''last_error'', ''locked_until'', ''created_at''] [(''webhook_deliveries_webhook_id_fkey'',
       Foreign ''webhook_id'' T_webhooks ''id'' True)],
     CreateIndex ''idx_webhook_deliv_pending'' T_webhook_deliveries [''scheduled_at'', ''webhook_id'', ''delivered_at''],
     CreateIndex ''idx_webhook_deliv_dedup'' T_webhook_deliveries [''webhook_id'', ''event_type'', ''dedup_key'', ''created_at''],
     GrantOn [PInsert, PUpdate, PDelete, PSelect] [Tab T_webhooks, Tab T_webhook_deliveries] [Sync_worker],
     GrantOn [PSelect] [Tab T_webhooks, Tab T_webhook_deliveries] [Query_engine],
     GrantOn [PUsage, PSelect] [Seq T_webhooks] [Sync_worker],
     GrantOn [PUsage, PSelect] [Seq T_webhook_deliveries] [Sync_worker]]"

definition down_0006 :: "ddl list" where
  "down_0006 =
    [DropTable T_webhook_deliveries,
     DropTable T_webhooks]"

definition up_0007 :: "ddl list" where
  "up_0007 =
    [CreateTable T_risk_acceptances [''finding_id'', ''requested_by'', ''approved_by'', ''justification'', ''expires_at'', ''status'', ''created_at'',
       ''decided_at''] [(''risk_acceptances_finding_id_fkey'', Foreign ''finding_id'' T_findings ''id'' True)],
     CreateIndex ''idx_risk_acc_finding'' T_risk_acceptances [''finding_id''],
     CreateIndex ''idx_risk_acc_expires'' T_risk_acceptances [''expires_at'', ''status''],
     CreateIndex ''idx_risk_acc_status'' T_risk_acceptances [''status'', ''finding_id''],
     GrantOn [PInsert, PUpdate, PSelect] [Tab T_risk_acceptances] [Sync_worker],
     GrantOn [PSelect] [Tab T_risk_acceptances] [Query_engine],
     GrantOn [PUsage, PSelect] [Seq T_risk_acceptances] [Sync_worker],
     AddColumns T_audit_log [''actor_email'', ''actor_role'', ''diff'', ''ip_address'', ''user_agent''],
     CreateIndex ''idx_audit_log_actor_email'' T_audit_log [''actor_email'', ''ts''],
     CreateIndex ''idx_audit_log_action'' T_audit_log [''action'', ''ts'']]"

definition down_0007 :: "ddl list" where
  "down_0007 =
    [DropIndex ''idx_audit_log_action'',
     DropIndex ''idx_audit_log_actor_email'',
     DropColumns T_audit_log [''user_agent'', ''ip_address'', ''diff'', ''actor_role'', ''actor_email''],
     DropIndex ''idx_risk_acc_status'',
     DropIndex ''idx_risk_acc_expires'',
     DropIndex ''idx_risk_acc_finding'',
     DropTable T_risk_acceptances]"

definition up_0008 :: "ddl list" where
  "up_0008 =
    [CreateTable T_exec_snapshots [''captured_on'', ''captured_at'', ''total_cves'', ''kev_total'', ''critical_open'', ''high_open'', ''medium_open'',
       ''low_open'', ''findings_open'', ''findings_in_review'', ''findings_remediated_24h'', ''findings_breached'', ''findings_at_risk'', ''risk_pending'',
       ''risk_approved'', ''risk_expiring_soon'', ''mttr_critical_days'', ''mttr_high_days'', ''mttr_medium_days'', ''mttr_low_days'',
       ''kev_with_open_finding'', ''poc_with_open_finding'', ''nuclei_with_open_finding'', ''risk_score''] [(''exec_snapshots_captured_on_key'',
       Unique [''captured_on''])],
     CreateIndex ''idx_exec_snapshots_captured'' T_exec_snapshots [''captured_on''],
     GrantOn [PInsert, PUpdate, PSelect] [Tab T_exec_snapshots] [Sync_worker],
     GrantOn [PSelect] [Tab T_exec_snapshots] [Query_engine],
     GrantOn [PUsage, PSelect] [Seq T_exec_snapshots] [Sync_worker]]"

definition down_0008 :: "ddl list" where
  "down_0008 =
    [DropIndex ''idx_exec_snapshots_captured'',
     DropTable T_exec_snapshots]"

definition up_0009 :: "ddl list" where
  "up_0009 =
    [CreateTable T_users [''email'', ''password_hash'', ''role'', ''is_active'', ''created_at'', ''last_login_at''] [(''users_email_key'',
       Unique [''email''])],
     CreateIndex ''idx_users_email_active'' T_users [''email'', ''is_active''],
     GrantOn [PSelect, PUpdate] [Tab T_users] [Query_engine],
     GrantOn [PInsert, PSelect, PUpdate] [Tab T_users] [Sync_worker],
     GrantOn [PUsage, PSelect] [Seq T_users] [Sync_worker]]"

definition down_0009 :: "ddl list" where
  "down_0009 =
    [DropIndex ''idx_users_email_active'',
     DropTable T_users]"

definition up_0010 :: "ddl list" where
  "up_0010 =
    [CreateIndex ''idx_sync_jobs_target'' T_sync_jobs [''target_id''],
     CreateIndex ''idx_findings_product_status'' T_findings [''product_id'', ''status''],
     CreateIndex ''idx_findings_status_assigned'' T_findings [''status'', ''assigned_to'']]"

definition down_0010 :: "ddl list" where
  "down_0010 =
    [DropIndex ''idx_findings_status_assigned'',
     DropIndex ''idx_findings_product_status'',
     DropIndex ''idx_sync_jobs_target'']"

definition up_0011 :: "ddl list" where
  "up_0011 =
    [AddColumns T_products [''is_deleted'', ''deleted_at'', ''deleted_by''],
     CreateIndex ''idx_products_live'' T_products [''name'', ''vendor'', ''version'', ''is_deleted''],
     DropKey T_products ''products_name_vendor_version_key'',
     CreateIndex ''uq_products_live_name_vendor_version'' T_products [''name'', ''vendor'', ''version'', ''is_deleted'']]"

definition down_0011 :: "ddl list" where
  "down_0011 =
    [DropIndex ''uq_products_live_name_vendor_version'',
     AddKey T_products ''products_name_vendor_version_key'' (Unique [''name'', ''vendor'', ''version'']),
     DropIndex ''idx_products_live'',
     DropColumns T_products [''deleted_by'', ''deleted_at'', ''is_deleted'']]"

definition up_0012 :: "ddl list" where
  "up_0012 =
    [AddColumns T_webhooks [''secret_encrypted''],
     GrantOn [PSelect, PUpdate] [Tab T_webhooks] [Query_engine],
     GrantOn [PSelect, PInsert, PUpdate] [Tab T_webhooks] [Sync_worker]]"

definition down_0012 :: "ddl list" where
  "down_0012 =
    [DropColumns T_webhooks [''secret_encrypted'']]"

definition REVISIONS :: "(string \<times> ddl list \<times> ddl list) list" where
  "REVISIONS =
    [(''0001'', up_0001, down_0001),
     (''0002'', up_0002, down_0002),
     (''0003'', up_0003, down_0003),
     (''0004'', up_0004, down_0004),
     (''0005'', up_0005, down_0005),
     (''0006'', up_0006, down_0006),
     (''0007'', up_0007, down_0007),
     (''0008'', up_0008, down_0008),
     (''0009'', up_0009, down_0009),
     (''0010'', up_0010, down_0010),
     (''0011'', up_0011, down_0011),
     (''0012'', up_0012, down_0012)]"

text \<open>\<open>alembic upgrade head\<close>: the scripts of the revisions that are still to come, in order; and the way back by one.\<close>

fun upgrade_all :: "(string \<times> ddl list \<times> ddl list) list \<Rightarrow> db_schema \<Rightarrow> db_schema result" where
  "upgrade_all [] c = Inr c"
| "upgrade_all ((r, up, down) # revs) c = bind_r (run_script up c) (upgrade_all revs)"

definition schema_at :: "nat \<Rightarrow> db_schema result" where
  "schema_at n = upgrade_all (take n REVISIONS) empty_catalog"


section \<open>Consistency\<close>

text \<open>What keys and indexes name exists, and privileges are those of known roles on known objects.\<close>

definition consistent :: "db_schema \<Rightarrow> bool" where
  "consistent c \<longleftrightarrow> distinct (map fst (cg_tables c)) \<and> list_all (\<lambda>(n, t, k). key_fits c t k) (cg_keys c) \<and>
     distinct (map fst (cg_indexes c)) \<and> list_all (\<lambda>(n, t, cs). has_columns c t cs) (cg_indexes c) \<and>
     list_all (\<lambda>(r, ob, p). r \<in> set (cg_roles c) \<and> ob \<in> set (objects c)) (cg_grants c) \<and>
     list_all (\<lambda>(r, p). r \<in> set (cg_roles c)) (cg_table_defaults c @ cg_sequence_defaults c) \<and> set (cg_usage c) \<subseteq> set (cg_roles c)"

lemma in_objects: "Tab t \<in> set (objects c) \<longleftrightarrow> columns c t \<noteq> None" "Seq t \<in> set (objects c) \<longleftrightarrow> columns c t \<noteq> None"
  by (force simp: objects_def columns_def map_of_eq_None_iff)+

lemma in_objects_iff: "ob \<in> set (objects c) \<longleftrightarrow> columns c (case ob of Tab t \<Rightarrow> t | Seq t \<Rightarrow> t) \<noteq> None"
  by (cases ob) (simp_all add: in_objects)

lemma has_columns_iff: "has_columns c t cs \<longleftrightarrow> (\<exists>ds. columns c t = Some ds \<and> set cs \<subseteq> set ds)"
  by (auto simp: has_columns_def list_all_iff split: option.splits)

lemma consistentD:
  assumes "consistent c"
  shows "distinct (map fst (cg_tables c))" "(n, t, k) \<in> set (cg_keys c) \<Longrightarrow> key_fits c t k" "distinct (map fst (cg_indexes c))"
    "(n, t, cs) \<in> set (cg_indexes c) \<Longrightarrow> has_columns c t cs" "(r, ob, p) \<in> set (cg_grants c) \<Longrightarrow> r \<in> set (cg_roles c)"
    "(r, ob, p) \<in> set (cg_grants c) \<Longrightarrow> ob \<in> set (objects c)" "(r, p) \<in> set (cg_table_defaults c) \<Longrightarrow> r \<in> set (cg_roles c)"
    "(r, p) \<in> set (cg_sequence_defaults c) \<Longrightarrow> r \<in> set (cg_roles c)" "set (cg_usage c) \<subseteq> set (cg_roles c)"
  using assms by (auto simp: consistent_def list_all_iff)

lemma consistentI:
  assumes "distinct (map fst (cg_tables c))" "\<And>n t k. (n, t, k) \<in> set (cg_keys c) \<Longrightarrow> key_fits c t k" "distinct (map fst (cg_indexes c))"
    "\<And>n t cs. (n, t, cs) \<in> set (cg_indexes c) \<Longrightarrow> has_columns c t cs" "\<And>r ob p. (r, ob, p) \<in> set (cg_grants c) \<Longrightarrow> r \<in> set (cg_roles c)"
    "\<And>r ob p. (r, ob, p) \<in> set (cg_grants c) \<Longrightarrow> ob \<in> set (objects c)" "\<And>r p. (r, p) \<in> set (cg_table_defaults c) \<Longrightarrow> r \<in> set (cg_roles c)"
    "\<And>r p. (r, p) \<in> set (cg_sequence_defaults c) \<Longrightarrow> r \<in> set (cg_roles c)" "set (cg_usage c) \<subseteq> set (cg_roles c)"
  shows "consistent c"
  using assms unfolding consistent_def list_all_iff by auto

lemma columns_simps [simp]:
  "columns (c\<lparr>cg_keys := a\<rparr>) = columns c" "columns (c\<lparr>cg_indexes := b\<rparr>) = columns c" "columns (c\<lparr>cg_roles := d\<rparr>) = columns c"
  "columns (c\<lparr>cg_public := e\<rparr>) = columns c" "columns (c\<lparr>cg_usage := f\<rparr>) = columns c" "columns (c\<lparr>cg_grants := g\<rparr>) = columns c"
  "columns (c\<lparr>cg_table_defaults := h\<rparr>) = columns c" "columns (c\<lparr>cg_sequence_defaults := i\<rparr>) = columns c"
  by (simp_all add: columns_def fun_eq_iff)

lemma columns_new: "columns (c\<lparr>cg_tables := cg_tables c @ [(t, cs)]\<rparr>) u = (case columns c u of Some ds \<Rightarrow> Some ds | None \<Rightarrow> if u = t then Some cs else None)"
  by (simp add: columns_def map_add_def split: option.split)

lemma columns_gone: "columns (c\<lparr>cg_tables := filter (\<lambda>x. fst x \<noteq> t) (cg_tables c)\<rparr>) u = (if u = t then None else columns c u)"
proof -
  have "map_of (filter (\<lambda>x. fst x \<noteq> t) ts) u = (if u = t then None else map_of ts u)" for ts :: "(table_name \<times> string list) list"
    by (induction ts) auto
  then show ?thesis by (simp add: columns_def)
qed

lemma columns_set: "columns (set_columns t cs c) u = (if u = t \<and> columns c t \<noteq> None then Some cs else columns c u)"
proof -
  have "map_of (map (\<lambda>(u, ds). (u, if u = t then cs else ds)) ts) u = (if u = t \<and> map_of ts t \<noteq> None then Some cs else map_of ts u)"
    for ts by (induction ts) auto
  then show ?thesis by (simp add: columns_def set_columns_def)
qed

lemma same_columns:
  assumes "columns c' = columns c"
  shows "has_columns c' = has_columns c" "key_fits c' = key_fits c" "ob \<in> set (objects c') \<longleftrightarrow> ob \<in> set (objects c)"
  by (simp_all add: fun_eq_iff has_columns_def key_fits_def in_objects_iff assms split: key_kind.split)

text \<open>Where no column is lost, what fitted still fits.\<close>

lemma more_columns:
  assumes "\<And>t ds. columns c t = Some ds \<Longrightarrow> \<exists>es. columns c' t = Some es \<and> set ds \<subseteq> set es"
  shows "has_columns c t cs \<Longrightarrow> has_columns c' t cs" "key_fits c t k \<Longrightarrow> key_fits c' t k" "ob \<in> set (objects c) \<Longrightarrow> ob \<in> set (objects c')"
proof -
  show cols: "has_columns c t cs \<Longrightarrow> has_columns c' t cs" for t cs
    using assms unfolding has_columns_iff by blast
  show "key_fits c t k \<Longrightarrow> key_fits c' t k" by (cases k) (auto simp: key_fits_def cols)
  show "ob \<in> set (objects c) \<Longrightarrow> ob \<in> set (objects c')" using assms unfolding in_objects_iff by blast
qed

lemma create_table_consistent:
  assumes "consistent c" and "create_table t cols ks c = Inr c'"
  shows "consistent c'"
proof (cases "columns c t = None")
  case False
  then show ?thesis using assms by (simp add: create_table_def)
next
  case True
  let ?c = "c\<lparr>cg_tables := cg_tables c @ [(t, ''id'' # cols)]\<rparr>"
  have ks: "list_all (\<lambda>(_, k). key_fits ?c t k) ks"
    and c': "c' = ?c\<lparr>cg_keys := cg_keys c @ map (\<lambda>(n, k). (n, t, k)) ks,
      cg_grants := cg_grants c @ map (\<lambda>(r, p). (r, Tab t, p)) (cg_table_defaults c) @ map (\<lambda>(r, p). (r, Seq t, p)) (cg_sequence_defaults c)\<rparr>"
    using assms(2) True by (simp_all add: create_table_def Let_def split: if_splits)
  have cols: "columns c' = columns ?c" by (simp add: c')
  note same = same_columns [OF cols]
  have "\<exists>es. columns ?c u = Some es \<and> set ds \<subseteq> set es" if "columns c u = Some ds" for u ds using that by (simp add: columns_new)
  note more = more_columns [OF this]
  have t: "Tab t \<in> set (objects ?c)" "Seq t \<in> set (objects ?c)" by (simp_all add: in_objects columns_new True)
  have d: "distinct (map fst (cg_tables c'))" using consistentD(1) [OF assms(1)] True by (auto simp: c' columns_def map_of_eq_None_iff)
  show ?thesis
    by (rule consistentI, unfold same)
      (use ks more t d consistentD [OF assms(1)] in \<open>auto simp: c' list_all_iff\<close>)
qed

lemma drop_table_consistent:
  assumes "consistent c" and "drop_table t c = Inr c'"
  shows "consistent c'"
proof (cases "columns c t = None")
  case True
  then show ?thesis using assms by (simp add: drop_table_def)
next
  case False
  let ?c = "c\<lparr>cg_tables := filter (\<lambda>x. fst x \<noteq> t) (cg_tables c)\<rparr>"
  have free: "\<not> list_ex (refers_to t) (cg_keys c)"
    and c': "c' = ?c\<lparr>cg_keys := filter (\<lambda>(_, u, _). u \<noteq> t) (cg_keys c), cg_indexes := filter (\<lambda>(_, u, _). u \<noteq> t) (cg_indexes c),
      cg_grants := filter (\<lambda>(_, ob, _). ob \<noteq> Tab t \<and> ob \<noteq> Seq t) (cg_grants c)\<rparr>"
    using assms(2) False by (simp_all add: drop_table_def split: if_splits)
  have cols: "columns c' = columns ?c" by (simp add: c')
  note same = same_columns [OF cols]
  have h: "has_columns ?c u cs \<longleftrightarrow> u \<noteq> t \<and> has_columns c u cs" for u cs by (simp add: has_columns_iff columns_gone)
  have k: "key_fits ?c u k" if "(n, u, k) \<in> set (cg_keys c)" "u \<noteq> t" for n u k
    using consistentD(2) [OF assms(1) that(1)] that free unfolding list_ex_iff
    by (cases k) (fastforce simp: key_fits_def h refers_to_def)+
  have o: "ob \<in> set (objects ?c)" if "(r, ob, p) \<in> set (cg_grants c)" "ob \<noteq> Tab t" "ob \<noteq> Seq t" for r ob p
    using consistentD(6) [OF assms(1) that(1)] that(2,3) by (simp add: in_objects_iff columns_gone split: object_name.splits)
  have d: "distinct (map fst (cg_tables c'))" "distinct (map fst (cg_indexes c'))"
    using consistentD(1,3) [OF assms(1)] by (simp_all add: c' distinct_map_filter)
  show ?thesis
    by (rule consistentI, unfold same)
      (use h k o d consistentD [OF assms(1)] in \<open>auto simp: c'\<close>)
qed

lemma add_columns_consistent:
  assumes "consistent c" and "add_columns t cs c = Inr c'"
  shows "consistent c'"
proof -
  obtain ds where ds: "columns c t = Some ds" and c': "c' = set_columns t (ds @ filter (\<lambda>x. x \<notin> set ds) cs) c"
    using assms(2) by (auto simp: add_columns_def split: option.splits)
  have "\<exists>es. columns c' u = Some es \<and> set fs \<subseteq> set es" if "columns c u = Some fs" for u fs
    using that ds by (auto simp: c' columns_set)
  note more = more_columns [OF this]
  have r: "cg_keys c' = cg_keys c" "cg_indexes c' = cg_indexes c" "cg_grants c' = cg_grants c" "cg_roles c' = cg_roles c" "cg_usage c' = cg_usage c"
    "cg_table_defaults c' = cg_table_defaults c" "cg_sequence_defaults c' = cg_sequence_defaults c" "map fst (cg_tables c') = map fst (cg_tables c)"
    by (simp_all add: c' set_columns_def comp_def split_def)
  show ?thesis by (rule consistentI; insert more consistentD [OF assms(1)]; auto simp: r)
qed

lemma drop_columns_consistent:
  assumes "consistent c" and "drop_columns t cs c = Inr c'"
  shows "consistent c'"
proof -
  obtain ds where ds: "columns c t = Some ds"
    and c': "c' = (set_columns t (filter (\<lambda>x. x \<notin> set cs) ds) c)\<lparr>cg_keys := filter (\<lambda>x. \<not> key_uses t cs x) (cg_keys c),
       cg_indexes := filter (\<lambda>(_, u, es). \<not> (u = t \<and> list_ex (List.member cs) es)) (cg_indexes c)\<rparr>"
    using assms(2) by (auto simp: drop_columns_def split: option.splits if_splits)
  have h: "has_columns c' u es" if "has_columns c u es" "u = t \<longrightarrow> \<not> list_ex (List.member cs) es" for u es
    using that ds by (auto simp: has_columns_iff c' columns_set list_ex_iff)
  have k: "key_fits c' u k" if "key_fits c u k" "\<not> key_uses t cs (n, u, k)" for n u k
    using that by (cases k) (auto simp: key_fits_def key_uses_def intro!: h)
  have o: "ob \<in> set (objects c')" if "ob \<in> set (objects c)" for ob
    using that by (simp add: in_objects_iff c' columns_set)
  have r: "cg_grants c' = cg_grants c" "cg_roles c' = cg_roles c" "cg_usage c' = cg_usage c" "cg_table_defaults c' = cg_table_defaults c"
    "cg_sequence_defaults c' = cg_sequence_defaults c" "map fst (cg_tables c') = map fst (cg_tables c)"
    by (simp_all add: c' set_columns_def comp_def split_def)
  have i: "distinct (map fst (cg_indexes c'))" using consistentD(3) [OF assms(1)] by (simp add: c' distinct_map_filter)
  show ?thesis
  proof (rule consistentI)
    show "key_fits c' u k" if "(n, u, k) \<in> set (cg_keys c')" for n u k
      using that k [of u k n] consistentD(2) [OF assms(1)] by (auto simp: c')
    show "has_columns c' u es" if "(n, u, es) \<in> set (cg_indexes c')" for n u es
      using that h [of u es] consistentD(4) [OF assms(1)] by (auto simp: c')
  qed ((simp only: r)?; use o i consistentD [OF assms(1)] in blast)+
qed

lemma grant_consistent:
  assumes "consistent c" and "grant ps obs rs c = Inr c'"
  shows "consistent c'"
proof -
  have g: "set rs \<subseteq> set (cg_roles c)" "set obs \<subseteq> set (objects c)"
    and c': "c' = c\<lparr>cg_grants := cg_grants c @ filter (\<lambda>g. g \<notin> set (cg_grants c)) (List.product rs (List.product obs ps))\<rparr>"
    using assms(2) by (auto simp: grant_def list_all_iff split: if_splits)
  have cols: "columns c' = columns c" by (simp add: c')
  show ?thesis
    by (rule consistentI, unfold same_columns [OF cols]) (use g consistentD [OF assms(1)] in \<open>auto simp: c'\<close>)
qed

lemma run_ddl_consistent:
  assumes "consistent c" and "run_ddl s c = Inr c'"
  shows "consistent c'"
proof -
  have plain: ?thesis
    if "columns c' = columns c" "cg_tables c' = cg_tables c" "\<And>n t k. (n, t, k) \<in> set (cg_keys c') \<Longrightarrow> key_fits c t k" "distinct (map fst (cg_indexes c'))"
      "\<And>n t cs. (n, t, cs) \<in> set (cg_indexes c') \<Longrightarrow> has_columns c t cs" "cg_grants c' = cg_grants c" "set (cg_roles c) \<subseteq> set (cg_roles c')"
      "\<And>r p. (r, p) \<in> set (cg_table_defaults c') \<Longrightarrow> r \<in> set (cg_roles c')" "\<And>r p. (r, p) \<in> set (cg_sequence_defaults c') \<Longrightarrow> r \<in> set (cg_roles c')"
      "set (cg_usage c') \<subseteq> set (cg_roles c')"
    by (rule consistentI, unfold same_columns [OF that(1)]) (use that consistentD [OF assms(1)] in \<open>auto\<close>)
  note old = consistentD [OF assms(1)]
  show ?thesis
  proof (cases s)
    case (CreateTable t cols ks)
    then show ?thesis using assms by (simp add: run_ddl_def create_table_consistent)
  next
    case (DropTable t)
    then show ?thesis using assms by (simp add: run_ddl_def drop_table_consistent)
  next
    case (AddColumns t cs)
    then show ?thesis using assms by (simp add: run_ddl_def add_columns_consistent)
  next
    case (DropColumns t cs)
    then show ?thesis using assms by (simp add: run_ddl_def drop_columns_consistent)
  next
    case (GrantOn ps obs rs)
    then show ?thesis using assms grant_consistent by (simp add: run_ddl_def)
  next
    case (GrantTables ps rs)
    then show ?thesis using assms grant_consistent by (simp add: run_ddl_def)
  next
    case (GrantSequences ps rs)
    then show ?thesis using assms grant_consistent by (simp add: run_ddl_def)
  next
    case (CreateIndex n t cs)
    then have "c' = c \<or> (n \<notin> fst ` set (cg_indexes c) \<and> has_columns c t cs \<and> c' = c\<lparr>cg_indexes := cg_indexes c @ [(n, t, cs)]\<rparr>)"
      using assms(2) by (auto simp: run_ddl_def create_index_def split: if_splits)
    then show ?thesis using assms(1) by (elim disjE) (simp, rule plain, use old in \<open>auto\<close>)
  next
    case (AddKey t n k)
    then have "key_fits c t k" "c' = c\<lparr>cg_keys := cg_keys c @ [(n, t, k)]\<rparr>"
      using assms(2) by (auto simp: run_ddl_def add_key_def split: if_splits)
    then show ?thesis by (intro plain) (use old in \<open>auto\<close>)
  qed (insert assms(2) old, (rule plain; auto simp: run_ddl_def add_defaults_def list_all_iff distinct_map_filter split: if_splits)+)
qed

lemma run_script_consistent: "consistent c \<Longrightarrow> run_script ss c = Inr c' \<Longrightarrow> consistent c'"
  by (induction ss arbitrary: c) (auto simp: bind_r_Inr dest: run_ddl_consistent)

lemma upgrade_consistent: "consistent c \<Longrightarrow> upgrade_all revs c = Inr c' \<Longrightarrow> consistent c'"
  by (induction revs arbitrary: c) (auto simp: bind_r_Inr, metis run_script_consistent)

section \<open>The way up and the way back\<close>

text \<open>A downgrade leads back where it restores the catalogue, with the keys in whatever order.\<close>

definition leads_back :: "db_schema result \<Rightarrow> db_schema \<Rightarrow> bool" where
  "leads_back r c = (case r of Inl _ \<Rightarrow> False
    | Inr c' \<Rightarrow> c'\<lparr>cg_keys := []\<rparr> = c\<lparr>cg_keys := []\<rparr> \<and> set (cg_keys c') = set (cg_keys c))"

text \<open>The downgrade of revision \<open>n\<close> (counted from 0), run at the schema its upgrade made of the one before.\<close>

definition downgrade_undoes :: "nat \<Rightarrow> bool" where
  "downgrade_undoes n = (case schema_at n of Inl _ \<Rightarrow> False
    | Inr c \<Rightarrow> leads_back (bind_r (schema_at (Suc n)) (run_script (snd (snd (REVISIONS ! n))))) c)"

text \<open>A walk over the revisions: for each, whether its downgrade leads back; and the catalogue at the end.\<close>

fun walk :: "(string \<times> ddl list \<times> ddl list) list \<Rightarrow> db_schema \<Rightarrow> bool list \<times> db_schema result" where
  "walk [] c = ([], Inr c)"
| "walk ((r, up, down) # revs) c = (case run_script up c of Inl e \<Rightarrow> ([False], Inl e)
    | Inr c' \<Rightarrow> (case walk revs c' of (rs, final) \<Rightarrow> (leads_back (run_script down c') c # rs, final)))"

lemma walk_upgrade: "snd (walk revs c) = upgrade_all revs c"
  by (induction revs arbitrary: c) (auto simp: bind_r_def split: sum.splits prod.splits, metis snd_conv)

lemma walk_nth:
  assumes "upgrade_all revs c = Inr d" and "n < length revs"
  shows "\<exists>b a. upgrade_all (take n revs) c = Inr b \<and> upgrade_all (take (Suc n) revs) c = Inr a \<and>
    fst (walk revs c) ! n = leads_back (run_script (snd (snd (revs ! n))) a) b"
  using assms
proof (induction revs arbitrary: c n)
  case Nil
  then show ?case by simp
next
  case (Cons x revs)
  obtain r up down where x: "x = (r, up, down)" by (cases x)
  obtain c' where up: "run_script up c = Inr c'" "upgrade_all revs c' = Inr d"
    using Cons.prems(1) by (auto simp: x bind_r_Inr)
  obtain rs final where w: "walk revs c' = (rs, final)" by (cases "walk revs c'")
  show ?case
  proof (cases n)
    case 0
    then show ?thesis by (simp add: x up w)
  next
    case (Suc m)
    then show ?thesis using Cons.IH [OF up(2), of m] Cons.prems(2) by (simp add: x up w)
  qed
qed

section \<open>Who may do what\<close>

definition tables_with :: "role_name \<Rightarrow> privilege \<Rightarrow> db_schema \<Rightarrow> table_name list" where
  "tables_with r p c = filter (\<lambda>t. (r, Tab t, p) \<in> set (cg_grants c)) (map fst (cg_tables c))"

text \<open>The whole chain, run once.\<close>

lemma chain:
  "(case walk REVISIONS empty_catalog of (rs, r) \<Rightarrow> (rs, map_sum id (\<lambda>c. (tables_with Query_engine PInsert c, tables_with Query_engine PUpdate c,
      tables_with Query_engine PDelete c, tables_with Sync_worker PDelete c,
      map fst (cg_tables c), list_all (List.member (tables_with Query_engine PSelect c)) (map fst (cg_tables c)),
      list_all (List.member (tables_with Sync_worker PSelect c)) (map fst (cg_tables c)))) r)) =
    ([True, True, False, True, True, True, True, True, True, True, True, False],
     Inr ([], [T_webhooks, T_users], [], [T_webhooks, T_webhook_deliveries],
      [T_cves, T_products, T_cpe_resolutions, T_findings, T_findings_history, T_sync_jobs, T_sync_state, T_subscriptions_opencve,
      T_epss_history, T_audit_log, T_webhooks, T_webhook_deliveries, T_risk_acceptances, T_exec_snapshots, T_users], True, True))"
  by code_simp

lemma head:
  obtains c where "schema_at 12 = Inr c" "upgrade_all REVISIONS empty_catalog = Inr c"
    "fst (walk REVISIONS empty_catalog) = [True, True, False, True, True, True, True, True, True, True, True, False]"
    "tables_with Query_engine PInsert c = []" "tables_with Query_engine PUpdate c = [T_webhooks, T_users]" "tables_with Query_engine PDelete c = []"
    "tables_with Sync_worker PDelete c = [T_webhooks, T_webhook_deliveries]"
    "\<And>t. t \<in> set (map fst (cg_tables c))" "\<And>t. columns c t \<noteq> None" "\<And>t. t \<in> set (tables_with Query_engine PSelect c)" "\<And>t. t \<in> set (tables_with Sync_worker PSelect c)"
proof -
  obtain rs r where w: "walk REVISIONS empty_catalog = (rs, r)" by (cases "walk REVISIONS empty_catalog")
  have u: "upgrade_all REVISIONS empty_catalog = r" using walk_upgrade [of REVISIONS empty_catalog] by (simp add: w)
  obtain c where r: "r = Inr c" using chain unfolding w by (cases r) simp_all
  have "take 12 REVISIONS = REVISIONS" by (simp add: REVISIONS_def)
  then have s: "schema_at 12 = Inr c" using u by (simp add: schema_at_def r)
  note facts = chain [unfolded w r split map_sum.simps prod.inject sum.inject list_all_iff List.member_iff]
  have ts: "t \<in> set (map fst (cg_tables c))" for t
    by (cases t) (use facts in simp_all)
  have cs: "columns c t \<noteq> None" for t using ts [of t] by (simp add: columns_def map_of_eq_None_iff)
  have qs: "t \<in> set (tables_with Query_engine PSelect c)" "t \<in> set (tables_with Sync_worker PSelect c)" for t
    using facts ts [of t] by blast+
  show ?thesis
    by (rule that [OF s]; (rule ts)?) (use facts cs qs u w r in \<open>simp_all del: not_None_eq\<close>)
qed

section \<open>Properties\<close>

text \<open>Whatever statements run, in whatever order, the catalogue stays consistent: every key and every index names a table with those
  columns (a foreign key also the column it refers to), tables and indexes have distinct names, and privileges and defaults belong to
  existing roles on existing tables and sequences. So no script leaves a key without its column.\<close>

theorem catalog_stays_consistent:
  assumes "consistent c" and "run_script ss c = Inr c'"
  shows "consistent c'"
  using assms by (rule run_script_consistent)

theorem catalog_stays_consistent_witness:
  "\<exists>c. run_script (up_0001 @ up_0002 @ up_0003) empty_catalog = Inr c \<and> consistent c"
proof -
  have c: "consistent empty_catalog" by code_simp
  have "\<not> isl (run_script (up_0001 @ up_0002 @ up_0003) empty_catalog)" by code_simp
  then obtain c' where "run_script (up_0001 @ up_0002 @ up_0003) empty_catalog = Inr c'" by (cases "run_script (up_0001 @ up_0002 @ up_0003) empty_catalog") (simp_all del: append.simps)
  then show ?thesis using catalog_stays_consistent [OF c] by blast
qed


text \<open>At the last revision the query engine's role reads every table, inserts into none and deletes from none, and updates exactly the users
  and the webhooks; the sync worker's reads every table and deletes only webhooks and their deliveries.\<close>

theorem query_engine_barely_writes:
  "\<exists>c. schema_at 12 = Inr c \<and>
    (\<lambda>t. (Query_engine, Tab t, PInsert) \<in> set (cg_grants c) \<or> (Query_engine, Tab t, PDelete) \<in> set (cg_grants c)) = (\<lambda>_. False) \<and>
    {t. (Query_engine, Tab t, PUpdate) \<in> set (cg_grants c)} = {T_users, T_webhooks} \<and>
    {t. (Sync_worker, Tab t, PDelete) \<in> set (cg_grants c)} = {T_webhooks, T_webhook_deliveries} \<and>
    (\<lambda>t. columns c t \<noteq> None \<and> (Query_engine, Tab t, PSelect) \<in> set (cg_grants c) \<and> (Sync_worker, Tab t, PSelect) \<in> set (cg_grants c)) = (\<lambda>_. True)"
proof -
  obtain c where c: "schema_at 12 = Inr c"
    "tables_with Query_engine PInsert c = []" "tables_with Query_engine PUpdate c = [T_webhooks, T_users]" "tables_with Query_engine PDelete c = []"
    "tables_with Sync_worker PDelete c = [T_webhooks, T_webhook_deliveries]"
    "\<And>t. t \<in> set (map fst (cg_tables c))" "\<And>t. columns c t \<noteq> None" "\<And>t. t \<in> set (tables_with Query_engine PSelect c)" "\<And>t. t \<in> set (tables_with Sync_worker PSelect c)"
    by (rule head) blast
  have has: "(r, Tab t, p) \<in> set (cg_grants c) \<longleftrightarrow> t \<in> set (tables_with r p c)" for r t p
    using c(6) [of t] by (simp add: tables_with_def)
  show ?thesis
    by (rule exI [of _ c]) (simp add: c has fun_eq_iff del: not_None_eq; auto)
qed

end
