(* ===== verification/Schema_Upgrade.thy ===== *)
theory Schema_Upgrade
  imports Migrations Startup
begin

text \<open>
  \<open>app/core/migrations.py\<close> and \<open>alembic/env.py\<close>: which database a start migrates, and from its revision to the last one in a single
  transaction. Alembic's own configuration, into which the URL is written and from which it is read back, is an argument.
\<close>

section \<open>Running the migrations\<close>

record schema_db =
  sd_revision :: nat
  sd_catalog :: db_schema

type_synonym server = "string \<Rightarrow> schema_db option"

text \<open>\<open>env.py\<close>, \<open>get_url\<close>: the environment first, then the configuration.\<close>

definition get_url :: "(string \<Rightarrow> string option) \<Rightarrow> string \<Rightarrow> string" where
  "get_url environ configured =
     migration_url (if str_or_empty (environ ''DATABASE_URL'') \<noteq> [] then str_or_empty (environ ''DATABASE_URL'') else configured)"

text \<open>\<open>run_migrations_online\<close>: all the scripts that are still to come, or none; a revision that no script has is refused.\<close>

definition upgrade_head :: "schema_db \<Rightarrow> schema_db result" where
  "upgrade_head d =
     (if length REVISIONS < sd_revision d then Inl (OtherError ''CommandError'')
      else bind_r (upgrade_all (drop (sd_revision d) REVISIONS) (sd_catalog d))
        (\<lambda>c. Inr \<lparr>sd_revision = length REVISIONS, sd_catalog = c\<rparr>))"

definition run_migrations ::
    "(string \<Rightarrow> string result) \<Rightarrow> (string \<Rightarrow> string option) \<Rightarrow> string \<Rightarrow> server \<Rightarrow> server \<times> unit result" where
  "run_migrations keep_option environ given w =
     (case keep_option (migration_url given) of
        Inl e \<Rightarrow> (w, Inl e)
      | Inr configured \<Rightarrow> (let url = get_url environ configured in
          case w url of
            None \<Rightarrow> (w, Inl (OtherError ''ConnectionError''))
          | Some d \<Rightarrow> (case upgrade_head d of Inl e \<Rightarrow> (w, Inl e) | Inr d' \<Rightarrow> (w(url \<mapsto> d'), Inr ()))))"

text \<open>A database whose revision is \<open>n\<close> and whose schema is what the first \<open>n\<close> migrations make.\<close>

definition at_revision :: "nat \<Rightarrow> schema_db \<Rightarrow> bool" where
  "at_revision n d \<longleftrightarrow> sd_revision d = n \<and> schema_at n = Inr (sd_catalog d)"

section \<open>Lemmas\<close>

lemma upgrade_append: "upgrade_all (xs @ ys) c = bind_r (upgrade_all xs c) (upgrade_all ys)"
proof (induction xs arbitrary: c)
  case (Cons x xs)
  obtain r up down where "x = (r, up, down)" by (cases x)
  then show ?case by (cases "run_script up c") (simp_all add: Cons.IH)
qed simp

lemma revisions: "length REVISIONS = 12"
  by (simp add: REVISIONS_def)

lemma upgrade_reaches_head:
  assumes "at_revision n d" and "n \<le> 12"
  shows "\<exists>d'. upgrade_head d = Inr d' \<and> at_revision 12 d'"
proof -
  obtain c where c: "schema_at 12 = Inr c" "upgrade_all REVISIONS empty_catalog = Inr c" by (rule head)
  have "upgrade_all (take n REVISIONS @ drop n REVISIONS) empty_catalog = Inr c" using c(2) by simp
  then have "upgrade_all (drop n REVISIONS) (sd_catalog d) = Inr c"
    using assms(1) unfolding upgrade_append by (simp add: at_revision_def schema_at_def)
  then show ?thesis using assms by (simp add: upgrade_head_def at_revision_def revisions c(1))
qed

lemma head_stays: "at_revision 12 d \<Longrightarrow> upgrade_head d = Inr d"
  by (cases d) (simp add: at_revision_def upgrade_head_def revisions)

lemma failed_run_changes_nothing: "run_migrations keep_option environ url w = (w', Inl e) \<Longrightarrow> w' = w"
  by (auto simp: run_migrations_def Let_def split: sum.splits option.splits)

lemma other_databases_stay: "u \<noteq> get_url environ c \<Longrightarrow> keep_option (migration_url url) = Inr c \<Longrightarrow>
    fst (run_migrations keep_option environ url w) u = w u"
  by (auto simp: run_migrations_def Let_def split: sum.splits option.splits)

section \<open>Properties\<close>



end
