(* ===== verification/Process_Stop.thy ===== *)
theory Process_Stop
  imports Startup Election_Loop
begin

text \<open>
  The end of a process, the second half of \<open>lifespan\<close> in \<open>app/main.py\<close>: what is stopped, given back, cancelled and closed, in which order,
  while the refresh task of the elector may still wake up in between; and what is left when a closing fails.
\<close>

section \<open>A running process\<close>

record process =
  ps_app :: app_state
  ps_scheduler :: bool
  ps_refresh :: bool
  ps_tasks :: "string list list"
  ps_open :: "string list"

definition running :: "app_state \<Rightarrow> process" where
  "running app = \<lparr>ps_app = app, ps_scheduler = True, ps_refresh = True, ps_tasks = [],
     ps_open = map (\<lambda>c. oc_provider (ac_http c)) (as_clients app) @ [''db_pool'', ''redis'']\<rparr>"

datatype stop_event =
    Turn rat delivery \<comment> \<open>the refresh task wakes up\<close>
  | StopScheduler
  | StopRefresh
  | GiveBack rat delivery
  | CancelTasks
  | Close string

fun stop_step :: "process \<Rightarrow> stop_event \<Rightarrow> process" where
  "stop_step p (Turn now dl) =
     (if \<not> ps_refresh p then p
      else case leader_refresh now dl (as_leader (ps_app p)) (as_redis (ps_app p)) of (e, r, _) \<Rightarrow>
        p\<lparr>ps_app := (ps_app p)\<lparr>as_leader := e, as_redis := r\<rparr>\<rparr>)"
| "stop_step p StopScheduler = p\<lparr>ps_scheduler := False\<rparr>"
| "stop_step p StopRefresh = p\<lparr>ps_refresh := False\<rparr>"
| "stop_step p (GiveBack now dl) = p\<lparr>ps_app := shutdown now dl (ps_app p)\<rparr>"
| "stop_step p CancelTasks = p\<lparr>ps_tasks := []\<rparr>"
| "stop_step p (Close n) = p\<lparr>ps_open := filter (\<lambda>m. m \<noteq> n) (ps_open p)\<rparr>"

text \<open>The order of the closings; the client of VulnCheck exists only with a key. The first that fails ends the stop.\<close>

definition CLOSING_ORDER :: "string list" where
  "CLOSING_ORDER = [''vulncheck'', ''vulnx'', ''nvd'', ''epss'', ''kev'', ''circl'', ''opencve'', ''db_pool'', ''redis'']"

definition closings :: "process \<Rightarrow> string list" where
  "closings p = filter (\<lambda>n. n \<in> set (ps_open p)) CLOSING_ORDER"

definition stop_events :: "rat \<Rightarrow> delivery \<Rightarrow> (string \<Rightarrow> bool) \<Rightarrow> process \<Rightarrow> stop_event list" where
  "stop_events now dl fails p = [StopScheduler, StopRefresh, GiveBack now dl, CancelTasks] @ map Close (takeWhile (\<lambda>n. \<not> fails n) (closings p))"

fun is_turn :: "stop_event \<Rightarrow> bool" where
  "is_turn (Turn _ _) = True"
| "is_turn _ = False"

section \<open>Lemmas\<close>

text \<open>Once the task has been stopped, its wake-ups do nothing.\<close>

lemma turns_after_stop: "\<not> ps_refresh p \<Longrightarrow> list_all is_turn es \<Longrightarrow> foldl stop_step p es = p"
proof (induction es)
  case (Cons e es)
  then show ?case by (cases e) simp_all
qed simp

lemma turns_keep: "list_all is_turn es \<Longrightarrow> ps_scheduler (foldl stop_step p es) = ps_scheduler p \<and> ps_tasks (foldl stop_step p es) = ps_tasks p \<and>
   ps_open (foldl stop_step p es) = ps_open p \<and> ps_refresh (foldl stop_step p es) = ps_refresh p"
proof (induction es arbitrary: p)
  case (Cons e es)
  then show ?case by (cases e) (auto split: prod.splits)
qed simp

text \<open>With the task stopped, the wake-ups may as well be left out.\<close>

lemma turns_left_out: "\<not> ps_refresh p \<Longrightarrow> foldl stop_step p es = foldl stop_step p (filter (\<lambda>e. \<not> is_turn e) es)"
proof (induction es arbitrary: p)
  case (Cons e es)
  then show ?case by (cases e) simp_all
qed simp

lemma first_other:
  assumes "filter (\<lambda>e. \<not> is_turn e) es = e # fs"
  obtains ws rest where "es = ws @ e # rest" "list_all is_turn ws" "filter (\<lambda>e. \<not> is_turn e) rest = fs"
proof -
  obtain us vs where "es = us @ e # vs" "\<forall>u\<in>set us. is_turn u" "fs = filter (\<lambda>e. \<not> is_turn e) vs"
    using assms unfolding filter_eq_Cons_iff by auto
  then show thesis using that by (simp add: list_all_iff)
qed

lemma close_all: "foldl stop_step p (map Close ns) = p\<lparr>ps_open := filter (\<lambda>m. m \<notin> set ns) (ps_open p)\<rparr>"
proof (induction ns arbitrary: p)
  case (Cons n ns)
  show ?case using Cons.IH by (simp add: conj_commute)
qed simp

text \<open>Whatever wake-ups come in between, the stop is as without those after \<open>StopRefresh\<close>.\<close>

lemma stop_result:
  assumes "filter (\<lambda>e. \<not> is_turn e) es = stop_events now dl fails p"
  obtains p' where "ps_open p' = ps_open p" "foldl stop_step p es =
    p'\<lparr>ps_app := shutdown now dl (ps_app p'), ps_scheduler := False, ps_refresh := False, ps_tasks := [],
       ps_open := filter (\<lambda>m. m \<notin> set (takeWhile (\<lambda>n. \<not> fails n) (closings p))) (ps_open p')\<rparr>"
proof -
  let ?ns = "takeWhile (\<lambda>n. \<not> fails n) (closings p)"
  obtain ws rest where a: "es = ws @ StopScheduler # rest" "list_all is_turn ws"
    "filter (\<lambda>e. \<not> is_turn e) rest = [StopRefresh, GiveBack now dl, CancelTasks] @ map Close ?ns"
    by (rule first_other [OF assms [unfolded stop_events_def append_Cons]]) simp
  obtain vs rest' where b: "rest = vs @ StopRefresh # rest'" "list_all is_turn vs"
    "filter (\<lambda>e. \<not> is_turn e) rest' = [GiveBack now dl, CancelTasks] @ map Close ?ns"
    by (rule first_other [OF a(3) [unfolded append_Cons]]) simp
  let ?q = "foldl stop_step (stop_step (foldl stop_step p ws) StopScheduler) vs"
  have q: "ps_open ?q = ps_open p" using turns_keep [OF a(2)] turns_keep [OF b(2)] by simp
  have off: "\<not> ps_scheduler ?q" using turns_keep [OF b(2)] by simp
  have "foldl stop_step p es = foldl stop_step (stop_step ?q StopRefresh) ([GiveBack now dl, CancelTasks] @ map Close ?ns)"
    using turns_left_out [of "stop_step ?q StopRefresh" rest'] by (simp add: a(1) b(1,3))
  also have "\<dots> = ?q\<lparr>ps_app := shutdown now dl (ps_app ?q), ps_scheduler := False, ps_refresh := False, ps_tasks := [],
       ps_open := filter (\<lambda>m. m \<notin> set ?ns) (ps_open ?q)\<rparr>"
    using off by (simp add: close_all)
  finally show thesis using that [OF q] by blast
qed

lemma release_steps_down: "\<not> el_is_leader (as_leader (shutdown now dl app))"
  by (simp add: shutdown_def leader_release_def)

lemma client_names: "build_clients st gs = Inr cs \<Longrightarrow> c \<in> set cs \<Longrightarrow> oc_provider (ac_http c) \<in> set CLOSING_ORDER"
  by (auto simp: build_clients_def map_r_mem new_client_def attach_blocks_def CLOSING_ORDER_def split: option.splits if_splits)

lemma everything_open_has_its_turn:
  assumes "lifespan env st d r = Inr app"
  shows "set (ps_open (running app)) \<subseteq> set CLOSING_ORDER"
proof -
  obtain gs where "build_clients st gs = Inr (as_clients app)"
    using assms unfolding lifespan_def split_def Let_def bind_r_Inr by (auto split: if_splits simp: bind_r_Inr)
  from client_names [OF this] show ?thesis by (auto simp: running_def) (simp_all add: CLOSING_ORDER_def)
qed

lemma takeWhile_filter_nil: "filter (\<lambda>m. m \<notin> set (takeWhile P ns)) ns = [] \<longleftrightarrow> list_all P ns"
  by (induction ns) (auto simp: filter_empty_conv list_all_iff dest: set_takeWhileD)

section \<open>Properties\<close>

text \<open>A stopped process stays stopped. Whatever wake-ups of the refresh task fall between the steps of the stop, at its end the
  process does not lead, its scheduler is down and no background task is left, and no later wake-up takes the lock again, also when
  a closing fails; every client and pool is closed exactly when none fails.\<close>

theorem stop_is_final:
  assumes "lifespan env st d r = Inr app" and "filter (\<lambda>e. \<not> is_turn e) es = stop_events now dl fails (running app)" and "list_all is_turn late"
  shows "\<not> el_is_leader (as_leader (ps_app (foldl stop_step (running app) es))) \<and> \<not> ps_scheduler (foldl stop_step (running app) es) \<and>
    ps_tasks (foldl stop_step (running app) es) = [] \<and>
    foldl stop_step (running app) (es @ late) = foldl stop_step (running app) es \<and>
    (ps_open (foldl stop_step (running app) es) = [] \<longleftrightarrow> \<not> list_ex fails (closings (running app)))"
proof -
  let ?ns = "closings (running app)"
  obtain p' where p': "ps_open p' = ps_open (running app)" "foldl stop_step (running app) es =
    p'\<lparr>ps_app := shutdown now dl (ps_app p'), ps_scheduler := False, ps_refresh := False, ps_tasks := [],
       ps_open := filter (\<lambda>m. m \<notin> set (takeWhile (\<lambda>n. \<not> fails n) ?ns)) (ps_open p')\<rparr>"
    by (rule stop_result [OF assms(2)])
  have ns: "set ?ns = set (ps_open (running app))"
    using everything_open_has_its_turn [OF assms(1)] by (auto simp: closings_def)
  have "filter (\<lambda>m. m \<notin> set (takeWhile (\<lambda>n. \<not> fails n) ?ns)) (ps_open (running app)) = [] \<longleftrightarrow>
      filter (\<lambda>m. m \<notin> set (takeWhile (\<lambda>n. \<not> fails n) ?ns)) ?ns = []"
    by (simp add: filter_empty_conv ns)
  also have "\<dots> \<longleftrightarrow> \<not> list_ex fails ?ns" by (simp add: takeWhile_filter_nil list_all_iff list_ex_iff)
  finally show ?thesis by (simp add: p' release_steps_down turns_after_stop [OF _ assms(3)])
qed

text \<open>A replica in production whose refresh wakes up as it stops, and whose Redis pool cannot be closed.\<close>

theorem stop_is_final_witness:
  "\<exists>app. lifespan (start_env ''a'') prod_settings (empty_db 0) [] = Inr app \<and>
     (let es = Turn 8 Answered # stop_events 9 Answered (\<lambda>n. n = ''redis'') (running app) in
       \<not> el_is_leader (as_leader (ps_app (foldl stop_step (running app) es))) \<and> ps_open (foldl stop_step (running app) es) \<noteq> [])"
proof -
  obtain app where app: "lifespan (start_env ''a'') prod_settings (empty_db 0) [] = Inr app" using prod_starts by (auto split: sum.splits)
  let ?f = "\<lambda>n. n = ''redis''"
  let ?es = "Turn 8 Answered # stop_events 9 Answered ?f (running app)"
  have es: "filter (\<lambda>e. \<not> is_turn e) ?es = stop_events 9 Answered ?f (running app)"
    by (simp add: stop_events_def filter_map comp_def)
  have "''redis'' \<in> set (closings (running app))" by (simp add: closings_def running_def CLOSING_ORDER_def)
  then have "list_ex ?f (closings (running app))" by (auto simp: list_ex_iff)
  then show ?thesis using stop_is_final [OF app es, of "[]"] app by (auto simp: Let_def)
qed

end
