(* ===== verification/Bulk_Ingest.thy ===== *)
theory Bulk_Ingest
  imports Ingest Py_Json
begin

text \<open>
  The bulk load of VulnCheck from end to end: the download of a backup file in \<open>_stream_s3_ndjson\<close> of
  \<open>app/ingestion/vulncheck_client.py\<close>, and the three jobs of \<open>app/ingestion/ingest_worker.py\<close>. The limits of a connection, the connection and
  gzip are arguments.
\<close>

section \<open>Downloading a file\<close>

record timeout_args =
  ta_default :: "rat option"
  ta_connect :: "rat option"
  ta_read :: "rat option"
  ta_write :: "rat option"
  ta_pool :: "rat option"

definition S3_TIMEOUT :: timeout_args where
  "S3_TIMEOUT = \<lparr>ta_default = None, ta_connect = None, ta_read = Some 300, ta_write = None, ta_pool = None\<rparr>"

record ('t, 'b) downloads =
  dn_timeout :: "timeout_args \<Rightarrow> 't result"
  dn_get :: "'t \<Rightarrow> string \<Rightarrow> (int \<times> 'b) result"
  dn_gunzip :: "'b \<Rightarrow> 'b result"
  dn_os_error :: "py_exn \<Rightarrow> bool"
  dn_decode :: "'b \<Rightarrow> string result"
  dn_splitlines :: "string \<Rightarrow> string list"

text \<open>The client is closed before the content is used; what is not compressed is taken as it is.\<close>

definition s3_lines :: "('t, 'b) downloads \<Rightarrow> string \<Rightarrow> string list result" where
  "s3_lines dn url =
     bind_r (dn_timeout dn S3_TIMEOUT) (\<lambda>t.
     bind_r (dn_get dn t url) (\<lambda>(status, compressed).
     if \<not> (200 \<le> status \<and> status < 300) then Inl (HttpError ''HTTPStatusError'')
     else bind_r (case dn_gunzip dn compressed of Inl e \<Rightarrow> if dn_os_error dn e then Inr compressed else Inl e | Inr raw \<Rightarrow> Inr raw) (\<lambda>raw.
     bind_r (dn_decode dn raw) (\<lambda>text. Inr (dn_splitlines dn text)))))"

definition stream_s3_ndjson :: "(json \<Rightarrow> rat option) \<Rightarrow> (string \<Rightarrow> json option) \<Rightarrow> ('t, 'b) downloads \<Rightarrow> string \<Rightarrow> stream" where
  "stream_s3_ndjson lax_float loads dn url =
     (case s3_lines dn url of Inl e \<Rightarrow> ([], Some e) | Inr ls \<Rightarrow> parse_lines lax_float loads ls)"

text \<open>The loop of \<open>iter_bulk\<close> runs this generator for every file.\<close>

lemma stream_files_s3:
  "stream_files lax_float loads (s3_lines dn) (u # us) = (case s3_lines dn u of
      Inl e \<Rightarrow> stream_s3_ndjson lax_float loads dn u
    | Inr _ \<Rightarrow> followed_by (stream_s3_ndjson lax_float loads dn u) (stream_files lax_float loads (s3_lines dn) us))"
  by (simp add: stream_s3_ndjson_def split: sum.split)

section \<open>The jobs\<close>

definition job_summary :: "int \<Rightarrow> ingest_result \<Rightarrow> (string \<times> json) list" where
  "job_summary ms res = [(''source'', JStr (ir_source res)), (''processed'', JInt (ir_processed res)), (''errors'', JInt (ir_errors res)),
     (''duration_ms'', JInt ms)]"

definition job_bulk_ingest :: "int \<Rightarrow> ingest_clock \<Rightarrow> stream \<Rightarrow> breaker \<Rightarrow> db \<Rightarrow> breaker \<times> db \<times> (string \<times> json) list result" where
  "job_bulk_ingest ms clk records cb d = (case run_bulk_ingest clk records cb d of
     (cb', d', r) \<Rightarrow> (cb', d', bind_r r (\<lambda>res. Inr (job_summary ms res))))"

definition job_delta_ingest :: "int \<Rightarrow> ingest_clock \<Rightarrow> client \<Rightarrow> breaker \<Rightarrow> db \<Rightarrow> breaker \<times> db \<times> (string \<times> json) list result" where
  "job_delta_ingest ms clk vc cb d = (case run_delta_ingest clk vc cb d of
     (cb', d', r) \<Rightarrow> (cb', d', bind_r r (\<lambda>res. Inr (job_summary ms res))))"

definition job_smart_delta ::
    "int \<Rightarrow> ingest_clock \<Rightarrow> ingest_clock \<Rightarrow> client option \<Rightarrow> client \<Rightarrow> circuits \<Rightarrow> db \<Rightarrow> circuits \<times> db \<times> (string \<times> json) list result" where
  "job_smart_delta ms clk nclk vc nvd cs d = (case run_smart_delta clk nclk vc nvd cs d of
     (cs', d', r) \<Rightarrow> (cs', d', bind_r r (\<lambda>res. Inr (job_summary ms res))))"

section \<open>What the bulk load does\<close>

text \<open>The documented contract of the limits: a default, or all four.\<close>

definition timeout_law :: "(timeout_args \<Rightarrow> 't result) \<Rightarrow> bool" where
  "timeout_law mk \<longleftrightarrow> (\<forall>a. ta_default a = None \<and> (ta_connect a = None \<or> ta_read a = None \<or> ta_write a = None \<or> ta_pool a = None) \<longrightarrow>
     (\<exists>m. mk a = Inl (ValueError m)))"

lemma no_file_is_downloaded:
  assumes "timeout_law (dn_timeout dn)"
  shows "\<exists>m. s3_lines dn url = Inl (ValueError m)"
proof -
  have "\<exists>m. dn_timeout dn S3_TIMEOUT = Inl (ValueError m)"
    using assms by (simp only: timeout_law_def) (simp add: S3_TIMEOUT_def)
  then show ?thesis by (auto simp: s3_lines_def)
qed

lemma record_error_cves [simp]: "db_cves (record_error now source err d) = db_cves d"
  by (simp add: record_error_def Let_def)

lemma failed_stream:
  "cb_call t u (upsert_batched now source ([], Some (ValueError m))) cb d = (cb', d1, r) \<Longrightarrow> d1 = d \<and> isl r"
  by (simp add: cb_call_def upsert_batched_def is_exception_def split: sum.splits) auto

lemma failed_stream_stores_nothing:
  assumes "run_ingest source log_open clk ([], Some (ValueError m)) cb d = (cb', d', r)"
  shows "db_cves d' = db_cves d \<and> (\<forall>res. r = Inr res \<longrightarrow> ir_processed res = 0)"
proof -
  obtain c1 d1 r1 where c: "cb_call (ic_enter clk) (ic_fail clk) (upsert_batched (ic_db clk) source ([], Some (ValueError m))) cb d = (c1, d1, r1)"
    by (metis prod.collapse)
  obtain e where e: "d1 = d" "r1 = Inl e" using failed_stream [OF c] by (cases r1) auto
  show ?thesis using assms unfolding run_ingest_def c e prod.case sum.case by (cases e) auto
qed

text \<open>The bulk load stores nothing where there is something to load: the limit of the download names one of four values and no default, which the
  library refuses, so the job of a deployment that is offered backup files raises (or finds its circuit open) and the mirror stays as it was.\<close>

theorem bulk_load_stores_nothing:
  assumes "timeout_law (dn_timeout dn)" and "fetch_backup_urls index = Inr (Some (u # us))"
    and "iter_bulk fuel lax_float loads index (s3_lines dn) srv now = Some records"
    and "job_bulk_ingest ms clk records cb d = (cb', d', r)"
  shows "db_cves d' = db_cves d \<and> (case r of Inl _ \<Rightarrow> True | Inr s \<Rightarrow> obj_get s ''processed'' = Some (JInt 0))"
proof -
  obtain m where m: "s3_lines dn u = Inl (ValueError m)" using no_file_is_downloaded [OF assms(1)] by blast
  have "records = ([], Some (ValueError m))" using assms(2,3) by (simp add: iter_bulk_def m)
  moreover obtain r' where "run_bulk_ingest clk records cb d = (cb', d', r')" "r = bind_r r' (\<lambda>res. Inr (job_summary ms res))"
    using assms(4) by (auto simp: job_bulk_ingest_def split: prod.splits)
  ultimately show ?thesis
    using failed_stream_stores_nothing [of "''vulncheck_nvd''" True clk m cb d cb' d' r']
    by (cases r') (auto simp: run_bulk_ingest_def job_summary_def obj_get_def)
qed

end
