(* ===== verification/Spec2Isabelle.thy ===== *)
theory Spec2Isabelle
  imports
    Circuit_Breaker Rate_Governor Priority Risk_Acceptance Sla Opsec Webhook_Api Products
    Scheduler Daily_Snapshot Exploitability Opencve Metrics Exposure Intel Live Cpe_Resolution Http_Edge
    Startup System_Api Sentry Cpe_Suggest
    Write_Api Prometheus Election_Loop Schema_Upgrade Process_Stop Bulk_Ingest
begin

text \<open>
  \<^bold>\<open>A model of the CVE management backend\<close> (\<open>src/backend-py\<close>). The program mirrors CVE
  records from public feeds in PostgreSQL, decides which products of an inventory they affect, keeps one finding
  per product and CVE through triage and risk acceptance, and tells subscribers about it by signed webhooks. It
  is one asynchronous Python process, or several on one database and one Redis.

  \<^bold>\<open>Parts and their interplay.\<close> A replica starts with \<open>app/main.py\<close>, which migrates, seeds the first
  administrator, builds the clients and registers the jobs of \<open>workers/scheduler.py\<close>; those that write shared state run on the
  replica that \<open>core/leader.py\<close> elects. The feeds (\<open>ingestion/vulncheck_client.py\<close>, \<open>nvd_client.py\<close>) fill the
  table \<open>cves\<close> through \<open>ingestion/ingest_worker.py\<close>; the refresh runs (\<open>enrichment.py\<close>,
  \<open>exploitability_refresh.py\<close>, \<open>query/opencve_client.py\<close>) add scores and flags. Every outgoing call passes the
  scanner of \<open>core/http.py\<close>, a token bucket and a circuit breaker. The products router queues a synchronisation;
  \<open>workers/sync_job_worker.py\<close> claims it and \<open>workers/product_sync.py\<close> matches CVEs with
  \<open>resolution/version_matcher.py\<close>, scores them with \<open>models/priority.py\<close> and upserts findings, which the routers of
  findings, risk acceptance and SLA change and read, with an audit row for each change. A query for a product goes to the
  mirror first, then to CIRCL (\<open>query/query_engine.py\<close>), and may start a refresh in the background; the dashboards
  summarise the tables behind caches in Redis. Requests enter through the limiter and the middlewares of \<open>create_app\<close>.

  \<^bold>\<open>Conventions.\<close> A table is a record of its rows and its next serial number, the database a record of
  tables (\<open>Database\<close>); an SQL statement is a function on it, a transaction returns the new database or leaves
  the old one. A Python exception is a constructor of \<open>py_exn\<close>, a call that can raise returns
  \<open>py_exn + 'a\<close>, and an HTTP error of a route is such a value too. Instants are integers in microseconds since
  1970, dates are day numbers; the clock, random text, the resolver, the transports, bcrypt, JWT, Fernet and HMAC
  are arguments of the definitions that use them, with their documented laws as the hypotheses of the lemmas that
  need them. Floats and \<open>NUMERIC\<close> values are exact rationals: rounding errors of binary floats are not
  modelled, Python's and PostgreSQL's rounding operations are. Python integers are unbounded. Strings are ASCII.

  \<^bold>\<open>Theories.\<close>
  \<^item> Foundations: \<open>Prelude\<close> (collections of facts, lists, tables of keys), \<open>Py_Text\<close>, \<open>Py_Number\<close>,
    \<open>Py_Time\<close>, \<open>Py_Datetime\<close>, \<open>Py_Json\<close>, \<open>Json_Read\<close>, \<open>Py_Net\<close>, \<open>Py_Result\<close>:
    the operations of the standard library the source uses (string methods, \<open>float()\<close>, calendar arithmetic,
    ISO dates, JSON values and access with its exceptions, IP networks, results); \<open>Sql_Order\<close>: stable sorting for
    \<open>ORDER BY\<close>; \<open>Redis_Store\<close>: Redis keys with expiry and \<open>core/cache.py\<close>.
  \<^item> \<open>Database\<close>: rows, CHECK constraints and unique indexes of the migrations in \<open>alembic/versions\<close>.
    \<open>Migrations\<close>: the migrations and their downgrades as scripts over a catalogue of tables, keys, indexes, roles and
    privileges; \<open>Schema_Upgrade\<close>: which database a start migrates, and how far. \<open>Settings\<close>: \<open>core/config.py\<close>.
  \<^item> \<open>Audit_Trail\<close> (\<open>services/audit.py\<close>), \<open>Auth\<close> (\<open>services/auth_service.py\<close>, the dependency
    and the router), \<open>Findings\<close>, \<open>Risk_Acceptance\<close> (router and expiry worker), \<open>Sla\<close>,
    \<open>Products\<close>, \<open>Webhook_Api\<close>: the routers of the same names.
  \<^item> \<open>Version_Matcher\<close>, \<open>Priority\<close>: the two rule engines. \<open>Product_Sync\<close>, \<open>Sync_Jobs\<close>:
    the synchronisation of a product and its queue, with several workers interleaved (\<open>job_step\<close>).
  \<^item> \<open>Ssrf\<close>, \<open>Opsec\<close>: the guards against requests to internal hosts and against internal data in
    requests. \<open>Webhooks\<close>, \<open>Webhook_Worker\<close>: secrets, payloads, signatures; claims, attempts, back-off.
  \<^item> \<open>Write_Api\<close>: the changing routes behind their guards as one interface; \<open>Freshness\<close>: the writers and the dashboards they
    delete from the cache.
  \<^item> \<open>Circuit_Breaker\<close>, \<open>Rate_Governor\<close>, \<open>Metrics\<close>: the wrappers of the outgoing calls; \<open>Prometheus\<close>:
    the collectors and the scrape (\<open>core/prometheus.py\<close>).
  \<^item> \<open>Nvd_Model\<close>, \<open>Nvd_Clients\<close>, \<open>Ingest\<close>: a record, the streams of the two clients as functions
    of the answers, and the batched upsert with its checkpoints. \<open>Bulk_Ingest\<close>: the download of a backup and the jobs. \<open>Enrichment\<close>: EPSS and KEV with their caches.
    \<open>Exploitability\<close>: vulnx, its daily budget, and the recomputed priorities. \<open>Opencve\<close>: the OpenCVE poll.
  \<^item> \<open>Leader\<close>, \<open>Scheduler\<close>, \<open>Daily_Snapshot\<close>, \<open>Cron\<close>: the election on a shared Redis that may lose
    answers, the clean-up jobs with the cascades of the foreign keys, the figures of a day, and the table of all jobs as steps on
    one world. \<open>Election_Loop\<close>: the refresh task amid the other replicas. \<open>Startup\<close>: the start of a replica, which builds the
    other parts; \<open>Process_Stop\<close>: its stop, step by step, with wake-ups in between.
  \<^item> \<open>Query_Engine\<close> (with \<open>local_query.py\<close> and \<open>vulnx_enricher.py\<close>), \<open>Circl\<close> (client and router),
    \<open>Cpe_Resolution\<close> (normaliser and cache), \<open>Cpe_Suggest\<close>, \<open>Live\<close>, \<open>Intel\<close>: answers from the mirror and
    from outside, with their caches.
  \<^item> \<open>Cves\<close>: list, detail, statistics and CSV export. \<open>Dashboard\<close>, \<open>Exposure\<close>: the seven dashboard routes.
    \<open>System_Api\<close>: probes, configuration, health and the audit log.
  \<^item> \<open>Http_Edge\<close>: limiter keys, security headers, recording middlewares and their order; \<open>Sentry\<close>: what is
    scrubbed from error reports.

  \<^bold>\<open>What the lemmas show.\<close> The properties C1 to C40 stand in the theory of their component. They are of
  these groups.
  \<^item> What people decided is kept: a synchronisation creates and rescores findings and never changes a status,
    owner, note or date (C1), and reports what the matcher found (C2); every change through the routes has an entry in the audit
    log that names who may have made it (C3) and shows on the dashboards at once (C5); no periodic job but the retention and the
    expiry touches a decision or its traces (C4); the history of a finding is a chain (C11), an acceptance needs two people (C9)
    and its decision moves the finding with it (C10).
  \<^item> The rule engines: comparing versions is a total preorder (C6), the score is the capped sum of its factors (in \<open>Priority\<close>), and
    the SQL expression agrees with it under stated conditions (C25).
  \<^item> Security: logins and tokens (C12, C13, C15), internal addresses (C16), data that leaves (C17), webhook secrets
    (C18), secrets in the audit log, in error reports and in the configuration (C20 to C22), headers (C39).
  \<^item> Queues and limits: the job queue keeps its invariant under interleaved workers (C7), draining ends (C8),
    deliveries respect their budget (C19), the breaker opens and recovers (C23), the bucket bounds the rate (C24), refreshes
    of one CVE do not overlap (C29).
  \<^item> Mirror and replicas: the newest record wins whatever the order (C33), every record is counted as processed or failed (C34),
    at most one leader while refreshes arrive in time (C35), which a punctual loop ensures (C36), followers work on the queues
    only (C37).
  \<^item> Schema: a start brings any earlier revision to the last one (C14), each downgrade leads back but for two (C28), and in
    \<open>Migrations\<close> no sequence of statements leaves an inconsistent catalogue.
  \<^item> Views: pages and export of the CVE list (C26, C27), the sums of the dashboards (C38), the names of the CPE resolution (C30),
    the series of a scrape (C40).
  \<^item> Behaviour that differs from its documentation, proved of the model: C31, C32, parts of C28 and C40, and more lemmas that the manifest does not
    list, each under a text that says what happens (the shared cache key of CIRCL, caches whose keys leave out a parameter,
    the open breaker that nothing probes, the responses without headers, and others).

  \<^bold>\<open>Interfaces.\<close> Where components rest on a contract, the contract is a locale with an interpretation on
  the model. Prelude: \<open>row_update\<close> (an UPDATE that keeps the key of its rows; findings, webhooks),
  \<open>step_system\<close> (steps that keep an invariant: breaker, queue of deliveries, life cycle of acceptances,
  snapshots, cluster) and \<open>monotone_system\<close> (steps that also only raise a measure: the upsert of CVEs).
  \<open>three_way\<close> is a comparison with the laws of an order (components and versions), \<open>guarded_call\<close> a wrapper
  that may refuse a call (the breaker, on which the runs of the feeds rest).
  \<open>signing_handler\<close> is a route handler that signs what it changes, \<open>granting_handler\<close> one that also refuses without a trace and signs all
  it grants (a sublocale); the handlers of \<open>Write_Api\<close> are their interpretations. \<open>cached_route\<close> is a route behind a cache with an
  expiry; the dashboards are its interpretations.

  \<^bold>\<open>Bounds and fuel.\<close> Recursion is structural or has its measure. Fuel stands only where the source has
  a bound of its own (the page limits \<open>VC_MAX_PAGES\<close>, \<open>NVD_MAX_PAGES\<close>, \<open>OPENCVE_MAX_PAGES\<close>) or where
  a loop may run for ever: the clients repeat a page on status 429 without counting it, and the bucket waits for tokens;
  there \<open>None\<close> is the run that has not ended, and the lemmas that need an end prove it. The drain loop of the
  queue is shown to end. Windows of the delta are cut by a measure on the time left.

  \<^bold>\<open>Not modelled.\<close> \<open>core/db.py\<close> and \<open>core/logging.py\<close> (the size of the connection pool and the format of log
  lines, arguments of library calls), APScheduler (when a job is due is an input of \<open>run_tick\<close>), slowapi and the CORS middleware (their
  verdict is an argument), the text format of a scrape, column defaults and index methods of the migrations, and the frontend, which holds no rule of its own. Locks
  are modelled by what is atomic (a transaction, a script, a locked section), not by waiting; batches that the source runs
  concurrently run in sequence.
\<close>

end
